(* ===== verification/Prelude.thy ===== *)
theory Prelude
  imports Complex_Main "HOL-Library.Char_ord"
begin

text \<open>
  What every component shares: Python's exceptions as the values of one datatype, the
  result type of a call that may raise, the string operations of the language that the
  sources use, and the generic lemmas on lists and maps the component theories rest on.

  Strings are lists of characters (code points up to 255); letter case is changed for ASCII
  letters only. Times and durations are integers counting microseconds, the resolution of
  \<open>datetime\<close>.
\<close>

named_theorems meter_simps \<open>what the operations of the execution meter do to its counters\<close>
named_theorems frame_simps \<open>fields an operation leaves alone\<close>
named_theorems inv_intros \<open>operations keep the invariant of their component\<close>

type_synonym time = int

definition seconds :: "int \<Rightarrow> time" where
  "seconds n = n * 1000000"

section \<open>Exceptions and results\<close>

text \<open>One constructor per exception class that the modelled code raises or catches.\<close>

datatype exn =
    BudgetExceeded string
  | StructuredOutputError string nat
  | OllamaError string
  | ToolApprovalRequired string
  | ToolExecutionDenied string
  | ConversationBusyError string
  | RunConflictError string
  | StaleLeaseError string
  | RunNotResumableError string
  | ResumeTokenInvalidError string
  | ResumeTokenRevokedError string
  | ResumeTokenExpiredError string
  | ResumeRunNotFoundError string
  | IncompatibleRunStateError string
  | MCPProtocolError string
  | MCPSessionError string
  | MCPSessionExpiredError string
  | MCPResponseMismatchError string
  | MCPHTTPStatusError int string
  | MCPTransportError string
  | MCPClientError string
  | ValidationError string
  | ValueError string
  | TypeError string
  | KeyError string
  | IndexError
  | AttributeError string
  | RuntimeError string
  | TimeoutError
  | CancelledError
  | OverflowError
  | UniqueViolationError string
  | ResponseError string

text \<open>The class name and \<open>str(exc)\<close> of an exception, as messages show them.\<close>

fun exn_class :: "exn \<Rightarrow> string" where
  "exn_class (BudgetExceeded _) = ''BudgetExceeded''"
| "exn_class (StructuredOutputError _ _) = ''StructuredOutputError''"
| "exn_class (OllamaError _) = ''OllamaError''"
| "exn_class (ToolApprovalRequired _) = ''ToolApprovalRequired''"
| "exn_class (ToolExecutionDenied _) = ''ToolExecutionDenied''"
| "exn_class (ConversationBusyError _) = ''ConversationBusyError''"
| "exn_class (RunConflictError _) = ''RunConflictError''"
| "exn_class (StaleLeaseError _) = ''StaleLeaseError''"
| "exn_class (RunNotResumableError _) = ''RunNotResumableError''"
| "exn_class (ResumeTokenInvalidError _) = ''ResumeTokenInvalidError''"
| "exn_class (ResumeTokenRevokedError _) = ''ResumeTokenRevokedError''"
| "exn_class (ResumeTokenExpiredError _) = ''ResumeTokenExpiredError''"
| "exn_class (ResumeRunNotFoundError _) = ''ResumeRunNotFoundError''"
| "exn_class (IncompatibleRunStateError _) = ''IncompatibleRunStateError''"
| "exn_class (MCPProtocolError _) = ''MCPProtocolError''"
| "exn_class (MCPSessionError _) = ''MCPSessionError''"
| "exn_class (MCPSessionExpiredError _) = ''MCPSessionExpiredError''"
| "exn_class (MCPResponseMismatchError _) = ''MCPResponseMismatchError''"
| "exn_class (MCPHTTPStatusError _ _) = ''MCPHTTPStatusError''"
| "exn_class (MCPTransportError _) = ''MCPTransportError''"
| "exn_class (MCPClientError _) = ''MCPClientError''"
| "exn_class (ValidationError _) = ''ValidationError''"
| "exn_class (ValueError _) = ''ValueError''"
| "exn_class (TypeError _) = ''TypeError''"
| "exn_class (KeyError _) = ''KeyError''"
| "exn_class IndexError = ''IndexError''"
| "exn_class (AttributeError _) = ''AttributeError''"
| "exn_class (RuntimeError _) = ''RuntimeError''"
| "exn_class TimeoutError = ''TimeoutError''"
| "exn_class OverflowError = ''OverflowError''"
| "exn_class (UniqueViolationError _) = ''UniqueViolationError''"
| "exn_class (ResponseError _) = ''ResponseError''"
| "exn_class CancelledError = ''CancelledError''"

fun exn_text :: "exn \<Rightarrow> string" where
  "exn_text (BudgetExceeded m) = m"
| "exn_text (StructuredOutputError m _) = m"
| "exn_text (OllamaError m) = m"
| "exn_text (ToolApprovalRequired m) = m"
| "exn_text (ToolExecutionDenied m) = m"
| "exn_text (ConversationBusyError m) = m"
| "exn_text (RunConflictError m) = m"
| "exn_text (StaleLeaseError m) = m"
| "exn_text (RunNotResumableError m) = m"
| "exn_text (ResumeTokenInvalidError m) = m"
| "exn_text (ResumeTokenRevokedError m) = m"
| "exn_text (ResumeTokenExpiredError m) = m"
| "exn_text (ResumeRunNotFoundError m) = m"
| "exn_text (IncompatibleRunStateError m) = m"
| "exn_text (MCPProtocolError m) = m"
| "exn_text (MCPSessionError m) = m"
| "exn_text (MCPSessionExpiredError m) = m"
| "exn_text (MCPResponseMismatchError m) = m"
| "exn_text (MCPHTTPStatusError _ m) = m"
| "exn_text (MCPTransportError m) = m"
| "exn_text (MCPClientError m) = m"
| "exn_text (ValidationError m) = m"
| "exn_text (ValueError m) = m"
| "exn_text (TypeError m) = m"
| "exn_text (KeyError m) = m"
| "exn_text IndexError = ''list index out of range''"
| "exn_text (AttributeError m) = m"
| "exn_text (RuntimeError m) = m"
| "exn_text TimeoutError = []"
| "exn_text OverflowError = ''cannot convert float infinity to integer''"
| "exn_text (UniqueViolationError m) = m"
| "exn_text (ResponseError m) = m"
| "exn_text CancelledError = []"

type_synonym 'a result = "exn + 'a"

text \<open>Sequencing: the first exception ends the computation.\<close>

fun bind_result :: "'a result \<Rightarrow> ('a \<Rightarrow> 'b result) \<Rightarrow> 'b result" where
  "bind_result (Inl e) f = Inl e"
| "bind_result (Inr x) f = f x"

lemma bind_result_Inr_iff:
  "bind_result m f = Inr y \<longleftrightarrow> (\<exists>x. m = Inr x \<and> f x = Inr y)"
  by (cases m) auto

lemma bind_result_Inl_iff:
  "bind_result m f = Inl e \<longleftrightarrow> m = Inl e \<or> (\<exists>x. m = Inr x \<and> f x = Inl e)"
  by (cases m) auto

definition is_ok :: "'a result \<Rightarrow> bool" where
  "is_ok r = (case r of Inl _ \<Rightarrow> False | Inr _ \<Rightarrow> True)"

lemma is_ok_simps [simp]: "is_ok (Inr x)" "\<not> is_ok (Inl e)"
  by (simp_all add: is_ok_def)

fun map_result :: "('a \<Rightarrow> 'b result) \<Rightarrow> 'a list \<Rightarrow> 'b list result" where
  "map_result f [] = Inr []"
| "map_result f (x # xs) =
     bind_result (f x) (\<lambda>y. bind_result (map_result f xs) (\<lambda>ys. Inr (y # ys)))"

lemma map_result_length: "map_result f xs = Inr ys \<Longrightarrow> length ys = length xs"
  by (induction xs arbitrary: ys) (auto simp: bind_result_Inr_iff)

lemma map_result_set: "map_result f xs = Inr ys \<Longrightarrow> y \<in> set ys \<Longrightarrow> \<exists>x\<in>set xs. f x = Inr y"
  by (induction xs arbitrary: ys) (auto simp: bind_result_Inr_iff)

lemma map_result_mem:
  "map_result f xs = Inr ys \<Longrightarrow> x \<in> set xs \<Longrightarrow> f x = Inr y \<Longrightarrow> y \<in> set ys"
  by (induction xs arbitrary: ys) (auto simp: bind_result_Inr_iff)

section \<open>Strings\<close>

text \<open>The characters \<open>str.split()\<close> and \<open>str.strip()\<close> treat as white space.\<close>

definition is_space :: "char \<Rightarrow> bool" where
  "is_space c = (let n = (of_char c :: nat) in
     (9 \<le> n \<and> n \<le> 13) \<or> (28 \<le> n \<and> n \<le> 32) \<or> n = 133 \<or> n = 160)"

definition lower_char :: "char \<Rightarrow> char" where
  "lower_char c = (let n = (of_char c :: nat) in
     if 65 \<le> n \<and> n \<le> 90 then char_of (n + 32) else c)"

definition lower :: "string \<Rightarrow> string" where
  "lower s = map lower_char s"

fun split_where :: "(char \<Rightarrow> bool) \<Rightarrow> string \<Rightarrow> string list" where
  "split_where p [] = [[]]"
| "split_where p (c # cs) =
     (if p c then [] # split_where p cs
      else (case split_where p cs of [] \<Rightarrow> [[c]] | w # ws \<Rightarrow> (c # w) # ws))"

text \<open>\<open>s.split()\<close>: the non-empty pieces between runs of white space.\<close>

definition words :: "string \<Rightarrow> string list" where
  "words s = filter (\<lambda>w. w \<noteq> []) (split_where is_space s)"

fun join :: "string \<Rightarrow> string list \<Rightarrow> string" where
  "join sep [] = []"
| "join sep [s] = s"
| "join sep (s # t # ss) = s @ sep @ join sep (t # ss)"

text \<open>\<open>" ".join(s.split())\<close>.\<close>

definition compact :: "string \<Rightarrow> string" where
  "compact s = join '' '' (words s)"

definition strip_where :: "(char \<Rightarrow> bool) \<Rightarrow> string \<Rightarrow> string" where
  "strip_where p s = rev (dropWhile p (rev (dropWhile p s)))"

definition rstrip_where :: "(char \<Rightarrow> bool) \<Rightarrow> string \<Rightarrow> string" where
  "rstrip_where p s = rev (dropWhile p (rev s))"

lemma length_rstrip_where_le: "length (rstrip_where p s) \<le> length s"
  unfolding rstrip_where_def by (metis length_dropWhile_le length_rev)

definition strip :: "string \<Rightarrow> string" where
  "strip s = strip_where is_space s"

definition starts_with :: "string \<Rightarrow> string \<Rightarrow> bool" where
  "starts_with p s = (take (length p) s = p)"

definition ends_with :: "string \<Rightarrow> string \<Rightarrow> bool" where
  "ends_with p s = (length p \<le> length s \<and> drop (length s - length p) s = p)"

text \<open>\<open>needle in s\<close>.\<close>

fun occurs_in :: "string \<Rightarrow> string \<Rightarrow> bool" where
  "occurs_in n [] = (n = [])"
| "occurs_in n (c # cs) = (starts_with n (c # cs) \<or> occurs_in n cs)"

text \<open>\<open>s.count(needle)\<close>: occurrences that do not overlap; \<open>len(s) + 1\<close> for the empty needle.\<close>

fun count_from :: "nat \<Rightarrow> string \<Rightarrow> string \<Rightarrow> nat" where
  "count_from k n [] = 0"
| "count_from (Suc k) n (c # cs) = count_from k n cs"
| "count_from 0 n (c # cs) =
     (if starts_with n (c # cs) then Suc (count_from (length n - 1) n cs) else count_from 0 n cs)"

definition count_occurrences :: "string \<Rightarrow> string \<Rightarrow> nat" where
  "count_occurrences n s = (if n = [] then Suc (length s) else count_from 0 n s)"

fun digits :: "nat \<Rightarrow> string" where
  "digits n = (if n < 10 then [char_of (48 + n)] else digits (n div 10) @ [char_of (48 + n mod 10)])"

declare digits.simps [simp del]

definition show_int :: "int \<Rightarrow> string" where
  "show_int i = (if i < 0 then ''-'' @ digits (nat (- i)) else digits (nat i))"

definition show_nat :: "nat \<Rightarrow> string" where
  "show_nat n = digits n"

lemma digits_nonempty [simp]: "digits n \<noteq> []"
  by (subst digits.simps) simp

lemma show_int_nonempty [simp]: "show_int i \<noteq> []"
  by (simp add: show_int_def)

section \<open>Lists and maps\<close>

text \<open>\<open>xs[-n:]\<close> for a positive \<open>n\<close>.\<close>

definition last_n :: "nat \<Rightarrow> 'a list \<Rightarrow> 'a list" where
  "last_n n xs = drop (length xs - n) xs"

lemma length_last_n [simp]: "length (last_n n xs) = min n (length xs)"
  by (simp add: last_n_def)

lemma last_n_all [simp]: "length xs \<le> n \<Longrightarrow> last_n n xs = xs"
  by (simp add: last_n_def)

lemma last_n_append_last_n: "last_n n (last_n n xs @ ys) = last_n n (xs @ ys)"
proof (cases "n \<le> length xs")
  case True
  then show ?thesis by (simp add: last_n_def add.commute)
qed simp

lemma set_last_n_subset: "set (last_n n xs) \<subseteq> set xs"
  by (simp add: last_n_def set_drop_subset)

text \<open>\<open>list(dict.fromkeys(xs))\<close>: the first occurrence of every element, in order.\<close>

fun dedup_from :: "'a list \<Rightarrow> 'a list \<Rightarrow> 'a list" where
  "dedup_from seen [] = []"
| "dedup_from seen (x # xs) =
     (if x \<in> set seen then dedup_from seen xs else x # dedup_from (x # seen) xs)"

definition dedup :: "'a list \<Rightarrow> 'a list" where
  "dedup xs = dedup_from [] xs"

lemma set_dedup_from: "set (dedup_from seen xs) = set xs - set seen"
  by (induction xs arbitrary: seen) auto

lemma set_dedup [simp]: "set (dedup xs) = set xs"
  by (simp add: dedup_def set_dedup_from)

lemma distinct_dedup_from: "distinct (dedup_from seen xs)"
  by (induction xs arbitrary: seen) (auto simp: set_dedup_from)

lemma distinct_dedup [simp]: "distinct (dedup xs)"
  by (simp add: dedup_def distinct_dedup_from)

lemma dedup_eq_Nil_iff [simp]: "dedup xs = [] \<longleftrightarrow> xs = []"
  by (metis set_dedup set_empty)

text \<open>The values that are not \<open>None\<close>.\<close>

fun somes :: "'a option list \<Rightarrow> 'a list" where
  "somes [] = []"
| "somes (None # xs) = somes xs"
| "somes (Some x # xs) = x # somes xs"

lemma set_somes [simp]: "x \<in> set (somes xs) \<longleftrightarrow> Some x \<in> set xs"
  by (induction xs rule: somes.induct) auto

lemma length_somes_le: "length (somes xs) \<le> length xs"
  by (induction xs rule: somes.induct) auto

lemma somes_full: "length (somes xs) = length xs \<Longrightarrow> None \<notin> set xs"
proof (induction xs rule: somes.induct)
  case (2 xs)
  then show ?case using length_somes_le [of xs] by simp
qed auto

lemma somes_map_Some [simp]: "somes (map (\<lambda>x. Some (f x)) xs) = map f xs"
  by (induction xs) auto

lemma find_SomeD: "find P xs = Some x \<Longrightarrow> x \<in> set xs \<and> P x"
  by (induction xs) (auto split: if_splits)

lemma filter_full: "length (filter P xs) = length xs \<Longrightarrow> x \<in> set xs \<Longrightarrow> P x"
  by (metis filter_id_conv length_filter_less order_less_irrefl)

text \<open>A \<open>dict\<close> that keeps insertion order, as an association list with distinct keys.\<close>

fun alist_put :: "'k \<Rightarrow> 'v \<Rightarrow> ('k \<times> 'v) list \<Rightarrow> ('k \<times> 'v) list" where
  "alist_put k v [] = [(k, v)]"
| "alist_put k v ((k', v') # kvs) =
     (if k' = k then (k, v) # kvs else (k', v') # alist_put k v kvs)"

definition alist_del :: "'k \<Rightarrow> ('k \<times> 'v) list \<Rightarrow> ('k \<times> 'v) list" where
  "alist_del k kvs = filter (\<lambda>kv. fst kv \<noteq> k) kvs"

lemma map_of_alist_put [simp]: "map_of (alist_put k v kvs) = (map_of kvs)(k \<mapsto> v)"
  by (induction kvs) (auto simp: fun_eq_iff)

lemma map_of_alist_del: "map_of (alist_del k kvs) = (map_of kvs)(k := None)"
  by (induction kvs) (auto simp: alist_del_def fun_eq_iff)

lemma alist_put_fresh: "k \<notin> fst ` set al \<Longrightarrow> alist_put k v al = al @ [(k, v)]"
  by (induction al) (auto)

lemma keys_alist_put: "set (map fst (alist_put k v kvs)) = insert k (set (map fst kvs))"
proof (induction kvs)
  case (Cons kv kvs)
  then show ?case by (cases kv) (auto simp del: set_map)
qed simp

lemma distinct_alist_put:
  "distinct (map fst kvs) \<Longrightarrow> distinct (map fst (alist_put k v kvs))"
proof (induction kvs)
  case (Cons kv kvs)
  then show ?case by (cases kv) (auto simp: keys_alist_put simp del: set_map)
qed simp

lemma distinct_alist_del:
  "distinct (map fst kvs) \<Longrightarrow> distinct (map fst (alist_del k kvs))"
  by (induction kvs) (auto simp: alist_del_def)

lemma length_alist_del_le: "length (alist_del k kvs) \<le> length kvs"
  by (simp add: alist_del_def)

text \<open>\<open>move_to_end\<close> after an assignment: the entry becomes the last one.\<close>

definition alist_put_last :: "'k \<Rightarrow> 'v \<Rightarrow> ('k \<times> 'v) list \<Rightarrow> ('k \<times> 'v) list" where
  "alist_put_last k v kvs = alist_del k kvs @ [(k, v)]"

lemma alist_del_notin: "k \<notin> fst ` set (alist_del k kvs)"
  by (auto simp: alist_del_def)

lemma map_of_alist_put_last [simp]: "map_of (alist_put_last k v kvs) = (map_of kvs)(k \<mapsto> v)"
  by (auto simp: alist_put_last_def map_of_alist_del fun_eq_iff map_add_def split: option.splits)

lemma distinct_alist_put_last:
  "distinct (map fst kvs) \<Longrightarrow> distinct (map fst (alist_put_last k v kvs))"
  using alist_del_notin [of k kvs] distinct_alist_del [of kvs k] by (simp add: alist_put_last_def)

lemma keys_alist_put_last: "fst ` set (alist_put_last k v kvs) = insert k (fst ` set kvs)"
  by (force simp: alist_put_last_def alist_del_def)

lemma map_of_filter_keys:
  "map_of (filter (\<lambda>kv. P (fst kv)) kvs) k = (if P k then map_of kvs k else None)"
  by (induction kvs) auto

end
