(* ===== verification/Json.thy ===== *)
theory Json
  imports Prelude "HOL-Library.List_Lexorder"
begin

text \<open>
  The dynamic values that cross the program's boundaries: decoded JSON, as \<open>json.loads\<close>
  returns it. An object is an insertion-ordered association list. A float carries its Python
  \<open>repr\<close> and, when finite, its exact rational value. The operations are the language's own
  on such values: truth testing, \<open>str\<close>, \<open>dict.get\<close>.
\<close>

datatype pyfloat = FFinite string rat | FNonFinite string

datatype json =
    JNull
  | JBool bool
  | JInt int
  | JFloat pyfloat
  | JStr string
  | JList "json list"
  | JObj "(string \<times> json) list"

type_synonym jobj = "(string \<times> json) list"

fun float_repr :: "pyfloat \<Rightarrow> string" where
  "float_repr (FFinite r _) = r"
| "float_repr (FNonFinite r) = r"

fun float_nonzero :: "pyfloat \<Rightarrow> bool" where
  "float_nonzero (FFinite _ q) = (q \<noteq> 0)"
| "float_nonzero (FNonFinite _) = True"

text \<open>\<open>bool(value)\<close>.\<close>

fun truthy :: "json \<Rightarrow> bool" where
  "truthy JNull = False"
| "truthy (JBool b) = b"
| "truthy (JInt i) = (i \<noteq> 0)"
| "truthy (JFloat f) = float_nonzero f"
| "truthy (JStr s) = (s \<noteq> [])"
| "truthy (JList xs) = (xs \<noteq> [])"
| "truthy (JObj kvs) = (kvs \<noteq> [])"

text \<open>\<open>obj.get(key)\<close>; a missing key and an explicit null both read as \<open>None\<close>.\<close>

definition jget :: "jobj \<Rightarrow> string \<Rightarrow> json" where
  "jget kvs k = (case map_of kvs k of None \<Rightarrow> JNull | Some v \<Rightarrow> v)"

definition jhas :: "jobj \<Rightarrow> string \<Rightarrow> bool" where
  "jhas kvs k = (map_of kvs k \<noteq> None)"

fun is_jobj :: "json \<Rightarrow> bool" where
  "is_jobj (JObj _) = True"
| "is_jobj _ = False"

fun is_jlist :: "json \<Rightarrow> bool" where
  "is_jlist (JList _) = True"
| "is_jlist _ = False"

text \<open>\<open>repr\<close> of a string: double quotes when it holds a single quote and no double one.\<close>

definition hex_digit :: "nat \<Rightarrow> char" where
  "hex_digit n = (if n < 10 then char_of (48 + n) else char_of (87 + n))"

definition repr_char :: "char \<Rightarrow> char \<Rightarrow> string" where
  "repr_char q c = (let n = (of_char c :: nat) in
     if c = q \<or> n = 92 then [char_of (92 :: nat), c]
     else if n = 10 then [char_of (92 :: nat), CHR ''n'']
     else if n = 13 then [char_of (92 :: nat), CHR ''r'']
     else if n = 9 then [char_of (92 :: nat), CHR ''t'']
     else if n < 32 \<or> (127 \<le> n \<and> n \<le> 160) \<or> n = 173
       then [char_of (92 :: nat), CHR ''x'', hex_digit (n div 16), hex_digit (n mod 16)]
     else [c])"

definition repr_str :: "string \<Rightarrow> string" where
  "repr_str s = (let q = (if char_of (39 :: nat) \<in> set s \<and> char_of (34 :: nat) \<notin> set s
                          then char_of (34 :: nat) else char_of (39 :: nat))
                 in [q] @ concat (map (repr_char q) s) @ [q])"

fun py_repr :: "json \<Rightarrow> string" where
  "py_repr JNull = ''None''"
| "py_repr (JBool b) = (if b then ''True'' else ''False'')"
| "py_repr (JInt i) = show_int i"
| "py_repr (JFloat f) = float_repr f"
| "py_repr (JStr s) = repr_str s"
| "py_repr (JList xs) = ''['' @ join '', '' (map py_repr xs) @ '']''"
| "py_repr (JObj kvs) =
     ''{'' @ join '', '' (map (\<lambda>kv. repr_str (fst kv) @ '': '' @ py_repr (snd kv)) kvs) @ ''}''"

text \<open>\<open>str(value)\<close>.\<close>

fun py_str :: "json \<Rightarrow> string" where
  "py_str (JStr s) = s"
| "py_str v = py_repr v"

text \<open>\<open>str(value or "")\<close>.\<close>

definition str_or_empty :: "json \<Rightarrow> string" where
  "str_or_empty v = (if truthy v then py_str v else [])"

lemma str_or_empty_JStr [simp]: "str_or_empty (JStr s) = s"
  by (simp add: str_or_empty_def)

text \<open>\<open>value or {}\<close> where the code then treats the value as a dictionary or a list.\<close>

fun obj_fields :: "json \<Rightarrow> jobj" where
  "obj_fields (JObj kvs) = kvs"
| "obj_fields _ = []"

fun list_items :: "json \<Rightarrow> json list" where
  "list_items (JList xs) = xs"
| "list_items _ = []"

fun is_none_or_empty :: "json \<Rightarrow> bool" where
  "is_none_or_empty JNull = True"
| "is_none_or_empty (JStr s) = (s = [])"
| "is_none_or_empty _ = False"

section \<open>\<open>json.dumps\<close>\<close>

text \<open>
  \<open>json.dumps(value, ensure_ascii=False)\<close> with the default separators or the compact ones,
  and with or without \<open>sort_keys\<close>.
\<close>

definition json_char :: "char \<Rightarrow> string" where
  "json_char c = (let n = (of_char c :: nat); bs = char_of (92 :: nat) in
     if n = 34 \<or> n = 92 then [bs, c]
     else if n = 10 then [bs, CHR ''n'']
     else if n = 13 then [bs, CHR ''r'']
     else if n = 9 then [bs, CHR ''t'']
     else if n = 8 then [bs, CHR ''b'']
     else if n = 12 then [bs, CHR ''f'']
     else if n < 32 then [bs, CHR ''u'', CHR ''0'', CHR ''0'', hex_digit (n div 16), hex_digit (n mod 16)]
     else [c])"

definition json_string :: "string \<Rightarrow> string" where
  "json_string s = [char_of (34 :: nat)] @ concat (map json_char s) @ [char_of (34 :: nat)]"

text \<open>\<open>float.__repr__\<close>, with the JSON names of the three values that are not finite.\<close>

fun json_float :: "pyfloat \<Rightarrow> string" where
  "json_float (FFinite r _) = r"
| "json_float (FNonFinite r) =
     (if r = ''nan'' then ''NaN'' else if r = ''inf'' then ''Infinity''
      else if r = ''-inf'' then ''-Infinity'' else r)"

fun dumps :: "string \<Rightarrow> string \<Rightarrow> bool \<Rightarrow> json \<Rightarrow> string" where
  "dumps isep ksep srt JNull = ''null''"
| "dumps isep ksep srt (JBool b) = (if b then ''true'' else ''false'')"
| "dumps isep ksep srt (JInt i) = show_int i"
| "dumps isep ksep srt (JFloat f) = json_float f"
| "dumps isep ksep srt (JStr s) = json_string s"
| "dumps isep ksep srt (JList xs) = ''['' @ join isep (map (dumps isep ksep srt) xs) @ '']''"
| "dumps isep ksep srt (JObj kvs) =
     (let fs = map (\<lambda>kv. (fst kv, json_string (fst kv) @ ksep @ dumps isep ksep srt (snd kv))) kvs
      in ''{'' @ join isep (map snd (if srt then sort_key fst fs else fs)) @ ''}'')"

definition json_dumps :: "json \<Rightarrow> string" where
  "json_dumps v = dumps '', '' '': '' False v"

definition json_dumps_sorted :: "json \<Rightarrow> string" where
  "json_dumps_sorted v = dumps '', '' '': '' True v"

definition json_dumps_canonical :: "json \<Rightarrow> string" where
  "json_dumps_canonical v = dumps '','' '':'' True v"

section \<open>\<open>int(value)\<close>\<close>

text \<open>\<open>int(text)\<close>: optional sign, decimal digits with single underscores between them.\<close>

fun digits_value :: "bool \<Rightarrow> nat \<Rightarrow> string \<Rightarrow> nat option" where
  "digits_value after_digit acc [] = (if after_digit then Some acc else None)"
| "digits_value after_digit acc (c # cs) =
     (let n = of_char c in
      if 48 \<le> n \<and> n \<le> 57 then digits_value True (10 * acc + (n - 48)) cs
      else if n = 95 \<and> after_digit then digits_value False acc cs else None)"

definition int_of_text :: "string \<Rightarrow> int option" where
  "int_of_text t =
     (case strip t of
        [] \<Rightarrow> None
      | c # cs \<Rightarrow>
          if of_char c = (45 :: nat) then map_option (\<lambda>n. - int n) (digits_value False 0 cs)
          else if of_char c = (43 :: nat) then map_option int (digits_value False 0 cs)
          else map_option int (digits_value False 0 (c # cs)))"

fun py_int :: "json \<Rightarrow> int result" where
  "py_int (JInt i) = Inr i"
| "py_int (JBool b) = Inr (of_bool b)"
| "py_int (JFloat (FFinite _ q)) = Inr (if q < 0 then \<lceil>q\<rceil> else \<lfloor>q\<rfloor>)"
| "py_int (JFloat (FNonFinite r)) =
     (if r = ''nan'' then Inl (ValueError ''cannot convert float NaN to integer'') else Inl OverflowError)"
| "py_int (JStr t) =
     (case int_of_text t of Some i \<Rightarrow> Inr i
      | None \<Rightarrow> Inl (ValueError (''invalid literal for int() with base 10: '' @ repr_str t)))"
| "py_int _ = Inl (TypeError ''int() argument must be a string, a bytes-like object or a real number'')"

text \<open>\<open>value or fallback\<close>.\<close>

definition or_else :: "json \<Rightarrow> json \<Rightarrow> json" where
  "or_else v d = (if truthy v then v else d)"

end
