(* ===== verification/Meter.thy ===== *)
theory Meter
  imports Json
begin

text \<open>
  The request-scoped execution meter, \<open>src/app/orchestration/execution_meter.py\<close>: the
  counters of \<open>ExecutionMeterState\<close>, the limits of \<open>ExecutionBudget\<close>, one definition per
  method. Every method that reads a clock takes the reading as an argument: \<open>now\<close> for
  \<open>datetime.now(UTC)\<close>, \<open>mclk\<close> for \<open>time.monotonic()\<close>. Durations kept as float seconds in
  the source are integer microseconds here. The asyncio lock serialises the asynchronous
  methods, so each is one atomic step on the counters.
\<close>

section \<open>State\<close>

record meter_state =
  logical_model_operations :: int
  physical_model_attempts :: int
  model_successes :: int
  model_failures :: int
  fallback_attempts :: int
  tool_attempts :: int
  tool_successes :: int
  tool_failures :: int
  tool_timeouts :: int
  verifier_rounds :: int
  revision_rounds :: int
  final_revision_rounds_used :: int
  research_rounds_used :: int
  replans_used :: int
  prompt_tokens :: int
  generated_tokens :: int
  queue_wait :: time
  model_load :: time
  time_to_first_token :: "time option"
  started_at :: time
  deadline_at :: time
  elapsed_wall :: time
  active_execution :: time
  cancellation_count :: int

record budget =
  max_duration :: time
  max_model_calls :: int
  max_tool_calls :: int
  max_verifier_rounds :: int
  mstate :: meter_state
  elapsed_before_resume :: time
  resume_clock_guard :: time
  started_monotonic :: time

definition fresh_meter_state :: "time \<Rightarrow> time \<Rightarrow> meter_state" where
  "fresh_meter_state now duration =
     \<lparr>logical_model_operations = 0, physical_model_attempts = 0, model_successes = 0,
      model_failures = 0, fallback_attempts = 0, tool_attempts = 0, tool_successes = 0,
      tool_failures = 0, tool_timeouts = 0, verifier_rounds = 0, revision_rounds = 0,
      final_revision_rounds_used = 0, research_rounds_used = 0, replans_used = 0,
      prompt_tokens = 0, generated_tokens = 0, queue_wait = 0, model_load = 0,
      time_to_first_token = None, started_at = now, deadline_at = now + duration,
      elapsed_wall = 0, active_execution = 0, cancellation_count = 0\<rparr>"

text \<open>\<open>ExecutionBudget.__init__\<close>; a restored snapshot is \<open>Some\<close>.\<close>

definition new_budget ::
  "time \<Rightarrow> int \<Rightarrow> int \<Rightarrow> int \<Rightarrow> meter_state option \<Rightarrow> time \<Rightarrow> time \<Rightarrow> budget" where
  "new_budget duration models tools verifiers restored now mclk =
     (let st = (case restored of None \<Rightarrow> fresh_meter_state now duration | Some s \<Rightarrow> s)
      in \<lparr>max_duration = duration, max_model_calls = models, max_tool_calls = tools,
          max_verifier_rounds = verifiers, mstate = st,
          elapsed_before_resume = max 0 (active_execution st),
          resume_clock_guard = (if restored = None then 0 else 1000),
          started_monotonic = mclk\<rparr>)"

section \<open>Clocks and limits\<close>

definition elapsed_seconds :: "budget \<Rightarrow> time \<Rightarrow> time \<Rightarrow> time" where
  "elapsed_seconds b now mclk =
     (let active = elapsed_before_resume b + resume_clock_guard b
                     + max 0 (mclk - started_monotonic b);
          wall = max 0 (now - started_at (mstate b))
      in max (max active (elapsed_wall (mstate b))) wall)"

definition remaining_seconds :: "budget \<Rightarrow> time \<Rightarrow> time" where
  "remaining_seconds b now = max 0 (deadline_at (mstate b) - now)"

text \<open>\<open>check\<close> raises \<open>BudgetExceeded\<close> at the first limit that is passed.\<close>

definition check_budget :: "budget \<Rightarrow> time \<Rightarrow> string option" where
  "check_budget b now =
     (if deadline_at (mstate b) \<le> now then Some ''execution deadline exceeded''
      else if max_model_calls b < physical_model_attempts (mstate b)
        then Some ''model call budget exceeded''
      else if max_tool_calls b < tool_attempts (mstate b)
        then Some ''tool call budget exceeded''
      else if max_verifier_rounds b < verifier_rounds (mstate b)
        then Some ''maximum verifier rounds exceeded''
      else None)"

definition record_logical_model_operation :: "budget \<Rightarrow> time \<Rightarrow> budget result" where
  "record_logical_model_operation b now =
     (case check_budget b now of
        Some m \<Rightarrow> Inl (BudgetExceeded m)
      | None \<Rightarrow> Inr (b\<lparr>mstate := (mstate b)\<lparr>logical_model_operations :=
                          logical_model_operations (mstate b) + 1\<rparr>\<rparr>))"

section \<open>Attempts\<close>

text \<open>
  \<open>begin_model_attempt\<close>: \<open>ops\<close> is the context variable \<open>_MODEL_OPERATION_ATTEMPTS\<close>, returned
  updated; \<open>fallback\<close> is the keyword argument.
\<close>

definition begin_model_attempt ::
  "bool option \<Rightarrow> int option \<Rightarrow> budget \<Rightarrow> time \<Rightarrow> (budget \<times> int option) result" where
  "begin_model_attempt fallback ops b now =
     (case check_budget b now of
        Some m \<Rightarrow> Inl (BudgetExceeded m)
      | None \<Rightarrow>
          if max_model_calls b \<le> physical_model_attempts (mstate b)
          then Inl (BudgetExceeded ''model call budget exceeded'')
          else
            let inferred = (case ops of None \<Rightarrow> False | Some n \<Rightarrow> 0 < n);
                counts = (fallback = Some True \<or> (fallback = None \<and> inferred));
                st = (mstate b)\<lparr>physical_model_attempts := physical_model_attempts (mstate b) + 1,
                       fallback_attempts := fallback_attempts (mstate b) + (if counts then 1 else 0)\<rparr>
            in Inr (b\<lparr>mstate := st\<rparr>, map_option (\<lambda>n. n + 1) ops))"

definition finish_model_attempt ::
  "bool \<Rightarrow> int \<Rightarrow> int \<Rightarrow> time \<Rightarrow> time option \<Rightarrow> budget \<Rightarrow> budget" where
  "finish_model_attempt success prompt generated load first b =
     (let st = mstate b;
          st1 = (if success then st\<lparr>model_successes := model_successes st + 1\<rparr>
                 else st\<lparr>model_failures := model_failures st + 1\<rparr>);
          st2 = st1\<lparr>prompt_tokens := prompt_tokens st1 + max 0 prompt,
                    generated_tokens := generated_tokens st1 + max 0 generated,
                    model_load := model_load st1 + max 0 load\<rparr>;
          st3 = (case first of
                   Some t \<Rightarrow> (if time_to_first_token st2 = None
                             then st2\<lparr>time_to_first_token := Some (max 0 t)\<rparr> else st2)
                 | None \<Rightarrow> st2)
      in b\<lparr>mstate := st3\<rparr>)"

definition begin_tool_attempt :: "budget \<Rightarrow> time \<Rightarrow> budget result" where
  "begin_tool_attempt b now =
     (case check_budget b now of
        Some m \<Rightarrow> Inl (BudgetExceeded m)
      | None \<Rightarrow>
          if max_tool_calls b \<le> tool_attempts (mstate b)
          then Inl (BudgetExceeded ''tool call budget exceeded'')
          else Inr (b\<lparr>mstate := (mstate b)\<lparr>tool_attempts := tool_attempts (mstate b) + 1\<rparr>\<rparr>))"

definition finish_tool_attempt :: "bool \<Rightarrow> bool \<Rightarrow> budget \<Rightarrow> budget" where
  "finish_tool_attempt success timed_out b =
     (let st = mstate b;
          st1 = (if success then st\<lparr>tool_successes := tool_successes st + 1\<rparr>
                 else st\<lparr>tool_failures := tool_failures st + 1\<rparr>);
          st2 = (if timed_out then st1\<lparr>tool_timeouts := tool_timeouts st1 + 1\<rparr> else st1)
      in b\<lparr>mstate := st2\<rparr>)"

definition add_queue_wait :: "time \<Rightarrow> budget \<Rightarrow> budget" where
  "add_queue_wait secs b =
     b\<lparr>mstate := (mstate b)\<lparr>queue_wait := queue_wait (mstate b) + max 0 secs\<rparr>\<rparr>"

definition record_cancellation :: "budget \<Rightarrow> budget" where
  "record_cancellation b =
     b\<lparr>mstate := (mstate b)\<lparr>cancellation_count := cancellation_count (mstate b) + 1\<rparr>\<rparr>"

text \<open>\<open>snapshot\<close> copies the counters and stamps both elapsed times.\<close>

definition snapshot :: "budget \<Rightarrow> time \<Rightarrow> time \<Rightarrow> time \<Rightarrow> meter_state" where
  "snapshot b now now' mclk =
     (mstate b)\<lparr>elapsed_wall := max 0 (now - started_at (mstate b)),
                active_execution := elapsed_seconds b now' mclk\<rparr>"

text \<open>The setters the graph nodes use.\<close>

definition set_verifier_rounds :: "int \<Rightarrow> budget \<Rightarrow> budget" where
  "set_verifier_rounds n b = b\<lparr>mstate := (mstate b)\<lparr>verifier_rounds := n\<rparr>\<rparr>"

definition termination_reason_of :: "budget \<Rightarrow> time \<Rightarrow> string option" where
  "termination_reason_of b now = check_budget b now"

section \<open>The limits are never passed\<close>

text \<open>
  The invariant of the counters that the \<open>begin\<close> operations guard: attempts stay within the
  limits, every finished attempt was begun, fallbacks are attempts.
\<close>

definition within_limits :: "budget \<Rightarrow> bool" where
  "within_limits b \<longleftrightarrow>
     0 \<le> physical_model_attempts (mstate b) \<and>
     physical_model_attempts (mstate b) \<le> max_model_calls b \<and>
     0 \<le> tool_attempts (mstate b) \<and>
     tool_attempts (mstate b) \<le> max_tool_calls b \<and>
     0 \<le> fallback_attempts (mstate b) \<and>
     fallback_attempts (mstate b) \<le> physical_model_attempts (mstate b)"

definition same_limits :: "budget \<Rightarrow> budget \<Rightarrow> bool" where
  "same_limits b c \<longleftrightarrow>
     max_duration c = max_duration b \<and> max_model_calls c = max_model_calls b \<and>
     max_tool_calls c = max_tool_calls b \<and> max_verifier_rounds c = max_verifier_rounds b"

lemma same_limits_refl [simp]: "same_limits b b"
  by (simp add: same_limits_def)

lemma same_limits_trans: "same_limits a b \<Longrightarrow> same_limits b c \<Longrightarrow> same_limits a c"
  by (simp add: same_limits_def)

lemma new_budget_within_limits [inv_intros]:
  "0 \<le> models \<Longrightarrow> 0 \<le> tools \<Longrightarrow> within_limits (new_budget d models tools v None now mclk)"
  by (simp add: within_limits_def new_budget_def fresh_meter_state_def)

lemma new_budget_sel [meter_simps]:
  "max_model_calls (new_budget d m t v r now mclk) = m"
  "max_tool_calls (new_budget d m t v r now mclk) = t"
  "max_verifier_rounds (new_budget d m t v r now mclk) = v"
  "verifier_rounds (mstate (new_budget d m t v None now mclk)) = 0"
  by (simp_all add: new_budget_def fresh_meter_state_def Let_def)

lemma record_logical_within_limits [inv_intros]:
  "record_logical_model_operation b now = Inr c \<Longrightarrow> within_limits b \<Longrightarrow> within_limits c"
  by (auto simp: record_logical_model_operation_def within_limits_def split: option.splits)

lemma begin_model_attempt_within_limits [inv_intros]:
  "begin_model_attempt f ops b now = Inr (c, ops') \<Longrightarrow> within_limits b \<Longrightarrow> within_limits c"
  by (auto simp: begin_model_attempt_def within_limits_def Let_def
      split: option.splits if_splits)

lemma begin_tool_attempt_within_limits [inv_intros]:
  "begin_tool_attempt b now = Inr c \<Longrightarrow> within_limits b \<Longrightarrow> within_limits c"
  by (auto simp: begin_tool_attempt_def within_limits_def split: option.splits if_splits)

lemma finish_model_attempt_frame [meter_simps]:
  "physical_model_attempts (mstate (finish_model_attempt s p g l f b))
     = physical_model_attempts (mstate b)"
  "fallback_attempts (mstate (finish_model_attempt s p g l f b)) = fallback_attempts (mstate b)"
  "tool_attempts (mstate (finish_model_attempt s p g l f b)) = tool_attempts (mstate b)"
  "verifier_rounds (mstate (finish_model_attempt s p g l f b)) = verifier_rounds (mstate b)"
  "deadline_at (mstate (finish_model_attempt s p g l f b)) = deadline_at (mstate b)"
  "max_model_calls (finish_model_attempt s p g l f b) = max_model_calls b"
  "max_tool_calls (finish_model_attempt s p g l f b) = max_tool_calls b"
  "max_verifier_rounds (finish_model_attempt s p g l f b) = max_verifier_rounds b"
  "max_duration (finish_model_attempt s p g l f b) = max_duration b"
  by (simp_all add: finish_model_attempt_def Let_def split: option.splits)

lemma finish_tool_attempt_frame [meter_simps]:
  "physical_model_attempts (mstate (finish_tool_attempt s t b))
     = physical_model_attempts (mstate b)"
  "fallback_attempts (mstate (finish_tool_attempt s t b)) = fallback_attempts (mstate b)"
  "tool_attempts (mstate (finish_tool_attempt s t b)) = tool_attempts (mstate b)"
  "verifier_rounds (mstate (finish_tool_attempt s t b)) = verifier_rounds (mstate b)"
  "deadline_at (mstate (finish_tool_attempt s t b)) = deadline_at (mstate b)"
  "max_model_calls (finish_tool_attempt s t b) = max_model_calls b"
  "max_tool_calls (finish_tool_attempt s t b) = max_tool_calls b"
  "max_verifier_rounds (finish_tool_attempt s t b) = max_verifier_rounds b"
  "max_duration (finish_tool_attempt s t b) = max_duration b"
  by (simp_all add: finish_tool_attempt_def Let_def)

lemma begin_model_attempt_frame [meter_simps]:
  assumes "begin_model_attempt f ops b now = Inr (c, ops')"
  shows "physical_model_attempts (mstate c) = physical_model_attempts (mstate b) + 1"
    and "tool_attempts (mstate c) = tool_attempts (mstate b)"
    and "verifier_rounds (mstate c) = verifier_rounds (mstate b)"
    and "same_limits b c"
  using assms by (auto simp: begin_model_attempt_def same_limits_def Let_def
      split: option.splits if_splits)

lemma begin_tool_attempt_frame [meter_simps]:
  assumes "begin_tool_attempt b now = Inr c"
  shows "tool_attempts (mstate c) = tool_attempts (mstate b) + 1"
    and "physical_model_attempts (mstate c) = physical_model_attempts (mstate b)"
    and "verifier_rounds (mstate c) = verifier_rounds (mstate b)"
    and "same_limits b c"
  using assms by (auto simp: begin_tool_attempt_def same_limits_def split: option.splits if_splits)

lemma record_logical_frame [meter_simps]:
  assumes "record_logical_model_operation b now = Inr c"
  shows "physical_model_attempts (mstate c) = physical_model_attempts (mstate b)"
    and "tool_attempts (mstate c) = tool_attempts (mstate b)"
    and "verifier_rounds (mstate c) = verifier_rounds (mstate b)"
    and "same_limits b c"
  using assms
  by (auto simp: record_logical_model_operation_def same_limits_def split: option.splits)

lemma check_budget_None_verifier:
  "check_budget b now = None \<Longrightarrow> verifier_rounds (mstate b) \<le> max_verifier_rounds b"
  by (auto simp: check_budget_def split: if_splits)

lemma check_budget_None_iff:
  "check_budget b now = None \<longleftrightarrow>
     now < deadline_at (mstate b) \<and>
     physical_model_attempts (mstate b) \<le> max_model_calls b \<and>
     tool_attempts (mstate b) \<le> max_tool_calls b \<and>
     verifier_rounds (mstate b) \<le> max_verifier_rounds b"
  by (auto simp: check_budget_def)

section \<open>Any sequence of meter operations\<close>

text \<open>
  The operations as one step relation, so that statements about the meter cover every
  interleaving of model and tool attempts of concurrent tasks.
\<close>

inductive meter_step :: "budget \<Rightarrow> budget \<Rightarrow> bool" where
  logical: "record_logical_model_operation b now = Inr c \<Longrightarrow> meter_step b c"
| begin_model: "begin_model_attempt f ops b now = Inr (c, ops') \<Longrightarrow> meter_step b c"
| finish_model: "meter_step b (finish_model_attempt s p g l t b)"
| begin_tool: "begin_tool_attempt b now = Inr c \<Longrightarrow> meter_step b c"
| finish_tool: "meter_step b (finish_tool_attempt s t b)"
| queue: "meter_step b (add_queue_wait q b)"
| cancel: "meter_step b (record_cancellation b)"
| verifier: "meter_step b (set_verifier_rounds n b)"

inductive_cases meter_stepE: "meter_step b c"

lemma meter_step_within_limits: "meter_step b c \<Longrightarrow> within_limits b \<Longrightarrow> within_limits c"
proof (induction rule: meter_step.induct)
  case (logical b now c)
  then show ?case by (rule record_logical_within_limits)
next
  case (begin_model f ops b now c ops')
  then show ?case by (rule begin_model_attempt_within_limits)
next
  case (begin_tool b now c)
  then show ?case by (rule begin_tool_attempt_within_limits)
qed (simp_all add: within_limits_def meter_simps add_queue_wait_def record_cancellation_def
      set_verifier_rounds_def)

lemma meter_step_same_limits: "meter_step b c \<Longrightarrow> same_limits b c"
proof (induction rule: meter_step.induct)
  case (logical b now c)
  then show ?case by (rule record_logical_frame)
next
  case (begin_model f ops b now c ops')
  then show ?case by (rule begin_model_attempt_frame)
next
  case (begin_tool b now c)
  then show ?case by (rule begin_tool_attempt_frame)
qed (simp_all add: same_limits_def meter_simps add_queue_wait_def record_cancellation_def
      set_verifier_rounds_def)

text \<open>
  C16: however the operations of one request's meter interleave, the physical model attempts
  and the tool attempts stay within the limits the request was created with, and fallbacks
  never exceed attempts.
\<close>

theorem meter_never_exceeds_limits:
  assumes "meter_step\<^sup>*\<^sup>* (new_budget d models tools rounds None now mclk) b"
    and "0 \<le> models" and "0 \<le> tools"
  shows "physical_model_attempts (mstate b) \<le> models \<and> tool_attempts (mstate b) \<le> tools
    \<and> fallback_attempts (mstate b) \<le> physical_model_attempts (mstate b)"
proof -
  let ?b0 = "new_budget d models tools rounds None now mclk"
  have "within_limits b \<and> same_limits ?b0 b"
    using assms(1)
  proof (induction rule: rtranclp_induct)
    case base
    show ?case using assms(2,3) by (simp add: new_budget_within_limits)
  next
    case (step y z)
    then show ?case
      using meter_step_within_limits meter_step_same_limits same_limits_trans by blast
  qed
  then show ?thesis by (auto simp: within_limits_def same_limits_def meter_simps)
qed

theorem meter_never_exceeds_limits_witness:
  "let b = finish_model_attempt True 7 9 0 None (new_budget 60 2 1 3 None 0 0)
   in physical_model_attempts (mstate b) \<le> 2 \<and> tool_attempts (mstate b) \<le> 1
      \<and> fallback_attempts (mstate b) \<le> physical_model_attempts (mstate b)"
  unfolding Let_def
  by (rule meter_never_exceeds_limits [where d = 60 and rounds = 3 and now = 0 and mclk = 0])
    (auto intro: meter_step.finish_model)

lemma elapsed_seconds_ge: "elapsed_before_resume b + resume_clock_guard b \<le> elapsed_seconds b now mclk"
  by (simp add: elapsed_seconds_def Let_def)

lemma elapsed_seconds_nonneg: "0 \<le> elapsed_seconds b now mclk"
  by (simp add: elapsed_seconds_def Let_def)

text \<open>
  A snapshot taken by a running meter and used to restore a meter never moves elapsed
  time backwards: whatever the two processes' clocks say, the restored meter reports strictly
  more than the original one had reported.
\<close>

theorem restored_meter_elapsed_monotone:
  "elapsed_seconds b now' mclk <
   elapsed_seconds (new_budget d m t v (Some (snapshot b now now' mclk)) n mclk') now'' mclk''"
proof -
  let ?r = "new_budget d m t v (Some (snapshot b now now' mclk)) n mclk'"
  have "elapsed_before_resume ?r = elapsed_seconds b now' mclk" "resume_clock_guard ?r = 1000"
    using elapsed_seconds_nonneg [of b now' mclk]
    by (simp_all add: new_budget_def snapshot_def Let_def)
  then show ?thesis using elapsed_seconds_ge [of ?r now'' mclk''] by simp
qed

end
