(* ===== verification/World.thy ===== *)
theory World
  imports Meter
begin

text \<open>
  What one request's computation acts on. An operation that awaits, reads a clock, spends
  budget or talks to a server is a function from the \<open>world\<close> to a result and the new world.

  Everything outside the process is an arbitrary function of the number of earlier
  interactions of that kind: the clock readings, the replies of the Ollama server, the replies
  of the MCP server. A statement about every world is therefore a statement about every
  behaviour of the clocks and the two servers. The context variables \<open>_CURRENT_METER\<close> and
  \<open>_MODEL_OPERATION_ATTEMPTS\<close> are \<open>w_meter\<close> and \<open>w_ops\<close>; the two logs record the requests
  that left the process and exist for the statements only.
\<close>

section \<open>The world\<close>

text \<open>
  What one HTTP request can do: an HTTP status the client rejects (code, exception text,
  body), another \<open>httpx\<close> error or a body that is no JSON (exception class and text), a decoded
  JSON value, or a cancellation of the awaiting task.
\<close>

datatype http_reply =
    StatusError int string string
  | HttpError string string
  | Reply json
  | Interrupted

text \<open>
  What one POST to the MCP server can do: a response (status, body text, headers with lower-case
  names), a status the client rejects (code, exception text, body), a timeout or another
  \<open>httpx\<close> error (exception class and text), or an exception of the awaiting task itself.
\<close>

datatype mcp_http =
    McpBody int string "(string \<times> string) list"
  | McpStatus int string string
  | McpTimeout string string
  | McpTransport string string
  | McpRaises exn

record mcp_session =
  ms_initialized :: bool
  ms_session_id :: "string option"
  ms_protocol :: "string option"
  ms_server_info :: "jobj option"
  ms_capabilities :: "jobj option"

definition fresh_session :: mcp_session where
  "fresh_session = \<lparr>ms_initialized = False, ms_session_id = None, ms_protocol = None,
     ms_server_info = None, ms_capabilities = None\<rparr>"

record world =
  w_clock :: "nat \<Rightarrow> time"
  w_mono :: "nat \<Rightarrow> time"
  w_tick :: nat
  w_meter :: budget
  w_ops :: "int option"
  w_chat :: "nat \<Rightarrow> http_reply"
  w_chat_log :: "json list"
  w_mcp :: "nat \<Rightarrow> mcp_http"
  w_mcp_log :: "json list"
  w_session :: mcp_session
  w_generation :: nat
  w_request_id :: int
  w_tools_cache :: "(jobj list \<times> time) option"

type_synonym 'a eff = "world \<Rightarrow> 'a result \<times> world"

section \<open>Sequencing\<close>

definition eret :: "'a \<Rightarrow> 'a eff" where
  "eret x w = (Inr x, w)"

definition eraise :: "exn \<Rightarrow> 'a eff" where
  "eraise e w = (Inl e, w)"

definition elift :: "'a result \<Rightarrow> 'a eff" where
  "elift r w = (r, w)"

definition ebind :: "'a eff \<Rightarrow> ('a \<Rightarrow> 'b eff) \<Rightarrow> 'b eff" where
  "ebind m f w = (case m w of (Inl e, w') \<Rightarrow> (Inl e, w') | (Inr x, w') \<Rightarrow> f x w')"

definition ethen :: "unit eff \<Rightarrow> 'a eff \<Rightarrow> 'a eff" where
  "ethen m k = ebind m (\<lambda>_. k)"

text \<open>\<open>try: m except: h\<close>, the handler re-raising what it does not catch.\<close>

definition ecatch :: "'a eff \<Rightarrow> (exn \<Rightarrow> 'a eff) \<Rightarrow> 'a eff" where
  "ecatch m h w = (case m w of (Inl e, w') \<Rightarrow> h e w' | (Inr x, w') \<Rightarrow> (Inr x, w'))"

text \<open>\<open>try: m finally: k\<close>; an exception of \<open>k\<close> replaces the outcome of \<open>m\<close>.\<close>

definition efinally :: "'a eff \<Rightarrow> unit eff \<Rightarrow> 'a eff" where
  "efinally m k w = (case m w of (r, w') \<Rightarrow>
     case k w' of (Inl e, w'') \<Rightarrow> (Inl e, w'') | (Inr _, w'') \<Rightarrow> (r, w''))"

fun eiter :: "('a \<Rightarrow> unit eff) \<Rightarrow> 'a list \<Rightarrow> unit eff" where
  "eiter f [] = eret ()"
| "eiter f (x # xs) = ethen (f x) (eiter f xs)"

lemma ebind_Inr_iff:
  "ebind m f w = (Inr y, w'') \<longleftrightarrow> (\<exists>x w'. m w = (Inr x, w') \<and> f x w' = (Inr y, w''))"
  by (auto simp: ebind_def split: prod.splits sum.splits)

lemma ebind_Inl_iff:
  "ebind m f w = (Inl e, w'') \<longleftrightarrow>
     m w = (Inl e, w'') \<or> (\<exists>x w'. m w = (Inr x, w') \<and> f x w' = (Inl e, w''))"
  by (auto simp: ebind_def split: prod.splits sum.splits)

lemma ethen_Inr_iff:
  "ethen m k w = (Inr y, w'') \<longleftrightarrow> (\<exists>w'. m w = (Inr (), w') \<and> k w' = (Inr y, w''))"
  by (simp add: ethen_def ebind_Inr_iff)

lemma eret_iff [simp]: "eret x w = (r, w') \<longleftrightarrow> r = Inr x \<and> w' = w"
  by (auto simp: eret_def)

lemma eraise_iff [simp]: "eraise e w = (r, w') \<longleftrightarrow> r = Inl e \<and> w' = w"
  by (auto simp: eraise_def)

lemma elift_iff [simp]: "elift x w = (r, w') \<longleftrightarrow> r = x \<and> w' = w"
  by (auto simp: elift_def)

section \<open>What every outcome of an operation preserves\<close>

text \<open>\<open>preserves R m\<close>: \<open>R\<close> relates the worlds before and after \<open>m\<close>, whether it returns or raises.\<close>

definition preserves :: "(world \<Rightarrow> world \<Rightarrow> bool) \<Rightarrow> 'a eff \<Rightarrow> bool" where
  "preserves R m \<longleftrightarrow> (\<forall>w r w'. m w = (r, w') \<longrightarrow> R w w')"

lemma preservesD: "preserves R m \<Longrightarrow> m w = (r, w') \<Longrightarrow> R w w'"
  by (auto simp: preserves_def)

text \<open>A frame condition is a preorder on worlds; sequencing operations keeps it.\<close>

locale frame_condition =
  fixes R :: "world \<Rightarrow> world \<Rightarrow> bool"
  assumes frame_refl: "R w w"
    and frame_trans: "R w w' \<Longrightarrow> R w' w'' \<Longrightarrow> R w w''"
begin

lemma keep_eret: "preserves R (eret x)"
  by (simp add: preserves_def frame_refl)

lemma keep_eraise: "preserves R (eraise e)"
  by (simp add: preserves_def frame_refl)

lemma keep_elift: "preserves R (elift r)"
  by (simp add: preserves_def frame_refl)

lemma keep_ebind:
  assumes "preserves R m" and "\<And>x. preserves R (f x)"
  shows "preserves R (ebind m f)"
  unfolding preserves_def
proof (intro allI impI)
  fix w r w''
  assume run: "ebind m f w = (r, w'')"
  obtain s w' where m: "m w = (s, w')" by fastforce
  then have "R w w'" by (rule preservesD [OF assms(1)])
  with run m show "R w w''"
    using assms(2) frame_trans by (cases s) (auto simp: ebind_def preserves_def)
qed

lemma keep_elift_ebind:
  "(\<And>x. r = Inr x \<Longrightarrow> preserves R (f x)) \<Longrightarrow> preserves R (ebind (elift r) f)"
  by (cases r) (auto simp: preserves_def ebind_def elift_def frame_refl)

lemma keep_ethen: "preserves R m \<Longrightarrow> preserves R k \<Longrightarrow> preserves R (ethen m k)"
  by (simp add: ethen_def keep_ebind)

lemma keep_ecatch:
  assumes "preserves R m" and "\<And>e. preserves R (h e)"
  shows "preserves R (ecatch m h)"
  unfolding preserves_def
proof (intro allI impI)
  fix w r w''
  assume run: "ecatch m h w = (r, w'')"
  obtain s w' where m: "m w = (s, w')" by fastforce
  then have "R w w'" by (rule preservesD [OF assms(1)])
  with run m show "R w w''"
    using assms(2) frame_trans by (cases s) (auto simp: ecatch_def preserves_def)
qed

lemma keep_efinally:
  assumes "preserves R m" and "preserves R k"
  shows "preserves R (efinally m k)"
  unfolding preserves_def
proof (intro allI impI)
  fix w r w3
  assume run: "efinally m k w = (r, w3)"
  obtain s w' where m: "m w = (s, w')" by fastforce
  obtain t w'' where k: "k w' = (t, w'')" by fastforce
  have "R w w''" using preservesD [OF assms(1) m] preservesD [OF assms(2) k] by (rule frame_trans)
  moreover have "w3 = w''" using run m k by (cases t) (auto simp: efinally_def)
  ultimately show "R w w3" by simp
qed

lemma keep_eiter: "(\<And>x. x \<in> set xs \<Longrightarrow> preserves R (f x)) \<Longrightarrow> preserves R (eiter f xs)"
  by (induction xs) (simp_all add: keep_eret keep_ethen)

lemmas keep_intros = keep_eret keep_eraise keep_elift keep_ebind keep_ethen keep_ecatch
  keep_efinally keep_eiter

end

text \<open>
  The two frame conditions of the development. \<open>evolves P\<close>: the limits and the deadline are
  untouched, spending stays within the limits, the servers and clocks are the same, and every
  message sent to the MCP server satisfies \<open>P\<close>. \<open>same_rounds\<close>: the counter of verifier rounds
  and its limit are untouched.
\<close>

definition evolves :: "(json \<Rightarrow> bool) \<Rightarrow> world \<Rightarrow> world \<Rightarrow> bool" where
  "evolves P w w' \<longleftrightarrow>
     same_limits (w_meter w) (w_meter w') \<and>
     (within_limits (w_meter w) \<longrightarrow> within_limits (w_meter w')) \<and>
     w_clock w' = w_clock w \<and> w_mono w' = w_mono w \<and> w_chat w' = w_chat w \<and> w_mcp w' = w_mcp w \<and>
     (\<exists>sent. w_mcp_log w' = w_mcp_log w @ sent \<and> (\<forall>p\<in>set sent. P p))"

lemma evolves_refl: "evolves P w w"
  by (simp add: evolves_def)

lemma evolves_trans:
  assumes "evolves P w w'" and "evolves P w' w''"
  shows "evolves P w w''"
proof -
  from assms obtain s t where
    "w_mcp_log w' = w_mcp_log w @ s" "w_mcp_log w'' = w_mcp_log w' @ t"
    "\<forall>p\<in>set s. P p" "\<forall>p\<in>set t. P p"
    by (auto simp: evolves_def)
  then have "\<exists>sent. w_mcp_log w'' = w_mcp_log w @ sent \<and> (\<forall>p\<in>set sent. P p)"
    by (intro exI [of _ "s @ t"]) auto
  then show ?thesis
    using assms same_limits_trans by (auto simp: evolves_def)
qed

interpretation ev: frame_condition "evolves P" for P
  by unfold_locales (blast intro: evolves_refl evolves_trans)+

definition same_rounds :: "world \<Rightarrow> world \<Rightarrow> bool" where
  "same_rounds w w' \<longleftrightarrow>
     verifier_rounds (mstate (w_meter w')) = verifier_rounds (mstate (w_meter w)) \<and>
     max_verifier_rounds (w_meter w') = max_verifier_rounds (w_meter w)"

interpretation vr: frame_condition same_rounds
  by unfold_locales (auto simp: same_rounds_def)

section \<open>Clocks and the meter\<close>

definition read_clock :: "time eff" where
  "read_clock w = (Inr (w_clock w (w_tick w)), w\<lparr>w_tick := Suc (w_tick w)\<rparr>)"

definition read_mono :: "time eff" where
  "read_mono w = (Inr (w_mono w (w_tick w)), w\<lparr>w_tick := Suc (w_tick w)\<rparr>)"

definition get_meter :: "budget eff" where
  "get_meter w = (Inr (w_meter w), w)"

definition put_meter :: "(budget \<Rightarrow> budget) \<Rightarrow> unit eff" where
  "put_meter f w = (Inr (), w\<lparr>w_meter := f (w_meter w)\<rparr>)"

definition meter_check :: "unit eff" where
  "meter_check = ebind read_clock (\<lambda>now. ebind get_meter (\<lambda>b.
     case check_budget b now of None \<Rightarrow> eret () | Some m \<Rightarrow> eraise (BudgetExceeded m)))"

text \<open>The remaining time may be read at any moment.\<close>

definition meter_remaining :: "time eff" where
  "meter_remaining = ebind read_clock (\<lambda>now. ebind get_meter (\<lambda>b. eret (remaining_seconds b now)))"

definition meter_snapshot :: "meter_state eff" where
  "meter_snapshot = ebind read_clock (\<lambda>now. ebind read_clock (\<lambda>now'. ebind read_mono (\<lambda>mclk.
     ebind get_meter (\<lambda>b. eret (snapshot b now now' mclk)))))"

definition meter_step_eff :: "(budget \<Rightarrow> time \<Rightarrow> budget result) \<Rightarrow> unit eff" where
  "meter_step_eff f = ebind read_clock (\<lambda>now. ebind get_meter (\<lambda>b.
     case f b now of Inl e \<Rightarrow> eraise e | Inr b' \<Rightarrow> put_meter (\<lambda>_. b')))"

definition meter_record_logical :: "unit eff" where
  "meter_record_logical = meter_step_eff record_logical_model_operation"

definition meter_begin_tool :: "unit eff" where
  "meter_begin_tool = meter_step_eff begin_tool_attempt"

definition meter_begin_model :: "bool option \<Rightarrow> unit eff" where
  "meter_begin_model fallback = ebind read_clock (\<lambda>now w.
     case begin_model_attempt fallback (w_ops w) (w_meter w) now of
       Inl e \<Rightarrow> (Inl e, w)
     | Inr (b, ops) \<Rightarrow> (Inr (), w\<lparr>w_meter := b, w_ops := ops\<rparr>))"

definition set_ops :: "int option \<Rightarrow> unit eff" where
  "set_ops ops w = (Inr (), w\<lparr>w_ops := ops\<rparr>)"

text \<open>\<open>model_operation_scope\<close>: record, count from zero, restore the token whatever happens.\<close>

definition model_operation_scope :: "'a eff \<Rightarrow> 'a eff" where
  "model_operation_scope m = ethen meter_record_logical (\<lambda>w.
     ethen (set_ops (Some 0)) (efinally m (set_ops (w_ops w))) w)"

lemma read_clock_keeps [inv_intros]: "preserves (evolves P) read_clock" "preserves same_rounds read_clock"
  by (auto simp: preserves_def read_clock_def evolves_def same_rounds_def)

lemma read_mono_keeps [inv_intros]: "preserves (evolves P) read_mono" "preserves same_rounds read_mono"
  by (auto simp: preserves_def read_mono_def evolves_def same_rounds_def)

lemma get_meter_keeps [inv_intros]: "preserves (evolves P) get_meter" "preserves same_rounds get_meter"
  by (auto simp: preserves_def get_meter_def evolves_refl vr.frame_refl)

lemma set_ops_keeps [inv_intros]: "preserves (evolves P) (set_ops ops)" "preserves same_rounds (set_ops ops)"
  by (auto simp: preserves_def set_ops_def evolves_def same_rounds_def)

lemma put_meter_keeps:
  "(\<And>b. same_limits b (f b)) \<Longrightarrow> (\<And>b. within_limits b \<Longrightarrow> within_limits (f b)) \<Longrightarrow>
     preserves (evolves P) (put_meter f)"
  "(\<And>b. verifier_rounds (mstate (f b)) = verifier_rounds (mstate b)) \<Longrightarrow>
   (\<And>b. max_verifier_rounds (f b) = max_verifier_rounds b) \<Longrightarrow> preserves same_rounds (put_meter f)"
  by (auto simp: preserves_def put_meter_def evolves_def same_rounds_def)

lemma meter_check_keeps [inv_intros]: "preserves (evolves P) meter_check" "preserves same_rounds meter_check"
  unfolding meter_check_def
  by (auto intro!: ev.keep_intros vr.keep_intros inv_intros split: option.splits)

lemma meter_remaining_keeps [inv_intros]:
  "preserves (evolves P) meter_remaining" "preserves same_rounds meter_remaining"
  unfolding meter_remaining_def by (auto intro!: ev.keep_intros vr.keep_intros inv_intros)

lemma meter_snapshot_keeps [inv_intros]:
  "preserves (evolves P) meter_snapshot" "preserves same_rounds meter_snapshot"
  unfolding meter_snapshot_def by (auto intro!: ev.keep_intros vr.keep_intros inv_intros)

lemma meter_step_eff_keeps:
  assumes "\<And>b now c. f b now = Inr c \<Longrightarrow> same_limits b c"
    and "\<And>b now c. f b now = Inr c \<Longrightarrow> within_limits b \<Longrightarrow> within_limits c"
    and "\<And>b now c. f b now = Inr c \<Longrightarrow> verifier_rounds (mstate c) = verifier_rounds (mstate b)"
  shows "preserves (evolves P) (meter_step_eff f)" and "preserves same_rounds (meter_step_eff f)"
  using assms
  by (auto simp: preserves_def meter_step_eff_def ebind_def read_clock_def get_meter_def
      put_meter_def evolves_def same_rounds_def same_limits_def eraise_def
      split: sum.splits prod.splits)

lemma meter_record_logical_keeps [inv_intros]:
  "preserves (evolves P) meter_record_logical" "preserves same_rounds meter_record_logical"
  unfolding meter_record_logical_def
  by (auto intro!: meter_step_eff_keeps intro: record_logical_frame record_logical_within_limits)

lemma meter_begin_tool_keeps [inv_intros]:
  "preserves (evolves P) meter_begin_tool" "preserves same_rounds meter_begin_tool"
  unfolding meter_begin_tool_def
  by (auto intro!: meter_step_eff_keeps intro: begin_tool_attempt_frame begin_tool_attempt_within_limits)

lemma meter_begin_model_keeps [inv_intros]:
  "preserves (evolves P) (meter_begin_model f)" "preserves same_rounds (meter_begin_model f)"
  using begin_model_attempt_frame begin_model_attempt_within_limits
  by (fastforce simp: preserves_def meter_begin_model_def ebind_def read_clock_def evolves_def
      same_rounds_def same_limits_def split: sum.splits prod.splits)+

lemma model_operation_scope_keeps [inv_intros]:
  "preserves (evolves P) m \<Longrightarrow> preserves (evolves P) (model_operation_scope m)"
  "preserves same_rounds m \<Longrightarrow> preserves same_rounds (model_operation_scope m)"
proof -
  have frame: "preserves R (\<lambda>w. ethen (set_ops (Some 0)) (efinally m (set_ops (w_ops w))) w)"
    if "\<And>o'. preserves R (ethen (set_ops (Some 0)) (efinally m (set_ops o')))" for R
    using that by (auto simp: preserves_def)
  show "preserves (evolves P) m \<Longrightarrow> preserves (evolves P) (model_operation_scope m)"
    unfolding model_operation_scope_def
    by (intro ev.keep_ethen frame ev.keep_efinally inv_intros)
  show "preserves same_rounds m \<Longrightarrow> preserves same_rounds (model_operation_scope m)"
    unfolding model_operation_scope_def
    by (intro vr.keep_ethen frame vr.keep_efinally inv_intros)
qed

section \<open>A concrete world\<close>

text \<open>Stopped clocks, a model server that fails and a tool server that times out.\<close>

definition sample_world :: world where
  "sample_world =
     \<lparr>w_clock = (\<lambda>_. 0), w_mono = (\<lambda>_. 0), w_tick = 0,
      w_meter = new_budget 180000000 8 10 3 None 0 0, w_ops = None,
      w_chat = (\<lambda>_. HttpError ''ConnectError'' ''refused''), w_chat_log = [],
      w_mcp = (\<lambda>_. McpRaises TimeoutError), w_mcp_log = [], w_session = fresh_session,
      w_generation = 0, w_request_id = 0, w_tools_cache = None\<rparr>"

end
