(* ===== verification/Schemas.thy ===== *)
theory Schemas
  imports Json
begin

text \<open>
  The typed records the agents exchange (\<open>src/app/schemas/\<close>): plans, worker results,
  verification reports and evidence items, with the validators the
  classes define. Checking a decoded JSON value against a class is a function into
  \<open>option\<close>, \<open>None\<close> standing for pydantic's \<open>ValidationError\<close>. The two leaf coercions whose
  table belongs to pydantic (lax \<open>bool\<close> and \<open>float\<close>) are the parameter \<open>pydantic\<close>.
\<close>

record pydantic =
  lax_bool :: "json \<Rightarrow> bool option"
  lax_float :: "json \<Rightarrow> rat option"

section \<open>Field readers\<close>

fun str_field :: "json \<Rightarrow> string option" where
  "str_field (JStr s) = Some s"
| "str_field _ = None"

fun opt_str_field :: "json \<Rightarrow> string option option" where
  "opt_str_field JNull = Some None"
| "opt_str_field (JStr s) = Some (Some s)"
| "opt_str_field _ = None"

fun all_some :: "'a option list \<Rightarrow> 'a list option" where
  "all_some [] = Some []"
| "all_some (None # _) = None"
| "all_some (Some x # xs) = map_option (\<lambda>ys. x # ys) (all_some xs)"

lemma all_some_length: "all_some xs = Some ys \<Longrightarrow> length ys = length xs"
  by (induction xs arbitrary: ys rule: all_some.induct) auto

fun str_list :: "json \<Rightarrow> string list option" where
  "str_list (JList xs) = all_some (map str_field xs)"
| "str_list _ = None"

text \<open>A field with a default: the default when the key is missing.\<close>

definition field_or :: "jobj \<Rightarrow> string \<Rightarrow> 'a \<Rightarrow> (json \<Rightarrow> 'a option) \<Rightarrow> 'a option" where
  "field_or kvs k d f = (case map_of kvs k of None \<Rightarrow> Some d | Some v \<Rightarrow> f v)"

definition required_field :: "jobj \<Rightarrow> string \<Rightarrow> (json \<Rightarrow> 'a option) \<Rightarrow> 'a option" where
  "required_field kvs k f = (case map_of kvs k of None \<Rightarrow> None | Some v \<Rightarrow> f v)"

definition unit_interval :: "pydantic \<Rightarrow> json \<Rightarrow> rat option" where
  "unit_interval py v = (case lax_float py v of None \<Rightarrow> None
     | Some q \<Rightarrow> if 0 \<le> q \<and> q \<le> 1 then Some q else None)"

section \<open>Plans\<close>

record plan_task =
  pt_id :: string
  pt_objective :: string
  pt_required_evidence :: "string list"
  pt_completion_criteria :: "string list"
  pt_depends_on :: "string list"

record exec_plan =
  pl_goal :: string
  pl_tasks :: "plan_task list"

fun ensure_list :: "json \<Rightarrow> json" where
  "ensure_list JNull = JList []"
| "ensure_list (JStr s) = JList [JStr s]"
| "ensure_list v = v"

fun normalize_task_id :: "json \<Rightarrow> json" where
  "normalize_task_id (JInt i) = JStr (show_int i)"
| "normalize_task_id v = v"

fun normalize_dependencies :: "json \<Rightarrow> json" where
  "normalize_dependencies v =
     (case ensure_list v of JList xs \<Rightarrow> JList (map normalize_task_id xs) | w \<Rightarrow> w)"

fun validate_plan_task :: "json \<Rightarrow> plan_task option" where
  "validate_plan_task (JObj kvs) =
     Option.bind (required_field kvs ''id'' (\<lambda>v. str_field (normalize_task_id v))) (\<lambda>i.
     Option.bind (required_field kvs ''objective'' str_field) (\<lambda>ob.
     Option.bind (field_or kvs ''required_evidence'' [] (\<lambda>v. str_list (ensure_list v))) (\<lambda>re.
     Option.bind (field_or kvs ''completion_criteria'' [] (\<lambda>v. str_list (ensure_list v))) (\<lambda>cc.
     Option.bind (field_or kvs ''depends_on'' [] (\<lambda>v. str_list (normalize_dependencies v))) (\<lambda>dp.
       Some \<lparr>pt_id = i, pt_objective = ob, pt_required_evidence = re,
             pt_completion_criteria = cc, pt_depends_on = dp\<rparr>)))))"
| "validate_plan_task _ = None"

fun validate_plan :: "json \<Rightarrow> exec_plan option" where
  "validate_plan (JObj kvs) =
     Option.bind (required_field kvs ''goal'' str_field) (\<lambda>g.
     Option.bind (required_field kvs ''tasks'' (\<lambda>v. case v of JList xs \<Rightarrow>
         if xs = [] then None else all_some (map validate_plan_task xs) | _ \<Rightarrow> None)) (\<lambda>ts.
       Some \<lparr>pl_goal = g, pl_tasks = ts\<rparr>))"
| "validate_plan _ = None"

lemma validate_plan_tasks_nonempty: "validate_plan v = Some p \<Longrightarrow> pl_tasks p \<noteq> []"
  by (cases v) (auto simp: required_field_def bind_eq_Some_conv
      split: option.splits json.splits if_splits dest!: all_some_length)

section \<open>Worker results\<close>

record claim =
  cl_id :: "string option"
  cl_text :: string
  cl_evidence_ids :: "string list"
  cl_uncertainty :: "string option"
  cl_requires_current :: bool

record worker_result =
  wr_answer :: string
  wr_claims :: "claim list"
  wr_assumptions :: "string list"
  wr_missing_information :: "string list"
  wr_confidence :: rat

fun evidence_id_item :: "json \<Rightarrow> string option" where
  "evidence_id_item (JStr s) = Some s"
| "evidence_id_item (JInt i) = Some (show_int i)"
| "evidence_id_item _ = None"

fun normalize_evidence_ids :: "json \<Rightarrow> string list option" where
  "normalize_evidence_ids JNull = Some []"
| "normalize_evidence_ids (JStr s) = Some [s]"
| "normalize_evidence_ids (JInt i) = Some [show_int i]"
| "normalize_evidence_ids (JList xs) = all_some (map evidence_id_item xs)"
| "normalize_evidence_ids _ = None"

fun normalize_string_list :: "json \<Rightarrow> string list option" where
  "normalize_string_list JNull = Some []"
| "normalize_string_list (JStr s) = Some [s]"
| "normalize_string_list (JList xs) = all_some (map str_field xs)"
| "normalize_string_list _ = None"

fun validate_claim :: "pydantic \<Rightarrow> json \<Rightarrow> claim option" where
  "validate_claim py (JObj kvs) =
     Option.bind (field_or kvs ''claim_id'' None opt_str_field) (\<lambda>i.
     Option.bind (required_field kvs ''text'' str_field) (\<lambda>t.
     Option.bind (field_or kvs ''evidence_ids'' [] normalize_evidence_ids) (\<lambda>ev.
     Option.bind (field_or kvs ''uncertainty'' None opt_str_field) (\<lambda>u.
     Option.bind (field_or kvs ''requires_current_evidence'' False (lax_bool py)) (\<lambda>rc.
       Some \<lparr>cl_id = i, cl_text = t, cl_evidence_ids = ev, cl_uncertainty = u,
             cl_requires_current = rc\<rparr>)))))"
| "validate_claim py _ = None"

fun validate_worker_result :: "pydantic \<Rightarrow> json \<Rightarrow> worker_result option" where
  "validate_worker_result py (JObj kvs) =
     Option.bind (required_field kvs ''answer'' str_field) (\<lambda>a.
     Option.bind (field_or kvs ''claims'' [] (\<lambda>v. case v of JList xs \<Rightarrow>
         all_some (map (validate_claim py) xs) | _ \<Rightarrow> None)) (\<lambda>cs.
     Option.bind (field_or kvs ''assumptions'' [] normalize_string_list) (\<lambda>ass.
     Option.bind (field_or kvs ''missing_information'' [] normalize_string_list) (\<lambda>mi.
     Option.bind (field_or kvs ''confidence'' (1 / 2) (unit_interval py)) (\<lambda>cf.
       Some \<lparr>wr_answer = a, wr_claims = cs, wr_assumptions = ass,
             wr_missing_information = mi, wr_confidence = cf\<rparr>)))))"
| "validate_worker_result py _ = None"

section \<open>Verification reports\<close>

datatype verdict = Pass | Revise | Research | Replan | Terminate
datatype severity = Low | Medium | High

record issue =
  is_code :: string
  is_description :: string
  is_severity :: severity
  is_claim_id :: "string option"
  is_evidence_ids :: "string list"

record verification =
  ve_verdict :: verdict
  ve_task_complete :: bool
  ve_issues :: "issue list"
  ve_required_actions :: "string list"
  ve_confidence :: rat

record final_verification =
  fv_pass :: bool
  fv_answer_complete :: bool
  fv_issues :: "issue list"
  fv_required_actions :: "string list"
  fv_confidence :: rat

fun verdict_field :: "json \<Rightarrow> verdict option" where
  "verdict_field (JStr s) =
     (if s = ''pass'' then Some Pass else if s = ''revise'' then Some Revise
      else if s = ''research'' then Some Research else if s = ''replan'' then Some Replan
      else if s = ''terminate'' then Some Terminate else None)"
| "verdict_field _ = None"

fun severity_field :: "json \<Rightarrow> severity option" where
  "severity_field (JStr s) =
     (if s = ''low'' then Some Low else if s = ''medium'' then Some Medium
      else if s = ''high'' then Some High else None)"
| "severity_field _ = None"

fun validate_issue :: "json \<Rightarrow> issue option" where
  "validate_issue (JObj kvs) =
     Option.bind (required_field kvs ''code'' str_field) (\<lambda>c.
     Option.bind (required_field kvs ''description'' str_field) (\<lambda>d.
     Option.bind (field_or kvs ''severity'' Medium severity_field) (\<lambda>sv.
     Option.bind (field_or kvs ''claim_id'' None opt_str_field) (\<lambda>i.
     Option.bind (field_or kvs ''evidence_ids'' [] str_list) (\<lambda>ev.
       Some \<lparr>is_code = c, is_description = d, is_severity = sv, is_claim_id = i,
             is_evidence_ids = ev\<rparr>)))))"
| "validate_issue _ = None"

definition validate_issues :: "json \<Rightarrow> issue list option" where
  "validate_issues v = (case v of JList xs \<Rightarrow> all_some (map validate_issue xs) | _ \<Rightarrow> None)"

fun validate_verification :: "pydantic \<Rightarrow> json \<Rightarrow> verification option" where
  "validate_verification py (JObj kvs) =
     Option.bind (required_field kvs ''verdict'' verdict_field) (\<lambda>vd.
     Option.bind (required_field kvs ''task_complete'' (lax_bool py)) (\<lambda>tc.
     Option.bind (field_or kvs ''issues'' [] validate_issues) (\<lambda>iss.
     Option.bind (field_or kvs ''required_actions'' [] str_list) (\<lambda>ra.
     Option.bind (field_or kvs ''confidence'' (1 / 2) (unit_interval py)) (\<lambda>cf.
       Some \<lparr>ve_verdict = vd, ve_task_complete = tc, ve_issues = iss,
             ve_required_actions = ra, ve_confidence = cf\<rparr>)))))"
| "validate_verification py _ = None"

text \<open>\<open>pass_requires_complete\<close> refuses a pass verdict on an incomplete answer.\<close>

fun final_verdict_field :: "json \<Rightarrow> bool option" where
  "final_verdict_field (JStr s) =
     (if s = ''pass'' then Some True else if s = ''revise'' then Some False else None)"
| "final_verdict_field _ = None"

definition pass_requires_complete :: "final_verification \<Rightarrow> final_verification option" where
  "pass_requires_complete r = (if fv_pass r \<and> \<not> fv_answer_complete r then None else Some r)"

fun validate_final_verification :: "pydantic \<Rightarrow> json \<Rightarrow> final_verification option" where
  "validate_final_verification py (JObj kvs) =
     Option.bind (required_field kvs ''verdict'' final_verdict_field) (\<lambda>ps.
     Option.bind (required_field kvs ''answer_complete'' (lax_bool py)) (\<lambda>ac.
     Option.bind (field_or kvs ''issues'' [] validate_issues) (\<lambda>iss.
     Option.bind (field_or kvs ''required_actions'' [] str_list) (\<lambda>ra.
     Option.bind (field_or kvs ''confidence'' (1 / 2) (unit_interval py)) (\<lambda>cf.
       pass_requires_complete \<lparr>fv_pass = ps, fv_answer_complete = ac, fv_issues = iss,
             fv_required_actions = ra, fv_confidence = cf\<rparr>)))))"
| "validate_final_verification py _ = None"

lemma validate_final_pass_complete:
  "validate_final_verification py v = Some r \<Longrightarrow> fv_pass r \<Longrightarrow> fv_answer_complete r"
  by (cases v) (auto simp: pass_requires_complete_def bind_eq_Some_conv split: if_splits)

end
