(* ===== verification/Evidence.thy ===== *)
theory Evidence
  imports Schemas "HOL-Library.Product_Lexorder"
begin

text \<open>
  Evidence records and their services: \<open>src/app/schemas/evidence.py\<close>,
  \<open>src/app/services/evidence.py\<close>. The URL functions of \<open>urllib.parse\<close> (whose percent codec
  works on UTF-8 bytes), \<open>datetime.fromisoformat\<close> and SHA-256 are the parameter \<open>text_env\<close>;
  the theorems hold for every choice of them.
\<close>

section \<open>Evidence items\<close>

datatype trust = RetrievedExternal | UserSupplied | InternalSystem | DerivedSummary
  | ToolError | UnknownLegacy
datatype freshness = Current | Stale | FreshnessUnknown | NotTimeSensitive
datatype source_quality = PrimaryAuthoritative | PrimaryNonAuthoritative | SecondaryReputable
  | SecondaryUnknown | QualityUserSupplied | Unverifiable | QualityUnknown
datatype injection_scan = NotScanned | Clean | Suspicious | Blocked
datatype tool_status = Success | Failed | TimedOut | NotApplicable | StatusUnknown

record evidence =
  ev_id :: string
  ev_run_id :: string
  ev_task_id :: string
  ev_query_id :: "string option"
  ev_tool_name :: "string option"
  ev_source_uri :: "string option"
  ev_canonical_uri :: "string option"
  ev_source_title :: "string option"
  ev_retrieved_at :: time
  ev_published_at :: "time option"
  ev_content_type :: string
  ev_raw_artifact_uri :: "string option"
  ev_text :: string
  ev_summary :: string
  ev_content_hash :: string
  ev_trust :: trust
  ev_freshness :: freshness
  ev_quality :: source_quality
  ev_scan :: injection_scan
  ev_truncated :: bool
  ev_tool_status :: tool_status
  ev_eligible :: bool
  ev_metadata :: jobj

record url_parts =
  url_scheme :: string
  url_netloc :: string
  url_hostname :: "string option"
  url_port :: "int option option" \<comment> \<open>\<open>None\<close>: reading it raises \<open>ValueError\<close>\<close>
  url_path :: string
  url_query :: string

record text_env =
  urlsplit :: "string \<Rightarrow> url_parts option" \<comment> \<open>\<open>None\<close>: \<open>ValueError\<close>\<close>
  parse_qsl :: "string \<Rightarrow> (string \<times> string) list"
  urlencode :: "(string \<times> string) list \<Rightarrow> string"
  urlunsplit :: "string \<Rightarrow> string \<Rightarrow> string \<Rightarrow> string \<Rightarrow> string"
  fromisoformat :: "string \<Rightarrow> time option" \<comment> \<open>in UTC; \<open>None\<close>: \<open>ValueError\<close>\<close>
  sha256 :: "string \<Rightarrow> string"

text \<open>The model validator \<open>enforce_non_supporting_failures\<close> every item passes.\<close>

definition enforce_evidence :: "text_env \<Rightarrow> evidence \<Rightarrow> evidence" where
  "enforce_evidence env e =
     (let e1 = (if ev_summary e = [] then e\<lparr>ev_summary := ev_text e\<rparr> else e);
          e2 = (if ev_content_hash e1 = []
                then e1\<lparr>ev_content_hash := sha256 env (ev_text e1)\<rparr> else e1);
          e3 = (if ev_trust e2 \<in> {ToolError, UserSupplied, UnknownLegacy}
                then e2\<lparr>ev_eligible := False\<rparr> else e2)
      in if ev_tool_status e3 \<in> {Failed, TimedOut} then e3\<lparr>ev_eligible := False\<rparr> else e3)"

lemma enforce_evidence_sel [simp]:
  "ev_id (enforce_evidence env e) = ev_id e"
  "ev_run_id (enforce_evidence env e) = ev_run_id e"
  "ev_task_id (enforce_evidence env e) = ev_task_id e"
  "ev_text (enforce_evidence env e) = ev_text e"
  "ev_trust (enforce_evidence env e) = ev_trust e"
  "ev_tool_status (enforce_evidence env e) = ev_tool_status e"
  "ev_freshness (enforce_evidence env e) = ev_freshness e"
  "ev_metadata (enforce_evidence env e) = ev_metadata e"
  "ev_canonical_uri (enforce_evidence env e) = ev_canonical_uri e"
  by (simp_all add: enforce_evidence_def Let_def)

text \<open>What may support a claim: the record is eligible only if it was retrieved successfully.\<close>

definition eligibility_sound :: "evidence \<Rightarrow> bool" where
  "eligibility_sound e \<longleftrightarrow> (ev_eligible e \<longrightarrow>
     ev_trust e \<notin> {ToolError, UserSupplied, UnknownLegacy} \<and>
     ev_tool_status e \<notin> {Failed, TimedOut})"

lemma enforce_evidence_sound [simp]: "eligibility_sound (enforce_evidence env e)"
  by (auto simp: enforce_evidence_def eligibility_sound_def Let_def)

lemma eligible_enforce_iff:
  "ev_eligible (enforce_evidence env e) \<longleftrightarrow>
     ev_eligible e \<and> ev_trust e \<notin> {ToolError, UserSupplied, UnknownLegacy} \<and>
     ev_tool_status e \<notin> {Failed, TimedOut}"
  by (auto simp: enforce_evidence_def Let_def)

lemma enforce_evidence_eligible: "ev_eligible (enforce_evidence env e) \<Longrightarrow> ev_eligible e"
  by (auto simp: enforce_evidence_def Let_def split: if_splits)

definition evidence_source :: "evidence \<Rightarrow> string" where
  "evidence_source e =
     (case filter (\<lambda>s. s \<noteq> []) [case_option [] id (ev_source_title e),
             case_option [] id (ev_tool_name e), case_option [] id (ev_source_uri e)] of
        [] \<Rightarrow> ''unknown'' | s # _ \<Rightarrow> s)"

section \<open>Addresses, freshness, text\<close>

definition tracking_parameters :: "string list" where
  "tracking_parameters =
     [''fbclid'', ''gclid'', ''mc_cid'', ''mc_eid'', ''ref'', ''source'', ''utm_campaign'',
      ''utm_content'', ''utm_medium'', ''utm_source'', ''utm_term'']"

definition nonempty_or_none :: "string \<Rightarrow> string option" where
  "nonempty_or_none s = (if s = [] then None else Some s)"

text \<open>
  \<open>canonicalize_uri\<close>. Only \<open>urlsplit\<close> is inside the \<open>try\<close>: reading \<open>parsed.port\<close> of an
  address with an invalid port raises to the caller.
\<close>

definition canonicalize_uri :: "text_env \<Rightarrow> string option \<Rightarrow> string option result" where
  "canonicalize_uri env u =
     (case u of None \<Rightarrow> Inr None
      | Some uri \<Rightarrow>
        if uri = [] then Inr None
        else case urlsplit env (strip uri) of
          None \<Rightarrow> Inr (nonempty_or_none (strip uri))
        | Some p \<Rightarrow>
          if url_scheme p = [] \<or> url_netloc p = [] then Inr (nonempty_or_none (strip uri))
          else
            let host = (case url_hostname p of Some h \<Rightarrow> lower h | None \<Rightarrow> []) in
            case url_port p of
              None \<Rightarrow> Inl (ValueError ''invalid port'')
            | Some port \<Rightarrow>
              let host' = (case port of None \<Rightarrow> host
                   | Some n \<Rightarrow>
                       if n \<noteq> 0 \<and> \<not> (url_scheme p = ''http'' \<and> n = 80
                                   \<or> url_scheme p = ''https'' \<and> n = 443)
                       then host @ '':'' @ show_int n else host);
                  query = urlencode env (sort (filter
                     (\<lambda>kv. lower (fst kv) \<notin> set tracking_parameters) (parse_qsl env (url_query p))));
                  path = (if url_path p = [] then ''/'' else url_path p)
              in Inr (Some (urlunsplit env (lower (url_scheme p)) host' path query)))"

definition source_quality_for_uri :: "text_env \<Rightarrow> string option \<Rightarrow> source_quality" where
  "source_quality_for_uri env u =
     (case u of None \<Rightarrow> SecondaryUnknown
      | Some uri \<Rightarrow>
        if uri = [] then SecondaryUnknown
        else case urlsplit env uri of
          None \<Rightarrow> SecondaryUnknown
        | Some p \<Rightarrow>
          let host = lower (case url_hostname p of Some h \<Rightarrow> h | None \<Rightarrow> []) in
          if ends_with ''.gov'' host \<or> host \<in> {''who.int'', ''un.org''} then PrimaryAuthoritative
          else if ends_with ''.edu'' host then PrimaryNonAuthoritative
          else SecondaryUnknown)"

definition freshness_tokens :: "string list" where
  "freshness_tokens =
     [''current'', ''latest'', ''today'', ''tomorrow'', ''weather'', ''news'', ''score'',
      ''schedule'', ''price'', ''president'', ''ceo'']"

definition day :: time where
  "day = 86400 * 1000000"

definition freshness_for_result :: "time option \<Rightarrow> string \<Rightarrow> time \<Rightarrow> freshness" where
  "freshness_for_result published query retrieved =
     (let lowered = lower query in
      if \<not> (\<exists>t\<in>set freshness_tokens. occurs_in t lowered) then NotTimeSensitive
      else case published of
        None \<Rightarrow> FreshnessUnknown
      | Some p \<Rightarrow>
          let maximum_age = (if occurs_in ''weather'' lowered \<or> occurs_in ''today'' lowered
                             then day else 7 * day)
          in if retrieved - p \<le> maximum_age then Current else Stale)"

fun parse_datetime :: "text_env \<Rightarrow> json \<Rightarrow> time option" where
  "parse_datetime env (JStr s) = (if strip s = [] then None else fromisoformat env (strip s))"
| "parse_datetime env _ = None"

text \<open>\<open>normalize_text\<close>: NUL and runs of white space become one blank; cut at \<open>max_chars\<close>.\<close>

definition normalize_text :: "nat \<Rightarrow> json \<Rightarrow> string \<times> bool" where
  "normalize_text max_chars v =
     (let text = (case v of JStr s \<Rightarrow> s | _ \<Rightarrow> json_dumps_sorted v);
          flat = compact (map (\<lambda>c. if c = char_of (0 :: nat) then CHR '' '' else c) text)
      in (take max_chars flat, max_chars < length flat))"

definition injection_patterns :: "string list" where
  "injection_patterns =
     [''ignore previous instructions'', ''ignore all previous instructions'',
      ''ignore any previous instructions'', ''ignore the previous instructions'',
      ''ignore your previous instructions'', ''system prompt'', ''developer message'',
      ''you are now'', ''call this tool'', ''call the tool'']"

definition scan_for_prompt_injection :: "string \<Rightarrow> injection_scan" where
  "scan_for_prompt_injection text =
     (if \<exists>p\<in>set injection_patterns. occurs_in p (lower text) then Suspicious else Clean)"

section \<open>Searching a tool's answer\<close>

text \<open>\<open>_first_named_value\<close> and \<open>_first_uri\<close>: this object's own keys first, then its values.\<close>

fun first_named_value :: "string list \<Rightarrow> json \<Rightarrow> json"
  and first_named_in_list :: "string list \<Rightarrow> json list \<Rightarrow> json"
  and first_named_in_fields :: "string list \<Rightarrow> (string \<times> json) list \<Rightarrow> json" where
  "first_named_value ks (JObj kvs) =
     (case find (\<lambda>v. \<not> is_none_or_empty v) (map (jget kvs) ks) of
        Some v \<Rightarrow> v | None \<Rightarrow> first_named_in_fields ks kvs)"
| "first_named_value ks (JList xs) = first_named_in_list ks xs"
| "first_named_value ks _ = JNull"
| "first_named_in_list ks [] = JNull"
| "first_named_in_list ks (x # xs) =
     (let c = first_named_value ks x in
      if is_none_or_empty c then first_named_in_list ks xs else c)"
| "first_named_in_fields ks [] = JNull"
| "first_named_in_fields ks ((k, v) # kvs) =
     (let c = first_named_value ks v in
      if is_none_or_empty c then first_named_in_fields ks kvs else c)"

fun uri_candidate :: "json \<Rightarrow> bool" where
  "uri_candidate (JStr s) = (strip s \<noteq> [])"
| "uri_candidate _ = False"

fun first_uri :: "json \<Rightarrow> string option"
  and first_uri_in_list :: "json list \<Rightarrow> string option"
  and first_uri_in_fields :: "(string \<times> json) list \<Rightarrow> string option" where
  "first_uri (JObj kvs) =
     (case find uri_candidate (map (jget kvs) [''url'', ''uri'', ''source_uri'', ''link'']) of
        Some v \<Rightarrow> Some (py_str v) | None \<Rightarrow> first_uri_in_fields kvs)"
| "first_uri (JList xs) = first_uri_in_list xs"
| "first_uri _ = None"
| "first_uri_in_list [] = None"
| "first_uri_in_list (x # xs) =
     (case first_uri x of Some u \<Rightarrow> Some u | None \<Rightarrow> first_uri_in_list xs)"
| "first_uri_in_fields [] = None"
| "first_uri_in_fields ((k, v) # kvs) =
     (case first_uri v of Some u \<Rightarrow> Some u | None \<Rightarrow> first_uri_in_fields kvs)"

section \<open>Building evidence\<close>

text \<open>Optional text from a value found in a tool's answer: \<open>str(v) if v else None\<close>.\<close>

definition text_if_truthy :: "json \<Rightarrow> string option" where
  "text_if_truthy v = (if truthy v then Some (py_str v) else None)"

definition metadata_payload :: "json \<Rightarrow> jobj" where
  "metadata_payload item = (case item of JObj kvs \<Rightarrow> kvs | v \<Rightarrow> [(''content'', v)])"

definition user_evidence ::
  "text_env \<Rightarrow> string \<Rightarrow> string \<Rightarrow> time \<Rightarrow> nat \<Rightarrow> json \<Rightarrow> evidence" where
  "user_evidence env run task now index item =
     (let payload = metadata_payload item;
          (text, truncated) = normalize_text 12000
             (case map_of payload ''content'' of Some v \<Rightarrow> v | None \<Rightarrow> JObj payload);
          i = (if truthy (jget payload ''id'') then py_str (jget payload ''id'')
               else if truthy (jget payload ''evidence_id'') then py_str (jget payload ''evidence_id'')
               else ''user-'' @ show_nat index)
      in enforce_evidence env
           \<lparr>ev_id = i, ev_run_id = run, ev_task_id = task, ev_query_id = None,
            ev_tool_name = None, ev_source_uri = None, ev_canonical_uri = None,
            ev_source_title = Some ''request_metadata'', ev_retrieved_at = now,
            ev_published_at = None, ev_content_type = ''text/plain'', ev_raw_artifact_uri = None,
            ev_text = text, ev_summary = text, ev_content_hash = sha256 env text,
            ev_trust = UserSupplied, ev_freshness = FreshnessUnknown, ev_quality = QualityUnknown,
            ev_scan = scan_for_prompt_injection text, ev_truncated = truncated,
            ev_tool_status = NotApplicable, ev_eligible = False,
            ev_metadata = filter (\<lambda>kv. fst kv \<notin> {''id'', ''evidence_id'', ''source'', ''content''})
                            payload\<rparr>)"

fun user_evidence_from ::
  "text_env \<Rightarrow> string \<Rightarrow> string \<Rightarrow> time \<Rightarrow> nat \<Rightarrow> json list \<Rightarrow> evidence list" where
  "user_evidence_from env run task now index [] = []"
| "user_evidence_from env run task now index (item # items) =
     user_evidence env run task now index item
     # user_evidence_from env run task now (Suc index) items"

definition evidence_from_metadata ::
  "text_env \<Rightarrow> jobj \<Rightarrow> string \<Rightarrow> string \<Rightarrow> time \<Rightarrow> evidence list" where
  "evidence_from_metadata env metadata run task now =
     user_evidence_from env run task now 1 (list_items (jget metadata ''evidence''))"

record tool_result =
  tr_tool :: string
  tr_ok :: bool
  tr_data :: json
  tr_error :: "string option"

definition evidence_from_tool_result ::
  "text_env \<Rightarrow> tool_result \<Rightarrow> string \<Rightarrow> string \<Rightarrow> string \<Rightarrow> string option \<Rightarrow> string \<Rightarrow> string
   \<Rightarrow> time \<Rightarrow> evidence result" where
  "evidence_from_tool_result env r evid run task qid tool query now =
     (let ok = tr_ok r; data = tr_data r;
          payload = (if ok then data
                     else case tr_error r of
                         Some e \<Rightarrow> JStr (if e = [] then ''tool request failed'' else e)
                       | None \<Rightarrow> JStr ''tool request failed'');
          (text, truncated) = normalize_text 12000 payload;
          uri = first_uri data
      in bind_result (canonicalize_uri env uri) (\<lambda>canonical.
         let published = parse_datetime env (first_named_value
                [''published_at'', ''published'', ''date_published'', ''date''] data);
             title = first_named_value [''title'', ''source_title'', ''name''] data;
             artifact = first_named_value [''raw_artifact_uri'', ''artifact_uri'', ''object_uri''] data
         in Inr (enforce_evidence env
              \<lparr>ev_id = evid, ev_run_id = run, ev_task_id = task, ev_query_id = qid,
               ev_tool_name = Some tool, ev_source_uri = uri, ev_canonical_uri = canonical,
               ev_source_title = Some (if truthy title then py_str title else tool),
               ev_retrieved_at = now, ev_published_at = published,
               ev_content_type = ''text/plain'', ev_raw_artifact_uri = text_if_truthy artifact,
               ev_text = text, ev_summary = text, ev_content_hash = sha256 env text,
               ev_trust = (if ok then RetrievedExternal else ToolError),
               ev_freshness = (if ok then freshness_for_result published query now
                               else FreshnessUnknown),
               ev_quality = (if ok then source_quality_for_uri env uri else Unverifiable),
               ev_scan = scan_for_prompt_injection text, ev_truncated = truncated,
               ev_tool_status = (if ok then Success else Failed), ev_eligible = ok,
               ev_metadata = [(''query'', JStr query)]\<rparr>)))"

text \<open>\<open>retrieved_evidence\<close>, the public helper for one successful retrieved value.\<close>

definition retrieved_evidence ::
  "text_env \<Rightarrow> string \<Rightarrow> string \<Rightarrow> json \<Rightarrow> json \<Rightarrow> bool \<Rightarrow> string \<Rightarrow> string \<Rightarrow> string option
   \<Rightarrow> string \<Rightarrow> time \<Rightarrow> evidence result" where
  "retrieved_evidence env evid tool raw content truncated run task qid query now =
     (let (normalized, normalized_truncated) = normalize_text 12000 content;
          uri = first_uri raw
      in bind_result (canonicalize_uri env uri) (\<lambda>canonical.
         let published = parse_datetime env (first_named_value
                [''published_at'', ''published'', ''date_published'', ''date''] raw);
             title = first_named_value [''title'', ''source_title'', ''name''] raw;
             ctype = first_named_value [''content_type'', ''mime_type'', ''media_type''] raw;
             artifact = first_named_value [''raw_artifact_uri'', ''artifact_uri'', ''object_uri''] raw
         in Inr (enforce_evidence env
              \<lparr>ev_id = evid, ev_run_id = run, ev_task_id = task, ev_query_id = qid,
               ev_tool_name = Some tool, ev_source_uri = uri, ev_canonical_uri = canonical,
               ev_source_title = Some (if truthy title then py_str title else tool),
               ev_retrieved_at = now, ev_published_at = published,
               ev_content_type = (if truthy ctype then py_str ctype else ''text/plain''),
               ev_raw_artifact_uri = text_if_truthy artifact,
               ev_text = normalized, ev_summary = normalized,
               ev_content_hash = sha256 env normalized, ev_trust = RetrievedExternal,
               ev_freshness = freshness_for_result published query now,
               ev_quality = source_quality_for_uri env uri,
               ev_scan = scan_for_prompt_injection normalized,
               ev_truncated = (truncated \<or> normalized_truncated),
               ev_tool_status = Success, ev_eligible = True,
               ev_metadata = (if query = [] then [] else [(''query'', JStr query)])\<rparr>)))"

section \<open>Deduplication\<close>

definition evidence_key :: "evidence \<Rightarrow> string \<times> string" where
  "evidence_key e = (case_option [] id (ev_canonical_uri e), ev_content_hash e)"

fun dedup_evidence_from :: "(string \<times> string) list \<Rightarrow> evidence list \<Rightarrow> evidence list" where
  "dedup_evidence_from seen [] = []"
| "dedup_evidence_from seen (e # es) =
     (if evidence_key e \<in> set seen then dedup_evidence_from seen es
      else e # dedup_evidence_from (evidence_key e # seen) es)"

definition deduplicate_evidence :: "evidence list \<Rightarrow> evidence list" where
  "deduplicate_evidence es = dedup_evidence_from [] es"

lemma dedup_evidence_subset: "set (dedup_evidence_from seen es) \<subseteq> set es"
  by (induction es arbitrary: seen) auto

lemma dedup_evidence_keys:
  "evidence_key ` set (dedup_evidence_from seen es) = evidence_key ` set es - set seen"
  by (induction es arbitrary: seen) auto

lemma dedup_evidence_distinct: "distinct (map evidence_key (dedup_evidence_from seen es))"
proof (induction es arbitrary: seen)
  case (Cons e es)
  have "evidence_key e \<notin> evidence_key ` set (dedup_evidence_from (evidence_key e # seen) es)"
    by (simp add: dedup_evidence_keys)
  with Cons show ?case by simp
qed simp

section \<open>What evidence can support a claim\<close>

text \<open>A concrete environment and record, the inputs of the witnesses.\<close>

definition sample_env :: text_env where
  "sample_env = \<lparr>urlsplit = \<lambda>_. None, parse_qsl = \<lambda>_. [], urlencode = \<lambda>_. [],
     urlunsplit = \<lambda>_ _ _ _. [], fromisoformat = \<lambda>_. None, sha256 = id\<rparr>"

definition sample_evidence :: evidence where
  "sample_evidence =
     \<lparr>ev_id = ''e1'', ev_run_id = ''r'', ev_task_id = ''t1'', ev_query_id = None,
      ev_tool_name = Some ''web_search'', ev_source_uri = None, ev_canonical_uri = None,
      ev_source_title = None, ev_retrieved_at = 0, ev_published_at = None,
      ev_content_type = ''text/plain'', ev_raw_artifact_uri = None, ev_text = ''fact'',
      ev_summary = ''fact'', ev_content_hash = ''fact'', ev_trust = RetrievedExternal,
      ev_freshness = Current, ev_quality = SecondaryUnknown, ev_scan = Clean,
      ev_truncated = False, ev_tool_status = Success, ev_eligible = True, ev_metadata = []\<rparr>"

lemma user_evidence_not_eligible: "\<not> ev_eligible (user_evidence env run task now index item)"
  by (simp add: user_evidence_def Let_def eligible_enforce_iff split: prod.splits)

lemma user_evidence_from_not_eligible:
  "e \<in> set (user_evidence_from env run task now index items) \<Longrightarrow> \<not> ev_eligible e"
  by (induction items arbitrary: index) (auto simp: user_evidence_not_eligible)

lemma tool_evidence_fields:
  assumes "evidence_from_tool_result env r evid run task qid tool query now = Inr e"
  shows "ev_id e = evid \<and> ev_run_id e = run \<and> ev_task_id e = task
    \<and> ev_trust e = (if tr_ok r then RetrievedExternal else ToolError)
    \<and> ev_tool_status e = (if tr_ok r then Success else Failed) \<and> eligibility_sound e"
  using assms
  by (auto simp: evidence_from_tool_result_def bind_result_Inr_iff Let_def split: prod.splits)

lemma tool_evidence_eligible:
  assumes "evidence_from_tool_result env r evid run task qid tool query now = Inr e"
  shows "ev_eligible e \<longleftrightarrow> tr_ok r"
  using assms
  by (auto simp: evidence_from_tool_result_def bind_result_Inr_iff Let_def eligible_enforce_iff
      split: prod.splits)

text \<open>
  Caller-supplied metadata never becomes evidence that may support a claim, whatever
  labels it carries: every record read from it is user supplied and not eligible.
\<close>

theorem metadata_evidence_never_supports:
  "\<forall>e\<in>set (evidence_from_metadata env metadata run task now).
     \<not> ev_eligible e \<and> eligibility_sound e"
  using user_evidence_from_not_eligible
  by (auto simp: evidence_from_metadata_def eligibility_sound_def)

theorem metadata_evidence_never_supports_witness:
  "length (evidence_from_metadata sample_env [(''evidence'', JList [JObj [(''content'', JStr ''x''),
              (''eligible_for_claim_support'', JBool True)]])] ''r'' ''t'' 0) = 1
   \<and> \<not> ev_eligible (hd (evidence_from_metadata sample_env [(''evidence'', JList [JObj
        [(''content'', JStr ''x''), (''eligible_for_claim_support'', JBool True)]])] ''r'' ''t'' 0))"
    (is "length ?es = 1 \<and> \<not> ev_eligible (hd ?es)")
proof -
  have one: "length ?es = 1"
    by (simp add: evidence_from_metadata_def jget_def)
  then have "hd ?es \<in> set ?es" by (intro hd_in_set) auto
  with metadata_evidence_never_supports one show ?thesis by blast
qed

text \<open>
  C28: deduplication keeps exactly one record per pair of canonical address and content hash:
  the result's keys are distinct, are the keys of the input, and its records come from it.
\<close>

theorem deduplicate_evidence_correct:
  "distinct (map evidence_key (deduplicate_evidence es))
   \<and> evidence_key ` set (deduplicate_evidence es) = evidence_key ` set es
   \<and> set (deduplicate_evidence es) \<subseteq> set es"
  using dedup_evidence_distinct dedup_evidence_keys dedup_evidence_subset
  by (simp add: deduplicate_evidence_def)

end
