(* ===== verification/Config.thy ===== *)
theory Config
  imports Json
begin

text \<open>
  Application settings, \<open>src/app/settings.py\<close>: the fields with their defaults, the field
  bounds pydantic enforces (floats as rationals), the cross-field checks of \<open>validate_runtime_settings\<close>, and the
  role-to-model catalogue. Reading the environment and \<open>.env\<close> is pydantic-settings' work and
  is not modelled; a \<open>settings\<close> value is what it produced.
\<close>

datatype llm_backend = Echo | Ollama
datatype history_backend = MemoryHistory | RedisHistory | PostgresHistory
datatype run_backend = MemoryRuns | PostgresRuns
datatype artifact_backend = NoArtifacts | MinioArtifacts
datatype conversation_policy = RejectSecond

record settings =
  app_name :: string
  environment :: string
  log_level :: string
  api_key :: string
  cors_allow_origins :: string
  default_system_prompt :: string
  resume_token_secret :: string
  resume_token_ttl_seconds :: int
  resume_token_active_key_id :: string
  resume_token_keys_json :: string
  run_checkpoint_namespace :: string
  run_state_schema_version :: int
  run_request_hash_version :: int
  same_conversation_policy :: conversation_policy
  run_repository_backend :: run_backend
  run_lease_ttl_seconds :: int
  run_lease_heartbeat_seconds :: int
  llm_backend :: llm_backend
  ollama_base_url :: string
  ollama_model :: string
  ollama_temperature :: rat
  ollama_num_predict :: int
  ollama_num_ctx :: int
  structured_output_reserve_tokens :: int
  structured_prompt_chars_per_token :: rat
  ollama_think :: bool
  ollama_timeout_seconds :: rat
  ollama_connect_timeout_seconds :: rat
  ollama_pool_timeout_seconds :: rat
  ollama_max_connections :: int
  ollama_max_keepalive_connections :: int
  ollama_max_concurrency :: int
  ollama_heavy_max_concurrency :: int
  ollama_keep_alive :: string
  http_keepalive_expiry_seconds :: rat
  model_planner :: string
  model_simple :: string
  model_general :: string
  model_search :: string
  model_reasoning :: string
  model_fast_reasoning :: string
  model_heavy :: string
  model_synthesis :: string
  model_writer :: string
  model_classifier :: string
  model_vision :: string
  model_fallback :: string
  embedding_model :: string
  mcp_server_url :: string
  mcp_enabled :: bool
  mcp_verify_tls :: bool
  mcp_follow_redirects :: bool
  mcp_timeout_seconds :: rat
  mcp_connect_timeout_seconds :: rat
  mcp_read_timeout_seconds :: rat
  mcp_write_timeout_seconds :: rat
  mcp_pool_timeout_seconds :: rat
  mcp_max_connections :: int
  mcp_max_keepalive_connections :: int
  mcp_max_concurrency :: int
  mcp_session_enabled :: bool
  mcp_initialize_on_startup :: bool
  mcp_protocol_version :: string
  mcp_client_name :: string
  ollama_required :: bool
  mcp_required :: bool
  default_forecast_days :: int
  default_news_lookback_days :: int
  enable_llm_query_planning :: bool
  max_subqueries :: int
  max_tool_chars :: int
  session_history_messages :: int
  max_conversation_sessions :: int
  conversation_session_ttl_seconds :: int
  conversation_cleanup_interval_seconds :: int
  max_history_message_chars :: int
  inventory_cache_ttl_seconds :: int
  inventory_stale_if_error_seconds :: int
  agent_max_iterations :: int
  agent_max_research_rounds :: int
  agent_max_replans :: int
  agent_max_context_chars :: int
  research_max_queries_per_task :: int
  research_max_evidence_chars_per_query :: int
  execution_max_duration_seconds :: rat
  execution_max_model_calls :: int
  execution_max_tool_calls :: int
  execution_max_verifier_rounds :: int
  state_ttl_seconds :: int
  state_max_sessions :: int
  state_max_history_messages :: int
  side_effect_policy_enabled :: bool
  real_streaming_enabled :: bool
  detailed_tracing_enabled :: bool
  expose_internal_health_details :: bool
  state_backend :: history_backend
  checkpoint_backend :: run_backend
  artifact_backend :: artifact_backend
  database_url :: string
  postgres_pool_min_size :: int
  postgres_pool_max_size :: int
  postgres_command_timeout_seconds :: rat
  postgres_auto_setup :: bool
  redis_url :: string
  redis_key_prefix :: string
  redis_max_connections :: int
  minio_endpoint :: string
  minio_access_key :: string
  minio_secret_key :: string
  minio_bucket :: string
  minio_secure :: bool
  neo4j_enabled :: bool
  neo4j_uri :: string
  neo4j_username :: string
  neo4j_password :: string
  neo4j_database :: string
  neo4j_max_connection_pool_size :: int
  neo4j_connection_acquisition_timeout_seconds :: rat
  neo4j_connection_timeout_seconds :: rat
  neo4j_max_connection_lifetime_seconds :: rat
  neo4j_keep_alive :: bool
  persistence_required :: bool
  artifact_storage_required :: bool
  persistence_health_timeout_seconds :: rat
  final_verification_enabled :: bool
  final_max_revision_rounds :: int

text \<open>The bounds of the fields that have one.\<close>

definition between :: "int \<Rightarrow> int \<Rightarrow> int \<Rightarrow> bool" where
  "between lo hi x \<longleftrightarrow> lo \<le> x \<and> x \<le> hi"

definition field_bounds_ok :: "settings \<Rightarrow> bool" where
  "field_bounds_ok s \<longleftrightarrow>
     between 60 604800 (resume_token_ttl_seconds s) \<and>
     between 1 100 (int (length (resume_token_active_key_id s))) \<and>
     between 1 100 (int (length (run_checkpoint_namespace s))) \<and>
     between 1 1000 (run_state_schema_version s) \<and>
     between 1 1000 (run_request_hash_version s) \<and>
     between 5 3600 (run_lease_ttl_seconds s) \<and>
     between 1 1200 (run_lease_heartbeat_seconds s) \<and>
     0 \<le> ollama_temperature s \<and>
     ollama_temperature s \<le> 2 \<and>
     between (- 1) 131072 (ollama_num_predict s) \<and>
     between 2048 262144 (ollama_num_ctx s) \<and>
     between 256 32768 (structured_output_reserve_tokens s) \<and>
     1 \<le> structured_prompt_chars_per_token s \<and>
     structured_prompt_chars_per_token s \<le> 8 \<and>
     0 < ollama_timeout_seconds s \<and>
     0 < ollama_connect_timeout_seconds s \<and>
     0 < ollama_pool_timeout_seconds s \<and>
     between 1 1000 (ollama_max_connections s) \<and>
     between 0 1000 (ollama_max_keepalive_connections s) \<and>
     between 1 16 (ollama_max_concurrency s) \<and>
     between 1 4 (ollama_heavy_max_concurrency s) \<and>
     0 < http_keepalive_expiry_seconds s \<and>
     0 < mcp_timeout_seconds s \<and>
     0 < mcp_connect_timeout_seconds s \<and>
     0 < mcp_read_timeout_seconds s \<and>
     0 < mcp_write_timeout_seconds s \<and>
     0 < mcp_pool_timeout_seconds s \<and>
     between 1 1000 (mcp_max_connections s) \<and>
     between 0 1000 (mcp_max_keepalive_connections s) \<and>
     between 1 32 (mcp_max_concurrency s) \<and>
     between 1 14 (default_forecast_days s) \<and>
     between 1 90 (default_news_lookback_days s) \<and>
     between 1 20 (max_subqueries s) \<and>
     between 1000 200000 (max_tool_chars s) \<and>
     between 2 200 (session_history_messages s) \<and>
     between 1 100000 (max_conversation_sessions s) \<and>
     between 60 2592000 (conversation_session_ttl_seconds s) \<and>
     between 1 3600 (conversation_cleanup_interval_seconds s) \<and>
     between 100 100000 (max_history_message_chars s) \<and>
     between 1 3600 (inventory_cache_ttl_seconds s) \<and>
     between 0 86400 (inventory_stale_if_error_seconds s) \<and>
     between 1 10 (agent_max_iterations s) \<and>
     between 0 5 (agent_max_research_rounds s) \<and>
     between 0 3 (agent_max_replans s) \<and>
     between 2000 100000 (agent_max_context_chars s) \<and>
     between 1 8 (research_max_queries_per_task s) \<and>
     between 500 50000 (research_max_evidence_chars_per_query s) \<and>
     5 \<le> execution_max_duration_seconds s \<and>
     execution_max_duration_seconds s \<le> 1800 \<and>
     between 1 50 (execution_max_model_calls s) \<and>
     between 0 100 (execution_max_tool_calls s) \<and>
     between 1 10 (execution_max_verifier_rounds s) \<and>
     between 60 2592000 (state_ttl_seconds s) \<and>
     between 10 100000 (state_max_sessions s) \<and>
     between 2 500 (state_max_history_messages s) \<and>
     between 1 20 (postgres_pool_min_size s) \<and>
     between 1 100 (postgres_pool_max_size s) \<and>
     0 < postgres_command_timeout_seconds s \<and>
     postgres_command_timeout_seconds s \<le> 300 \<and>
     between 1 1000 (redis_max_connections s) \<and>
     between 1 1000 (neo4j_max_connection_pool_size s) \<and>
     0 < neo4j_connection_acquisition_timeout_seconds s \<and>
     neo4j_connection_acquisition_timeout_seconds s \<le> 300 \<and>
     0 < neo4j_connection_timeout_seconds s \<and>
     neo4j_connection_timeout_seconds s \<le> 300 \<and>
     0 < neo4j_max_connection_lifetime_seconds s \<and>
     neo4j_max_connection_lifetime_seconds s \<le> 86400 \<and>
     0 < persistence_health_timeout_seconds s \<and>
     persistence_health_timeout_seconds s \<le> 60 \<and>
     between 0 3 (final_max_revision_rounds s)"

text \<open>\<open>validate_runtime_settings\<close>: the cross-field checks, in the order of the code.\<close>

definition missing_neo4j :: "settings \<Rightarrow> string list" where
  "missing_neo4j s =
     map fst (filter (\<lambda>kv. strip (snd kv) = [])
       [(''NEO4J_URI'', neo4j_uri s), (''NEO4J_USERNAME'', neo4j_username s),
        (''NEO4J_PASSWORD'', neo4j_password s), (''NEO4J_DATABASE'', neo4j_database s)])"

definition validate_runtime_settings :: "settings \<Rightarrow> settings result" where
  "validate_runtime_settings s =
     (if run_lease_ttl_seconds s \<le> run_lease_heartbeat_seconds s
      then Inl (ValueError ''RUN_LEASE_HEARTBEAT_SECONDS must be less than RUN_LEASE_TTL_SECONDS'')
      else if postgres_pool_max_size s < postgres_pool_min_size s
      then Inl (ValueError
        ''POSTGRES_POOL_MIN_SIZE must be less than or equal to POSTGRES_POOL_MAX_SIZE'')
      else if neo4j_enabled s \<and> missing_neo4j s \<noteq> []
      then Inl (ValueError (''Neo4j is enabled but required settings are empty: ''
                             @ join '', '' (missing_neo4j s)))
      else if run_repository_backend s = PostgresRuns \<and>
              \<not> (strip (resume_token_keys_json s) \<noteq> [] \<or> strip (resume_token_secret s) \<noteq> []
                 \<or> strip (api_key s) \<noteq> [])
      then Inl (ValueError (''A persistent resume-token signing key is required when ''
                             @ ''RUN_REPOSITORY_BACKEND=postgres''))
      else Inr s)"

definition valid_settings :: "settings \<Rightarrow> bool" where
  "valid_settings s \<longleftrightarrow> field_bounds_ok s \<and> validate_runtime_settings s = Inr s"

section \<open>Derived settings\<close>

definition split_commas :: "string \<Rightarrow> string list" where
  "split_commas s = split_where (\<lambda>c. c = CHR '','') s"

definition cors_origins :: "settings \<Rightarrow> string list" where
  "cors_origins s =
     (let raw = strip (cors_allow_origins s) in
      if raw = ''*'' then [''*'']
      else map strip (filter (\<lambda>item. strip item \<noteq> []) (split_commas raw)))"

definition model_role_catalog :: "settings \<Rightarrow> (string \<times> string) list" where
  "model_role_catalog s =
     [(''planner'', model_planner s), (''simple'', model_simple s),
      (''general'', model_general s), (''search'', model_search s),
      (''reasoning'', model_reasoning s), (''fast_reasoning'', model_fast_reasoning s),
      (''heavy'', model_heavy s), (''synthesis'', model_synthesis s),
      (''writer'', model_writer s), (''classifier'', model_classifier s),
      (''vision'', model_vision s), (''fallback'', model_fallback s),
      (''embedding'', embedding_model s)]"

definition model_for_key :: "settings \<Rightarrow> string option \<Rightarrow> string" where
  "model_for_key s key =
     (let role = lower (strip (case key of None \<Rightarrow> ''general'' | Some k \<Rightarrow>
                                 if k = [] then ''general'' else k))
      in case map_of (model_role_catalog s) role of None \<Rightarrow> model_general s | Some m \<Rightarrow> m)"

definition persistence_enabled :: "settings \<Rightarrow> bool" where
  "persistence_enabled s \<longleftrightarrow>
     state_backend s \<noteq> MemoryHistory \<or> checkpoint_backend s \<noteq> MemoryRuns \<or>
     artifact_backend s \<noteq> NoArtifacts \<or> run_repository_backend s \<noteq> MemoryRuns \<or>
     neo4j_enabled s"

lemma valid_settings_lease:
  "valid_settings s \<Longrightarrow> run_lease_heartbeat_seconds s < run_lease_ttl_seconds s"
  by (auto simp: valid_settings_def validate_runtime_settings_def split: if_splits)

lemma valid_settings_bounds:
  assumes "valid_settings s"
  shows "1 \<le> execution_max_model_calls s" and "0 \<le> execution_max_tool_calls s"
    and "1 \<le> execution_max_verifier_rounds s" and "execution_max_verifier_rounds s \<le> 10"
    and "0 \<le> agent_max_replans s" and "agent_max_replans s \<le> 3"
    and "0 \<le> final_max_revision_rounds s" and "final_max_revision_rounds s \<le> 3"
    and "2 \<le> state_max_history_messages s" and "10 \<le> state_max_sessions s"
    and "1 \<le> research_max_queries_per_task s"
  using assms by (simp_all add: valid_settings_def field_bounds_ok_def between_def)

text \<open>The defaults of the class body, the value \<open>Settings()\<close> has in an empty environment.\<close>

definition default_settings :: settings where
  "default_settings =
     \<lparr>app_name = ''LangChain LangGraph App'', environment = ''local'',
      log_level = ''INFO'', api_key = [], cors_allow_origins = ''*'', default_system_prompt =
        ''You are a precise, evidence-grounded assistant. ''
        @ ''Be honest about uncertainty and missing tools.'', resume_token_secret = [],
      resume_token_ttl_seconds = 3600, resume_token_active_key_id = ''primary'',
      resume_token_keys_json = [], run_checkpoint_namespace = ''execution-state-v1'',
      run_state_schema_version = 1, run_request_hash_version = 1,
      same_conversation_policy = RejectSecond, run_repository_backend = MemoryRuns,
      run_lease_ttl_seconds = 30, run_lease_heartbeat_seconds = 10, llm_backend = Echo,
      ollama_base_url = ''http://host.docker.internal:11434'', ollama_model = ''qwen3.5:4b'',
      ollama_temperature = 1 / 5, ollama_num_predict = 2048, ollama_num_ctx = 8192,
      structured_output_reserve_tokens = 1536, structured_prompt_chars_per_token = 3,
      ollama_think = False, ollama_timeout_seconds = 180, ollama_connect_timeout_seconds = 10,
      ollama_pool_timeout_seconds = 30, ollama_max_connections = 20,
      ollama_max_keepalive_connections = 10, ollama_max_concurrency = 2,
      ollama_heavy_max_concurrency = 1, ollama_keep_alive = ''10m'',
      http_keepalive_expiry_seconds = 30, model_planner = ''qwen3.5:4b'',
      model_simple = ''qwen3.5:2b'', model_general = ''qwen3.5:4b'',
      model_search = ''qwen3.5:9b'', model_reasoning = ''deepseek-r1:8b'',
      model_fast_reasoning = ''phi4-mini-reasoning:latest'',
      model_heavy = ''gemma4:26b-a4b-it-qat'', model_synthesis = ''gemma4:12b-it-qat'',
      model_writer = ''gemma4:e4b-it-qat'', model_classifier = ''gemma4:e2b-it-qat'',
      model_vision = ''qwen3-vl:4b'', model_fallback = ''granite3.3:8b'',
      embedding_model = ''qwen3-embedding:0.6b'',
      mcp_server_url = ''http://host.docker.internal:8002/mcp'', mcp_enabled = False,
      mcp_verify_tls = False, mcp_follow_redirects = True, mcp_timeout_seconds = 60,
      mcp_connect_timeout_seconds = 10, mcp_read_timeout_seconds = 60,
      mcp_write_timeout_seconds = 60, mcp_pool_timeout_seconds = 20, mcp_max_connections = 30,
      mcp_max_keepalive_connections = 15, mcp_max_concurrency = 6, mcp_session_enabled = True,
      mcp_initialize_on_startup = True, mcp_protocol_version = ''2025-06-18'',
      mcp_client_name = ''langchain-langraph-app'', ollama_required = True, mcp_required = False,
      default_forecast_days = 7, default_news_lookback_days = 7,
      enable_llm_query_planning = False, max_subqueries = 6, max_tool_chars = 12000,
      session_history_messages = 12, max_conversation_sessions = 1000,
      conversation_session_ttl_seconds = 3600, conversation_cleanup_interval_seconds = 60,
      max_history_message_chars = 4000, inventory_cache_ttl_seconds = 60,
      inventory_stale_if_error_seconds = 300, agent_max_iterations = 4,
      agent_max_research_rounds = 2, agent_max_replans = 1, agent_max_context_chars = 16000,
      research_max_queries_per_task = 3, research_max_evidence_chars_per_query = 6000,
      execution_max_duration_seconds = 180, execution_max_model_calls = 8,
      execution_max_tool_calls = 10, execution_max_verifier_rounds = 3, state_ttl_seconds = 3600,
      state_max_sessions = 1000, state_max_history_messages = 30,
      side_effect_policy_enabled = True, real_streaming_enabled = True,
      detailed_tracing_enabled = True, expose_internal_health_details = False,
      state_backend = MemoryHistory, checkpoint_backend = MemoryRuns,
      artifact_backend = NoArtifacts, database_url = [], postgres_pool_min_size = 1,
      postgres_pool_max_size = 10, postgres_command_timeout_seconds = 30,
      postgres_auto_setup = True, redis_url = [], redis_key_prefix = ''langgraph'',
      redis_max_connections = 20, minio_endpoint = ''dbs.home.arpa:9000'', minio_access_key = [],
      minio_secret_key = [], minio_bucket = ''langchain-langraph-app'', minio_secure = False,
      neo4j_enabled = False, neo4j_uri = ''bolt://dbs.home.arpa:7687'', neo4j_username = [],
      neo4j_password = [], neo4j_database = ''neo4j'', neo4j_max_connection_pool_size = 20,
      neo4j_connection_acquisition_timeout_seconds = 30, neo4j_connection_timeout_seconds = 10,
      neo4j_max_connection_lifetime_seconds = 3600, neo4j_keep_alive = True,
      persistence_required = False, artifact_storage_required = False,
      persistence_health_timeout_seconds = 5, final_verification_enabled = True,
      final_max_revision_rounds = 1\<rparr>"

lemma default_settings_valid: "valid_settings default_settings"
  by (simp add: valid_settings_def default_settings_def field_bounds_ok_def between_def
      validate_runtime_settings_def)

end
