(* ===== verification/Inventory.thy ===== *)
theory Inventory
  imports Config
begin

text \<open>
  The runtime inventory of models and tools, its two stale-tolerant source caches and the
  role-to-model resolution: \<open>src/app/services/inventory.py\<close>, \<open>src/app/llm/model_registry.py\<close>.
  The two remote listings are outcomes given to \<open>load_models\<close> and \<open>load_tools\<close>; clocks are
  arguments in microseconds, settings in seconds.
\<close>

section \<open>Model capabilities\<close>

record capabilities =
  cap_chat :: bool
  cap_vision :: bool
  cap_embedding :: bool
  cap_heavy :: bool
  cap_parameters :: "rat option"

definition is_digit :: "char \<Rightarrow> bool" where
  "is_digit c = (let n = (of_char c :: nat) in 48 \<le> n \<and> n \<le> 57)"

definition is_lower_alpha :: "char \<Rightarrow> bool" where
  "is_lower_alpha c = (let n = (of_char c :: nat) in 97 \<le> n \<and> n \<le> 122)"

definition digit_value :: "char \<Rightarrow> nat" where
  "digit_value c = of_char c - 48"

definition number_value :: "string \<Rightarrow> nat" where
  "number_value ds = foldl (\<lambda>n c. 10 * n + digit_value c) 0 ds"

text \<open>
  One match of \<open>\d+(?:\.\d+)?b(?![a-z])\<close> at the head of the string: the value and the rest.
  The pattern is greedy and nothing in it can give a digit back, so the match is unique.
\<close>

definition size_at :: "string \<Rightarrow> (rat \<times> string) option" where
  "size_at s =
     (let whole = takeWhile is_digit s; rest = dropWhile is_digit s;
          frac = (case rest of c # cs \<Rightarrow> if c = CHR ''.'' then takeWhile is_digit cs else [] | [] \<Rightarrow> []);
          (value, tail) =
            (if frac = [] then (of_nat (number_value whole), rest)
             else (of_nat (number_value whole) + of_nat (number_value frac) / 10 ^ length frac,
                   dropWhile is_digit (tl rest)))
      in if whole = [] then None
         else case tail of
           c # cs \<Rightarrow>
             if c = CHR ''b'' \<and> \<not> (cs \<noteq> [] \<and> is_lower_alpha (hd cs)) then Some (value, cs) else None
         | [] \<Rightarrow> None)"

text \<open>\<open>finditer\<close> over the lower-cased name; \<open>prev\<close> is the character before, for \<open>(?<![a-z0-9])\<close>.\<close>

fun sizes_from :: "nat \<Rightarrow> char option \<Rightarrow> string \<Rightarrow> rat list" where
  "sizes_from skip prev [] = []"
| "sizes_from (Suc skip) prev (c # cs) = sizes_from skip (Some c) cs"
| "sizes_from 0 prev (c # cs) =
     (let boundary = (case prev of None \<Rightarrow> True | Some p \<Rightarrow> \<not> is_digit p \<and> \<not> is_lower_alpha p) in
      case (if boundary then size_at (c # cs) else None) of
        Some (v, rest) \<Rightarrow> v # sizes_from (length cs - length rest) (Some c) cs
      | None \<Rightarrow> sizes_from 0 (Some c) cs)"

definition capabilities_for :: "string \<Rightarrow> capabilities" where
  "capabilities_for model =
     (let name = lower (strip model);
          embedding = occurs_in ''embed'' name;
          vision = (\<exists>t\<in>set [''-vl'', '':vl'', ''vision'', ''llava'']. occurs_in t name);
          sizes = sizes_from 0 None name;
          billions = (if sizes = [] then None else Some (Max (set sizes)));
          heavy = ((case billions of None \<Rightarrow> False | Some b \<Rightarrow> 20 \<le> b) \<or>
                   (\<exists>t\<in>set [''70b'', ''72b'', ''405b'']. occurs_in t name))
      in \<lparr>cap_chat = (\<not> embedding), cap_vision = vision, cap_embedding = embedding,
          cap_heavy = heavy, cap_parameters = billions\<rparr>)"

section \<open>The inventory\<close>

record inventory =
  inv_models :: "jobj list"
  inv_tools :: "jobj list"
  inv_errors :: "(string \<times> string) list"
  inv_cached :: bool
  inv_age :: time

definition empty_inventory :: inventory where
  "empty_inventory = \<lparr>inv_models = [], inv_tools = [], inv_errors = [], inv_cached = False, inv_age = 0\<rparr>"

fun name_if_text :: "json \<Rightarrow> string option" where
  "name_if_text (JStr s) = (if s = [] then None else Some s)"
| "name_if_text _ = None"

definition model_names :: "inventory \<Rightarrow> string list" where
  "model_names i = dedup (somes (map (\<lambda>m. name_if_text
      (if truthy (jget m ''name'') then jget m ''name'' else jget m ''model'')) (inv_models i)))"

definition tool_names :: "inventory \<Rightarrow> string list" where
  "tool_names i = dedup (somes (map (\<lambda>t. name_if_text (jget t ''name'')) (inv_tools i)))"

definition has_tool :: "inventory \<Rightarrow> string \<Rightarrow> bool" where
  "has_tool i name = (name \<in> set (tool_names i))"

section \<open>Role resolution\<close>

definition compatible :: "string \<Rightarrow> string \<Rightarrow> bool" where
  "compatible role model =
     (let caps = capabilities_for model in
      if role = ''vision'' then cap_vision caps
      else if role = ''embedding'' then cap_embedding caps
      else cap_chat caps \<and> \<not> cap_embedding caps)"

definition preferences :: "settings \<Rightarrow> string \<Rightarrow> string list" where
  "preferences s key =
     (case map_of
        [(''planner'', [model_planner s, model_general s, model_classifier s, model_search s]),
         (''simple'', [model_simple s, model_general s, model_fallback s]),
         (''general'', [model_general s, model_simple s, model_search s, model_fallback s]),
         (''search'', [model_search s, model_general s, model_fallback s]),
         (''reasoning'', [model_reasoning s, model_fast_reasoning s, model_heavy s, model_search s]),
         (''fast_reasoning'',
            [model_fast_reasoning s, model_reasoning s, model_general s, model_fallback s]),
         (''heavy'', [model_heavy s, model_synthesis s, model_reasoning s, model_search s]),
         (''synthesis'', [model_synthesis s, model_heavy s, model_reasoning s, model_search s]),
         (''writer'', [model_writer s, model_general s, model_synthesis s, model_fallback s]),
         (''classifier'', [model_classifier s, model_general s, model_simple s, model_fallback s]),
         (''vision'', [model_vision s]),
         (''fallback'', [model_fallback s, model_general s])] key of
        Some ms \<Rightarrow> ms
      | None \<Rightarrow> [model_for_key s (Some key), model_fallback s])"

definition preferred_candidates :: "settings \<Rightarrow> string \<Rightarrow> string list" where
  "preferred_candidates s key = dedup (filter (\<lambda>m. m \<noteq> []) (preferences s key))"

definition resolve_model :: "settings \<Rightarrow> string option \<Rightarrow> inventory option \<Rightarrow> string result" where
  "resolve_model s key iv =
     (let role = (case key of Some k \<Rightarrow> if k = [] then ''general'' else k | None \<Rightarrow> ''general'');
          available = (case iv of Some i \<Rightarrow> model_names i | None \<Rightarrow> [])
      in if available = [] then Inr (model_for_key s (Some role))
         else case find (\<lambda>m. m \<in> set available \<and> compatible role m) (preferred_candidates s role) of
           Some m \<Rightarrow> Inr m
         | None \<Rightarrow>
             if model_fallback s \<in> set available \<and> compatible role (model_fallback s)
             then Inr (model_fallback s)
             else Inl (RuntimeError (''No compatible installed Ollama model is available for role ''
                                      @ repr_str role @ ''.'')))"

text \<open>
  C27: once the live inventory lists models, the model chosen for a role is one of them and is
  compatible with the role; the resolver never invents a name.
\<close>

theorem resolved_model_is_installed:
  assumes "model_names i \<noteq> []" and "resolve_model s (Some role) (Some i) = Inr m" and "role \<noteq> []"
  shows "m \<in> set (model_names i) \<and> compatible role m"
  using assms
  by (auto simp: resolve_model_def Let_def find_Some_iff in_set_conv_nth
      split: option.splits if_splits)

text \<open>Without a usable listing the configured model is used, and resolution cannot fail.\<close>

lemma resolve_without_inventory:
  "available = None \<or> (\<exists>i. available = Some i \<and> model_names i = []) \<Longrightarrow>
   \<exists>m. resolve_model s key available = Inr m"
  by (auto simp: resolve_model_def Let_def)

section \<open>The inventory service\<close>

record source_cache =
  sc_value :: "jobj list option"
  sc_cached_at :: time

definition empty_cache :: source_cache where
  "empty_cache = \<lparr>sc_value = None, sc_cached_at = 0\<rparr>"

record inventory_service =
  is_models :: source_cache
  is_tools :: source_cache

definition source_fresh :: "settings \<Rightarrow> source_cache \<Rightarrow> time \<Rightarrow> bool" where
  "source_fresh s c now \<longleftrightarrow> sc_value c \<noteq> None \<and>
     now - sc_cached_at c \<le> seconds (inventory_cache_ttl_seconds s)"

definition source_stale_usable :: "settings \<Rightarrow> source_cache \<Rightarrow> time \<Rightarrow> bool" where
  "source_stale_usable s c now \<longleftrightarrow> sc_value c \<noteq> None \<and>
     now - sc_cached_at c \<le> seconds (inventory_stale_if_error_seconds s)"

definition both_fresh :: "settings \<Rightarrow> inventory_service \<Rightarrow> time \<Rightarrow> bool" where
  "both_fresh s st now \<longleftrightarrow> source_fresh s (is_models st) now \<and> source_fresh s (is_tools st) now"

definition source_age :: "source_cache \<Rightarrow> time \<Rightarrow> time" where
  "source_age c now =
     (if sc_value c = None \<or> sc_cached_at c \<le> 0 then 0 else max 0 (now - sc_cached_at c))"

definition cached_items :: "source_cache \<Rightarrow> jobj list" where
  "cached_items c = (case sc_value c of Some v \<Rightarrow> v | None \<Rightarrow> [])"

text \<open>
  \<open>_load_models\<close> and \<open>_load_tools\<close> share their shape: \<open>enabled\<close> is the backend or the MCP
  switch, \<open>outcome\<close> what the remote listing returned or the text of its exception, \<open>now\<close> the
  clock when it did. Items that are not objects are dropped.
\<close>

definition load_source ::
  "settings \<Rightarrow> bool \<Rightarrow> string + json list \<Rightarrow> time \<Rightarrow> source_cache
   \<Rightarrow> (jobj list \<times> string option \<times> bool) \<times> source_cache" where
  "load_source s enabled outcome now c =
     (if \<not> enabled then (([], None, False), \<lparr>sc_value = Some [], sc_cached_at = now\<rparr>)
      else case outcome of
        Inr values \<Rightarrow>
          let items = map obj_fields (filter is_jobj values)
          in ((items, None, False), \<lparr>sc_value = Some items, sc_cached_at = now\<rparr>)
      | Inl err \<Rightarrow>
          if source_stale_usable s c now then ((cached_items c, Some err, True), c)
          else (([], Some err, False), c))"

definition load_models ::
  "settings \<Rightarrow> string + json list \<Rightarrow> time \<Rightarrow> inventory_service
   \<Rightarrow> (jobj list \<times> string option \<times> bool) \<times> inventory_service" where
  "load_models s outcome now st =
     (let (r, c) = load_source s (llm_backend s = Ollama) outcome now (is_models st)
      in (r, st\<lparr>is_models := c\<rparr>))"

definition load_tools ::
  "settings \<Rightarrow> string + json list \<Rightarrow> time \<Rightarrow> inventory_service
   \<Rightarrow> (jobj list \<times> string option \<times> bool) \<times> inventory_service" where
  "load_tools s outcome now st =
     (let (r, c) = load_source s (mcp_enabled s) outcome now (is_tools st)
      in (r, st\<lparr>is_tools := c\<rparr>))"

definition inventory_snapshot :: "inventory_service \<Rightarrow> bool \<Rightarrow> time \<Rightarrow> inventory" where
  "inventory_snapshot st cached now =
     \<lparr>inv_models = cached_items (is_models st), inv_tools = cached_items (is_tools st),
      inv_errors = [], inv_cached = cached,
      inv_age = max (source_age (is_models st) now) (source_age (is_tools st) now)\<rparr>"

definition error_entry :: "string \<Rightarrow> string option \<Rightarrow> (string \<times> string) list" where
  "error_entry k e = (case e of Some m \<Rightarrow> if m = [] then [] else [(k, m)] | None \<Rightarrow> [])"

text \<open>\<open>load\<close>: the fast path without the lock and the re-check under it read the same caches.\<close>

definition load_inventory ::
  "settings \<Rightarrow> bool \<Rightarrow> string + json list \<Rightarrow> string + json list \<Rightarrow> time \<Rightarrow> time
   \<Rightarrow> inventory_service \<Rightarrow> inventory \<times> inventory_service" where
  "load_inventory s force models_outcome tools_outcome now now' st =
     (if \<not> force \<and> both_fresh s st now then (inventory_snapshot st True now, st)
      else
        let ((models, merr, mstale), st1) = load_models s models_outcome now' st;
            ((tools, terr, tstale), st2) = load_tools s tools_outcome now' st1
        in (\<lparr>inv_models = models, inv_tools = tools,
             inv_errors = error_entry ''ollama'' merr @ error_entry ''mcp'' terr,
             inv_cached = (mstale \<or> tstale),
             inv_age = max (source_age (is_models st2) now') (source_age (is_tools st2) now')\<rparr>, st2))"

definition invalidate_inventory :: "inventory_service \<Rightarrow> inventory_service" where
  "invalidate_inventory st = \<lparr>is_models = empty_cache, is_tools = empty_cache\<rparr>"

text \<open>
  The two sources degrade independently: when the tool server fails inside the staleness
  window while the model listing succeeds, the caller gets the new models, the cached tools and
  an explicit error, and the model cache is refreshed while the tool cache is kept.
\<close>

theorem sources_degrade_independently:
  assumes "llm_backend s = Ollama" and "mcp_enabled s"
    and "\<not> both_fresh s st now \<or> force"
    and "sc_value (is_tools st) = Some tools"
    and "now' - sc_cached_at (is_tools st) \<le> seconds (inventory_stale_if_error_seconds s)"
    and "err \<noteq> []"
  shows "let (iv, st') = load_inventory s force (Inr models) (Inl err) now now' st in
     inv_models iv = map obj_fields (filter is_jobj models) \<and> inv_tools iv = tools \<and>
     inv_errors iv = [(''mcp'', err)] \<and> inv_cached iv \<and>
     sc_cached_at (is_models st') = now' \<and> is_tools st' = is_tools st"
  using assms
  by (auto simp: load_inventory_def load_models_def load_tools_def load_source_def
      source_stale_usable_def cached_items_def error_entry_def Let_def)

theorem resolved_model_is_installed_witness:
  "compatible ''fallback'' ''granite3.3:8b''"
proof -
  let ?i = "empty_inventory\<lparr>inv_models := [[(''name'', JStr ''granite3.3:8b'')]]\<rparr>"
  have names: "model_names ?i = [''granite3.3:8b'']"
    by (simp add: model_names_def jget_def dedup_def)
  have ok: "compatible ''fallback'' ''granite3.3:8b''" by code_simp
  have "resolve_model default_settings (Some ''fallback'') (Some ?i) = Inr ''granite3.3:8b''"
    by (simp add: resolve_model_def names preferred_candidates_def preferences_def default_settings_def
        dedup_def ok)
  from resolved_model_is_installed [OF _ this] names show ?thesis by simp
qed

theorem sources_degrade_independently_witness:
  "let st = \<lparr>is_models = empty_cache,
             is_tools = \<lparr>sc_value = Some [[(''name'', JStr ''web_search'')]], sc_cached_at = 1000000\<rparr>\<rparr>;
       s = default_settings\<lparr>llm_backend := Ollama, mcp_enabled := True\<rparr>;
       (iv, st') = load_inventory s False (Inr [JObj [(''name'', JStr ''m'')]]) (Inl ''down'') 2000000 2000000 st
   in inv_tools iv = [[(''name'', JStr ''web_search'')]] \<and> inv_errors iv = [(''mcp'', ''down'')]"
  using sources_degrade_independently [where s = "default_settings\<lparr>llm_backend := Ollama, mcp_enabled := True\<rparr>"
      and st = "\<lparr>is_models = empty_cache,
             is_tools = \<lparr>sc_value = Some [[(''name'', JStr ''web_search'')]], sc_cached_at = 1000000\<rparr>\<rparr>"
      and force = False and tools = "[[(''name'', JStr ''web_search'')]]" and now = 2000000
      and now' = 2000000 and err = "''down''" and models = "[JObj [(''name'', JStr ''m'')]]"]
  by (simp add: both_fresh_def source_fresh_def empty_cache_def default_settings_def seconds_def Let_def
      split: prod.splits)

end
