(* ===== verification/Ollama.thy ===== *)
theory Ollama
  imports World Evidence Inventory
begin

text \<open>
  The model server's client, \<open>src/app/llm/ollama.py\<close>: the request payload, \<open>chat\<close> with its
  metering on every path, the stream reader, the model listing with its cache. Admission
  control (\<open>src/app/llm/resource_manager.py\<close>) only delays a request and is modelled on its own
  in the theory Admission. Logging and the metrics counters have no effect on results.
\<close>

text \<open>
  The parts of the runtime outside the repository: the URL and hash functions, pydantic's leaf
  coercions, the JSON parser, the JSON schemas pydantic derives from the classes, and the
  JSON number a rational confidence prints as.
\<close>

record runtime_env =
  re_text :: text_env
  re_py :: pydantic
  re_parse :: "string \<Rightarrow> json option"
  re_schema :: "string \<Rightarrow> json"
  re_float :: "rat \<Rightarrow> json"

definition sample_runtime :: runtime_env where
  "sample_runtime =
     \<lparr>re_text = sample_env,
      re_py = \<lparr>lax_bool = (\<lambda>v. case v of JBool b \<Rightarrow> Some b | _ \<Rightarrow> None),
               lax_float = (\<lambda>v. case v of JInt i \<Rightarrow> Some (of_int i) | _ \<Rightarrow> None)\<rparr>,
      re_parse = (\<lambda>_. None), re_schema = (\<lambda>_. JObj []), re_float = (\<lambda>_. JNull)\<rparr>"

section \<open>Payload and errors\<close>

definition opt_or :: "'a option \<Rightarrow> 'a \<Rightarrow> 'a" where
  "opt_or v d = (case v of None \<Rightarrow> d | Some x \<Rightarrow> x)"

definition ollama_payload ::
  "runtime_env \<Rightarrow> settings \<Rightarrow> string \<Rightarrow> json list \<Rightarrow> bool \<Rightarrow> rat option \<Rightarrow> int option
   \<Rightarrow> json option \<Rightarrow> bool option \<Rightarrow> jobj \<Rightarrow> json" where
  "ollama_payload env s model messages stream temperature num_predict fmt think options =
     (let base = [(''temperature'', re_float env (opt_or temperature (ollama_temperature s))),
                  (''num_predict'', JInt (opt_or num_predict (ollama_num_predict s))),
                  (''num_ctx'', JInt (ollama_num_ctx s))];
          merged = foldl (\<lambda>o' kv. alist_put (fst kv) (snd kv) o') base options
      in JObj ([(''model'', JStr model), (''stream'', JBool stream),
                (''think'', JBool (opt_or think (ollama_think s))),
                (''messages'', JList messages), (''keep_alive'', JStr (ollama_keep_alive s)),
                (''options'', JObj merged)]
               @ (case fmt of None \<Rightarrow> [] | Some f \<Rightarrow> [(''format'', f)])))"

text \<open>\<open>_http_error_message\<close>: a status error, or another error by its class and text.\<close>

definition flatten_lines :: "string \<Rightarrow> string" where
  "flatten_lines body = map (\<lambda>c. if (of_char c :: nat) = 10 then CHR '' '' else c) body"

definition status_error_message :: "int \<Rightarrow> string \<Rightarrow> string \<Rightarrow> string" where
  "status_error_message code text body =
     (let b = take 500 (flatten_lines (strip body))
      in ''Ollama HTTP '' @ show_int code @ '': '' @ text
         @ (if b = [] then [] else ''; response='' @ b))"

definition class_and_text :: "string \<Rightarrow> string \<Rightarrow> string" where
  "class_and_text cls text = (if strip text = [] then cls else cls @ '': '' @ strip text)"

text \<open>Coercions of the reply's counters; \<open>bool\<close> is an \<open>int\<close> to \<open>isinstance\<close>.\<close>

fun nonnegative_int :: "json \<Rightarrow> int" where
  "nonnegative_int (JInt i) = (if 0 \<le> i then i else 0)"
| "nonnegative_int (JBool b) = of_bool b"
| "nonnegative_int _ = 0"

text \<open>Nanoseconds to microseconds; a non-finite number counts as nothing.\<close>

fun nanoseconds_to_time :: "json \<Rightarrow> time" where
  "nanoseconds_to_time (JInt i) = (if 0 \<le> i then i div 1000 else 0)"
| "nanoseconds_to_time (JFloat (FFinite _ q)) = (if 0 \<le> q then \<lfloor>q / 1000\<rfloor> else 0)"
| "nanoseconds_to_time _ = 0"

section \<open>Chat\<close>

record llm_response =
  lr_content :: string
  lr_model :: string
  lr_raw :: jobj

text \<open>
  The body of the \<open>try\<close>: the reply as decoded fields together with the exception, if any. The
  fields are kept when the object reports an error, since \<open>data\<close> was assigned before.
\<close>

definition chat_outcome :: "http_reply \<Rightarrow> jobj \<times> exn option" where
  "chat_outcome r =
     (case r of
        StatusError code text body \<Rightarrow> ([], Some (OllamaError (status_error_message code text body)))
      | HttpError cls text \<Rightarrow> ([], Some (OllamaError (class_and_text cls text)))
      | Interrupted \<Rightarrow> ([], Some CancelledError)
      | Reply (JObj data) \<Rightarrow>
          if truthy (jget data ''error'') then (data, Some (OllamaError (py_str (jget data ''error''))))
          else (data, None)
      | Reply _ \<Rightarrow> ([], Some (OllamaError ''Ollama /api/chat returned a non-object payload.'')))"

definition ollama_post :: "json \<Rightarrow> http_reply eff" where
  "ollama_post payload w =
     (Inr (w_chat w (length (w_chat_log w))), w\<lparr>w_chat_log := w_chat_log w @ [payload]\<rparr>)"

definition meter_finish_model :: "bool \<Rightarrow> jobj \<Rightarrow> unit eff" where
  "meter_finish_model success data =
     put_meter (finish_model_attempt success (nonnegative_int (jget data ''prompt_eval_count''))
                  (nonnegative_int (jget data ''eval_count''))
                  (nanoseconds_to_time (jget data ''load_duration'')) None)"

definition chat_response :: "string \<Rightarrow> jobj \<Rightarrow> llm_response result" where
  "chat_response model data =
     (let message = jget data ''message'' in
      if truthy message \<and> \<not> is_jobj message
      then Inl (OllamaError ''Ollama /api/chat returned an invalid message object.'')
      else Inr \<lparr>lr_content = str_or_empty (jget (obj_fields message) ''content''),
                lr_model = (if truthy (jget data ''model'') then py_str (jget data ''model'') else model),
                lr_raw = data\<rparr>)"

definition ollama_chat ::
  "runtime_env \<Rightarrow> settings \<Rightarrow> string \<Rightarrow> json list \<Rightarrow> rat option \<Rightarrow> int option \<Rightarrow> json option
   \<Rightarrow> bool option \<Rightarrow> llm_response eff" where
  "ollama_chat env s model messages temperature num_predict fmt think =
     (let payload = ollama_payload env s model messages False temperature num_predict fmt think []
      in ethen (meter_begin_model None)
          (ebind (ollama_post payload) (\<lambda>reply.
             case chat_outcome reply of (data, failure) \<Rightarrow>
               ethen (meter_finish_model (failure = None) data)
                 (case failure of
                    Some e \<Rightarrow> eraise e
                  | None \<Rightarrow> elift (chat_response model data)))))"

lemma ollama_post_keeps [inv_intros]:
  "preserves (evolves P) (ollama_post p)" "preserves same_rounds (ollama_post p)"
  by (auto simp: preserves_def ollama_post_def evolves_def same_rounds_def)

lemma finish_model_attempt_within:
  "within_limits b \<Longrightarrow> within_limits (finish_model_attempt ok p g l f b)"
  "same_limits b (finish_model_attempt ok p g l f b)"
  by (simp_all add: within_limits_def same_limits_def meter_simps)

lemma meter_finish_model_keeps [inv_intros]:
  "preserves (evolves P) (meter_finish_model ok d)" "preserves same_rounds (meter_finish_model ok d)"
  unfolding meter_finish_model_def
  by (auto intro!: put_meter_keeps simp: finish_model_attempt_within meter_simps)

lemma ollama_chat_keeps [inv_intros]:
  "preserves (evolves P) (ollama_chat env s m ms t n f k)"
  "preserves same_rounds (ollama_chat env s m ms t n f k)"
  unfolding ollama_chat_def Let_def
  by (auto intro!: ev.keep_intros vr.keep_intros inv_intros split: prod.splits option.splits)


section \<open>Streaming\<close>

text \<open>
  The loop over the lines of a streamed answer: the contents yielded, the payload that carried
  \<open>done\<close>, and the exception that ended the stream.
\<close>

fun read_stream :: "runtime_env \<Rightarrow> string list \<Rightarrow> string list \<times> jobj option \<times> exn option" where
  "read_stream env [] = ([], None, None)"
| "read_stream env (line # rest) =
     (if strip line = [] then read_stream env rest
      else case re_parse env line of
        None \<Rightarrow> ([], None, Some (OllamaError (''Invalid Ollama stream line: '' @ take 200 line)))
      | Some (JObj data) \<Rightarrow>
          if truthy (jget data ''error'')
          then ([], None, Some (OllamaError (py_str (jget data ''error''))))
          else if truthy (jget data ''message'') \<and> \<not> is_jobj (jget data ''message'')
          then ([], None, Some (AttributeError ''get''))
          else
            let content = str_or_empty (jget (obj_fields (jget data ''message'')) ''content'');
                out = (if content = [] then [] else [content])
            in if truthy (jget data ''done'') then (out, Some data, None)
               else case read_stream env rest of (later, fin, failure) \<Rightarrow> (out @ later, fin, failure)
      | Some _ \<Rightarrow> ([], None, Some (OllamaError ''Ollama stream item was not a JSON object.'')))"

text \<open>\<open>stream_chat\<close> over the lines one response delivers before it ends or fails.\<close>

definition ollama_stream ::
  "runtime_env \<Rightarrow> string list \<Rightarrow> http_reply option \<Rightarrow> (string list \<times> exn option) eff" where
  "ollama_stream env lines ending =
     ethen (meter_begin_model None)
       (case read_stream env lines of (out, fin, failure) \<Rightarrow>
          let failure' = (case failure of Some e \<Rightarrow> Some e
                | None \<Rightarrow> (case (fin, ending) of
                    (None, Some r) \<Rightarrow> snd (chat_outcome r) | _ \<Rightarrow> None))
          in ethen (meter_finish_model (fin \<noteq> None) (opt_or fin []))
               (eret (out, failure')))"

section \<open>Model listing\<close>

record models_cache =
  mc_models :: "jobj list option"
  mc_cached_at :: time

definition models_cache_fresh :: "settings \<Rightarrow> bool \<Rightarrow> time \<Rightarrow> models_cache \<Rightarrow> bool" where
  "models_cache_fresh s force now c \<longleftrightarrow> \<not> force \<and> mc_models c \<noteq> None \<and>
     now - mc_cached_at c \<le> seconds (inventory_cache_ttl_seconds s)"

definition tags_outcome :: "http_reply \<Rightarrow> jobj list result" where
  "tags_outcome r =
     (case r of
        Reply (JObj payload) \<Rightarrow>
          Inr (map obj_fields (filter is_jobj (list_items (jget payload ''models''))))
      | Reply _ \<Rightarrow> Inl (OllamaError ''Ollama /api/tags returned a non-object payload.'')
      | StatusError code text body \<Rightarrow> Inl (OllamaError (status_error_message code text body))
      | HttpError cls text \<Rightarrow> Inl (OllamaError (class_and_text cls text))
      | Interrupted \<Rightarrow> Inl CancelledError)"

definition list_models ::
  "settings \<Rightarrow> bool \<Rightarrow> bool \<Rightarrow> time \<Rightarrow> time \<Rightarrow> time \<Rightarrow> http_reply \<Rightarrow> models_cache
   \<Rightarrow> jobj list result \<times> models_cache" where
  "list_models s force allow_stale now now' done_at reply c =
     (if models_cache_fresh s force now c then (Inr (opt_or (mc_models c) []), c)
      else if models_cache_fresh s force now' c then (Inr (opt_or (mc_models c) []), c)
      else case tags_outcome reply of
        Inr models \<Rightarrow> (Inr models, \<lparr>mc_models = Some models, mc_cached_at = done_at\<rparr>)
      | Inl CancelledError \<Rightarrow> (Inl CancelledError, c)
      | Inl e \<Rightarrow>
          if allow_stale \<and> mc_models c \<noteq> None \<and>
             now' - mc_cached_at c \<le> seconds (inventory_stale_if_error_seconds s)
          then (Inr (opt_or (mc_models c) []), c) else (Inl e, c))"

text \<open>A failed refresh never destroys the cache.\<close>

lemma list_models_failure_keeps_cache:
  assumes "list_models s force allow_stale now now' done_at reply c = (Inl e, c')"
  shows "c' = c"
  using assms by (auto simp: list_models_def split: if_splits sum.splits exn.splits)

end
