(* ===== verification/Grounding.thy ===== *)
theory Grounding
  imports Evidence
begin

text \<open>
  Claim grounding, bounded model context and the deterministic answer checks:
  \<open>src/app/services/claim_grounding.py\<close>, \<open>context_builder.py\<close>, \<open>answer_quality.py\<close>.
\<close>

section \<open>Grounding claims\<close>

datatype grounding_status = Supported | PartiallySupported | Contradicted | StaleSupport | Unsupported

record grounding =
  gr_claim_id :: string
  gr_status :: grounding_status
  gr_supporting :: "string list"
  gr_contradicting :: "string list"
  gr_explanation :: string

text \<open>\<open>by_id\<close>: the last record with an identifier wins, as in the dictionary comprehension.\<close>

definition by_id :: "evidence list \<Rightarrow> string \<Rightarrow> evidence option" where
  "by_id es = map_of (rev (map (\<lambda>e. (ev_id e, e)) es))"

definition valid_support :: "string \<Rightarrow> string \<Rightarrow> evidence \<Rightarrow> bool" where
  "valid_support run task e \<longleftrightarrow>
     ev_run_id e = run \<and> ev_task_id e = task \<and> ev_eligible e \<and> ev_tool_status e = Success"

definition acceptable_support :: "claim \<Rightarrow> evidence \<Rightarrow> bool" where
  "acceptable_support c e \<longleftrightarrow>
     (if cl_requires_current c then ev_freshness e = Current else ev_freshness e \<noteq> Stale)"

definition claim_ident :: "claim \<Rightarrow> nat \<Rightarrow> string" where
  "claim_ident c index = (case cl_id c of
     Some i \<Rightarrow> (if i = [] then ''claim-'' @ show_nat index else i)
   | None \<Rightarrow> ''claim-'' @ show_nat index)"

definition ground_claim ::
  "evidence list \<Rightarrow> string \<Rightarrow> string \<Rightarrow> nat \<Rightarrow> claim \<Rightarrow> grounding" where
  "ground_claim es run task index c =
     (let requested = map (by_id es) (cl_evidence_ids c);
          valid = filter (valid_support run task) (somes requested);
          stale = filter (\<lambda>e. ev_freshness e = Stale) valid;
          acceptable = filter (acceptable_support c) valid;
          (status, explanation) =
            (if cl_requires_current c \<and> stale \<noteq> [] \<and> acceptable = []
             then (StaleSupport, ''All otherwise valid supporting evidence is stale or not current.'')
             else if acceptable \<noteq> [] \<and> length acceptable = length (cl_evidence_ids c)
             then (Supported, ''Every referenced evidence record is valid for this run and task.'')
             else if acceptable \<noteq> []
             then (PartiallySupported,
                   ''Some referenced evidence is missing, ineligible, stale, or foreign.'')
             else (Unsupported, ''No eligible same-run, same-task evidence supports the claim.''))
      in \<lparr>gr_claim_id = claim_ident c index, gr_status = status,
          gr_supporting = map ev_id acceptable, gr_contradicting = [],
          gr_explanation = explanation\<rparr>)"

fun ground_claims_from ::
  "evidence list \<Rightarrow> string \<Rightarrow> string \<Rightarrow> nat \<Rightarrow> claim list \<Rightarrow> grounding list" where
  "ground_claims_from es run task index [] = []"
| "ground_claims_from es run task index (c # cs) =
     ground_claim es run task index c # ground_claims_from es run task (Suc index) cs"

definition ground_claims ::
  "claim list \<Rightarrow> evidence list \<Rightarrow> string \<Rightarrow> string \<Rightarrow> grounding list" where
  "ground_claims cs es run task = ground_claims_from es run task 1 cs"

lemma by_id_Some: "by_id es i = Some e \<Longrightarrow> e \<in> set es \<and> ev_id e = i"
  by (auto simp: by_id_def dest!: map_of_SomeD)

lemma ground_claim_supported:
  assumes "gr_status (ground_claim es run task index c) = Supported" and "i \<in> set (cl_evidence_ids c)"
  shows "\<exists>e\<in>set es. ev_id e = i \<and> valid_support run task e \<and> acceptable_support c e"
proof -
  define requested where "requested = map (by_id es) (cl_evidence_ids c)"
  define found where "found = somes requested"
  define valid where "valid = filter (valid_support run task) found"
  define acceptable where "acceptable = filter (acceptable_support c) valid"
  have len: "length acceptable = length (cl_evidence_ids c)"
    using assms(1)
    by (auto simp: ground_claim_def Let_def requested_def [symmetric] found_def [symmetric]
        valid_def [symmetric] acceptable_def [symmetric] split: if_splits)
  have la: "length acceptable \<le> length valid" by (simp add: acceptable_def)
  have lv: "length valid \<le> length found" by (simp add: valid_def)
  have lf: "length found \<le> length requested" by (simp add: found_def length_somes_le)
  have lr: "length requested = length (cl_evidence_ids c)" by (simp add: requested_def)
  from assms(2) have req: "by_id es i \<in> set requested" by (simp add: requested_def)
  from la lv lf lr len have "None \<notin> set requested"
    using somes_full [of requested] by (simp add: found_def)
  with req obtain e where e: "by_id es i = Some e" by (metis not_None_eq)
  with req have "e \<in> set found" by (simp add: found_def)
  moreover have "length (filter (valid_support run task) found) = length found"
    using la lv lf lr len unfolding valid_def by linarith
  ultimately have v: "valid_support run task e" by (rule filter_full [rotated])
  with \<open>e \<in> set found\<close> have "e \<in> set valid" by (simp add: valid_def)
  moreover have "length (filter (acceptable_support c) valid) = length valid"
    using la lv lf lr len unfolding acceptable_def by linarith
  ultimately have "acceptable_support c e" by (rule filter_full [rotated])
  with v e show ?thesis using by_id_Some by blast
qed

lemma ground_claim_supported_nonempty:
  "gr_status (ground_claim es run task index c) = Supported \<Longrightarrow> cl_evidence_ids c \<noteq> []"
  by (auto simp: ground_claim_def Let_def split: if_splits)

lemma ground_claims_from_nth:
  "k < length cs \<Longrightarrow>
   ground_claims_from es run task index cs ! k = ground_claim es run task (index + k) (cs ! k)"
  by (induction cs arbitrary: index k) (auto simp: nth_Cons')

lemma ground_claims_from_length [simp]:
  "length (ground_claims_from es run task index cs) = length cs"
  by (induction cs arbitrary: index) auto

text \<open>A claim counts as grounded when every reference it makes is a valid, fresh record.\<close>

definition claim_grounded :: "evidence list \<Rightarrow> string \<Rightarrow> string \<Rightarrow> claim \<Rightarrow> bool" where
  "claim_grounded es run task c \<longleftrightarrow>
     cl_evidence_ids c \<noteq> [] \<and>
     (\<forall>i\<in>set (cl_evidence_ids c).
        \<exists>e\<in>set es. ev_id e = i \<and> valid_support run task e \<and> acceptable_support c e)"

lemma all_supported_grounded:
  assumes "\<forall>g\<in>set (ground_claims cs es run task). gr_status g = Supported" and "c \<in> set cs"
  shows "claim_grounded es run task c"
proof -
  from assms(2) obtain k where k: "k < length cs" "cs ! k = c" by (auto simp: in_set_conv_nth)
  have "gr_status (ground_claim es run task (1 + k) c) = Supported"
    using assms(1) k ground_claims_from_nth [OF k(1), of es run task 1]
    by (metis ground_claims_def ground_claims_from_length nth_mem)
  then show ?thesis
    using ground_claim_supported ground_claim_supported_nonempty
    by (auto simp: claim_grounded_def)
qed

text \<open>
  C15: a claim reported as supported rests only on evidence of the same run and the same task
  that was retrieved successfully, is eligible, and is fresh enough for the claim; it names at
  least one record, and every record it names qualifies.
\<close>

theorem supported_claim_is_grounded:
  assumes "k < length cs"
    and "gr_status (ground_claims cs es run task ! k) = Supported"
  shows "claim_grounded es run task (cs ! k)"
  using assms ground_claims_from_nth [OF assms(1), of es run task 1]
    ground_claim_supported ground_claim_supported_nonempty
  by (auto simp: claim_grounded_def ground_claims_def)

text \<open>The converse: grounding loses no claim whose references all qualify.\<close>

lemma ground_claim_complete:
  assumes "cl_evidence_ids c \<noteq> []"
    and "\<And>i. i \<in> set (cl_evidence_ids c) \<Longrightarrow>
           \<exists>e. by_id es i = Some e \<and> valid_support run task e \<and> acceptable_support c e"
  shows "gr_status (ground_claim es run task index c) = Supported"
proof -
  let ?ids = "cl_evidence_ids c"
  define f where "f i = the (by_id es i)" for i
  have f: "by_id es i = Some (f i)" "valid_support run task (f i)" "acceptable_support c (f i)"
    if "i \<in> set ?ids" for i
    using assms(2) [OF that] by (auto simp: f_def)
  then have "map (by_id es) ?ids = map (\<lambda>i. Some (f i)) ?ids" by simp
  then have "somes (map (by_id es) ?ids) = map f ?ids"
    by (simp only: somes_map_Some)
  moreover have "filter (\<lambda>e. valid_support run task e \<and> acceptable_support c e) (map f ?ids)
      = map f ?ids"
    using f by (auto intro: filter_True)
  ultimately show ?thesis
    using assms(1) by (simp add: ground_claim_def)
qed

section \<open>Bounded context\<close>

record context_item =
  ci_evidence :: evidence
  ci_content :: string
  ci_original_chars :: nat
  ci_content_chars :: nat
  ci_body_chars :: nat
  ci_truncated :: bool

definition evidence_prefix :: "evidence \<Rightarrow> string" where
  "evidence_prefix e =
     ''<untrusted_evidence evidence_id='' @ [char_of (34 :: nat)] @ ev_id e @ [char_of (34 :: nat)] @ ''>''"

definition evidence_suffix :: string where
  "evidence_suffix = ''</untrusted_evidence>''"

definition wrapper_chars :: "evidence \<Rightarrow> nat" where
  "wrapper_chars e = length (evidence_prefix e) + length evidence_suffix"

definition wrap_evidence :: "evidence \<Rightarrow> nat \<Rightarrow> context_item" where
  "wrap_evidence e allowed =
     (let body = take (allowed - wrapper_chars e) (ev_text e);
          wrapped = evidence_prefix e @ body @ evidence_suffix
      in \<lparr>ci_evidence = e, ci_content = wrapped, ci_original_chars = length (ev_text e),
          ci_content_chars = length wrapped, ci_body_chars = length body,
          ci_truncated = (ev_truncated e \<or> length body < length (ev_text e))\<rparr>)"

fun build_context_from ::
  "nat \<Rightarrow> nat \<Rightarrow> (string \<times> string) list \<Rightarrow> evidence list \<Rightarrow> context_item list" where
  "build_context_from remaining per_item seen [] = []"
| "build_context_from remaining per_item seen (e # es) =
     (if remaining = 0 then []
      else if (ev_id e, ev_text e) \<in> set seen
      then build_context_from remaining per_item seen es
      else let allowed = min remaining per_item in
        if allowed \<le> wrapper_chars e then []
        else let item = wrap_evidence e allowed in
          item # build_context_from (remaining - ci_content_chars item) per_item
                   ((ev_id e, ev_text e) # seen) es)"

text \<open>\<open>max(1, int(max_item_chars or max_chars or 1))\<close>.\<close>

definition item_limit :: "int \<Rightarrow> int option \<Rightarrow> nat" where
  "item_limit max_chars max_item_chars =
     (let item = (case max_item_chars of Some n \<Rightarrow> if n = 0 then max_chars else n | None \<Rightarrow> max_chars)
      in nat (max 1 (if item = 0 then 1 else item)))"

definition build_context :: "evidence list \<Rightarrow> int \<Rightarrow> int option \<Rightarrow> context_item list" where
  "build_context es max_chars max_item_chars =
     build_context_from (nat (max 0 max_chars)) (item_limit max_chars max_item_chars) [] es"

definition context_character_count :: "context_item list \<Rightarrow> nat" where
  "context_character_count items = sum_list (map ci_content_chars items)"

lemma wrap_evidence_chars:
  "wrapper_chars e < allowed \<Longrightarrow> ci_content_chars (wrap_evidence e allowed) \<le> allowed"
  by (simp add: wrap_evidence_def wrapper_chars_def Let_def)

lemma wrap_evidence_length: "ci_content_chars (wrap_evidence e allowed) = length (ci_content (wrap_evidence e allowed))"
  by (simp add: wrap_evidence_def Let_def)

lemma build_context_from_total:
  "context_character_count (build_context_from remaining per_item seen es) \<le> remaining"
proof (induction es arbitrary: remaining seen)
  case (Cons e es)
  show ?case
  proof (cases "remaining = 0 \<or> (ev_id e, ev_text e) \<in> set seen \<or> min remaining per_item \<le> wrapper_chars e")
    case True
    then show ?thesis using Cons by (auto simp: context_character_count_def Let_def)
  next
    case False
    let ?item = "wrap_evidence e (min remaining per_item)"
    have "ci_content_chars ?item \<le> min remaining per_item"
      by (rule wrap_evidence_chars) (use False in linarith)
    then have "ci_content_chars ?item \<le> remaining" by simp
    then show ?thesis
      using False Cons [of "remaining - ci_content_chars ?item" "(ev_id e, ev_text e) # seen"]
      by (simp add: context_character_count_def Let_def)
  qed
qed (simp add: context_character_count_def)

lemma build_context_from_items:
  "item \<in> set (build_context_from remaining per_item seen es) \<Longrightarrow>
   ci_evidence item \<in> set es \<and> length (ci_content item) \<le> per_item \<and>
   ci_content_chars item = length (ci_content item) \<and>
   (\<exists>n. ci_content item = evidence_prefix (ci_evidence item)
          @ take n (ev_text (ci_evidence item)) @ evidence_suffix)"
proof (induction es arbitrary: remaining seen)
  case (Cons e es)
  let ?a = "min remaining per_item"
  show ?case
  proof (cases "item = wrap_evidence e ?a \<and> wrapper_chars e < ?a")
    case True
    then show ?thesis
      using wrap_evidence_chars [of e ?a] wrap_evidence_length [of e ?a]
      by (auto simp: wrap_evidence_def Let_def)
  next
    case False
    with Cons.prems show ?thesis
      using Cons.IH by (fastforce simp: Let_def split: if_splits)
  qed
qed simp

text \<open>
  The evidence placed into a model's context never exceeds the configured number of
  characters, wrappers included, neither in total nor per record; every entry is the
  delimited prefix of the text of one of the given records, and the count reported for it is
  the exact length of what was placed.
\<close>

theorem context_is_bounded:
  "context_character_count (build_context es max_chars per_item) \<le> nat (max 0 max_chars)
   \<and> (\<forall>item\<in>set (build_context es max_chars per_item).
        ci_evidence item \<in> set es \<and> length (ci_content item) \<le> item_limit max_chars per_item
        \<and> ci_content_chars item = length (ci_content item)
        \<and> (\<exists>n. ci_content item = evidence_prefix (ci_evidence item)
                  @ take n (ev_text (ci_evidence item)) @ evidence_suffix))"
  using build_context_from_total build_context_from_items
  by (fastforce simp: build_context_def)

theorem context_is_bounded_witness:
  "length (build_context [sample_evidence] 2000 (Some 600)) = 1
   \<and> length (ci_content (hd (build_context [sample_evidence] 2000 (Some 600)))) \<le> 600"
    (is "length ?c = 1 \<and> _")
proof -
  have one: "length ?c = 1"
    by (simp add: build_context_def item_limit_def Let_def wrapper_chars_def evidence_prefix_def
        evidence_suffix_def sample_evidence_def)
  then have "hd ?c \<in> set ?c" by (intro hd_in_set) auto
  with context_is_bounded [of "[sample_evidence]" 2000 "Some 600"] one
  show ?thesis by (auto simp: item_limit_def)
qed

theorem supported_claim_is_grounded_witness:
  "claim_grounded [sample_evidence] ''r'' ''t1''
     \<lparr>cl_id = None, cl_text = ''x'', cl_evidence_ids = [''e1''], cl_uncertainty = None,
      cl_requires_current = True\<rparr>" (is "claim_grounded _ _ _ ?c")
proof -
  have "gr_status (ground_claims [?c] [sample_evidence] ''r'' ''t1'' ! 0) = Supported"
    by (simp add: ground_claims_def ground_claim_def by_id_def sample_evidence_def
        valid_support_def acceptable_support_def)
  from supported_claim_is_grounded [OF _ this] show ?thesis by simp
qed

section \<open>Deterministic answer checks\<close>

definition deterministic_output_issues :: "string \<Rightarrow> string list" where
  "deterministic_output_issues text =
     (let clean = strip text in
      (if length clean < 20 then [''answer_too_short''] else []) @
      (if 3 < count_occurrences (take 50 clean) clean \<and> 100 < length clean
       then [''possible_repetition''] else []))"

end
