(* ===== verification/Calendar.thy ===== *)
theory Calendar
  imports Prelude
begin

text \<open>
  The text forms of \<open>datetime\<close> values in UTC that the program places into prompts, queries and
  stored records. A \<open>time\<close> counts microseconds since 1970-01-01T00:00:00Z.
\<close>

definition day_length :: time where
  "day_length = 86400000000"

text \<open>Year, month and day of a day number, in the proleptic Gregorian calendar.\<close>

definition civil_date :: "int \<Rightarrow> int \<times> int \<times> int" where
  "civil_date days =
     (let z = days + 719468; era = z div 146097; doe = z mod 146097;
          yoe = (doe - doe div 1460 + doe div 36524 - doe div 146096) div 365;
          doy = doe - (365 * yoe + yoe div 4 - yoe div 100);
          mp = (5 * doy + 2) div 153;
          d = doy - (153 * mp + 2) div 5 + 1;
          m = (if mp < 10 then mp + 3 else mp - 9)
      in (yoe + era * 400 + (if m \<le> 2 then 1 else 0), m, d))"

definition padded :: "nat \<Rightarrow> int \<Rightarrow> string" where
  "padded width n = (let ds = digits (nat n) in replicate (width - length ds) (CHR ''0'') @ ds)"

text \<open>\<open>t.date().isoformat()\<close>.\<close>

definition iso_date :: "time \<Rightarrow> string" where
  "iso_date t = (case civil_date (t div day_length) of (y, m, d) \<Rightarrow>
     padded 4 y @ ''-'' @ padded 2 m @ ''-'' @ padded 2 d)"

definition iso_time :: "time \<Rightarrow> string" where
  "iso_time t =
     (let r = t mod day_length; s = r div 1000000; u = r mod 1000000
      in padded 2 (s div 3600) @ '':'' @ padded 2 (s div 60 mod 60) @ '':'' @ padded 2 (s mod 60)
         @ (if u = 0 then [] else ''.'' @ padded 6 u))"

text \<open>\<open>t.isoformat()\<close> of an aware value, and pydantic's JSON form, which writes \<open>Z\<close>.\<close>

definition isoformat :: "time \<Rightarrow> string" where
  "isoformat t = iso_date t @ ''T'' @ iso_time t @ ''+00:00''"

definition iso_json :: "time \<Rightarrow> string" where
  "iso_json t = iso_date t @ ''T'' @ iso_time t @ ''Z''"

lemma civil_date_examples:
  "civil_date 0 = (1970, 1, 1)" "civil_date 19782 = (2024, 2, 29)" "civil_date (-1) = (1969, 12, 31)"
  by code_simp+

end
