(* ===== verification/Wire.thy ===== *)
theory Wire
  imports Ollama Grounding Calendar
begin

text \<open>
  The JSON forms the typed records have in prompts and stored state: \<open>model_dump\<close> of the classes
  of \<open>src/app/schemas/\<close> and the entries of \<open>src/app/services/context_builder.py\<close>. Numbers that
  are floats in the source go through \<open>re_float\<close>.
\<close>

definition strs :: "string list \<Rightarrow> json" where
  "strs xs = JList (map JStr xs)"

definition opt_str :: "string option \<Rightarrow> json" where
  "opt_str v = (case v of None \<Rightarrow> JNull | Some s \<Rightarrow> JStr s)"

definition plan_task_fields :: "plan_task \<Rightarrow> jobj" where
  "plan_task_fields t =
     [(''id'', JStr (pt_id t)), (''objective'', JStr (pt_objective t)),
      (''required_evidence'', strs (pt_required_evidence t)),
      (''completion_criteria'', strs (pt_completion_criteria t)),
      (''depends_on'', strs (pt_depends_on t))]"

definition plan_json :: "exec_plan \<Rightarrow> json" where
  "plan_json p = JObj [(''goal'', JStr (pl_goal p)),
     (''tasks'', JList (map (\<lambda>t. JObj (plan_task_fields t)) (pl_tasks p)))]"

definition claim_json :: "claim \<Rightarrow> json" where
  "claim_json c = JObj [(''claim_id'', opt_str (cl_id c)), (''text'', JStr (cl_text c)),
     (''evidence_ids'', strs (cl_evidence_ids c)), (''uncertainty'', opt_str (cl_uncertainty c)),
     (''requires_current_evidence'', JBool (cl_requires_current c))]"

definition worker_json :: "runtime_env \<Rightarrow> worker_result \<Rightarrow> json" where
  "worker_json env r = JObj [(''answer'', JStr (wr_answer r)),
     (''claims'', JList (map claim_json (wr_claims r))), (''assumptions'', strs (wr_assumptions r)),
     (''missing_information'', strs (wr_missing_information r)),
     (''confidence'', re_float env (wr_confidence r))]"

fun severity_text :: "severity \<Rightarrow> string" where
  "severity_text Low = ''low''" | "severity_text Medium = ''medium''" | "severity_text High = ''high''"

fun verdict_text :: "verdict \<Rightarrow> string" where
  "verdict_text Pass = ''pass''" | "verdict_text Revise = ''revise''"
| "verdict_text Research = ''research''" | "verdict_text Replan = ''replan''"
| "verdict_text Terminate = ''terminate''"

definition issue_json :: "issue \<Rightarrow> json" where
  "issue_json i = JObj [(''code'', JStr (is_code i)), (''description'', JStr (is_description i)),
     (''severity'', JStr (severity_text (is_severity i))), (''claim_id'', opt_str (is_claim_id i)),
     (''evidence_ids'', strs (is_evidence_ids i))]"

definition verification_json :: "runtime_env \<Rightarrow> verification \<Rightarrow> json" where
  "verification_json env r = JObj [(''verdict'', JStr (verdict_text (ve_verdict r))),
     (''task_complete'', JBool (ve_task_complete r)),
     (''issues'', JList (map issue_json (ve_issues r))),
     (''required_actions'', strs (ve_required_actions r)),
     (''confidence'', re_float env (ve_confidence r))]"

definition final_json :: "runtime_env \<Rightarrow> final_verification \<Rightarrow> json" where
  "final_json env r = JObj [(''verdict'', JStr (if fv_pass r then ''pass'' else ''revise'')),
     (''answer_complete'', JBool (fv_answer_complete r)),
     (''issues'', JList (map issue_json (fv_issues r))),
     (''required_actions'', strs (fv_required_actions r)),
     (''confidence'', re_float env (fv_confidence r))]"

fun grounding_text :: "grounding_status \<Rightarrow> string" where
  "grounding_text Supported = ''supported''"
| "grounding_text PartiallySupported = ''partially_supported''"
| "grounding_text Contradicted = ''contradicted''"
| "grounding_text StaleSupport = ''stale''"
| "grounding_text Unsupported = ''unsupported''"

definition grounding_json :: "grounding \<Rightarrow> json" where
  "grounding_json g = JObj [(''claim_id'', JStr (gr_claim_id g)),
     (''status'', JStr (grounding_text (gr_status g))),
     (''supporting_evidence_ids'', strs (gr_supporting g)),
     (''contradictory_evidence_ids'', strs (gr_contradicting g)),
     (''explanation'', JStr (gr_explanation g))]"

fun trust_text :: "trust \<Rightarrow> string" where
  "trust_text RetrievedExternal = ''retrieved_external''"
| "trust_text UserSupplied = ''user_supplied''"
| "trust_text InternalSystem = ''internal_system''"
| "trust_text DerivedSummary = ''derived_summary''"
| "trust_text ToolError = ''tool_error''"
| "trust_text UnknownLegacy = ''unknown_legacy''"

fun freshness_text :: "freshness \<Rightarrow> string" where
  "freshness_text Current = ''current''" | "freshness_text Stale = ''stale''"
| "freshness_text FreshnessUnknown = ''unknown''"
| "freshness_text NotTimeSensitive = ''not_time_sensitive''"

fun quality_text :: "source_quality \<Rightarrow> string" where
  "quality_text PrimaryAuthoritative = ''primary_authoritative''"
| "quality_text PrimaryNonAuthoritative = ''primary_non_authoritative''"
| "quality_text SecondaryReputable = ''secondary_reputable''"
| "quality_text SecondaryUnknown = ''secondary_unknown''"
| "quality_text QualityUserSupplied = ''user_supplied''"
| "quality_text Unverifiable = ''unverifiable''"
| "quality_text QualityUnknown = ''unknown''"

fun scan_text :: "injection_scan \<Rightarrow> string" where
  "scan_text NotScanned = ''not_scanned''" | "scan_text Clean = ''clean''"
| "scan_text Suspicious = ''suspicious''" | "scan_text Blocked = ''blocked''"

fun tool_status_text :: "tool_status \<Rightarrow> string" where
  "tool_status_text Success = ''success''" | "tool_status_text Failed = ''failed''"
| "tool_status_text TimedOut = ''timeout''" | "tool_status_text NotApplicable = ''not_applicable''"
| "tool_status_text StatusUnknown = ''unknown''"

definition evidence_json :: "evidence \<Rightarrow> json" where
  "evidence_json e = JObj
     [(''evidence_id'', JStr (ev_id e)), (''run_id'', JStr (ev_run_id e)),
      (''task_id'', JStr (ev_task_id e)), (''query_id'', opt_str (ev_query_id e)),
      (''tool_name'', opt_str (ev_tool_name e)), (''source_uri'', opt_str (ev_source_uri e)),
      (''canonical_uri'', opt_str (ev_canonical_uri e)),
      (''source_title'', opt_str (ev_source_title e)),
      (''retrieved_at'', JStr (iso_json (ev_retrieved_at e))),
      (''published_at'', opt_str (map_option iso_json (ev_published_at e))),
      (''content_type'', JStr (ev_content_type e)),
      (''raw_artifact_uri'', opt_str (ev_raw_artifact_uri e)),
      (''normalized_text'', JStr (ev_text e)), (''summary'', JStr (ev_summary e)),
      (''content_hash'', JStr (ev_content_hash e)), (''trust_class'', JStr (trust_text (ev_trust e))),
      (''freshness_status'', JStr (freshness_text (ev_freshness e))),
      (''source_quality'', JStr (quality_text (ev_quality e))),
      (''injection_scan_status'', JStr (scan_text (ev_scan e))), (''truncated'', JBool (ev_truncated e)),
      (''tool_status'', JStr (tool_status_text (ev_tool_status e))),
      (''eligible_for_claim_support'', JBool (ev_eligible e)), (''metadata'', JObj (ev_metadata e))]"

text \<open>One entry of \<open>build_context\<close>; \<open>setdefault\<close> keeps a caller's \<open>original_content_chars\<close>.\<close>

definition context_metadata :: "context_item \<Rightarrow> jobj" where
  "context_metadata c =
     (let m0 = ev_metadata (ci_evidence c);
          m1 = (if jhas m0 ''original_content_chars'' then m0
                else alist_put ''original_content_chars'' (JInt (int (ci_original_chars c))) m0);
          m2 = alist_put ''context_content_chars'' (JInt (int (ci_content_chars c))) m1;
          m3 = alist_put ''context_body_chars'' (JInt (int (ci_body_chars c))) m2
      in alist_put ''context_truncated'' (JBool (ci_truncated c)) m3)"

definition context_json :: "context_item \<Rightarrow> json" where
  "context_json c = (let e = ci_evidence c in JObj
     [(''id'', JStr (ev_id e)), (''evidence_id'', JStr (ev_id e)), (''source'', JStr (evidence_source e)),
      (''source_uri'', opt_str (ev_source_uri e)), (''canonical_uri'', opt_str (ev_canonical_uri e)),
      (''source_title'', opt_str (ev_source_title e)), (''trust_class'', JStr (trust_text (ev_trust e))),
      (''freshness_status'', JStr (freshness_text (ev_freshness e))),
      (''source_quality'', JStr (quality_text (ev_quality e))),
      (''tool_status'', JStr (tool_status_text (ev_tool_status e))),
      (''eligible_for_claim_support'', JBool (ev_eligible e)), (''content'', JStr (ci_content c)),
      (''metadata'', JObj (context_metadata c))])"

section \<open>Reading back what was written\<close>

lemma all_some_map_Some [simp]: "all_some (map (\<lambda>x. Some (f x)) xs) = Some (map f xs)"
  by (induction xs) auto

lemma str_list_strs [simp]: "str_list (strs xs) = Some xs"
proof -
  have "map (str_field \<circ> JStr) xs = map (\<lambda>x. Some (id x)) xs" by simp
  then show ?thesis by (simp only: strs_def str_list.simps map_map all_some_map_Some) simp
qed

lemma normalize_lists_strs [simp]:
  "ensure_list (strs xs) = strs xs" "normalize_dependencies (strs xs) = strs xs"
  "normalize_evidence_ids (strs xs) = Some xs" "normalize_string_list (strs xs) = Some xs"
proof -
  show "ensure_list (strs xs) = strs xs" by (simp add: strs_def)
  show "normalize_dependencies (strs xs) = strs xs" by (simp add: strs_def)
  have "map (evidence_id_item \<circ> JStr) xs = map (\<lambda>x. Some (id x)) xs"
       "map (str_field \<circ> JStr) xs = map (\<lambda>x. Some (id x)) xs" by simp_all
  then show "normalize_evidence_ids (strs xs) = Some xs" "normalize_string_list (strs xs) = Some xs"
    by (simp_all only: strs_def normalize_evidence_ids.simps normalize_string_list.simps map_map
        all_some_map_Some) simp_all
qed

lemma opt_str_field_opt_str [simp]: "opt_str_field (opt_str v) = Some v"
  by (cases v) (simp_all add: opt_str_def)

lemma all_some_roundtrip:
  assumes "\<And>x. x \<in> set xs \<Longrightarrow> f (g x) = Some x"
  shows "all_some (map (\<lambda>x. f (g x)) xs) = Some xs"
  using assms by (induction xs) simp_all

lemma plan_task_roundtrip: "validate_plan_task (JObj (plan_task_fields t)) = Some t"
  by (simp add: plan_task_fields_def required_field_def field_or_def
      del: normalize_dependencies.simps ensure_list.simps)

lemma claim_roundtrip:
  "lax_bool py (JBool (cl_requires_current c)) = Some (cl_requires_current c) \<Longrightarrow>
   validate_claim py (claim_json c) = Some c"
  by (simp add: claim_json_def required_field_def field_or_def)

lemma issue_roundtrip: "validate_issue (issue_json i) = Some i"
  by (cases "is_severity i"; cases i)
    (simp_all add: issue_json_def required_field_def field_or_def)

text \<open>
  C29: a stored plan reads back as the same plan: \<open>model_validate\<close> after \<open>model_dump\<close> is the
  identity on every plan the planner can produce, so replanning in echo mode, which re-validates
  the stored plan, never loses or changes a task and never fails.
\<close>

theorem plan_roundtrip:
  "validate_plan (plan_json p) = (if pl_tasks p = [] then None else Some p)"
proof -
  have "all_some (map (validate_plan_task \<circ> (\<lambda>t. JObj (plan_task_fields t))) ts) = Some ts" for ts
    by (induction ts) (simp_all add: plan_task_roundtrip del: validate_plan_task.simps)
  then show ?thesis
    by (simp add: plan_json_def required_field_def del: validate_plan_task.simps)
qed

end
