(* ===== verification/Regex.thy ===== *)
theory Regex
  imports Prelude
begin

text \<open>
  Python's \<open>re\<close> for the patterns the sources use: literals, character classes, bounded greedy or
  lazy repetition of a class, sequence, alternation, word boundary, anchors, lookahead.
  \<open>ends r s i\<close> lists the positions where a match of \<open>r\<close> started at \<open>i\<close> can end, in the order
  a backtracking matcher tries them; its head is the match Python reports.
\<close>

datatype rx =
    Lit string
  | Cls "char \<Rightarrow> bool"
  | Rep bool nat "nat option" "char \<Rightarrow> bool" \<comment> \<open>greedy, least, most\<close>
  | Seq rx rx
  | Alt rx rx
  | Boundary
  | Start
  | End
  | Look rx

definition code :: "char \<Rightarrow> nat" where
  "code c = of_char c"

definition upper_alpha :: "char \<Rightarrow> bool" where
  "upper_alpha c \<longleftrightarrow> 65 \<le> code c \<and> code c \<le> 90"

definition lower_alpha :: "char \<Rightarrow> bool" where
  "lower_alpha c \<longleftrightarrow> 97 \<le> code c \<and> code c \<le> 122"

definition digit_char :: "char \<Rightarrow> bool" where
  "digit_char c \<longleftrightarrow> 48 \<le> code c \<and> code c \<le> 57"

definition alpha_char :: "char \<Rightarrow> bool" where
  "alpha_char c \<longleftrightarrow> upper_alpha c \<or> lower_alpha c"

text \<open>The word characters: \<open>str.isalnum\<close> or underscore.\<close>

definition word_char :: "char \<Rightarrow> bool" where
  "word_char c \<longleftrightarrow> alpha_char c \<or> digit_char c \<or> code c = 95 \<or>
     code c \<in> {170, 178, 179, 181, 185, 186, 188, 189, 190} \<or>
     (192 \<le> code c \<and> code c \<noteq> 215 \<and> code c \<noteq> 247)"

definition word_at :: "string \<Rightarrow> nat \<Rightarrow> bool" where
  "word_at s i \<longleftrightarrow> i < length s \<and> word_char (s ! i)"

definition boundary_at :: "string \<Rightarrow> nat \<Rightarrow> bool" where
  "boundary_at s i \<longleftrightarrow> word_at s i \<noteq> (0 < i \<and> word_at s (i - 1))"

text \<open>How many characters of a class follow, at most \<open>m\<close> when there is a bound.\<close>

definition run_length :: "(char \<Rightarrow> bool) \<Rightarrow> nat option \<Rightarrow> string \<Rightarrow> nat \<Rightarrow> nat" where
  "run_length p m s i =
     (let n = length (takeWhile p (drop i s)) in case m of None \<Rightarrow> n | Some k \<Rightarrow> min n k)"

fun ends :: "rx \<Rightarrow> string \<Rightarrow> nat \<Rightarrow> nat list" where
  "ends (Lit t) s i = (if starts_with t (drop i s) then [i + length t] else [])"
| "ends (Cls p) s i = (if i < length s \<and> p (s ! i) then [Suc i] else [])"
| "ends (Rep greedy least most p) s i =
     (let n = run_length p most s i; ks = (if n < least then [] else [least..<Suc n])
      in map (\<lambda>k. i + k) (if greedy then rev ks else ks))"
| "ends (Seq a b) s i = concat (map (ends b s) (ends a s i))"
| "ends (Alt a b) s i = ends a s i @ ends b s i"
| "ends Boundary s i = (if boundary_at s i then [i] else [])"
| "ends Start s i = (if i = 0 then [i] else [])"
| "ends End s i = (if i = length s \<or> (Suc i = length s \<and> code (s ! i) = 10) then [i] else [])"
| "ends (Look r) s i = (if ends r s i = [] then [] else [i])"

fun alts :: "rx list \<Rightarrow> rx" where
  "alts [] = Look (Cls (\<lambda>_. False))"
| "alts [r] = r"
| "alts (r # rs) = Alt r (alts rs)"

fun seqs :: "rx list \<Rightarrow> rx" where
  "seqs [] = Lit []"
| "seqs [r] = r"
| "seqs (r # rs) = Seq r (seqs rs)"

text \<open>\<open>re.search\<close> with one group: the text the group matched, at the leftmost match.\<close>

definition group_at :: "rx \<Rightarrow> rx \<Rightarrow> rx \<Rightarrow> string \<Rightarrow> nat \<Rightarrow> (nat \<times> nat) list" where
  "group_at before grp after s i =
     concat (map (\<lambda>j. concat (map (\<lambda>k. map (\<lambda>_. (j, k)) (ends after s k)) (ends grp s j)))
       (ends before s i))"

definition search_group :: "rx \<Rightarrow> rx \<Rightarrow> rx \<Rightarrow> string \<Rightarrow> string option" where
  "search_group before grp after s =
     (case concat (map (group_at before grp after s) [0..<Suc (length s)]) of
        [] \<Rightarrow> None
      | (j, k) # _ \<Rightarrow> Some (take (k - j) (drop j s)))"

definition search :: "rx \<Rightarrow> string \<Rightarrow> bool" where
  "search r s \<longleftrightarrow> (\<exists>i\<in>set [0..<Suc (length s)]. ends r s i \<noteq> [])"

definition search_text :: "rx \<Rightarrow> string \<Rightarrow> string option" where
  "search_text r s = search_group (Lit []) r (Lit []) s"

text \<open>A literal under \<open>re.IGNORECASE\<close>, written in lower case.\<close>

definition caseless :: "string \<Rightarrow> rx" where
  "caseless t = seqs (map (\<lambda>c. Cls (\<lambda>d. lower_char d = c)) t)"

text \<open>
  \<open>re.finditer\<close> from position \<open>i\<close>: start and end of the matches, for patterns that match no
  empty text. \<open>re.split\<close> without groups and \<open>re.sub\<close> cut the text there.
\<close>

definition first_match :: "rx \<Rightarrow> string \<Rightarrow> nat \<Rightarrow> (nat \<times> nat) option" where
  "first_match r s i =
     map_option (\<lambda>j. (j, hd (ends r s j))) (find (\<lambda>j. ends r s j \<noteq> []) [i..<Suc (length s)])"

lemma first_match_SomeD: "first_match r s i = Some (j, k) \<Longrightarrow> i \<le> j \<and> j \<le> length s"
  by (auto simp: first_match_def simp del: upt_Suc dest!: find_SomeD)

function matches :: "rx \<Rightarrow> string \<Rightarrow> nat \<Rightarrow> (nat \<times> nat) list" where
  "matches r s i =
     (case first_match r s i of None \<Rightarrow> [] | Some (j, k) \<Rightarrow> (j, k) # matches r s (max k (Suc j)))"
  by auto
termination
  by (relation "measure (\<lambda>(r, s, i). Suc (length s) - i)") (auto dest: first_match_SomeD)

declare matches.simps [simp del]

fun cut_at :: "nat \<Rightarrow> string \<Rightarrow> (nat \<times> nat) list \<Rightarrow> string list" where
  "cut_at i s [] = [drop i s]"
| "cut_at i s ((j, k) # ms) = take (j - i) (drop i s) # cut_at k s ms"

definition re_split :: "rx \<Rightarrow> string \<Rightarrow> string list" where
  "re_split r s = cut_at 0 s (matches r s 0)"

definition re_sub :: "rx \<Rightarrow> string \<Rightarrow> string \<Rightarrow> string" where
  "re_sub r new s = join new (re_split r s)"

text \<open>What a group captures occurs in the text.\<close>

lemma search_group_substring:
  assumes "search_group b g a s = Some t"
  shows "occurs_in t s \<or> t = []"
proof -
  from assms obtain j k where t: "t = take (k - j) (drop j s)"
    by (auto simp: search_group_def split: list.splits prod.splits)
  have "occurs_in (take n (drop j s)) s" if "take n (drop j s) \<noteq> []" for n
    using that
  proof (induction s arbitrary: j)
    case (Cons c cs)
    show ?case
    proof (cases j)
      case 0
      have "take (min (length (c # cs)) n) (c # cs) = take n (c # cs)"
        by (simp only: take_all_iff min_def) (simp split: if_splits)
      with 0 show ?thesis by (simp add: starts_with_def)
    next
      case (Suc j')
      then show ?thesis using Cons by simp
    qed
  qed simp
  then show ?thesis using t by blast
qed

end
