(* ===== verification/Routing.thy ===== *)
theory Routing
  imports Inventory Calendar Regex Schemas "HOL-Library.Product_Lexorder"
begin

text \<open>
  Deterministic routing: \<open>src/app/services/routing.py\<close>. System prompt, research queries, task
  classification, the ranking of live tools and the arguments built for them, the legacy query
  classifier; and the query rewriter of \<open>src/app/services/query_rewriter.py\<close>. Terms are matched
  as substrings, as in the source.
\<close>

section \<open>Terms\<close>

definition current_terms :: "string list" where
  "current_terms =
     [''current'', ''currently'', ''latest'', ''live'', ''today'', ''tonight'', ''tomorrow'',
      ''yesterday'', ''recent'', ''recently'', ''now'', ''this week'', ''last night'', ''breaking'']"

definition search_terms :: "string list" where
  "search_terms =
     [''find'', ''search'', ''look up'', ''research'', ''source'', ''evidence'', ''news'',
      ''weather'', ''forecast'', ''score'', ''match'', ''game'', ''fifa'', ''world cup'',
      ''critic'', ''criticism'', ''reaction'', ''report'']"

definition reasoning_terms :: "string list" where
  "reasoning_terms =
     [''analyze'', ''analysis'', ''compare'', ''comparison'', ''critic'', ''criticism'',
      ''tradeoff'', ''risk'', ''recommend'', ''recommendation'', ''why'', ''evaluate'',
      ''architecture'', ''diagnostic'']"

definition write_markers :: "string list" where
  "write_markers =
     [''send'', ''create'', ''delete'', ''remove'', ''update'', ''modify'', ''write'', ''draft'',
      ''post'', ''publish'', ''book'', ''purchase'', ''order'', ''cancel'', ''forward'', ''reply'']"

definition normalize :: "string \<Rightarrow> string" where
  "normalize v = compact (lower v)"

definition contains_any :: "string \<Rightarrow> string list \<Rightarrow> bool" where
  "contains_any text terms \<longleftrightarrow> (\<exists>t\<in>set terms. occurs_in t text)"

definition domain_for_text :: "string \<Rightarrow> string" where
  "domain_for_text text =
     (if contains_any text [''fifa'', ''football'', ''soccer'', ''match'', ''game'', ''red card'',
            ''world cup''] then ''sports''
      else if contains_any text [''weather'', ''forecast'', ''temperature'', ''rain'', ''snow'']
      then ''weather''
      else if contains_any text [''python'', ''fastapi'', ''langgraph'', ''langchain'', ''ollama'',
            ''mcp'', ''api'', ''code''] then ''software''
      else if contains_any text [''stock'', ''market'', ''investment'', ''credit'', ''apr'', ''finance'']
      then ''finance''
      else ''general'')"

section \<open>System prompt\<close>

record prompt_decision =
  pd_prompt :: string
  pd_source :: string
  pd_domain :: string
  pd_requires_external :: bool

definition analyst_role :: "string \<Rightarrow> string" where
  "analyst_role d =
     (if d = ''sports'' then ''sports research analyst''
      else if d = ''weather'' then ''weather analyst''
      else if d = ''software'' then ''senior software and AI systems analyst''
      else if d = ''finance'' then ''financial research analyst''
      else ''evidence-grounded research analyst'')"

definition derived_prompt :: "string \<Rightarrow> string" where
  "derived_prompt d =
     ''Act as a '' @ analyst_role d @ ''. Treat the current user message as authoritative. ''
     @ ''Break compound requests into the smallest useful research or analysis ''
     @ ''steps, choose only live compatible read-only tools, and choose models ''
     @ ''according to each step's capability needs. For current or uncertain ''
     @ ''claims, use external evidence instead of model memory. Preserve source ''
     @ ''references, distinguish facts from inference, state unresolved ''
     @ ''uncertainty, and do not perform write operations unless the user ''
     @ ''explicitly requests and separately authorizes them.''"

definition prepare_system_prompt :: "string \<Rightarrow> string option \<Rightarrow> prompt_decision" where
  "prepare_system_prompt message provided =
     (let supplied = strip (case provided of Some p \<Rightarrow> p | None \<Rightarrow> []);
          text = normalize message; d = domain_for_text text;
          current = contains_any text (current_terms @ search_terms)
      in if supplied \<noteq> []
         then \<lparr>pd_prompt = supplied, pd_source = ''request'', pd_domain = d,
               pd_requires_external = current\<rparr>
         else \<lparr>pd_prompt = derived_prompt d, pd_source = ''derived'', pd_domain = d,
               pd_requires_external = current\<rparr>)"

section \<open>Execution context and research queries\<close>

definition execution_context :: "time \<Rightarrow> jobj" where
  "execution_context now =
     [(''execution_time_utc'', JStr (isoformat now)),
      (''execution_date_utc'', JStr (iso_date now)),
      (''yesterday_date_utc'', JStr (iso_date (now - day_length))),
      (''relative_date_rule'',
       JStr (''Resolve relative dates such as today/yesterday from execution_time_utc; ''
             @ ''do not invent a calendar date when external evidence is required.''))]"

definition date_hint :: "time \<Rightarrow> string \<Rightarrow> string" where
  "date_hint now request =
     (let text = normalize request in
      if occurs_in ''yesterday'' text then '' event date '' @ iso_date (now - day_length)
      else if contains_any text [''today'', ''current'', ''latest'']
      then '' as of '' @ iso_date now else [])"

definition query_candidates :: "time \<Rightarrow> string \<Rightarrow> plan_task \<Rightarrow> string list \<Rightarrow> string list" where
  "query_candidates now request task actions =
     (let objective = strip (pt_objective task); hint = date_hint now request;
          subject = (if objective \<noteq> [] then objective else request)
      in (if objective \<noteq> [] then [objective @ hint @ ''. '' @ request] else [])
         @ map (\<lambda>t. strip t @ hint @ ''. '' @ subject)
             (filter (\<lambda>t. strip t \<noteq> []) (pt_required_evidence task))
         @ map (\<lambda>a. strip a @ hint @ ''. '' @ subject) (filter (\<lambda>a. strip a \<noteq> []) actions)
         @ [request @ hint])"

text \<open>The loop over the candidates; \<open>room\<close> counts down from the maximum.\<close>

definition is_blank_or_dot :: "char \<Rightarrow> bool" where
  "is_blank_or_dot c \<longleftrightarrow> c = CHR '' '' \<or> c = CHR ''.''"

fun collect_queries :: "nat \<Rightarrow> string list \<Rightarrow> string list \<Rightarrow> string list" where
  "collect_queries room seen [] = []"
| "collect_queries 0 seen (c # cs) = []"
| "collect_queries (Suc room) seen (c # cs) =
     (let q = strip_where is_blank_or_dot (compact c); q' = take 800 q in
      if q = [] then collect_queries (Suc room) seen cs
      else if lower q' \<in> set seen then collect_queries (Suc room) seen cs
      else q' # collect_queries room (lower q' # seen) cs)"

definition query_limit :: "settings \<Rightarrow> int option \<Rightarrow> nat" where
  "query_limit s limit = nat (max 1 (case limit of Some n \<Rightarrow>
       if n = 0 then research_max_queries_per_task s else n
     | None \<Rightarrow> research_max_queries_per_task s))"

definition build_research_queries ::
  "settings \<Rightarrow> time \<Rightarrow> string \<Rightarrow> plan_task \<Rightarrow> string list \<Rightarrow> int option \<Rightarrow> string list" where
  "build_research_queries s now request task actions limit =
     (let qs = collect_queries (query_limit s limit) [] (query_candidates now request task actions)
      in if qs = [] then [take 800 request] else qs)"

lemma collect_queries_length: "length (collect_queries room seen cs) \<le> room"
  by (induction room seen cs rule: collect_queries.induct) (auto simp: Let_def)

lemma collect_queries_distinct:
  "distinct (map lower (collect_queries room seen cs)) \<and>
   lower ` set (collect_queries room seen cs) \<inter> set seen = {}"
  by (induction room seen cs rule: collect_queries.induct) (auto simp: Let_def)

lemma collect_queries_short: "q \<in> set (collect_queries room seen cs) \<Longrightarrow> length q \<le> 800 \<and> q \<noteq> []"
  by (induction room seen cs rule: collect_queries.induct) (auto simp: Let_def split: if_splits)

text \<open>
  C31: a research round asks at least one and at most the configured number of queries, each at
  most 800 characters long and no two equal up to letter case, whatever the plan and the
  verifier put into the task.
\<close>

theorem research_queries_bounded:
  "let qs = build_research_queries s now request task actions limit in
     1 \<le> length qs \<and> length qs \<le> query_limit s limit \<and> distinct (map lower qs) \<and>
     list_all (\<lambda>q. length q \<le> 800) qs"
  using collect_queries_length [of "query_limit s limit" "[]"]
    collect_queries_distinct [of "query_limit s limit" "[]"] collect_queries_short
  by (auto simp: build_research_queries_def Let_def list_all_iff Suc_le_eq query_limit_def)

section \<open>Task classification\<close>

record task_decision =
  td_requires_external :: bool
  td_worker_role :: string
  td_verifier_role :: string
  td_reason :: string

definition classify_task :: "string \<Rightarrow> plan_task \<Rightarrow> task_decision" where
  "classify_task request task =
     (let required = pt_required_evidence task;
          text = normalize (request @ '' '' @ pt_objective task @ '' '' @ join '' '' required);
          external = (contains_any text current_terms \<or> contains_any text search_terms \<or> required \<noteq> []);
          reasoning = contains_any text reasoning_terms;
          (role, why) =
            (if external then (''search'', ''current/search/evidence-dependent task'')
             else if reasoning then (''reasoning'', ''analysis/reasoning task'')
             else if length (words text) \<le> 18 then (''simple'', ''short stable task'')
             else (''general'', ''general task''))
      in \<lparr>td_requires_external = external, td_worker_role = role,
          td_verifier_role = (if reasoning \<or> external then ''reasoning'' else ''fast_reasoning''),
          td_reason = why\<rparr>)"

section \<open>Tools\<close>

record tool_decision =
  to_name :: string
  to_arguments :: jobj
  to_score :: int
  to_reason :: string

definition alnum_lower :: "char \<Rightarrow> bool" where
  "alnum_lower c \<longleftrightarrow> lower_alpha c \<or> digit_char c"

definition name_tokens :: "string \<Rightarrow> string list" where
  "name_tokens name = filter (\<lambda>t. t \<noteq> []) (split_where (\<lambda>c. \<not> alnum_lower c) (lower name))"

definition read_only_candidate :: "string \<Rightarrow> bool" where
  "read_only_candidate name \<longleftrightarrow> \<not> (\<exists>t\<in>set (name_tokens name). t \<in> set write_markers)"

definition score_terms :: "string \<Rightarrow> string list \<Rightarrow> int \<Rightarrow> int" where
  "score_terms haystack terms weight = weight * int (length (filter (\<lambda>t. occurs_in t haystack) terms))"

text \<open>One scoring rule: its condition, terms and weight, and the reason with the terms it needs.\<close>

definition score_rule ::
  "bool \<Rightarrow> string \<Rightarrow> string list \<Rightarrow> int \<Rightarrow> string list \<Rightarrow> string \<Rightarrow> int \<times> string list" where
  "score_rule applies haystack terms weight reason_terms reason =
     (if applies then (score_terms haystack terms weight,
                       if contains_any haystack reason_terms then [reason] else [])
      else (0, []))"

definition tool_score :: "string \<Rightarrow> string \<Rightarrow> string \<Rightarrow> int \<times> string list" where
  "tool_score name description query =
     (let hay = normalize (name @ '' '' @ description);
          rules =
            [score_rule (contains_any query [''weather'', ''forecast'']) hay
               [''weather'', ''forecast'', ''climate''] 12 [''weather'', ''forecast''] ''weather capability'',
             score_rule (contains_any query [''fifa'', ''football'', ''soccer'', ''match'', ''game'', ''score''])
               hay [''sports'', ''football'', ''soccer'', ''fifa'', ''match'', ''score'', ''news''] 10
               [''sports'', ''football'', ''soccer'', ''news''] ''sports/news capability'',
             score_rule (contains_any query current_terms \<or> occurs_in ''news'' query) hay
               [''news'', ''search'', ''web'', ''scrape''] 8 [''news'', ''search'', ''web'']
               ''fresh-information capability'',
             score_rule (contains_any query [''critic'', ''reaction'', ''report'', ''source'', ''evidence''])
               hay [''news'', ''search'', ''web'', ''scrape'', ''article''] 7
               [''news'', ''search'', ''scrape''] ''source-discovery capability'',
             (score_terms hay [''search'', ''web'', ''news'', ''scrape'', ''fetch''] 3, []),
             (if name \<in> {''web_search_and_scrape'', ''web_search'', ''news_search''}
              then (4, [''known read-only research fallback'']) else (0, []))]
      in (sum_list (map fst rules), concat (map snd rules)))"

text \<open>\<open>_safe_int\<close>: an infinite float is not among the caught exceptions.\<close>

definition safe_int :: "json \<Rightarrow> int \<Rightarrow> int \<Rightarrow> int \<Rightarrow> int result" where
  "safe_int v dflt least most =
     bind_result
       (case v of
          JInt i \<Rightarrow> Inr i
        | JBool b \<Rightarrow> Inr (of_bool b)
        | JFloat (FFinite _ q) \<Rightarrow> Inr (if q < 0 then \<lceil>q\<rceil> else \<lfloor>q\<rfloor>)
        | JFloat (FNonFinite r) \<Rightarrow> if r = ''nan'' then Inr dflt else Inl OverflowError
        | JStr t \<Rightarrow> Inr (case int_of_text t of Some i \<Rightarrow> i | None \<Rightarrow> dflt)
        | _ \<Rightarrow> Inr dflt)
       (\<lambda>i. Inr (max least (min most i)))"

definition location_class :: "char \<Rightarrow> bool" where
  "location_class c \<longleftrightarrow> alpha_char c \<or> code c \<in> {32, 46, 39, 45}"

definition blank_class :: "char \<Rightarrow> bool" where
  "blank_class c \<longleftrightarrow> is_space c"

definition blanks :: rx where
  "blanks = Rep True 1 None blank_class"

definition relative_day :: rx where
  "relative_day = seqs [blanks, alts (map Lit [''today'', ''tomorrow'', ''yesterday'', ''now'']), Boundary]"

definition preposition :: rx where
  "preposition = seqs [Boundary, alts (map Lit [''in'', ''for'', ''at'', ''near'']), blanks]"

definition extract_location_of_query :: "string \<Rightarrow> string option" where
  "extract_location_of_query query =
     map_option strip (search_group preposition
       (Seq (Cls upper_alpha) (Rep False 1 None location_class))
       (alts [Cls (\<lambda>c. code c \<in> {63, 46, 33, 44}), relative_day, End]) query)"

definition fallback_required_value :: "jobj \<Rightarrow> string \<Rightarrow> int \<Rightarrow> json option" where
  "fallback_required_value d query pages =
     (let t = jget d ''type'' in
      if t = JStr ''string'' \<or> t = JNull then Some (JStr query)
      else if t = JStr ''integer'' then Some (JInt pages)
      else if t = JStr ''number'' then Some (JFloat (FFinite (show_int pages @ ''.0'') (of_int pages)))
      else if t = JStr ''boolean'' then Some (JBool True)
      else None)"

text \<open>The value of one property: \<open>None\<close> refuses the tool, \<open>Some None\<close> leaves it out.\<close>

definition property_value ::
  "string \<Rightarrow> jobj \<Rightarrow> json list \<Rightarrow> int \<Rightarrow> string \<Rightarrow> jobj \<Rightarrow> json option option" where
  "property_value query metadata required pages prop definition' =
     (let p = lower prop; given = (\<lambda>v. Some (if v = JNull then None else Some v)) in
      if p \<in> set [''query'', ''q'', ''search_query'', ''search'', ''text'', ''prompt'']
      then given (JStr query)
      else if p \<in> set [''pages'', ''limit'', ''count'', ''max_results'', ''num_results'']
      then given (JInt pages)
      else if p \<in> set [''prefer_official'', ''official_only''] then given (JBool True)
      else if p \<in> set [''location'', ''city'', ''place'']
      then given (JStr (case extract_location_of_query query of
              Some l \<Rightarrow> if l = [] then query else l | None \<Rightarrow> query))
      else if jhas metadata p then given (jget metadata p)
      else if jhas metadata prop then given (jget metadata prop)
      else if jhas definition' ''default'' then Some None
      else if JStr prop \<in> set required
      then map_option Some (fallback_required_value definition' query pages)
      else Some None)"

fun collect_arguments ::
  "string \<Rightarrow> jobj \<Rightarrow> json list \<Rightarrow> int \<Rightarrow> jobj \<Rightarrow> jobj \<Rightarrow> jobj option" where
  "collect_arguments query metadata required pages acc [] = Some acc"
| "collect_arguments query metadata required pages acc ((prop, d) # rest) =
     (case property_value query metadata required pages prop (obj_fields d) of
        None \<Rightarrow> None
      | Some None \<Rightarrow> collect_arguments query metadata required pages acc rest
      | Some (Some v) \<Rightarrow> collect_arguments query metadata required pages (alist_put prop v acc) rest)"

definition tool_schema :: "jobj \<Rightarrow> json" where
  "tool_schema tool =
     (if truthy (jget tool ''inputSchema'') then jget tool ''inputSchema''
      else if truthy (jget tool ''input_schema'') then jget tool ''input_schema'' else JObj [])"

definition arguments_for_tool :: "jobj \<Rightarrow> string \<Rightarrow> jobj \<Rightarrow> jobj option result" where
  "arguments_for_tool tool query metadata =
     (case tool_schema tool of
        JObj schema \<Rightarrow>
          let properties = obj_fields (jget schema ''properties'');
              required = list_items (jget schema ''required'')
          in bind_result (safe_int (jget metadata ''pages'') 3 1 10) (\<lambda>pages. Inr
               (case collect_arguments query metadata required pages [] properties of
                  None \<Rightarrow> None
                | Some args \<Rightarrow> Some (if properties = []
                    then [(''query'', JStr query), (''pages'', JInt pages), (''prefer_official'', JBool True)]
                    else args)))
      | _ \<Rightarrow> Inr None)"

text \<open>One tool of the inventory: \<open>None\<close> when the loop skips it.\<close>

definition consider_tool :: "string \<Rightarrow> jobj \<Rightarrow> jobj \<Rightarrow> tool_decision option result" where
  "consider_tool query metadata tool =
     (let name = strip (str_or_empty (jget tool ''name'')) in
      if name = [] \<or> \<not> read_only_candidate name then Inr None
      else case tool_score name (str_or_empty (jget tool ''description'')) (normalize query) of
        (score, reasons) \<Rightarrow>
          bind_result (arguments_for_tool tool query metadata) (\<lambda>args. Inr
            (case args of
               None \<Rightarrow> None
             | Some a \<Rightarrow>
                 if score \<le> 0 then None
                 else Some \<lparr>to_name = name, to_arguments = a, to_score = score,
                        to_reason = (let r = join '', '' reasons in
                          if r = [] then ''generic read-only research tool'' else r)\<rparr>)))"

definition resolved_query :: "string \<Rightarrow> plan_task \<Rightarrow> string list \<Rightarrow> string option \<Rightarrow> string" where
  "resolved_query request task actions query =
     (let q = strip (case query of Some q \<Rightarrow> q | None \<Rightarrow> []) in
      if q \<noteq> [] then q
      else strip (join '' '' (filter (\<lambda>p. p \<noteq> [])
        [pt_objective task, join '' '' (filter (\<lambda>a. a \<noteq> []) actions), request])))"

definition select_tools ::
  "string \<Rightarrow> plan_task \<Rightarrow> string list \<Rightarrow> inventory \<Rightarrow> jobj \<Rightarrow> int \<Rightarrow> string option
   \<Rightarrow> tool_decision list result" where
  "select_tools request task actions iv metadata limit query =
     (let q = resolved_query request task actions query in
      bind_result (map_result (consider_tool q metadata) (inv_tools iv)) (\<lambda>ds.
        Inr (take (nat (max 1 limit)) (sort_key (\<lambda>d. (- to_score d, to_name d)) (somes ds)))))"

lemma consider_tool_Some:
  assumes "consider_tool q metadata tool = Inr (Some d)"
  shows "to_name d = strip (str_or_empty (jget tool ''name'')) \<and> to_name d \<noteq> [] \<and>
    read_only_candidate (to_name d) \<and> 0 < to_score d"
proof -
  define name where "name = strip (str_or_empty (jget tool ''name''))"
  obtain score reasons where sc:
    "tool_score name (str_or_empty (jget tool ''description'')) (normalize q) = (score, reasons)"
    by fastforce
  have ok: "name \<noteq> []" "read_only_candidate name"
    using assms unfolding consider_tool_def name_def [symmetric] Let_def by (auto split: if_splits)
  then obtain args where args: "arguments_for_tool tool q metadata = Inr args"
    and d: "(case args of None \<Rightarrow> None | Some a \<Rightarrow> if score \<le> 0 then None
       else Some \<lparr>to_name = name, to_arguments = a, to_score = score,
              to_reason = (let r = join '', '' reasons in
                if r = [] then ''generic read-only research tool'' else r)\<rparr>) = Some d"
    using assms sc unfolding consider_tool_def name_def [symmetric] Let_def
    by (cases "arguments_for_tool tool q metadata") simp_all
  from d have "to_name d = name" "0 < to_score d"
    by (cases args; fastforce split: if_splits)+
  then show ?thesis using ok by (simp add: name_def)
qed

lemma sort_key_head_least:
  assumes "d \<in> set xs"
  shows "take (Suc n) (sort_key f xs) \<noteq> [] \<and> f (hd (take (Suc n) (sort_key f xs))) \<le> f d"
proof -
  obtain h t where s: "sort_key f xs = h # t"
    using assms by (metis list.exhaust set_empty set_sort empty_iff)
  have "sorted (map f (h # t))" using sorted_sort_key [of f xs] by (simp add: s)
  moreover have "d \<in> set (h # t)" using assms by (metis s set_sort)
  ultimately have "f h \<le> f d" by auto
  then show ?thesis using s by simp
qed

text \<open>
  C30: the tools proposed for a query come from the live inventory, are few, have a positive
  score and carry no write marker in their name, and no usable tool of the inventory ranks
  before the first of them.
\<close>

theorem selected_tools_are_live_and_ranked:
  assumes "select_tools request task actions iv metadata limit query = Inr ds"
  shows "length ds \<le> nat (max 1 limit) \<and>
    (\<forall>d\<in>set ds. read_only_candidate (to_name d) \<and> 0 < to_score d \<and>
       (\<exists>tool\<in>set (inv_tools iv). to_name d = strip (str_or_empty (jget tool ''name'')))) \<and>
    (\<forall>tool\<in>set (inv_tools iv). \<forall>d.
       consider_tool (resolved_query request task actions query) metadata tool = Inr (Some d) \<longrightarrow>
       ds \<noteq> [] \<and> (- to_score (hd ds), to_name (hd ds)) \<le> (- to_score d, to_name d))"
proof -
  let ?q = "resolved_query request task actions query"
  let ?key = "\<lambda>d. (- to_score d, to_name d)"
  from assms obtain rs where rs: "map_result (consider_tool ?q metadata) (inv_tools iv) = Inr rs"
    and ds: "ds = take (nat (max 1 limit)) (sort_key ?key (somes rs))"
    by (auto simp: select_tools_def Let_def bind_result_Inr_iff)
  have live: "read_only_candidate (to_name d) \<and> 0 < to_score d \<and>
      (\<exists>tool\<in>set (inv_tools iv). to_name d = strip (str_or_empty (jget tool ''name'')))"
    if "d \<in> set ds" for d
  proof -
    from that have "d \<in> set (somes rs)" unfolding ds by (metis in_set_takeD set_sort)
    then have "Some d \<in> set rs" by simp
    from map_result_set [OF rs this] consider_tool_Some show ?thesis by blast
  qed
  have best: "ds \<noteq> [] \<and> ?key (hd ds) \<le> ?key d"
    if "tool \<in> set (inv_tools iv)" and "consider_tool ?q metadata tool = Inr (Some d)" for tool d
  proof -
    have d: "d \<in> set (somes rs)" using map_result_mem [OF rs that] by simp
    have n: "nat (max 1 limit) = Suc (nat (max 1 limit) - 1)" by simp
    show ?thesis
      unfolding ds by (subst (1 2 3) n) (rule sort_key_head_least [OF d, where f = ?key])
  qed
  have "length ds \<le> nat (max 1 limit)" using ds by simp
  with live best show ?thesis by blast
qed

definition sample_tool :: jobj where
  "sample_tool = [(''name'', JStr ''web_search''),
     (''inputSchema'', JObj [(''properties'', JObj [(''query'', JObj [(''type'', JStr ''string'')])])])]"

definition sample_task :: plan_task where
  "sample_task = \<lparr>pt_id = ''t1'', pt_objective = ''news'', pt_required_evidence = [],
     pt_completion_criteria = [], pt_depends_on = []\<rparr>"

definition sample_inventory :: inventory where
  "sample_inventory = \<lparr>inv_models = [], inv_tools = [sample_tool], inv_errors = [],
     inv_cached = False, inv_age = 0\<rparr>"

theorem selected_tools_witness:
  "\<exists>ds. select_tools ''news'' sample_task [] sample_inventory [] 3 (Some ''news'') = Inr ds \<and>
     length ds \<le> 3 \<and> (\<forall>d\<in>set ds. read_only_candidate (to_name d))"
proof -
  have "is_ok (select_tools ''news'' sample_task [] sample_inventory [] 3 (Some ''news''))"
    by code_simp
  then obtain ds where ds: "select_tools ''news'' sample_task [] sample_inventory [] 3 (Some ''news'') = Inr ds"
    by (auto simp: is_ok_def split: sum.splits)
  from selected_tools_are_live_and_ranked [OF ds] ds show ?thesis by auto
qed

section \<open>The legacy query classifier\<close>

record query_plan =
  qp_intent :: string
  qp_tools :: "string list"
  qp_model_key :: string
  qp_rewrite :: bool

definition http_url :: rx where
  "http_url = seqs [Lit ''http'', Rep True 0 (Some 1) (\<lambda>c. c = CHR ''s''), Lit ''://'',
     Rep True 1 None (\<lambda>c. \<not> is_space c)]"

definition plan_of :: "string \<Rightarrow> string list \<Rightarrow> string \<Rightarrow> bool \<Rightarrow> query_plan" where
  "plan_of intent tools key rewrite =
     \<lparr>qp_intent = intent, qp_tools = tools, qp_model_key = key, qp_rewrite = rewrite\<rparr>"

definition query_rules :: "(string list \<times> query_plan) list" where
  "query_rules =
     [([''send draft'', ''send email'', ''email draft''],
         plan_of ''mail_send_draft'' [''mail_send_draft''] ''writer'' False),
      ([''check tools health'', ''tool health'', ''mcp health''],
         plan_of ''tool_health'' [''health_check''] ''simple'' False),
      ([''weather'', ''forecast'', ''temperature'', ''rain'', ''snow'', ''humidity''],
         plan_of ''weather'' [''weather_lookup''] ''search'' True),
      ([''stock'', ''shares'', ''ticker'', ''market price''],
         plan_of ''stock'' [''stock_quote''] ''search'' True),
      ([''world cup'', ''fifa'', ''football'', ''soccer'', ''match result'', ''match results'',
        ''final score'', ''game result'', ''game results''],
         plan_of ''sports_or_match_results'' [''sports_search''] ''search'' True),
      ([''road condition'', ''road closure'', ''traffic closure'', ''construction traffic''],
         plan_of ''road_condition'' [''road_conditions''] ''search'' True),
      ([''search email'', ''find email'', ''mail search''],
         plan_of ''mail_search'' [''mail_search''] ''search'' True),
      ([''latest news'', ''breaking news'', ''recent news''],
         plan_of ''news'' [''news_search''] ''search'' True),
      ([''quick search'', ''web search'', ''search for''],
         plan_of ''web_search'' [''web_search''] ''search'' True),
      ([''research'', ''authoritative sources'', ''official documentation'', ''find sources''],
         plan_of ''web_research'' [''web_search_and_scrape''] ''search'' True)]"

definition model_router_plan :: "string \<Rightarrow> query_plan" where
  "model_router_plan message =
     (if search http_url (lower message) then plan_of ''url_scrape'' [''scrape_url''] ''general'' False
      else case find (\<lambda>r. contains_any (normalize message) (fst r)) query_rules of
        Some r \<Rightarrow> snd r
      | None \<Rightarrow> plan_of ''general'' [] ''general'' False)"

section \<open>Extraction and rewriting\<close>

definition ticker_tail :: rx where
  "ticker_tail = Rep True 0 (Some 9) (\<lambda>c. upper_alpha c \<or> digit_char c \<or> code c \<in> {46, 45})"

definition extract_ticker :: "string \<Rightarrow> string option" where
  "extract_ticker text =
     (case search_group (Lit ''$'') (Seq (Cls upper_alpha) ticker_tail) Boundary text of
        Some t \<Rightarrow> Some t
      | None \<Rightarrow> search_group Boundary (Seq (Cls upper_alpha) ticker_tail)
          (seqs [Boundary, Look (seqs [blanks, alts (map Lit [''stock'', ''shares'', ''ticker'']), Boundary])])
          text)"

definition extract_location :: "string \<Rightarrow> jobj \<Rightarrow> string" where
  "extract_location message metadata =
     (case find (\<lambda>v. v \<noteq> []) (map (\<lambda>k. strip (str_or_empty (jget metadata k)))
             [''location'', ''city'', ''place'']) of
        Some v \<Rightarrow> v
      | None \<Rightarrow>
          (case search_group preposition
             (Seq (Cls upper_alpha) (Rep False 1 None (\<lambda>c. location_class c \<or> code c = 44)))
             (Look (alts [Cls (\<lambda>c. code c \<in> {63, 46, 33, 44}), relative_day, End])) message of
             Some t \<Rightarrow> strip_where (\<lambda>c. code c \<in> {32, 44}) t
           | None \<Rightarrow> ''current location''))"

text \<open>Numbered roads ignore case: the pattern runs on the upper-cased text, which is what is used.\<close>

definition upper_char :: "char \<Rightarrow> char" where
  "upper_char c = (if lower_alpha c then char_of (code c - 32) else c)"

definition numbered_road :: rx where
  "numbered_road =
     seqs [Boundary,
       alts (map (\<lambda>p. seqs [Lit p, Rep True 0 (Some 1) (\<lambda>c. code c \<in> {45, 32}),
                            Rep True 1 (Some 3) digit_char]) [''I'', ''US'', ''SR'', ''IN'']),
       Boundary]"

fun collapse_blanks :: "bool \<Rightarrow> string \<Rightarrow> string" where
  "collapse_blanks inside [] = []"
| "collapse_blanks inside (c # cs) =
     (if is_space c then (if inside then collapse_blanks True cs else CHR ''-'' # collapse_blanks True cs)
      else c # collapse_blanks False cs)"

definition road_class :: "char \<Rightarrow> bool" where
  "road_class c \<longleftrightarrow> alpha_char c \<or> digit_char c \<or> code c \<in> {39, 45, 32}"

definition named_road :: rx where
  "named_road = seqs [Cls upper_alpha, Rep True 1 None road_class, Cls is_space,
     alts (map Lit [''Road'', ''Rd'', ''Street'', ''St'', ''Avenue'', ''Ave'', ''Boulevard'',
                    ''Blvd'', ''Highway'', ''Hwy''])]"

definition extract_road :: "string \<Rightarrow> string option" where
  "extract_road text =
     (case search_text numbered_road (map upper_char text) of
        Some t \<Rightarrow> Some (collapse_blanks False t)
      | None \<Rightarrow> map_option strip (search_group Boundary named_road Boundary text))"

text \<open>\<open>QueryRewriter\<close>; \<open>local\<close> is the wall clock of the configured zone.\<close>

definition cut_at_last_blank :: "string \<Rightarrow> string" where
  "cut_at_last_blank t =
     (if CHR '' '' \<in> set t then rev (tl (dropWhile (\<lambda>c. c \<noteq> CHR '' '') (rev t))) else t)"

definition clean_query :: "string \<Rightarrow> string" where
  "clean_query text =
     (let t = strip_where (\<lambda>c. code c \<in> {63, 46, 33, 32}) (compact text)
      in if 350 < length t then cut_at_last_blank (take 350 t) else t)"

definition rewrite_query :: "settings \<Rightarrow> time \<Rightarrow> string \<Rightarrow> query_plan \<Rightarrow> jobj \<Rightarrow> string" where
  "rewrite_query s local message plan metadata =
     (let base = clean_query message; today = iso_date local;
          yesterday = iso_date (local - day_length); intent = qp_intent plan; low = lower message
      in if intent = ''weather''
         then extract_location message metadata @ '' weather forecast current conditions next ''
              @ show_int (default_forecast_days s) @ '' days '' @ today
         else if intent = ''stock''
         then (case extract_ticker message of Some t \<Rightarrow> t | None \<Rightarrow> base)
              @ '' stock quote latest news earnings analyst guidance price movement last ''
              @ show_int (default_news_lookback_days s) @ '' days '' @ today
         else if intent = ''sports_or_match_results''
         then base @ '' ''
              @ (if occurs_in ''yesterday'' low then ''yesterday '' @ yesterday
                 else if occurs_in ''today'' low then ''today '' @ today
                 else if occurs_in ''tomorrow'' low then ''tomorrow '' @ iso_date (local + day_length)
                 else ''latest '' @ today)
              @ '' match results final score highlights schedule official match centre ''
              @ ''ESPN FIFA ICC reliable sources''
         else if intent = ''news''
         then base @ '' latest news recent developments authoritative sources published within last ''
              @ show_int (default_news_lookback_days s) @ '' days '' @ today
         else if intent = ''road_condition''
         then ''official road conditions ''
              @ (case extract_road message of Some r \<Rightarrow> r | None \<Rightarrow> ''road'') @ '' ''
              @ extract_location message metadata @ '' closures traffic construction '' @ today
         else if intent = ''web_search''
         then base @ '' concise search results current authoritative sources''
         else if intent = ''web_research''
         then base @ '' authoritative sources official documentation recent reliable references''
         else base)"

lemma clean_query_bounded: "length (clean_query text) \<le> 350"
proof -
  have "length (cut_at_last_blank (take 350 t)) \<le> 350" for t
  proof -
    have "length (tl (dropWhile P xs)) \<le> length xs" for P and xs :: string
      using length_dropWhile_le [of P xs] by (metis diff_le_self length_tl order_trans)
    from this [of "\<lambda>c. c \<noteq> CHR '' ''" "rev (take 350 t)"] show ?thesis
      by (auto simp: cut_at_last_blank_def)
  qed
  then show ?thesis by (simp add: clean_query_def Let_def)
qed

end
