(* ===== verification/Agents.thy ===== *)
theory Agents
  imports Wire Routing
begin

text \<open>
  The structured role agents, \<open>src/app/agents/base.py\<close>: the bounded attempts of \<open>invoke_json\<close>
  (the primary model and at most one fallback), payload budgets and compaction, \<open>invoke_text\<close>.
  A role agent (planner, worker, verifier, synthesizer, final verifier) is a call with its
  prompt and its schema. The ellipsis appended to a cut string, U+2026, lies beyond the
  character range of the model and is written with its Windows-1252 code.
\<close>

section \<open>Payload compaction\<close>

definition json_chars :: "json \<Rightarrow> int" where
  "json_chars v = int (length (json_dumps v))"

definition cut_marker :: string where
  "cut_marker = char_of (133 :: nat) # ''[truncated]''"

definition cut_text :: "nat \<Rightarrow> string \<Rightarrow> string" where
  "cut_text n s = (if length s \<le> n then s else take n s @ cut_marker)"

fun truncate_value :: "nat \<Rightarrow> nat \<Rightarrow> json \<Rightarrow> json" where
  "truncate_value n m (JStr s) = JStr (cut_text n s)"
| "truncate_value n m (JList xs) = JList (last_n m (map (truncate_value n m) xs))"
| "truncate_value n m (JObj kvs) = JObj (map (\<lambda>kv. (fst kv, truncate_value n m (snd kv))) kvs)"
| "truncate_value n m v = v"

definition compaction_steps :: "(nat \<times> nat) list" where
  "compaction_steps = [(4000, 12), (2500, 8), (1500, 6), (800, 5), (400, 4), (200, 3)]"

definition shorten_history :: "jobj \<Rightarrow> jobj" where
  "shorten_history p = (case map_of p ''history'' of
       Some (JList xs) \<Rightarrow> alist_put ''history'' (JList (last_n 4 xs)) p
     | _ \<Rightarrow> p)"

definition compact_payload :: "jobj \<Rightarrow> int \<Rightarrow> json \<times> bool" where
  "compact_payload payload max_chars =
     (if json_chars (JObj payload) \<le> max_chars then (JObj payload, False)
      else let original = JObj (shorten_history payload) in
        case find (\<lambda>nm. json_chars (truncate_value (fst nm) (snd nm) original) \<le> max_chars)
               compaction_steps of
          Some (n, m) \<Rightarrow> (truncate_value n m original, True)
        | None \<Rightarrow> (truncate_value 120 2 original, True))"

text \<open>No string longer than \<open>n\<close> and no list longer than \<open>m\<close>, at any depth.\<close>

fun bounded_value :: "nat \<Rightarrow> nat \<Rightarrow> json \<Rightarrow> bool" where
  "bounded_value n m (JStr s) = (length s \<le> n)"
| "bounded_value n m (JList xs) = (length xs \<le> m \<and> list_all (bounded_value n m) xs)"
| "bounded_value n m (JObj kvs) = list_all (\<lambda>kv. bounded_value n m (snd kv)) kvs"
| "bounded_value n m v = True"

lemma cut_text_length: "length (cut_text n s) \<le> n + 12"
  by (simp add: cut_text_def cut_marker_def)

lemma truncate_value_bounded: "bounded_value (n + 12) m (truncate_value n m v)"
proof (induction n m v rule: truncate_value.induct)
  case (1 n m s)
  then show ?case by (simp add: cut_text_length)
next
  case (2 n m xs)
  have "set (last_n m (map (truncate_value n m) xs)) \<subseteq> truncate_value n m ` set xs"
    using set_last_n_subset [of m "map (truncate_value n m) xs"] by simp
  with 2 show ?case by (force simp: list_all_iff)
qed (auto simp: list_all_iff)

text \<open>
  An over-long prompt payload is either sent unchanged because it fits its budget, or every
  string and list in it is cut to one of the fixed step sizes; the first step that fits the
  budget is taken, and the result exceeds the budget only at the smallest step.
\<close>

theorem compacted_payload_bounded:
  "case compact_payload payload max_chars of (v, compacted) \<Rightarrow>
     if compacted
     then (\<exists>n m. (n, m) \<in> set (compaction_steps @ [(120, 2)]) \<and> bounded_value (n + 12) m v \<and>
            (json_chars v \<le> max_chars \<or> (n, m) = (120, 2))) \<and>
          max_chars < json_chars (JObj payload)
     else v = JObj payload \<and> json_chars v \<le> max_chars"
proof (cases "json_chars (JObj payload) \<le> max_chars")
  case False
  let ?o = "JObj (shorten_history payload)"
  let ?fits = "\<lambda>nm. json_chars (truncate_value (fst nm) (snd nm) ?o) \<le> max_chars"
  show ?thesis
  proof (cases "find ?fits compaction_steps")
    case None
    have "\<exists>n m. (n, m) \<in> set (compaction_steps @ [(120, 2)]) \<and>
        bounded_value (n + 12) m (truncate_value 120 2 ?o) \<and>
        (json_chars (truncate_value 120 2 ?o) \<le> max_chars \<or> (n, m) = (120, 2))"
      using truncate_value_bounded [of 120 2 ?o]
      by (intro exI [of _ 120] exI [of _ 2]) (simp del: bounded_value.simps truncate_value.simps)
    then show ?thesis
      using False None
      by (simp add: compact_payload_def Let_def del: bounded_value.simps truncate_value.simps)
  next
    case (Some nm)
    obtain n m where nm: "nm = (n, m)" by fastforce
    have "(n, m) \<in> set compaction_steps" and fits: "json_chars (truncate_value n m ?o) \<le> max_chars"
      using find_SomeD [OF Some] nm by (simp_all del: truncate_value.simps)
    then have "\<exists>n m'. (n, m') \<in> set (compaction_steps @ [(120, 2)]) \<and>
        bounded_value (n + 12) m' (truncate_value (fst nm) (snd nm) ?o) \<and>
        (json_chars (truncate_value (fst nm) (snd nm) ?o) \<le> max_chars \<or> (n, m') = (120, 2))"
      using truncate_value_bounded [of n m ?o] nm
      by (intro exI [of _ n] exI [of _ m]) (simp del: bounded_value.simps truncate_value.simps)
    then show ?thesis
      using False Some nm
      by (simp add: compact_payload_def Let_def del: bounded_value.simps truncate_value.simps)
  qed
qed (simp add: compact_payload_def)

section \<open>Budgets and messages\<close>

text \<open>\<open>_structured_payload_budget_chars\<close>; the product with a rational is truncated like \<open>int\<close>.\<close>

definition payload_budget :: "settings \<Rightarrow> string \<Rightarrow> json \<Rightarrow> int" where
  "payload_budget s system schema =
     (let num_ctx = ollama_num_ctx s;
          reserve = min (max 256 (structured_output_reserve_tokens s)) (max 256 (num_ctx div 2));
          usable = \<lfloor>of_int (max 512 (num_ctx - reserve)) * structured_prompt_chars_per_token s\<rfloor>;
          fixed = int (length system) + json_chars schema + 1800
      in max 2000 (usable - fixed))"

definition attempt_budget :: "int \<Rightarrow> nat \<Rightarrow> int" where
  "attempt_budget base attempt =
     (if attempt = 1 then base else max 1200 (min 3000 (base * 2 div 5)))"

lemma attempt_budget_shrinks:
  "2000 \<le> base \<Longrightarrow> 2 \<le> attempt \<Longrightarrow> attempt_budget base attempt < attempt_budget base 1"
  by (auto simp: attempt_budget_def)

definition chat_message :: "string \<Rightarrow> string \<Rightarrow> json" where
  "chat_message role content = JObj [(''role'', JStr role), (''content'', JStr content)]"

definition structured_messages :: "string \<Rightarrow> json \<Rightarrow> json \<Rightarrow> bool \<Rightarrow> json list" where
  "structured_messages system payload schema retry =
     [chat_message ''system'' system,
      chat_message ''user'' (json_dumps (JObj
        ([(''input'', payload), (''output_schema'', schema),
          (''response_rules'', strs
             [''Return exactly one JSON object that validates against output_schema.'',
              ''Do not include markdown, commentary, or a reasoning trace.''])]
         @ (if retry then [(''retry_instruction'', JStr
              (''The previous structured attempt was empty, truncated, or invalid. ''
               @ ''Use the compact input and return only the final valid JSON object.''))] else []))))]"

definition structured_models :: "settings \<Rightarrow> string \<Rightarrow> string list" where
  "structured_models s model =
     model # (case find (\<lambda>c. c \<noteq> [] \<and> c \<noteq> model) (map strip [model_general s, model_fallback s]) of
                Some c \<Rightarrow> [c] | None \<Rightarrow> [])"

definition empty_response_detail :: "jobj \<Rightarrow> string" where
  "empty_response_detail raw =
     (let thinking = (case jget (obj_fields (jget raw ''message'')) ''thinking'' of
            JStr t \<Rightarrow> length t | _ \<Rightarrow> 0)
      in ''done_reason='' @ py_repr (jget raw ''done_reason'')
         @ '', prompt_eval_count='' @ py_repr (jget raw ''prompt_eval_count'')
         @ '', eval_count='' @ py_repr (jget raw ''eval_count'')
         @ '', thinking_chars='' @ show_nat thinking)"

section \<open>Attempts\<close>

text \<open>
  The loop of \<open>invoke_json\<close>. \<open>check\<close> is the class's \<open>model_validate\<close>; the text of pydantic's
  error enters only the message of the final exception and is left out there.
\<close>

fun structured_attempts ::
  "runtime_env \<Rightarrow> settings \<Rightarrow> string \<Rightarrow> jobj \<Rightarrow> string \<Rightarrow> (json \<Rightarrow> 'a option) \<Rightarrow> nat \<Rightarrow> nat
   \<Rightarrow> string list \<Rightarrow> string list \<Rightarrow> 'a eff" where
  "structured_attempts env s system payload schema check tries attempt failures [] =
     eraise (StructuredOutputError
       (''Models returned invalid structured output for '' @ schema @ '': ''
        @ (let r = join '' | '' failures in if r = [] then ''no structured response attempts'' else r))
       tries)"
| "structured_attempts env s system payload schema check tries attempt failures (model # rest) =
     (let base = payload_budget s system (re_schema env schema);
          prepared = fst (compact_payload payload (attempt_budget base attempt));
          messages = structured_messages system prepared (re_schema env schema) (1 < attempt);
          next = (\<lambda>why. structured_attempts env s system payload schema check tries (Suc attempt)
                     (failures @ [repr_str model @ '': '' @ why]) rest)
      in ebind (ollama_chat env s model messages (Some 0) None (Some (re_schema env schema)) (Some False))
          (\<lambda>resp. let content = strip (lr_content resp) in
             if content = []
             then next (''empty final content ('' @ empty_response_detail (lr_raw resp) @ '')'')
             else case Option.bind (re_parse env content) check of
               Some x \<Rightarrow> eret x
             | None \<Rightarrow> next ''validation error''))"

definition invoke_json ::
  "runtime_env \<Rightarrow> settings \<Rightarrow> string \<Rightarrow> string \<Rightarrow> jobj \<Rightarrow> string \<Rightarrow> (json \<Rightarrow> 'a option) \<Rightarrow> 'a eff" where
  "invoke_json env s model system payload schema check =
     (if llm_backend s \<noteq> Ollama
      then eraise (RuntimeError ''Structured LLM execution requires LLM_BACKEND=ollama'')
      else structured_attempts env s system payload schema check
             (length (structured_models s model)) 1 [] (structured_models s model))"

definition text_budget :: "settings \<Rightarrow> string \<Rightarrow> int" where
  "text_budget s system =
     (let p = of_int (ollama_num_ctx s - structured_output_reserve_tokens s)
              * structured_prompt_chars_per_token s
      in max 2000 ((if p < 0 then \<lceil>p\<rceil> else \<lfloor>p\<rfloor>) - int (length system) - 1000))"

definition invoke_text ::
  "runtime_env \<Rightarrow> settings \<Rightarrow> string \<Rightarrow> string \<Rightarrow> jobj \<Rightarrow> string eff" where
  "invoke_text env s model system payload =
     (if llm_backend s \<noteq> Ollama
      then eraise (RuntimeError ''LLM execution requires LLM_BACKEND=ollama'')
      else let prepared = fst (compact_payload payload (text_budget s system)) in
        ebind (ollama_chat env s model
            [chat_message ''system'' system, chat_message ''user'' (json_dumps prepared)]
            (Some (ollama_temperature s)) None None None)
          (\<lambda>resp. eret (lr_content resp)))"

text \<open>\<open>_context_exhausted\<close>: the reply stopped at the context limit.\<close>

definition context_exhausted :: "settings \<Rightarrow> jobj \<Rightarrow> bool" where
  "context_exhausted s raw \<longleftrightarrow>
     lower (str_or_empty (jget raw ''done_reason'')) = ''length'' \<and>
     (case jget raw ''prompt_eval_count'' of
        JInt n \<Rightarrow> ollama_num_ctx s - 8 \<le> n
      | JBool b \<Rightarrow> ollama_num_ctx s - 8 \<le> of_bool b
      | JFloat (FFinite _ q) \<Rightarrow> ollama_num_ctx s - 8 \<le> (if q < 0 then \<lceil>q\<rceil> else \<lfloor>q\<rfloor>)
      | JStr t \<Rightarrow> (case int_of_text t of Some n \<Rightarrow> ollama_num_ctx s - 8 \<le> n | None \<Rightarrow> True)
      | _ \<Rightarrow> True)"

lemma structured_models_two: "length (structured_models s model) \<le> 2"
  by (simp add: structured_models_def split: option.split)

lemma structured_attempts_keeps:
  "preserves (evolves P) (structured_attempts env s sys p sch check tries n fs ms)"
  "preserves same_rounds (structured_attempts env s sys p sch check tries n fs ms)"
  by (induction ms arbitrary: n fs)
    (auto simp: Let_def intro!: ev.keep_intros vr.keep_intros inv_intros split: option.splits)

lemma invoke_keeps [inv_intros]:
  "preserves (evolves P) (invoke_json env s m sys p sch check)"
  "preserves same_rounds (invoke_json env s m sys p sch check)"
  "preserves (evolves P) (invoke_text env s m sys p)"
  "preserves same_rounds (invoke_text env s m sys p)"
  unfolding invoke_json_def invoke_text_def Let_def
  by (auto intro!: ev.keep_intros vr.keep_intros inv_intros structured_attempts_keeps)

text \<open>The chat log grows by at most one entry per attempt.\<close>

definition chats :: "nat \<Rightarrow> world \<Rightarrow> world \<Rightarrow> bool" where
  "chats n w w' \<longleftrightarrow> length (w_chat_log w') \<le> length (w_chat_log w) + n"

lemma ollama_chat_once: "ollama_chat env s m ms t n f k w = (r, w') \<Longrightarrow> chats 1 w w'"
  by (auto simp: chats_def ollama_chat_def Let_def ethen_def ebind_def meter_begin_model_def
      meter_finish_model_def put_meter_def ollama_post_def read_clock_def
      split: prod.splits sum.splits option.splits)

lemma structured_attempts_count:
  "structured_attempts env s sys p sch check tries n fs ms w = (r, w') \<Longrightarrow> chats (length ms) w w'"
proof (induction ms arbitrary: n fs w)
  case Nil
  then show ?case by (simp add: chats_def)
next
  case (Cons m ms)
  let ?base = "payload_budget s sys (re_schema env sch)"
  let ?msgs = "structured_messages sys (fst (compact_payload p (attempt_budget ?base n)))
                 (re_schema env sch) (1 < n)"
  obtain t w1 where c: "ollama_chat env s m ?msgs (Some 0) None (Some (re_schema env sch)) (Some False) w = (t, w1)"
    by fastforce
  from ollama_chat_once [OF c] have one: "chats 1 w w1" .
  show ?case
  proof (cases t)
    case (Inl e)
    then show ?thesis using Cons.prems c one by (simp add: Let_def ebind_def chats_def)
  next
    case (Inr resp)
    consider "w' = w1"
      | n' fs' where "structured_attempts env s sys p sch check tries n' fs' ms w1 = (r, w')"
      using Cons.prems c Inr by (auto simp: Let_def ebind_def split: if_splits option.splits)
    then show ?thesis
    proof cases
      case 1
      then show ?thesis using one by (simp add: chats_def)
    next
      case 2
      from Cons.IH [OF this] one show ?thesis by (simp add: chats_def)
    qed
  qed
qed

lemma structured_attempts_checked:
  "structured_attempts env s sys p sch check tries n fs ms w = (Inr x, w') \<Longrightarrow>
   \<exists>content v. re_parse env content = Some v \<and> check v = Some x"
proof (induction ms arbitrary: n fs w)
  case (Cons m ms)
  then show ?case
    by (auto simp: Let_def ebind_Inr_iff bind_eq_Some_conv split: if_splits option.splits)
qed simp


section \<open>Prompts\<close>

definition text_lines :: "string list \<Rightarrow> string" where
  "text_lines ls = concat (map (\<lambda>l. l @ [char_of (10 :: nat)]) ls)"

definition planner_prompt :: string where
  "planner_prompt = text_lines
     [''You are a planning agent for a tool-using multi-agent system.'',
      ''Return JSON only with goal and tasks. Each task has id, objective,'',
      ''required_evidence, completion_criteria, and depends_on.'',
      '''',
      ''Rules:'',
      ''- Keep the plan minimal, executable, and directly tied to the current request.'',
      ''- Do not infer missing teams, people, dates, locations, or events.'',
      ''- Treat relative dates using the supplied runtime_context.'',
      ''- For current, recent, weather, sports, news, price, legal, or other time-sensitive'',
      ''  claims, require external evidence rather than model memory.'',
      ''- Do not copy unrelated conversation history into the plan.'',
      ''- Do not invent tool names; available tools are supplied in runtime_context.'']"

definition worker_prompt :: string where
  "worker_prompt = text_lines
     [''You are the worker agent. Produce a rigorous answer for the'',
      ''current task using supplied evidence. Return JSON only with answer, claims,'',
      ''assumptions, missing_information, and confidence.'',
      '''',
      ''Rules:'',
      ''- The current user_request and task override unrelated prior history.'',
      ''- Conversation history is context, not external evidence.'',
      ''- Current factual claims must be supported by supplied evidence IDs.'',
      ''- If evidence is absent or insufficient, state the missing information rather'',
      ''  than guessing from model memory.'',
      ''- Preserve uncertainty and source limitations.'']"

definition verifier_prompt :: string where
  "verifier_prompt = text_lines
     [''You are an independent verifier. Check completeness,'',
      ''correctness, evidence support, contradictions, and adherence to the current user'',
      ''request. Return JSON only with verdict(pass|revise|research|replan),'',
      ''task_complete, issues, required_actions, and confidence.'',
      '''',
      ''Rules:'',
      ''- Do not approve unsupported current factual claims.'',
      ''- Request research when evidence is absent, stale, irrelevant, or insufficient.'',
      ''- A pass verdict requires task_complete=true.'',
      ''- Ignore unrelated prior conversation topics.'',
      ''- Required actions should describe the exact missing evidence or research need.'']"

definition reviser_prompt :: string where
  "reviser_prompt = text_lines
     [''Revise the worker answer using verifier feedback and supplied'',
      ''evidence. Return the same WorkerResult JSON schema. Remove unsupported claims,'',
      ''ignore unrelated history, and explicitly state unresolved limitations.'']"

definition finalizer_prompt :: string where
  "finalizer_prompt = text_lines
     [''Combine only the verified task answers into one direct final'',
      ''answer. Do not mention internal agents. Preserve evidence references,'',
      ''uncertainty, and unresolved limitations. Do not invent new factual claims.'']"

definition final_verifier_prompt :: string where
  "final_verifier_prompt = text_lines
     [''You are the independent final-answer verifier.'',
      ''Compare the candidate final answer with the current user request and the supplied'',
      ''verified task results. Return JSON only with verdict(pass|revise),'',
      ''answer_complete, issues, required_actions, and confidence.'',
      '''',
      ''Rules:'',
      ''- Pass only when every requested part is represented.'',
      ''- Reject factual claims that are absent from the verified task results.'',
      ''- Reject dropped uncertainty, limitations, evidence references, or unresolved unknowns.'',
      ''- Do not request new research here; identify the exact revision required.'',
      ''- A pass verdict requires answer_complete=true.'']"

section \<open>Role agents\<close>

definition agent_plan :: "runtime_env \<Rightarrow> settings \<Rightarrow> string \<Rightarrow> jobj \<Rightarrow> exec_plan eff" where
  "agent_plan env s model payload =
     invoke_json env s model planner_prompt payload ''ExecutionPlan'' validate_plan"

definition agent_execute :: "runtime_env \<Rightarrow> settings \<Rightarrow> string \<Rightarrow> jobj \<Rightarrow> worker_result eff" where
  "agent_execute env s model payload =
     invoke_json env s model worker_prompt payload ''WorkerResult'' (validate_worker_result (re_py env))"

definition agent_revise :: "runtime_env \<Rightarrow> settings \<Rightarrow> string \<Rightarrow> jobj \<Rightarrow> worker_result eff" where
  "agent_revise env s model payload =
     invoke_json env s model reviser_prompt payload ''WorkerResult'' (validate_worker_result (re_py env))"

definition agent_verify :: "runtime_env \<Rightarrow> settings \<Rightarrow> string \<Rightarrow> jobj \<Rightarrow> verification eff" where
  "agent_verify env s model payload =
     invoke_json env s model verifier_prompt payload ''VerificationReport''
       (validate_verification (re_py env))"

definition agent_verify_final ::
  "runtime_env \<Rightarrow> settings \<Rightarrow> string \<Rightarrow> jobj \<Rightarrow> final_verification eff" where
  "agent_verify_final env s model payload =
     invoke_json env s model final_verifier_prompt payload ''FinalVerificationReport''
       (validate_final_verification (re_py env))"

definition agent_synthesize :: "runtime_env \<Rightarrow> settings \<Rightarrow> string \<Rightarrow> jobj \<Rightarrow> string eff" where
  "agent_synthesize env s model payload = invoke_text env s model finalizer_prompt payload"

lemmas agent_defs = agent_plan_def agent_execute_def agent_revise_def agent_verify_def
  agent_verify_final_def agent_synthesize_def

lemma agent_keeps [inv_intros]:
  "preserves (evolves P) (agent_plan env s m p)" "preserves same_rounds (agent_plan env s m p)"
  "preserves (evolves P) (agent_execute env s m p)" "preserves same_rounds (agent_execute env s m p)"
  "preserves (evolves P) (agent_revise env s m p)" "preserves same_rounds (agent_revise env s m p)"
  "preserves (evolves P) (agent_verify env s m p)" "preserves same_rounds (agent_verify env s m p)"
  "preserves (evolves P) (agent_verify_final env s m p)" "preserves same_rounds (agent_verify_final env s m p)"
  "preserves (evolves P) (agent_synthesize env s m p)" "preserves same_rounds (agent_synthesize env s m p)"
  by (simp_all add: agent_defs invoke_keeps)

end
