(* ===== verification/Mcp.thy ===== *)
theory Mcp
  imports Ollama
begin

text \<open>
  The tool server's client, \<open>src/app/mcp/\<close>: the server-sent-event decoder, the JSON-RPC envelopes
  and response selection, the tool-result parser, the HTTP outcome of the transport, the session
  handshake and its recovery, and the client's \<open>call_tool\<close> and \<open>list_tools\<close>, metered on every POST.
  The computation is the one of a single task: what other tasks do to the shared session between
  two awaits is not modelled.
\<close>

section \<open>Server-sent events\<close>

record sse_event =
  se_event :: "string option"
  se_data :: string
  se_id :: "string option"

definition newline :: char where
  "newline = char_of (10 :: nat)"

text \<open>The characters at which \<open>str.splitlines\<close> ends a line, besides the pair CR LF.\<close>

definition line_break :: "char \<Rightarrow> bool" where
  "line_break c = ((of_char c :: nat) \<in> {10, 11, 12, 13, 28, 29, 30, 133})"

fun splitlines_from :: "string \<Rightarrow> string \<Rightarrow> string list" where
  "splitlines_from acc [] = (if acc = [] then [] else [rev acc])"
| "splitlines_from acc [c] = (if line_break c then [rev acc] else [rev (c # acc)])"
| "splitlines_from acc (c # d # cs) =
     (if (of_char c :: nat) = 13 \<and> (of_char d :: nat) = 10 then rev acc # splitlines_from [] cs
      else if line_break c then rev acc # splitlines_from [] (d # cs)
      else splitlines_from (c # acc) (d # cs))"

definition splitlines :: "string \<Rightarrow> string list" where
  "splitlines s = splitlines_from [] s"

text \<open>The three variables of \<open>parse_sse\<close>: event name, event id, data lines.\<close>

type_synonym sse_pending = "string option \<times> string option \<times> string list"

definition sse_flush :: "sse_pending \<Rightarrow> sse_event list" where
  "sse_flush p = (case p of (name, i, ls) \<Rightarrow>
     if ls = [] then [] else [\<lparr>se_event = name, se_data = join [newline] ls, se_id = i\<rparr>])"

definition field_and_value :: "string \<Rightarrow> string \<times> string" where
  "field_and_value line =
     (let field = takeWhile (\<lambda>c. c \<noteq> CHR '':'') line; rest = dropWhile (\<lambda>c. c \<noteq> CHR '':'') line
      in (field, case rest of
            [] \<Rightarrow> []
          | _ # value \<Rightarrow> if starts_with '' '' value then tl value else value))"

fun parse_lines :: "sse_pending \<Rightarrow> string list \<Rightarrow> sse_event list" where
  "parse_lines p [] = sse_flush p"
| "parse_lines (name, i, ls) (line # rest) =
     (if line = [] then sse_flush (name, i, ls) @ parse_lines (None, None, []) rest
      else if starts_with '':'' line then parse_lines (name, i, ls) rest
      else case field_and_value line of (field, value) \<Rightarrow>
        if field = ''event'' then parse_lines (Some value, i, ls) rest
        else if field = ''id''
        then parse_lines (name, (if char_of (0 :: nat) \<in> set value then i else Some value), ls) rest
        else if field = ''data'' then parse_lines (name, i, ls @ [value]) rest
        else parse_lines (name, i, ls) rest)"

definition parse_sse :: "string \<Rightarrow> sse_event list" where
  "parse_sse text = parse_lines (None, None, []) (splitlines text)"

text \<open>\<open>encode_sse\<close> of \<open>src/app/graph.py\<close>, the writer of the streaming route.\<close>

definition encode_sse :: "string \<Rightarrow> json \<Rightarrow> string" where
  "encode_sse name data =
     ''event: '' @ name @ [newline] @ ''data: '' @ json_dumps data @ [newline, newline]"

definition decode_candidate :: "runtime_env \<Rightarrow> string \<Rightarrow> jobj list result" where
  "decode_candidate env c =
     (case re_parse env c of
        None \<Rightarrow> Inl (MCPProtocolError (''MCP response contained invalid JSON: '' @ take 300 c))
      | Some v \<Rightarrow> map_result (\<lambda>x. case x of JObj kvs \<Rightarrow> Inr kvs
              | _ \<Rightarrow> Inl (MCPProtocolError ''MCP JSON response items must be JSON objects.''))
            (case v of JList xs \<Rightarrow> xs | x \<Rightarrow> [x]))"

definition decode_json_messages :: "runtime_env \<Rightarrow> string \<Rightarrow> string \<Rightarrow> jobj list result" where
  "decode_json_messages env text content_type =
     (let stripped = strip text;
          is_sse = (occurs_in ''text/event-stream'' (lower content_type) \<or>
                    starts_with ''event:'' stripped \<or> starts_with ''data:'' stripped \<or>
                    starts_with '':'' stripped);
          candidates = (if is_sse then filter (\<lambda>d. d \<noteq> ''[DONE]'') (map se_data (parse_sse stripped))
                        else [stripped])
      in if stripped = [] then Inl (MCPProtocolError ''MCP response body was empty.'')
         else if candidates = []
         then Inl (MCPProtocolError ''MCP SSE response contained no JSON data events.'')
         else bind_result (map_result (decode_candidate env) candidates) (\<lambda>mss.
           if concat mss = [] then Inl (MCPProtocolError ''MCP response contained no JSON-RPC objects.'')
           else Inr (concat mss)))"

section \<open>JSON-RPC\<close>

definition request_envelope :: "int \<Rightarrow> string \<Rightarrow> jobj \<Rightarrow> json" where
  "request_envelope i m params =
     JObj [(''jsonrpc'', JStr ''2.0''), (''id'', JInt i), (''method'', JStr m), (''params'', JObj params)]"

definition notification_envelope :: "string \<Rightarrow> jobj \<Rightarrow> json" where
  "notification_envelope m params =
     JObj [(''jsonrpc'', JStr ''2.0''), (''method'', JStr m), (''params'', JObj params)]"

definition response_envelope :: "json \<Rightarrow> json \<Rightarrow> json" where
  "response_envelope i r = JObj [(''jsonrpc'', JStr ''2.0''), (''id'', i), (''result'', r)]"

definition error_envelope :: "json \<Rightarrow> int \<Rightarrow> string \<Rightarrow> json" where
  "error_envelope i code m =
     JObj [(''jsonrpc'', JStr ''2.0''), (''id'', i),
           (''error'', JObj [(''code'', JInt code), (''message'', JStr m)])]"

record rpc_response =
  rr_id :: json
  rr_result :: json
  rr_error :: json

text \<open>Python's \<open>==\<close> between a decoded value and an integer request id.\<close>

fun id_equals :: "json \<Rightarrow> int \<Rightarrow> bool" where
  "id_equals (JInt i) n = (i = n)"
| "id_equals (JBool b) n = (of_bool b = n)"
| "id_equals (JFloat (FFinite _ q)) n = (q = of_int n)"
| "id_equals _ n = False"

definition validate_response :: "jobj \<Rightarrow> int \<Rightarrow> rpc_response result" where
  "validate_response p expected =
     (let has_result = jhas p ''result'';
          has_error = (jhas p ''error'' \<and> jget p ''error'' \<noteq> JNull)
      in if jget p ''jsonrpc'' \<noteq> JStr ''2.0''
         then Inl (MCPProtocolError ''MCP response has an invalid or missing jsonrpc version.'')
         else if jhas p ''method''
         then Inl (MCPProtocolError ''A JSON-RPC request/notification is not a response.'')
         else if \<not> jhas p ''id''
         then Inl (MCPProtocolError ''MCP response is missing its JSON-RPC id.'')
         else if \<not> id_equals (jget p ''id'') expected
         then Inl (MCPResponseMismatchError (''MCP response id '' @ py_repr (jget p ''id'')
                     @ '' did not match request id '' @ show_int expected @ ''.''))
         else if has_result = has_error
         then Inl (MCPProtocolError ''MCP response must contain exactly one of result or error.'')
         else if has_error \<and> \<not> is_jobj (jget p ''error'')
         then Inl (MCPProtocolError ''MCP JSON-RPC error must be a JSON object.'')
         else Inr \<lparr>rr_id = jget p ''id'', rr_result = jget p ''result'', rr_error = jget p ''error''\<rparr>)"

fun select_from :: "json list \<Rightarrow> jobj list \<Rightarrow> int \<Rightarrow> rpc_response result" where
  "select_from ids [] expected =
     (if ids \<noteq> [] then Inl (MCPResponseMismatchError (''MCP response ids '' @ py_repr (JList ids)
            @ '' did not include request id '' @ show_int expected @ ''.''))
      else Inl (MCPProtocolError (''MCP stream contained no JSON-RPC response for request id ''
            @ show_int expected @ ''.'')))"
| "select_from ids (p # ps) expected =
     (if jget p ''jsonrpc'' \<noteq> JStr ''2.0'' then
        (if jhas p ''id'' \<and> (jhas p ''result'' \<or> jhas p ''error'')
         then bind_result (validate_response p expected) (\<lambda>_. select_from ids ps expected)
         else select_from ids ps expected)
      else if jhas p ''method'' then select_from ids ps expected
      else if \<not> jhas p ''result'' \<and> \<not> jhas p ''error'' then select_from ids ps expected
      else if id_equals (jget p ''id'') expected then validate_response p expected
      else select_from (ids @ [jget p ''id'']) ps expected)"

definition select_response :: "jobj list \<Rightarrow> int \<Rightarrow> rpc_response result" where
  "select_response ps expected = select_from [] ps expected"

lemma validate_response_Inr:
  assumes "validate_response p expected = Inr r"
  shows "id_equals (rr_id r) expected" and "jget p ''jsonrpc'' = JStr ''2.0''"
    and "\<not> jhas p ''method''" and "jhas p ''result'' \<longleftrightarrow> rr_error r = JNull"
    and "rr_result r = jget p ''result''" and "rr_error r = jget p ''error''"
  using assms
  by (auto simp: validate_response_def Let_def jhas_def jget_def split: if_splits option.splits)

text \<open>
  The response accepted for a request is one of the received messages, carries exactly the
  id that was sent, is a response and not a server request or notification, and has a result
  exactly when it has no error, wherever it stands in the stream.
\<close>

theorem selected_response_matches:
  assumes "select_response ps expected = Inr r"
  shows "\<exists>p\<in>set ps. id_equals (jget p ''id'') expected \<and> \<not> jhas p ''method'' \<and>
           (jhas p ''result'' \<longleftrightarrow> rr_error r = JNull) \<and>
           rr_result r = jget p ''result'' \<and> rr_error r = jget p ''error''"
proof -
  have "select_from ids qs expected = Inr r \<Longrightarrow>
     \<exists>p\<in>set qs. id_equals (jget p ''id'') expected \<and> \<not> jhas p ''method'' \<and>
           (jhas p ''result'' \<longleftrightarrow> rr_error r = JNull) \<and>
           rr_result r = jget p ''result'' \<and> rr_error r = jget p ''error''" for ids qs
  proof (induction ids qs expected rule: select_from.induct)
    case (2 ids p ps expected)
    show ?case
    proof (cases "jget p ''jsonrpc'' = JStr ''2.0'' \<and> \<not> jhas p ''method'' \<and>
        (jhas p ''result'' \<or> jhas p ''error'') \<and> id_equals (jget p ''id'') expected")
      case True
      then have "validate_response p expected = Inr r" using "2.prems" by auto
      with True validate_response_Inr show ?thesis by auto
    next
      case False
      then show ?thesis using 2 by (auto simp: bind_result_Inr_iff split: if_splits)
    qed
  qed (auto split: if_splits)
  then show ?thesis using assms by (simp add: select_response_def)
qed

theorem selected_response_matches_witness:
  "\<exists>p\<in>set [[(''jsonrpc'', JStr ''2.0''), (''id'', JInt 7), (''result'', JInt 1)]].
     id_equals (jget p ''id'') 7"
  using selected_response_matches [where expected = 7
      and ps = "[[(''jsonrpc'', JStr ''2.0''), (''id'', JInt 7), (''result'', JInt 1)]]"
      and r = "\<lparr>rr_id = JInt 7, rr_result = JInt 1, rr_error = JNull\<rparr>"]
  by (simp add: select_response_def validate_response_def jget_def jhas_def)

section \<open>Tool results\<close>

definition maybe_json :: "runtime_env \<Rightarrow> string \<Rightarrow> json" where
  "maybe_json env text =
     (let stripped = strip text in
      if stripped = [] then JStr []
      else if (of_char (hd stripped) :: nat) \<in> {91, 123, 34}
      then (case re_parse env stripped of Some v \<Rightarrow> v | None \<Rightarrow> JStr text)
      else JStr text)"

definition normalize_result :: "runtime_env \<Rightarrow> jobj \<Rightarrow> json" where
  "normalize_result env r =
     (case map_of r ''structuredContent'' of Some v \<Rightarrow> v
      | None \<Rightarrow>
        (case jget r ''content'' of
           JList content \<Rightarrow>
             let items = map (\<lambda>item. case item of
                   JObj kvs \<Rightarrow> if jget kvs ''type'' = JStr ''text''
                     then maybe_json env (str_or_empty (jget kvs ''text'')) else item
                 | _ \<Rightarrow> item) content
             in (case items of [x] \<Rightarrow> x | _ \<Rightarrow> JList items)
         | _ \<Rightarrow> JObj r))"

definition extract_error :: "json \<Rightarrow> string" where
  "extract_error data =
     (let default = (if truthy data then py_str data else ''MCP tool returned isError=true.'') in
      case data of
        JObj kvs \<Rightarrow>
          (case find truthy (map (jget kvs) [''error'', ''message'', ''detail'']) of
             Some v \<Rightarrow> py_str v | None \<Rightarrow> default)
      | JList xs \<Rightarrow>
          (let text = join ''; '' (map py_str (filter truthy xs))
           in if text = [] then ''MCP tool returned isError=true.'' else text)
      | _ \<Rightarrow> default)"

text \<open>\<open>parse_tool_result\<close>: success flag, data, error text.\<close>

definition parse_tool_result :: "runtime_env \<Rightarrow> json \<Rightarrow> bool \<times> json \<times> string option" where
  "parse_tool_result env r =
     (case r of
        JObj kvs \<Rightarrow>
          let is_error = (jget kvs ''isError'' = JBool True); data = normalize_result env kvs
          in (\<not> is_error, data, if is_error then Some (extract_error data) else None)
      | _ \<Rightarrow> (True, r, None))"

end
