(* ===== verification/McpClient.thy ===== *)
theory McpClient
  imports Mcp
begin

text \<open>
  The effects of the tool server's client: one metered POST (\<open>src/app/mcp/transport.py\<close>,
  \<open>MCPClient._post\<close>), the JSON-RPC exchange, the session handshake and its recovery
  (\<open>src/app/mcp/session.py\<close>), and the public operations of \<open>src/app/mcp/client.py\<close>.
\<close>

section \<open>One POST\<close>

text \<open>\<open>MCPHTTPTransport.post\<close>: \<open>None\<close> for an accepted empty body.\<close>

definition transport_outcome ::
  "runtime_env \<Rightarrow> bool \<Rightarrow> mcp_http \<Rightarrow> (jobj list option \<times> (string \<times> string) list) result" where
  "transport_outcome env allow_empty r =
     (case r of
        McpStatus code text body \<Rightarrow>
          (let b = take 500 (flatten_lines (strip body))
           in Inl (MCPHTTPStatusError code (''HTTPStatusError: '' @ text
                     @ (if b = [] then [] else ''; response='' @ b))))
      | McpTimeout cls text \<Rightarrow> Inl (MCPTransportError (''MCP HTTP timeout ('' @ cls @ ''): '' @ text))
      | McpTransport cls text \<Rightarrow> Inl (MCPTransportError (cls @ '': '' @ text))
      | McpRaises e \<Rightarrow> Inl e
      | McpBody status text headers \<Rightarrow>
          if allow_empty \<and> (status = 202 \<or> strip text = []) then Inr (None, headers)
          else if strip text = [] then Inl (MCPProtocolError ''MCP request returned an empty response body.'')
          else bind_result (decode_json_messages env text
                 (opt_or (map_of headers ''content-type'') [])) (\<lambda>ms. Inr (Some ms, headers)))"

definition mcp_transmit :: "json \<Rightarrow> mcp_http eff" where
  "mcp_transmit payload w =
     (Inr (w_mcp w (length (w_mcp_log w))), w\<lparr>w_mcp_log := w_mcp_log w @ [payload]\<rparr>)"

text \<open>
  \<open>_post\<close>: begin an attempt, send, and close the attempt in the \<open>finally\<close> clause. A
  \<open>TimeoutError\<close> counts as a timeout.
\<close>

definition mcp_post ::
  "runtime_env \<Rightarrow> json \<Rightarrow> bool \<Rightarrow> (jobj list \<times> (string \<times> string) list) eff" where
  "mcp_post env payload allow_empty =
     ethen meter_begin_tool (ebind (mcp_transmit payload) (\<lambda>reply.
       case transport_outcome env allow_empty reply of
         Inr (ms, headers) \<Rightarrow>
           ethen (put_meter (finish_tool_attempt True False)) (eret (opt_or ms [], headers))
       | Inl e \<Rightarrow>
           ethen (put_meter (finish_tool_attempt False (e = TimeoutError))) (eraise e)))"

lemma finish_tool_attempt_within:
  "within_limits b \<Longrightarrow> within_limits (finish_tool_attempt ok t b)"
  "same_limits b (finish_tool_attempt ok t b)"
  by (simp_all add: within_limits_def same_limits_def meter_simps)

lemma finish_tool_keeps [inv_intros]:
  "preserves (evolves P) (put_meter (finish_tool_attempt ok t))"
  "preserves same_rounds (put_meter (finish_tool_attempt ok t))"
  by (auto intro!: put_meter_keeps simp: finish_tool_attempt_within meter_simps)

lemma mcp_transmit_keeps [inv_intros]:
  "P p \<Longrightarrow> preserves (evolves P) (mcp_transmit p)" "preserves same_rounds (mcp_transmit p)"
  by (auto simp: preserves_def mcp_transmit_def evolves_def same_rounds_def)

lemma mcp_post_keeps [inv_intros]:
  "P p \<Longrightarrow> preserves (evolves P) (mcp_post env p a)" "preserves same_rounds (mcp_post env p a)"
  unfolding mcp_post_def
  by (auto intro!: ev.keep_intros vr.keep_intros inv_intros split: sum.splits)

section \<open>The exchange\<close>

definition invalidate_tools :: "unit eff" where
  "invalidate_tools w = (Inr (), w\<lparr>w_tools_cache := None\<rparr>)"

definition next_request_id :: "int eff" where
  "next_request_id w = (Inr (w_request_id w + 1), w\<lparr>w_request_id := w_request_id w + 1\<rparr>)"

text \<open>A server request inside a response stream is answered: ping, or "not supported".\<close>

definition respond_to_server :: "runtime_env \<Rightarrow> jobj \<Rightarrow> unit eff" where
  "respond_to_server env m =
     (case (jget m ''id'', jget m ''method'') of
        (i, JStr name) \<Rightarrow>
          if (case i of JInt _ \<Rightarrow> True | JBool _ \<Rightarrow> True | JStr _ \<Rightarrow> True | _ \<Rightarrow> False) then
            ebind (mcp_post env
              (if name = ''ping'' then response_envelope i (JObj [])
               else error_envelope i (- 32601)
                      (''Client does not support server method '' @ repr_str name @ ''.'')) True)
              (\<lambda>_. eret ())
          else eret ()
      | _ \<Rightarrow> eret ())"

definition handle_server_message :: "runtime_env \<Rightarrow> jobj \<Rightarrow> unit eff" where
  "handle_server_message env m =
     ethen (if jget m ''method'' = JStr ''notifications/tools/list_changed''
            then invalidate_tools else eret ())
       (if (case jget m ''method'' of JStr _ \<Rightarrow> jhas m ''id'' | _ \<Rightarrow> False)
        then respond_to_server env m else eret ())"

definition send_request ::
  "runtime_env \<Rightarrow> string \<Rightarrow> jobj \<Rightarrow> (json \<times> (string \<times> string) list) eff" where
  "send_request env name params =
     ebind next_request_id (\<lambda>i.
     ebind (mcp_post env (request_envelope i name params) False) (\<lambda>(ms, headers).
       let headers' = map (\<lambda>kv. (lower (fst kv), snd kv)) headers in
       if ms = [] then eraise (MCPProtocolError (''MCP method '' @ name @ '' returned an empty response.''))
       else ethen (eiter (handle_server_message env) ms)
         (case select_response ms i of
            Inl e \<Rightarrow> eraise e
          | Inr r \<Rightarrow>
              if rr_error r \<noteq> JNull
              then eraise (MCPClientError (''MCP JSON-RPC error for '' @ name @ '': '' @ py_str (rr_error r)))
              else eret (rr_result r, headers'))))"

definition send_notification :: "runtime_env \<Rightarrow> string \<Rightarrow> jobj \<Rightarrow> unit eff" where
  "send_notification env name params =
     ebind (mcp_post env (notification_envelope name params) True) (\<lambda>_. eret ())"

section \<open>Session\<close>

definition supported_versions :: "settings \<Rightarrow> string list" where
  "supported_versions s =
     [''2025-06-18'', ''2025-03-26'', ''2024-11-05'', mcp_protocol_version s]"

definition reset_session :: "unit eff" where
  "reset_session w =
     (Inr (), w\<lparr>w_session := fresh_session, w_generation := Suc (w_generation w)\<rparr>)"

definition put_session :: "mcp_session \<Rightarrow> unit eff" where
  "put_session st w = (Inr (), w\<lparr>w_session := st\<rparr>)"

definition mark_initialized :: "unit eff" where
  "mark_initialized w =
     (Inr (), w\<lparr>w_session := (w_session w)\<lparr>ms_initialized := True\<rparr>,
                w_generation := Suc (w_generation w)\<rparr>)"

definition negotiated_session ::
  "settings \<Rightarrow> json \<Rightarrow> (string \<times> string) list \<Rightarrow> mcp_session result" where
  "negotiated_session s result headers =
     (case result of
        JObj r \<Rightarrow>
          (case jget r ''protocolVersion'' of
             JStr v \<Rightarrow>
               if v = [] then Inl (MCPSessionError ''MCP initialize result is missing protocolVersion.'')
               else if v \<notin> set (supported_versions s)
               then Inl (MCPSessionError (''MCP server selected unsupported protocol version ''
                           @ repr_str v @ ''.''))
               else Inr \<lparr>ms_initialized = False,
                    ms_session_id = Option.bind (map_of headers ''mcp-session-id'') nonempty_or_none,
                    ms_protocol = Some v,
                    ms_server_info = (case jget r ''serverInfo'' of JObj x \<Rightarrow> Some x | _ \<Rightarrow> None),
                    ms_capabilities = (case jget r ''capabilities'' of JObj x \<Rightarrow> Some x | _ \<Rightarrow> None)\<rparr>
           | _ \<Rightarrow> Inl (MCPSessionError ''MCP initialize result is missing protocolVersion.''))
      | _ \<Rightarrow> Inl (MCPSessionError ''MCP initialize returned an invalid result.''))"

text \<open>\<open>except Exception\<close> does not catch a cancellation.\<close>

definition reset_on_failure :: "'a eff \<Rightarrow> 'a eff" where
  "reset_on_failure m = ecatch m (\<lambda>e.
     if e = CancelledError then eraise e else ethen reset_session (eraise e))"

definition initialize_session :: "runtime_env \<Rightarrow> settings \<Rightarrow> unit eff" where
  "initialize_session env s = reset_on_failure
     (ebind (send_request env ''initialize''
         [(''protocolVersion'', JStr (mcp_protocol_version s)), (''capabilities'', JObj []),
          (''clientInfo'', JObj [(''name'', JStr (mcp_client_name s)), (''version'', JStr ''0.5.0'')])])
        (\<lambda>(result, headers). ebind (elift (negotiated_session s result headers)) (\<lambda>st.
           ethen (put_session st)
             (ethen (send_notification env ''notifications/initialized'' []) mark_initialized))))"

definition ensure_initialized :: "runtime_env \<Rightarrow> settings \<Rightarrow> unit eff" where
  "ensure_initialized env s w =
     (if ms_initialized (w_session w) then (Inr (), w) else initialize_session env s w)"

definition recover_expired :: "runtime_env \<Rightarrow> settings \<Rightarrow> nat \<Rightarrow> unit eff" where
  "recover_expired env s observed w =
     (if ms_initialized (w_session w) \<and> w_generation w \<noteq> observed then (Inr (), w)
      else ethen reset_session (initialize_session env s) w)"

section \<open>Remote procedure calls\<close>

definition mcp_initialize :: "runtime_env \<Rightarrow> settings \<Rightarrow> unit eff" where
  "mcp_initialize env s = (if mcp_session_enabled s then ensure_initialized env s else eret ())"

definition is_expiry :: "settings \<Rightarrow> world \<Rightarrow> exn \<Rightarrow> bool" where
  "is_expiry s w e \<longleftrightarrow> (case e of MCPHTTPStatusError code _ \<Rightarrow>
       mcp_session_enabled s \<and> ms_session_id (w_session w) \<noteq> None \<and> code \<in> {404, 410}
     | _ \<Rightarrow> False)"

definition on_expiry :: "settings \<Rightarrow> 'a eff \<Rightarrow> exn \<Rightarrow> 'a eff" where
  "on_expiry s recovery e w = (if is_expiry s w e then recovery w else (Inl e, w))"

definition expired_message :: "string \<Rightarrow> string" where
  "expired_message name = ''MCP session expired during '' @ name
     @ ''; the operation was not automatically replayed because its completion is ambiguous.''"

definition get_generation :: "nat eff" where
  "get_generation w = (Inr (w_generation w), w)"

definition mcp_rpc :: "runtime_env \<Rightarrow> settings \<Rightarrow> string \<Rightarrow> jobj \<Rightarrow> bool \<Rightarrow> json eff" where
  "mcp_rpc env s name params retry_on_expiry =
     ethen (if mcp_session_enabled s \<and> name \<noteq> ''initialize'' then mcp_initialize env s else eret ())
      (ebind get_generation (\<lambda>observed.
        ecatch (ebind (send_request env name params) (\<lambda>r. eret (fst r)))
          (on_expiry s (ethen invalidate_tools (ethen (recover_expired env s observed)
             (if retry_on_expiry then ebind (send_request env name params) (\<lambda>r. eret (fst r))
              else eraise (MCPSessionExpiredError (expired_message name))))))))"

definition failed_tool :: "string \<Rightarrow> string \<Rightarrow> tool_result" where
  "failed_tool name err = \<lparr>tr_tool = name, tr_ok = False, tr_data = JNull, tr_error = Some err\<rparr>"

definition reported_tool :: "runtime_env \<Rightarrow> string \<Rightarrow> json \<Rightarrow> tool_result" where
  "reported_tool env name result = (case parse_tool_result env result of (ok, data, err) \<Rightarrow>
     \<lparr>tr_tool = name, tr_ok = ok, tr_data = data, tr_error = err\<rparr>)"

lemma reported_tool_name [simp]: "tr_tool (reported_tool env name r) = name"
  by (simp add: reported_tool_def split: prod.split)

definition call_tool :: "runtime_env \<Rightarrow> settings \<Rightarrow> string \<Rightarrow> jobj \<Rightarrow> tool_result eff" where
  "call_tool env s name args =
     (if strip name = [] then eret (failed_tool name ''MCP tool name must be a non-empty string.'')
      else ecatch
        (ebind (mcp_rpc env s ''tools/call'' [(''name'', JStr name), (''arguments'', JObj args)] False)
          (\<lambda>result. eret (reported_tool env name result)))
        (\<lambda>e. if e = CancelledError then eraise e
             else eret (failed_tool name (class_and_text (exn_class e) (exn_text e)))))"

text \<open>\<open>list_tools\<close> with its cache; a definition without a usable name is an error.\<close>

definition validate_tool_definition :: "json \<Rightarrow> jobj result" where
  "validate_tool_definition v =
     (case v of
        JObj kvs \<Rightarrow>
          (case jget kvs ''name'' of
             JStr n \<Rightarrow>
               if strip n = [] then Inl (MCPProtocolError ''Each MCP tool definition requires a non-empty name.'')
               else (case find (\<lambda>k. jget kvs k \<noteq> JNull \<and> \<not> is_jobj (jget kvs k))
                            [''inputSchema'', ''outputSchema''] of
                  Some k \<Rightarrow> Inl (MCPProtocolError (''MCP tool '' @ repr_str n @ '' has an invalid '' @ k @ ''.''))
                | None \<Rightarrow> Inr kvs)
           | _ \<Rightarrow> Inl (MCPProtocolError ''Each MCP tool definition requires a non-empty name.''))
      | _ \<Rightarrow> Inl (MCPProtocolError ''Each MCP tool definition must be a JSON object.''))"

definition tools_of_listing :: "json \<Rightarrow> jobj list result" where
  "tools_of_listing data =
     (case (case data of JObj kvs \<Rightarrow> jget kvs ''tools'' | _ \<Rightarrow> JNull) of
        JNull \<Rightarrow> Inr []
      | JList xs \<Rightarrow> map_result validate_tool_definition xs
      | _ \<Rightarrow> Inl (MCPProtocolError ''MCP tools/list result.tools must be a list.''))"

definition get_tools_cache :: "(jobj list \<times> time) option eff" where
  "get_tools_cache w = (Inr (w_tools_cache w), w)"

definition put_tools_cache :: "jobj list \<Rightarrow> time \<Rightarrow> unit eff" where
  "put_tools_cache tools t w = (Inr (), w\<lparr>w_tools_cache := Some (tools, t)\<rparr>)"

definition tools_fresh :: "settings \<Rightarrow> bool \<Rightarrow> time \<Rightarrow> (jobj list \<times> time) option \<Rightarrow> bool" where
  "tools_fresh s force now c \<longleftrightarrow> \<not> force \<and> (case c of None \<Rightarrow> False
     | Some (_, t) \<Rightarrow> now - t \<le> seconds (inventory_cache_ttl_seconds s))"

text \<open>The fresh check is made again under the lock, on a new clock reading.\<close>

definition list_tools :: "runtime_env \<Rightarrow> settings \<Rightarrow> bool \<Rightarrow> bool \<Rightarrow> jobj list eff" where
  "list_tools env s force allow_stale =
     ebind read_mono (\<lambda>now0. ebind get_tools_cache (\<lambda>c0.
       if tools_fresh s force now0 c0 then eret (fst (the c0)) else
       ebind read_mono (\<lambda>now. ebind get_tools_cache (\<lambda>c.
         if tools_fresh s force now c then eret (fst (the c)) else
         ecatch
           (ebind (mcp_rpc env s ''tools/list'' [] True) (\<lambda>data.
            ebind (elift (tools_of_listing data)) (\<lambda>tools.
            ebind read_mono (\<lambda>t. ethen (put_tools_cache tools t) (eret tools)))))
           (\<lambda>e. case c of
              Some (old, t) \<Rightarrow>
                if e \<noteq> CancelledError \<and> allow_stale \<and>
                   now - t \<le> seconds (inventory_stale_if_error_seconds s)
                then eret old else eraise e
            | None \<Rightarrow> eraise e)))))"

section \<open>Which tool calls leave the process\<close>

text \<open>The name in a \<open>tools/call\<close> message, and the messages that call only tools in \<open>A\<close>.\<close>

definition tool_called :: "json \<Rightarrow> string option" where
  "tool_called p =
     (case p of
        JObj kvs \<Rightarrow>
          if jget kvs ''method'' = JStr ''tools/call''
          then (case jget (obj_fields (jget kvs ''params'')) ''name'' of JStr n \<Rightarrow> Some n | _ \<Rightarrow> None)
          else None
      | _ \<Rightarrow> None)"

definition calls_only :: "(string \<Rightarrow> bool) \<Rightarrow> json \<Rightarrow> bool" where
  "calls_only A p \<longleftrightarrow> (case tool_called p of None \<Rightarrow> True | Some n \<Rightarrow> A n)"

definition no_call :: "json \<Rightarrow> bool" where
  "no_call p \<longleftrightarrow> calls_only (\<lambda>_. False) p"

lemma tool_called_envelopes [simp]:
  "tool_called (response_envelope i r) = None"
  "tool_called (error_envelope i c m) = None"
  "name \<noteq> ''tools/call'' \<Longrightarrow> tool_called (notification_envelope name ps) = None"
  "name \<noteq> ''tools/call'' \<Longrightarrow> tool_called (request_envelope n name ps) = None"
  "tool_called (request_envelope n ''tools/call'' ps) =
     (case jget ps ''name'' of JStr t \<Rightarrow> Some t | _ \<Rightarrow> None)"
  by (simp_all add: tool_called_def response_envelope_def error_envelope_def
      notification_envelope_def request_envelope_def jget_def)

lemma calls_only_envelopes [simp]:
  "calls_only A (response_envelope i r)" "calls_only A (error_envelope i c m)"
  "name \<noteq> ''tools/call'' \<Longrightarrow> calls_only A (notification_envelope name ps)"
  "name \<noteq> ''tools/call'' \<Longrightarrow> calls_only A (request_envelope j name ps)"
  "A n \<Longrightarrow> calls_only A (request_envelope j ''tools/call'' [(''name'', JStr n), (''arguments'', JObj args)])"
  by (simp_all add: calls_only_def jget_def)

lemma session_writes_keep [inv_intros]:
  "preserves (evolves P) invalidate_tools" "preserves same_rounds invalidate_tools"
  "preserves (evolves P) next_request_id" "preserves same_rounds next_request_id"
  "preserves (evolves P) reset_session" "preserves same_rounds reset_session"
  "preserves (evolves P) (put_session st)" "preserves same_rounds (put_session st)"
  "preserves (evolves P) mark_initialized" "preserves same_rounds mark_initialized"
  "preserves (evolves P) get_generation" "preserves same_rounds get_generation"
  "preserves (evolves P) get_tools_cache" "preserves same_rounds get_tools_cache"
  "preserves (evolves P) (put_tools_cache tools t)" "preserves same_rounds (put_tools_cache tools t)"
  by (simp_all add: preserves_def invalidate_tools_def next_request_id_def reset_session_def
      put_session_def mark_initialized_def get_generation_def get_tools_cache_def
      put_tools_cache_def evolves_def same_rounds_def)

lemma handle_server_message_keeps [inv_intros]:
  "preserves (evolves (calls_only A)) (handle_server_message env m)"
  "preserves same_rounds (handle_server_message env m)"
  unfolding handle_server_message_def respond_to_server_def
  by (auto intro!: ev.keep_intros vr.keep_intros inv_intros split: json.splits)

lemma send_request_keeps:
  "(\<And>i. calls_only A (request_envelope i name ps)) \<Longrightarrow>
     preserves (evolves (calls_only A)) (send_request env name ps)"
  "preserves same_rounds (send_request env name ps)"
  unfolding send_request_def Let_def
  by (auto intro!: ev.keep_intros vr.keep_intros inv_intros split: sum.splits)

lemma send_notification_keeps [inv_intros]:
  "name \<noteq> ''tools/call'' \<Longrightarrow> preserves (evolves (calls_only A)) (send_notification env name ps)"
  "preserves same_rounds (send_notification env name ps)"
  unfolding send_notification_def by (auto intro!: ev.keep_intros vr.keep_intros inv_intros)

lemma initialize_session_keeps [inv_intros]:
  "preserves (evolves (calls_only A)) (initialize_session env s)"
  "preserves same_rounds (initialize_session env s)"
  unfolding initialize_session_def reset_on_failure_def
  by (auto intro!: ev.keep_intros vr.keep_intros inv_intros send_request_keeps)

lemma preserves_cond:
  assumes "preserves R m" and "\<And>w. R w w"
  shows "preserves R (\<lambda>w. if c w then (Inr (), w) else m w)"
  using assms by (auto simp: preserves_def)

lemma session_steps_keep [inv_intros]:
  "preserves (evolves (calls_only A)) (ensure_initialized env s)"
  "preserves same_rounds (ensure_initialized env s)"
  "preserves (evolves (calls_only A)) (recover_expired env s n)"
  "preserves same_rounds (recover_expired env s n)"
  "preserves (evolves (calls_only A)) (mcp_initialize env s)"
  "preserves same_rounds (mcp_initialize env s)"
  unfolding ensure_initialized_def [abs_def] recover_expired_def [abs_def] mcp_initialize_def
  by (auto intro!: preserves_cond ev.keep_intros vr.keep_intros inv_intros ev.frame_refl vr.frame_refl)

lemma on_expiry_keeps:
  "preserves R m \<Longrightarrow> (\<And>w. R w w) \<Longrightarrow> preserves R (on_expiry s m e)"
  by (auto simp: preserves_def on_expiry_def)

lemma mcp_rpc_keeps:
  "(\<And>i. calls_only A (request_envelope i name ps)) \<Longrightarrow>
     preserves (evolves (calls_only A)) (mcp_rpc env s name ps retry)"
  "preserves same_rounds (mcp_rpc env s name ps retry)"
  unfolding mcp_rpc_def
  by (auto intro!: ev.keep_intros vr.keep_intros inv_intros send_request_keeps on_expiry_keeps
      ev.frame_refl vr.frame_refl)

lemma call_tool_keeps [inv_intros]:
  "A name \<Longrightarrow> preserves (evolves (calls_only A)) (call_tool env s name args)"
  "preserves same_rounds (call_tool env s name args)"
  unfolding call_tool_def
  by (auto intro!: ev.keep_intros vr.keep_intros inv_intros mcp_rpc_keeps)

text \<open>
  C26: the client turns every failure of a tool call into a result that says so: whatever the
  server, the session or the meter do, \<open>call_tool\<close> returns, unless the task is cancelled.
\<close>

theorem call_tool_never_raises:
  "case fst (call_tool env s name args w) of Inl e \<Rightarrow> e = CancelledError | Inr r \<Rightarrow> tr_tool r = name"
proof -
  have handled: "case fst (ecatch m (\<lambda>e. if e = CancelledError then eraise e else eret (f e)) w) of
      Inl e \<Rightarrow> e = CancelledError | Inr r \<Rightarrow> tr_tool r = name"
    if "\<And>r w w'. m w = (Inr r, w') \<Longrightarrow> tr_tool r = name" and "\<And>e. tr_tool (f e) = name" for m f
    using that by (auto simp: ecatch_def eret_def eraise_def split: prod.splits sum.splits)
  show ?thesis
    by (cases "strip name = []")
      (auto simp: call_tool_def failed_tool_def eret_def ebind_Inr_iff intro!: handled)
qed

text \<open>At most one message of the log after \<open>w\<close> calls a tool.\<close>

definition calls_of :: "json list \<Rightarrow> json list" where
  "calls_of sent = filter (\<lambda>p. tool_called p \<noteq> None) sent"

lemma evolves_no_call:
  "evolves (calls_only (\<lambda>_. False)) w w' \<Longrightarrow> calls_of (w_mcp_log w') = calls_of (w_mcp_log w)"
  by (auto simp: evolves_def calls_of_def calls_only_def filter_empty_conv split: option.splits)

definition one_call :: "world \<Rightarrow> world \<Rightarrow> bool" where
  "one_call w w' \<longleftrightarrow> length (calls_of (w_mcp_log w')) \<le> Suc (length (calls_of (w_mcp_log w)))"

lemma no_call_then_one:
  assumes "preserves (evolves (calls_only (\<lambda>_. False))) m" and "\<And>x. preserves one_call (f x)"
  shows "preserves one_call (ebind m f)"
  unfolding preserves_def
proof (intro allI impI)
  fix w r w''
  assume run: "ebind m f w = (r, w'')"
  obtain t w' where m: "m w = (t, w')" by fastforce
  have eq: "calls_of (w_mcp_log w') = calls_of (w_mcp_log w)"
    by (rule evolves_no_call [OF preservesD [OF assms(1) m]])
  show "one_call w w''"
  proof (cases t)
    case (Inl e)
    then show ?thesis using run m eq by (simp add: ebind_def one_call_def)
  next
    case (Inr x)
    then have "f x w' = (r, w'')" using run m by (simp add: ebind_def)
    then have "one_call w' w''" by (rule preservesD [OF assms(2)])
    then show ?thesis using eq by (simp add: one_call_def)
  qed
qed

lemma one_then_no_call:
  assumes "preserves one_call m" and "\<And>x. preserves (evolves (calls_only (\<lambda>_. False))) (f x)"
  shows "preserves one_call (ebind m f)"
  unfolding preserves_def
proof (intro allI impI)
  fix w r w''
  assume run: "ebind m f w = (r, w'')"
  obtain t w' where m: "m w = (t, w')" by fastforce
  have one: "one_call w w'" by (rule preservesD [OF assms(1) m])
  show "one_call w w''"
  proof (cases t)
    case (Inl e)
    then show ?thesis using run m one by (simp add: ebind_def)
  next
    case (Inr x)
    then have "f x w' = (r, w'')" using run m by (simp add: ebind_def)
    then have "calls_of (w_mcp_log w'') = calls_of (w_mcp_log w')"
      by (rule evolves_no_call [OF preservesD [OF assms(2)]])
    then show ?thesis using one by (simp add: one_call_def)
  qed
qed

lemma one_then_handler:
  assumes "preserves one_call m" and "\<And>e. preserves (evolves (calls_only (\<lambda>_. False))) (h e)"
  shows "preserves one_call (ecatch m h)"
  unfolding preserves_def
proof (intro allI impI)
  fix w r w''
  assume run: "ecatch m h w = (r, w'')"
  obtain t w' where m: "m w = (t, w')" by fastforce
  have one: "one_call w w'" by (rule preservesD [OF assms(1) m])
  show "one_call w w''"
  proof (cases t)
    case (Inr x)
    then show ?thesis using run m one by (simp add: ecatch_def)
  next
    case (Inl e)
    then have "h e w' = (r, w'')" using run m by (simp add: ecatch_def)
    then have "calls_of (w_mcp_log w'') = calls_of (w_mcp_log w')"
      by (rule evolves_no_call [OF preservesD [OF assms(2)]])
    then show ?thesis using one by (simp add: one_call_def)
  qed
qed

lemma one_call_refl [simp]: "preserves one_call (eret x)"
  by (simp add: preserves_def one_call_def)

lemma mcp_transmit_one: "preserves one_call (mcp_transmit p)"
  by (auto simp: preserves_def mcp_transmit_def one_call_def calls_of_def)

lemma mcp_post_one: "preserves one_call (mcp_post env p a)"
  unfolding mcp_post_def ethen_def
  by (intro no_call_then_one one_then_no_call mcp_transmit_one)
    (auto intro!: ev.keep_intros inv_intros split: sum.splits)

lemma send_request_one: "preserves one_call (send_request env name ps)"
  unfolding send_request_def Let_def
  by (intro no_call_then_one one_then_no_call mcp_post_one)
    (auto intro!: ev.keep_intros inv_intros split: sum.splits)

text \<open>
  C18: a tool call is never replayed. Whatever happens to the session while it runs, one
  \<open>call_tool\<close> puts at most one \<open>tools/call\<close> message on the wire, so a call whose completion is
  ambiguous is reported and not repeated.
\<close>

theorem tool_call_sent_at_most_once:
  "length (calls_of (w_mcp_log (snd (call_tool env s name args w)))) \<le>
     Suc (length (calls_of (w_mcp_log w)))"
proof -
  have "preserves one_call (mcp_rpc env s ''tools/call'' ps False)" for ps
    unfolding mcp_rpc_def ethen_def
    by (intro no_call_then_one one_then_handler one_then_no_call send_request_one)
      (auto intro!: ev.keep_intros inv_intros on_expiry_keeps ev.frame_refl)
  then have "preserves one_call (call_tool env s name args)"
    unfolding call_tool_def
    by (cases "strip name = []")
      (auto intro!: one_then_handler one_then_no_call ev.keep_intros simp: one_call_refl)
  then have "one_call w (snd (call_tool env s name args w))"
    by (metis preservesD prod.collapse)
  then show ?thesis by (simp add: one_call_def)
qed

section \<open>The session\<close>

text \<open>An initialised session speaks a version the client supports.\<close>

definition session_ok :: "settings \<Rightarrow> world \<Rightarrow> world \<Rightarrow> bool" where
  "session_ok s w w' \<longleftrightarrow>
     ((ms_initialized (w_session w) \<longrightarrow> the (ms_protocol (w_session w)) \<in> set (supported_versions s)) \<longrightarrow>
      (ms_initialized (w_session w') \<longrightarrow> the (ms_protocol (w_session w')) \<in> set (supported_versions s)))"

interpretation sess: frame_condition "session_ok s" for s
  by unfold_locales (auto simp: session_ok_def)

definition same_session :: "world \<Rightarrow> world \<Rightarrow> bool" where
  "same_session w w' \<longleftrightarrow> w_session w' = w_session w"

interpretation ss: frame_condition same_session
  by unfold_locales (auto simp: same_session_def)

lemma weaken_session: "preserves same_session m \<Longrightarrow> preserves (session_ok s) m"
  by (auto simp: preserves_def same_session_def session_ok_def)

lemma same_session_steps [inv_intros]:
  "preserves same_session read_clock" "preserves same_session read_mono"
  "preserves same_session get_meter" "preserves same_session (put_meter f)"
  "preserves same_session invalidate_tools" "preserves same_session next_request_id"
  "preserves same_session (mcp_transmit p)" "preserves same_session get_generation"
  by (simp_all add: preserves_def same_session_def read_clock_def read_mono_def get_meter_def
      put_meter_def invalidate_tools_def next_request_id_def mcp_transmit_def get_generation_def)

lemma same_session_exchange [inv_intros]:
  "preserves same_session (mcp_post env p a)"
  "preserves same_session (handle_server_message env m)"
  "preserves same_session (send_request env name ps)"
  "preserves same_session (send_notification env name ps)"
proof -
  show post: "preserves same_session (mcp_post env p a)" for p a
    unfolding mcp_post_def meter_begin_tool_def meter_step_eff_def
    by (auto intro!: ss.keep_intros inv_intros split: sum.splits)
  show msg: "preserves same_session (handle_server_message env m)" for m
    unfolding handle_server_message_def respond_to_server_def
    by (auto intro!: ss.keep_intros inv_intros post split: json.splits)
  show "preserves same_session (send_request env name ps)"
    unfolding send_request_def Let_def
    by (auto intro!: ss.keep_intros inv_intros post msg split: sum.splits)
  show "preserves same_session (send_notification env name ps)"
    unfolding send_notification_def by (auto intro!: ss.keep_intros post)
qed

lemmas steps_session_ok = same_session_steps [THEN weaken_session]
  same_session_exchange [THEN weaken_session]

lemma negotiated_supported:
  "negotiated_session s r h = Inr st \<Longrightarrow>
     the (ms_protocol st) \<in> set (supported_versions s) \<and> \<not> ms_initialized st"
  by (auto simp: negotiated_session_def split: json.splits if_splits)

lemma handshake_session_ok:
  assumes "the (ms_protocol st) \<in> set (supported_versions s)" and "\<not> ms_initialized st"
  shows "preserves (session_ok s) (ethen (put_session st)
           (ethen (send_notification env name ps) mark_initialized))"
  unfolding preserves_def
proof (intro allI impI)
  fix w r w''
  assume run: "ethen (put_session st) (ethen (send_notification env name ps) mark_initialized) w = (r, w'')"
  obtain t w' where n: "send_notification env name ps (w\<lparr>w_session := st\<rparr>) = (t, w')" by fastforce
  have "w_session w' = st"
    using preservesD [OF same_session_exchange(4) n] by (simp add: same_session_def)
  then show "session_ok s w w''"
    using run n assms
    by (cases t) (auto simp: ethen_def ebind_def put_session_def mark_initialized_def session_ok_def)
qed

lemma session_steps_ok [inv_intros]:
  "preserves (session_ok s) reset_session"
  "preserves (session_ok s) (initialize_session env s)"
  "preserves (session_ok s) (ensure_initialized env s)"
  "preserves (session_ok s) (recover_expired env s n)"
  "preserves (session_ok s) (mcp_initialize env s)"
proof -
  show reset: "preserves (session_ok s) reset_session"
    by (simp add: preserves_def reset_session_def session_ok_def fresh_session_def)
  show ini: "preserves (session_ok s) (initialize_session env s)"
    unfolding initialize_session_def reset_on_failure_def
    by (auto intro!: sess.keep_ecatch sess.keep_ebind sess.keep_elift_ebind sess.keep_eraise
        sess.keep_ethen reset steps_session_ok handshake_session_ok
        dest: negotiated_supported split: prod.splits)
  show ens: "preserves (session_ok s) (ensure_initialized env s)"
    unfolding ensure_initialized_def [abs_def] by (auto intro!: preserves_cond ini sess.frame_refl)
  show "preserves (session_ok s) (recover_expired env s n)"
    unfolding recover_expired_def [abs_def]
    by (auto intro!: preserves_cond sess.keep_ethen reset ini sess.frame_refl)
  show "preserves (session_ok s) (mcp_initialize env s)"
    unfolding mcp_initialize_def by (auto intro!: ens sess.keep_eret)
qed

lemma mcp_rpc_session_ok: "preserves (session_ok s) (mcp_rpc env s name ps retry)"
  unfolding mcp_rpc_def
  by (auto intro!: sess.keep_ethen sess.keep_ebind sess.keep_ecatch sess.keep_eret sess.keep_eraise
      on_expiry_keeps sess.frame_refl session_steps_ok steps_session_ok)

text \<open>The headers of every request, and the health check, a tool call of its own.\<close>

definition request_headers :: "settings \<Rightarrow> mcp_session \<Rightarrow> (string \<times> string) list" where
  "request_headers s st =
     [(''Accept'', ''application/json, text/event-stream''), (''Content-Type'', ''application/json''),
      (''MCP-Protocol-Version'', opt_or (case ms_protocol st of Some [] \<Rightarrow> None | v \<Rightarrow> v) (mcp_protocol_version s))]
     @ (case ms_session_id st of None \<Rightarrow> [] | Some i \<Rightarrow> if i = [] then [] else [(''Mcp-Session-Id'', i)])"

definition mcp_health_check :: "runtime_env \<Rightarrow> settings \<Rightarrow> tool_result eff" where
  "mcp_health_check env s = call_tool env s ''health_check'' []"

lemma headers_name_supported_version:
  "(ms_protocol st \<noteq> None \<Longrightarrow> the (ms_protocol st) \<in> set (supported_versions s)) \<Longrightarrow>
     the (map_of (request_headers s st) ''MCP-Protocol-Version'') \<in> set (supported_versions s)"
  by (auto simp: request_headers_def supported_versions_def opt_or_def split: option.split list.split)

text \<open>
  C25: after any tool call, successful or not, an initialised session still speaks a protocol
  version the client supports: a server cannot push the client to another one, and a failed
  handshake leaves no half-initialised session behind.
\<close>

theorem session_speaks_supported_version:
  "session_ok s w (snd (call_tool env s name args w))"
proof -
  have "preserves (session_ok s) (call_tool env s name args)"
    unfolding call_tool_def
    by (auto intro!: sess.keep_intros mcp_rpc_session_ok)
  then show ?thesis by (metis preservesD prod.collapse)
qed

end
