(* ===== verification/Tools.thy ===== *)
theory Tools
  imports McpClient Routing
begin

text \<open>
  Server-side tool policy and the executor: \<open>src/app/tools/policies.py\<close>,
  \<open>src/app/tools/executor.py\<close>. The executor is modelled with the repository's MCP client, which
  meters its own physical attempts, so the executor's manual metering is not entered.
\<close>

section \<open>Policies\<close>

datatype side_effect = ReadOnly | ExternalRead | ReversibleWrite | ExternalCommunication | Restricted

record tool_policy =
  po_level :: side_effect
  po_known :: bool
  po_cacheable :: bool

definition policy_read_only :: "tool_policy \<Rightarrow> bool" where
  "policy_read_only p \<longleftrightarrow> po_level p \<in> {ReadOnly, ExternalRead}"

definition known_policies :: "(string \<times> side_effect) list" where
  "known_policies =
     [(''mail_search'', ExternalRead), (''mail_create_draft'', ReversibleWrite),
      (''mail_send_draft'', ExternalCommunication)]"

definition policy_write_tokens :: "string list" where
  "policy_write_tokens =
     [''create'', ''update'', ''delete'', ''remove'', ''send'', ''publish'', ''post'', ''write'',
      ''modify'', ''forward'', ''reply'', ''book'', ''purchase'', ''order'', ''upload'', ''put'',
      ''patch'']"

definition policy_read_tokens :: "string list" where
  "policy_read_tokens =
     [''search'', ''read'', ''get'', ''list'', ''find'', ''lookup'', ''query'', ''fetch'',
      ''scrape'', ''news'', ''weather'', ''status'', ''inventory'', ''inspect'', ''describe'']"

definition shares_token :: "string list \<Rightarrow> string list \<Rightarrow> bool" where
  "shares_token tokens markers \<longleftrightarrow> (\<exists>t\<in>set tokens. t \<in> set markers)"

definition policy_for :: "string \<Rightarrow> tool_policy" where
  "policy_for tool =
     (let tokens = name_tokens (strip tool); normalized = join ''_'' tokens in
      case map_of known_policies normalized of
        Some level \<Rightarrow> \<lparr>po_level = level, po_known = True, po_cacheable = False\<rparr>
      | None \<Rightarrow>
          \<lparr>po_level = (if shares_token tokens policy_write_tokens then Restricted
                       else if shares_token tokens policy_read_tokens then ExternalRead
                       else Restricted),
           po_known = False, po_cacheable = False\<rparr>)"

text \<open>The policy fails closed: an unknown tool that may write, or says nothing, is restricted.\<close>

lemma policy_unknown_restricted:
  assumes "map_of known_policies (join ''_'' (name_tokens (strip tool))) = None"
    and "shares_token (name_tokens (strip tool)) policy_write_tokens \<or>
         \<not> shares_token (name_tokens (strip tool)) policy_read_tokens"
  shows "\<not> policy_read_only (policy_for tool)"
  using assms by (auto simp: policy_for_def policy_read_only_def Let_def)

section \<open>The executor\<close>

definition executor_read_markers :: "string list" where
  "executor_read_markers =
     [''calculate'', ''convert'', ''explain'', ''extract'', ''fetch'', ''get'', ''health'', ''list'',
      ''lookup'', ''news'', ''query'', ''quote'', ''read'', ''scrape'', ''search'', ''status'',
      ''time'', ''weather'']"

definition executor_write_markers :: "string list" where
  "executor_write_markers =
     [''approve'', ''create'', ''delete'', ''draft'', ''execute'', ''modify'', ''patch'', ''post'',
      ''publish'', ''remove'', ''run'', ''send'', ''trigger'', ''update'', ''upload'', ''write'']"

definition executor_tokens :: "string \<Rightarrow> string list" where
  "executor_tokens name =
     filter (\<lambda>t. t \<noteq> []) (split_where (\<lambda>c. c = CHR ''_'' \<or> c = CHR ''-'') (lower name))"

text \<open>
  \<open>_is_explicitly_safe_read\<close>. \<open>ToolPolicy\<close> has no attribute \<open>confirmation_required\<close>, so the
  policy argument never changes the answer and \<open>ToolApprovalRequired\<close> is never raised.
\<close>

definition explicitly_safe_read :: "string \<Rightarrow> bool" where
  "explicitly_safe_read name \<longleftrightarrow>
     \<not> shares_token (executor_tokens name) executor_write_markers \<and>
     shares_token (executor_tokens name) executor_read_markers"

text \<open>
  \<open>asyncio.timeout\<close> turns the cancellation of its body into \<open>TimeoutError\<close> when its deadline has
  passed; another cancellation stays one.
\<close>

definition with_timeout :: "time \<Rightarrow> 'a eff \<Rightarrow> 'a eff" where
  "with_timeout deadline m = ecatch m (\<lambda>e.
     if e = CancelledError
     then ebind read_mono (\<lambda>t. eraise (if deadline \<le> t then TimeoutError else CancelledError))
     else eraise e)"

definition execute_tool :: "runtime_env \<Rightarrow> settings \<Rightarrow> string \<Rightarrow> jobj \<Rightarrow> tool_result eff" where
  "execute_tool env s name args =
     (if \<not> explicitly_safe_read name
      then eraise (ToolExecutionDenied (name @ '' is not classified as an approved read-only tool''))
      else ebind read_mono (\<lambda>started.
        ebind meter_remaining (\<lambda>remaining.
        ebind read_mono (\<lambda>entered.
        with_timeout (entered + max 1000 remaining)
          (ebind read_mono (\<lambda>acquired.
           ethen (put_meter (add_queue_wait (acquired - started)))
             (ecatch (call_tool env s name args) (\<lambda>e.
                if e = CancelledError then ethen (put_meter record_cancellation) (eraise e)
                else eraise e))))))))"

lemma queue_and_cancel_keep [inv_intros]:
  "preserves (evolves P) (put_meter (add_queue_wait q))" "preserves same_rounds (put_meter (add_queue_wait q))"
  "preserves (evolves P) (put_meter record_cancellation)" "preserves same_rounds (put_meter record_cancellation)"
  by (auto intro!: put_meter_keeps simp: add_queue_wait_def record_cancellation_def
      within_limits_def same_limits_def)

lemma with_timeout_keeps [inv_intros]:
  "preserves (evolves P) m \<Longrightarrow> preserves (evolves P) (with_timeout t m)"
  "preserves same_rounds m \<Longrightarrow> preserves same_rounds (with_timeout t m)"
  unfolding with_timeout_def by (auto intro!: ev.keep_intros vr.keep_intros inv_intros)

lemma execute_tool_keeps [inv_intros]:
  "preserves (evolves (calls_only explicitly_safe_read)) (execute_tool env s name args)"
  "preserves same_rounds (execute_tool env s name args)"
  unfolding execute_tool_def
  by (auto intro!: ev.keep_intros vr.keep_intros inv_intros)

text \<open>
  C17: fail closed on tools. Whatever name and arguments the executor is given, every tool call
  it lets out is one whose name has a read marker and no write marker; a refused name changes
  nothing at all, not even a counter.
\<close>

theorem executor_sends_only_safe_reads:
  "(\<exists>sent. w_mcp_log (snd (execute_tool env s name args w)) = w_mcp_log w @ sent \<and>
           list_all (calls_only explicitly_safe_read) sent) \<and>
   (if explicitly_safe_read name then True
    else execute_tool env s name args w =
      (Inl (ToolExecutionDenied (name @ '' is not classified as an approved read-only tool'')), w))"
proof -
  have "evolves (calls_only explicitly_safe_read) w (snd (execute_tool env s name args w))"
    by (metis execute_tool_keeps(1) preservesD prod.collapse)
  then show ?thesis by (auto simp: evolves_def list_all_iff execute_tool_def eraise_def)
qed

text \<open>
  The two classifications of the same tool disagree. The policy restricts a name with the
  tokens \<open>put\<close> or \<open>book\<close>, the executor, whose marker set lacks them, executes it.
\<close>

theorem executor_allows_restricted_tools:
  "explicitly_safe_read ''fetch_and_put_file'' \<and> \<not> policy_read_only (policy_for ''fetch_and_put_file'') \<and>
   explicitly_safe_read ''search_and_book_flight'' \<and>
   \<not> policy_read_only (policy_for ''search_and_book_flight'')"
  by code_simp

end
