(* ===== verification/GraphState.thy ===== *)
theory GraphState
  imports Agents Tools
begin

text \<open>
  The state of one execution and the pure parts of the graph: \<open>src/app/graphs/state.py\<close>,
  \<open>src/app/graphs/routes.py\<close>, \<open>build_fresh_run_state\<close>, and the helpers of \<open>ChatAgent\<close> in
  \<open>src/app/graph.py\<close>. Channels that hold a dumped class (plan, worker result, reports, grounding,
  evidence) hold the typed value here, \<open>None\<close> standing for the empty dictionary; where the code
  validates a stored value again, so does the model.
\<close>

section \<open>State\<close>

record task_record =
  tk_task :: plan_task
  tk_worker :: "worker_result option"
  tk_verification :: "verification option"
  tk_grounding :: "grounding list"
  tk_evidence :: "evidence list"

record gstate =
  g_message :: string
  g_system_prompt :: string
  g_system_source :: string
  g_domain :: string
  g_metadata :: jobj
  g_history :: "json list"
  g_request_id :: string
  g_conversation_id :: string
  g_run_id :: string
  g_thread_id :: string
  g_meter :: "meter_state option"
  g_inventory :: inventory
  g_routing :: jobj
  g_selected_models :: "(string \<times> string) list"
  g_selected_tool :: "string option"
  g_selected_tools :: jobj
  g_researched :: "string list"
  g_queries :: "(string \<times> string list) list"
  g_plan :: "exec_plan option"
  g_task_index :: nat
  g_results :: "task_record list"
  g_worker :: "worker_result option"
  g_verification :: "verification option"
  g_grounding :: "grounding list"
  g_evidence :: "evidence list"
  g_iterations :: int
  g_research_rounds :: int
  g_replans :: int
  g_next_action :: string
  g_response :: string
  g_backend :: string
  g_model :: "string option"
  g_reason :: "string option"
  g_final_required :: bool
  g_final :: "final_verification option"
  g_final_rounds :: int

definition backend_text :: "settings \<Rightarrow> string" where
  "backend_text s = (case llm_backend s of Echo \<Rightarrow> ''echo'' | Ollama \<Rightarrow> ''ollama'')"

definition build_fresh_run_state ::
  "string \<Rightarrow> prompt_decision \<Rightarrow> jobj \<Rightarrow> json list \<Rightarrow> string \<Rightarrow> inventory \<Rightarrow> string \<Rightarrow> gstate" where
  "build_fresh_run_state message decision metadata history request_id iv backend =
     \<lparr>g_message = message, g_system_prompt = pd_prompt decision,
      g_system_source = pd_source decision, g_domain = pd_domain decision,
      g_metadata = metadata, g_history = history, g_request_id = request_id,
      g_conversation_id = [], g_run_id = [], g_thread_id = [], g_meter = None,
      g_inventory = iv, g_routing = [], g_selected_models = [], g_selected_tool = None,
      g_selected_tools = [], g_researched = [], g_queries = [], g_plan = None, g_task_index = 0,
      g_results = [], g_worker = None, g_verification = None, g_grounding = [], g_evidence = [],
      g_iterations = 0, g_research_rounds = 0, g_replans = 0, g_next_action = [],
      g_response = [], g_backend = backend, g_model = None, g_reason = None,
      g_final_required = False, g_final = None, g_final_rounds = 0\<rparr>"

definition reason_set :: "gstate \<Rightarrow> bool" where
  "reason_set g \<longleftrightarrow> (case g_reason g of None \<Rightarrow> False | Some r \<Rightarrow> r \<noteq> [])"

definition plan_tasks :: "gstate \<Rightarrow> plan_task list" where
  "plan_tasks g = (case g_plan g of None \<Rightarrow> [] | Some p \<Rightarrow> pl_tasks p)"

text \<open>\<open>state["plan"]["tasks"][index]\<close>.\<close>

definition current_task :: "gstate \<Rightarrow> plan_task result" where
  "current_task g =
     (case g_plan g of
        None \<Rightarrow> Inl (KeyError ''tasks'')
      | Some p \<Rightarrow> if g_task_index g < length (pl_tasks p) then Inr (pl_tasks p ! g_task_index g)
                  else Inl IndexError)"

definition run_text :: "gstate \<Rightarrow> string" where
  "run_text g = (if g_run_id g = [] then ''request'' else g_run_id g)"

definition state_evidence :: "runtime_env \<Rightarrow> gstate \<Rightarrow> evidence list" where
  "state_evidence env g = map (enforce_evidence (re_text env)) (g_evidence g)"

definition with_selected_model :: "gstate \<Rightarrow> string \<Rightarrow> string \<Rightarrow> (string \<times> string) list" where
  "with_selected_model g node model =
     (let selected = alist_put node model (g_selected_models g) in
      if g_task_index g < length (plan_tasks g)
      then let i = pt_id (plan_tasks g ! g_task_index g) in
           if i = [] then selected else alist_put (node @ '':'' @ i) model selected
      else selected)"

section \<open>Partial answers\<close>

fun completed_sections :: "nat \<Rightarrow> task_record list \<Rightarrow> string list" where
  "completed_sections n [] = []"
| "completed_sections n (r # rs) =
     (let answer = strip (case tk_worker r of None \<Rightarrow> [] | Some w \<Rightarrow> wr_answer w) in
      (if answer = [] then [] else [''Completed task '' @ show_nat n @ '':'' @ [newline] @ answer])
      @ completed_sections (Suc n) rs)"

definition partial_sections :: "gstate \<Rightarrow> string list" where
  "partial_sections g =
     (let done = completed_sections 1 (g_results g);
          candidate = strip (g_response g);
          sections = done @ (if candidate = [] then []
            else [''Candidate final answer (not fully verified):'' @ [newline] @ candidate]);
          current = strip (case g_worker g of None \<Rightarrow> [] | Some w \<Rightarrow> wr_answer w)
      in sections @
         (if current \<noteq> [] \<and> list_all (\<lambda>t. \<not> occurs_in current t) sections
          then [''In-progress task output (not fully verified):'' @ [newline] @ current] else []))"

definition stop_reason :: "gstate \<Rightarrow> string" where
  "stop_reason g = (case g_reason g of Some r \<Rightarrow> if r = [] then ''execution stopped'' else r
                                     | None \<Rightarrow> ''execution stopped'')"

definition partial_response :: "gstate \<Rightarrow> string" where
  "partial_response g =
     (if partial_sections g \<noteq> []
      then join [newline, newline] (partial_sections g)
           @ [newline, newline] @ ''Execution stopped safely before all work was completed: ''
           @ stop_reason g @ ''. Treat any in-progress output as unverified.''
      else ''Execution stopped safely before a verified answer could be produced: ''
           @ stop_reason g @ ''.'')"

section \<open>Routes\<close>

definition after_budgeted_step :: "gstate \<Rightarrow> string" where
  "after_budgeted_step g = (if reason_set g then ''terminate'' else ''continue'')"

definition after_plan :: "gstate \<Rightarrow> string" where
  "after_plan g = (if reason_set g then ''terminate''
     else if g_next_action g = ''research'' then ''research'' else ''worker'')"

definition after_verification :: "gstate \<Rightarrow> string" where
  "after_verification g =
     (if reason_set g then ''terminate''
      else case g_verification g of
        None \<Rightarrow> ''terminate''
      | Some v \<Rightarrow>
          (case ve_verdict v of
             Pass \<Rightarrow> if ve_task_complete v then ''advance'' else ''revise''
           | verdict \<Rightarrow> verdict_text verdict))"

definition after_advance :: "gstate \<Rightarrow> string" where
  "after_advance g = (if reason_set g then ''terminate''
     else if length (plan_tasks g) \<le> g_task_index g then ''finalize''
     else if g_next_action g = ''research'' then ''research'' else ''worker'')"

definition after_finalize :: "gstate \<Rightarrow> string" where
  "after_finalize g = (if reason_set g then ''terminate''
     else if g_final_required g then ''verify_final'' else ''complete'')"

definition after_final_verification :: "settings \<Rightarrow> gstate \<Rightarrow> string" where
  "after_final_verification s g =
     (if reason_set g then ''terminate''
      else if (case g_final g of None \<Rightarrow> False | Some r \<Rightarrow> fv_pass r \<and> fv_answer_complete r)
      then ''complete''
      else if g_final_rounds g < final_max_revision_rounds s then ''revise_final''
      else ''terminate'')"

text \<open>
  Verification fails closed: the graph advances past a task exactly when its report says
  pass and complete and nothing has stopped the run; a pass that is not complete is revised,
  and a missing report terminates.
\<close>

theorem verification_fails_closed:
  "(after_verification g = ''advance'') =
     (\<not> reason_set g \<and> (\<exists>v. g_verification g = Some v \<and> ve_verdict v = Pass \<and> ve_task_complete v))"
  by (auto simp: after_verification_def split: option.splits verdict.splits)

section \<open>Nodes and edges\<close>

datatype node = NPlan | NResearch | NWorker | NVerify | NRevise | NReplan | NAdvance | NFinalize
  | NVerifyFinal | NReviseFinal | NTerminate

text \<open>The tables of \<open>_build_graph\<close>: the router's label and where it leads, \<open>None\<close> for \<open>END\<close>.\<close>

fun edges :: "node \<Rightarrow> (string \<times> node option) list" where
  "edges NPlan = [(''research'', Some NResearch), (''worker'', Some NWorker), (''terminate'', Some NTerminate)]"
| "edges NResearch = [(''continue'', Some NWorker), (''terminate'', Some NTerminate)]"
| "edges NWorker = [(''continue'', Some NVerify), (''terminate'', Some NTerminate)]"
| "edges NRevise = [(''continue'', Some NVerify), (''terminate'', Some NTerminate)]"
| "edges NReplan = [(''continue'', Some NWorker), (''terminate'', Some NTerminate)]"
| "edges NVerify = [(''advance'', Some NAdvance), (''revise'', Some NRevise),
     (''research'', Some NResearch), (''replan'', Some NReplan), (''terminate'', Some NTerminate)]"
| "edges NAdvance = [(''research'', Some NResearch), (''worker'', Some NWorker), (''finalize'', Some NFinalize)]"
| "edges NFinalize = [(''complete'', None), (''verify_final'', Some NVerifyFinal), (''terminate'', Some NTerminate)]"
| "edges NVerifyFinal = [(''complete'', None), (''revise_final'', Some NReviseFinal), (''terminate'', Some NTerminate)]"
| "edges NReviseFinal = [([], Some NVerifyFinal)]"
| "edges NTerminate = [([], None)]"

fun route :: "settings \<Rightarrow> node \<Rightarrow> gstate \<Rightarrow> string" where
  "route s NPlan g = after_plan g"
| "route s NVerify g = after_verification g"
| "route s NAdvance g = after_advance g"
| "route s NFinalize g = after_finalize g"
| "route s NVerifyFinal g = after_final_verification s g"
| "route s NReviseFinal g = []"
| "route s NTerminate g = []"
| "route s n g = after_budgeted_step g"

definition next_node :: "settings \<Rightarrow> node \<Rightarrow> gstate \<Rightarrow> node option result" where
  "next_node s n g = (case map_of (edges n) (route s n g) of
       None \<Rightarrow> Inl (KeyError (route s n g)) | Some t \<Rightarrow> Inr t)"

end
