(* ===== verification/Graph.thy ===== *)
theory Graph
  imports GraphState
begin

text \<open>
  The eleven nodes of the agent graph, one definition per method of \<open>ChatAgent\<close> in
  \<open>src/app/graph.py\<close>, with their guards, model calls, tool calls and early returns in the order
  of the code. A node maps a state to the state it returns or to the exception that leaves the
  graph. Logging, spans and metrics counters are left out.
\<close>

section \<open>Helpers\<close>

text \<open>\<open>_state_update\<close>: every returned state carries a fresh snapshot of the meter.\<close>

definition state_update :: "gstate \<Rightarrow> gstate eff" where
  "state_update g = ebind meter_snapshot (\<lambda>m. eret (g\<lparr>g_meter := Some m\<rparr>))"

definition budget_termination :: "gstate \<Rightarrow> string \<Rightarrow> verification option \<Rightarrow> gstate eff" where
  "budget_termination g m report =
     state_update (case report of
        None \<Rightarrow> g\<lparr>g_reason := Some m\<rparr>
      | Some r \<Rightarrow> g\<lparr>g_reason := Some m, g_verification := Some r\<rparr>)"

definition termination_report :: "string \<Rightarrow> verification" where
  "termination_report m =
     \<lparr>ve_verdict = Terminate, ve_task_complete = False,
      ve_issues = [\<lparr>is_code = ''budget_exhausted'', is_description = m, is_severity = High,
                   is_claim_id = None, is_evidence_ids = []\<rparr>],
      ve_required_actions = [], ve_confidence = 0\<rparr>"

text \<open>\<open>except BudgetExceeded\<close>.\<close>

definition on_budget :: "(string \<Rightarrow> 'a eff) \<Rightarrow> exn \<Rightarrow> 'a eff" where
  "on_budget h e = (case e of BudgetExceeded m \<Rightarrow> h m | _ \<Rightarrow> eraise e)"

text \<open>\<open>_, terminated = self._check_budget(state)\<close> with its early return.\<close>

definition check_then :: "(string \<Rightarrow> 'a eff) \<Rightarrow> 'a eff \<Rightarrow> 'a eff" where
  "check_then stop k = ebind (ecatch (ethen meter_check (eret None)) (on_budget (\<lambda>m. eret (Some m))))
     (\<lambda>v. case v of Some m \<Rightarrow> stop m | None \<Rightarrow> k)"

definition budget_guard :: "gstate \<Rightarrow> gstate eff \<Rightarrow> gstate eff" where
  "budget_guard g k = check_then (\<lambda>m. budget_termination g m None) k"

text \<open>\<open>except StructuredOutputError\<close>: a reason naming the step and the number of attempts.\<close>

definition on_structured :: "(nat \<Rightarrow> 'a eff) \<Rightarrow> exn \<Rightarrow> 'a eff" where
  "on_structured h e = (case e of StructuredOutputError _ n \<Rightarrow> h n | _ \<Rightarrow> eraise e)"

definition structured_reason :: "string \<Rightarrow> nat \<Rightarrow> string" where
  "structured_reason what n =
     what @ '' could not produce valid structured output after '' @ show_nat n @ '' bounded attempt(s)''"

text \<open>A model call that may end the node early: the value, or the state to return.\<close>

definition attempt_or :: "'a eff \<Rightarrow> (exn \<Rightarrow> gstate eff) \<Rightarrow> ('a \<Rightarrow> gstate eff) \<Rightarrow> gstate eff" where
  "attempt_or m h k = ebind (ecatch (ebind m (\<lambda>x. eret (Inl x))) (\<lambda>e. ebind (h e) (\<lambda>g. eret (Inr g))))
     (\<lambda>v. case v of Inl x \<Rightarrow> k x | Inr g \<Rightarrow> eret g)"

definition select_model :: "settings \<Rightarrow> gstate \<Rightarrow> string \<Rightarrow> string eff" where
  "select_model s g role = elift (resolve_model s (Some role) (Some (g_inventory g)))"

definition route_current_task :: "gstate \<Rightarrow> task_decision result" where
  "route_current_task g =
     bind_result (current_task g) (\<lambda>t. Inr (classify_task (g_message g) t))"

definition next_action_for :: "gstate \<Rightarrow> plan_task \<Rightarrow> string" where
  "next_action_for g t =
     (if td_requires_external (classify_task (g_message g) t) \<and> pt_id t \<notin> set (g_researched g)
      then ''research'' else ''worker'')"

definition set_next_action :: "gstate \<Rightarrow> gstate eff" where
  "set_next_action g = ebind (elift (current_task g)) (\<lambda>t.
     let d = classify_task (g_message g) t; action = next_action_for g t in
     state_update (g\<lparr>g_next_action := action,
       g_routing := [(''requires_external_evidence'', JBool (td_requires_external d)),
         (''worker_role'', JStr (td_worker_role d)), (''verifier_role'', JStr (td_verifier_role d)),
         (''reason'', JStr (td_reason d)), (''next_action'', JStr action)]\<rparr>))"

definition opt_json :: "('a \<Rightarrow> json) \<Rightarrow> 'a option \<Rightarrow> json" where
  "opt_json f v = (case v of None \<Rightarrow> JObj [] | Some x \<Rightarrow> f x)"

definition task_record_json :: "runtime_env \<Rightarrow> task_record \<Rightarrow> json" where
  "task_record_json env r = JObj
     [(''task'', JObj (plan_task_fields (tk_task r))),
      (''worker_result'', opt_json (worker_json env) (tk_worker r)),
      (''verification'', opt_json (verification_json env) (tk_verification r)),
      (''grounding'', JList (map grounding_json (tk_grounding r))),
      (''evidence'', JList (map evidence_json (tk_evidence r)))]"

section \<open>Plan\<close>

definition echo_plan :: "string \<Rightarrow> exec_plan" where
  "echo_plan message =
     \<lparr>pl_goal = message, pl_tasks = [\<lparr>pt_id = ''t1'', pt_objective = message,
        pt_required_evidence = [], pt_completion_criteria = [''Answer directly and completely''],
        pt_depends_on = []\<rparr>]\<rparr>"

definition planned_state :: "runtime_env \<Rightarrow> gstate \<Rightarrow> time \<Rightarrow> string \<Rightarrow> exec_plan \<Rightarrow> gstate" where
  "planned_state env g now model plan =
     g\<lparr>g_plan := Some plan, g_task_index := 0, g_results := [], g_worker := None,
       g_verification := None,
       g_evidence := evidence_from_metadata (re_text env) (g_metadata g) (run_text g) ''request'' now,
       g_iterations := 0, g_research_rounds := 0, g_replans := 0, g_reason := None,
       g_response := [], g_selected_models := with_selected_model g ''plan'' model,
       g_selected_tool := None, g_selected_tools := [], g_researched := [], g_queries := []\<rparr>"

definition plan_node :: "runtime_env \<Rightarrow> settings \<Rightarrow> gstate \<Rightarrow> gstate eff" where
  "plan_node env s g = budget_guard g
     (let finish = (\<lambda>model plan. ebind read_clock (\<lambda>now.
            ebind (state_update (planned_state env g now model plan)) set_next_action))
      in if llm_backend s \<noteq> Ollama then finish ''echo'' (echo_plan (g_message g))
         else ebind (select_model s g ''planner'') (\<lambda>model.
           attempt_or
             (ebind read_clock (\<lambda>now. model_operation_scope (agent_plan env s model
                [(''request'', JStr (g_message g)), (''runtime_context'', JObj (execution_context now))])))
             (on_structured (\<lambda>n. state_update (g\<lparr>g_reason := Some (structured_reason ''plan'' n)\<rparr>)))
             (finish model)))"

section \<open>Worker\<close>

definition worker_context :: "runtime_env \<Rightarrow> settings \<Rightarrow> gstate \<Rightarrow> context_item list" where
  "worker_context env s g =
     build_context (state_evidence env g) (agent_max_context_chars s)
       (Some (min (research_max_evidence_chars_per_query s) (agent_max_context_chars s)))"

definition worker_payload :: "runtime_env \<Rightarrow> settings \<Rightarrow> gstate \<Rightarrow> plan_task \<Rightarrow> jobj" where
  "worker_payload env s g task =
     [(''user_request'', JStr (g_message g)), (''system_instruction'', JStr (g_system_prompt g)),
      (''task'', JObj (plan_task_fields task)),
      (''evidence'', JList (map context_json (worker_context env s g))),
      (''history'', JList (g_history g)),
      (''previous_verification'', opt_json (verification_json env) (g_verification g))]"

definition worked_state ::
  "runtime_env \<Rightarrow> gstate \<Rightarrow> string \<Rightarrow> worker_result \<Rightarrow> gstate" where
  "worked_state env g model r =
     g\<lparr>g_worker := Some r, g_evidence := state_evidence env g, g_iterations := g_iterations g + 1,
       g_selected_models := with_selected_model g ''worker'' model, g_model := Some model\<rparr>"

definition echo_answer :: "string \<Rightarrow> worker_result" where
  "echo_answer message =
     \<lparr>wr_answer = ''Echo mode is active.'' @ [newline, newline] @ ''Message received: '' @ message,
      wr_claims = [], wr_assumptions = [], wr_missing_information = [], wr_confidence = 1 / 2\<rparr>"

definition worker_node :: "runtime_env \<Rightarrow> settings \<Rightarrow> gstate \<Rightarrow> gstate eff" where
  "worker_node env s g = budget_guard g
     (ebind (elift (current_task g)) (\<lambda>task.
        let finish = (\<lambda>model r. state_update (worked_state env g model r)) in
        if llm_backend s \<noteq> Ollama then finish ''echo'' (echo_answer (g_message g))
        else ebind (select_model s g (td_worker_role (classify_task (g_message g) task))) (\<lambda>model.
          attempt_or (model_operation_scope (agent_execute env s model (worker_payload env s g task)))
            (on_structured (\<lambda>n. state_update (g\<lparr>g_reason := Some (structured_reason ''worker'' n)\<rparr>)))
            (finish model))))"

section \<open>Verify\<close>

definition grounding_issue :: "grounding \<Rightarrow> string" where
  "grounding_issue r = ''claim_grounding:'' @ gr_claim_id r @ '':'' @ grounding_text (gr_status r)"

definition grounding_issues :: "grounding list \<Rightarrow> string list" where
  "grounding_issues gs = map grounding_issue (filter (\<lambda>r. gr_status r \<noteq> Supported) gs)"

definition plain_issue :: "severity \<Rightarrow> string \<Rightarrow> issue" where
  "plain_issue sev t = \<lparr>is_code = t, is_description = t, is_severity = sev, is_claim_id = None,
     is_evidence_ids = []\<rparr>"

definition echo_report :: "string list \<Rightarrow> verification" where
  "echo_report issues =
     \<lparr>ve_verdict = (if issues = [] then Pass else Revise), ve_task_complete = (issues = []),
      ve_issues = map (plain_issue Medium) issues, ve_required_actions = [], ve_confidence = 1 / 2\<rparr>"

text \<open>An ungrounded claim overrides a pass.\<close>

definition override_pass :: "string list \<Rightarrow> verification \<Rightarrow> verification" where
  "override_pass gis r =
     (if gis \<noteq> [] \<and> ve_verdict r = Pass
      then r\<lparr>ve_verdict := Revise, ve_task_complete := False,
             ve_issues := ve_issues r @ map (plain_issue High) gis\<rparr>
      else r)"

definition task_key :: "plan_task \<Rightarrow> string" where
  "task_key t = (if pt_id t = [] then ''task'' else pt_id t)"

definition verify_payload ::
  "runtime_env \<Rightarrow> gstate \<Rightarrow> plan_task \<Rightarrow> worker_result \<Rightarrow> grounding list \<Rightarrow> string list \<Rightarrow> jobj" where
  "verify_payload env g task r gs issues =
     [(''user_request'', JStr (g_message g)), (''task'', JObj (plan_task_fields task)),
      (''worker_result'', worker_json env r),
      (''evidence'', JList (map evidence_json (state_evidence env g))),
      (''grounding'', JList (map grounding_json gs)), (''deterministic_issues'', strs issues)]"

definition verified_state ::
  "gstate \<Rightarrow> string \<Rightarrow> grounding list \<Rightarrow> verification \<Rightarrow> gstate" where
  "verified_state g model gs report =
     g\<lparr>g_verification := Some (override_pass (grounding_issues gs) report), g_grounding := gs,
       g_selected_models := with_selected_model g ''verify'' model\<rparr>"

definition count_verifier_round :: "unit eff" where
  "count_verifier_round =
     put_meter (\<lambda>b. set_verifier_rounds (verifier_rounds (mstate b) + 1) b)"

definition stop_verifying :: "gstate \<Rightarrow> string \<Rightarrow> gstate eff" where
  "stop_verifying g m = budget_termination g m (Some (termination_report m))"

definition verify_body :: "runtime_env \<Rightarrow> settings \<Rightarrow> gstate \<Rightarrow> gstate eff" where
  "verify_body env s g =
     (case g_worker g of
        None \<Rightarrow> eraise (ValidationError ''WorkerResult'')
      | Some r \<Rightarrow>
        ebind (elift (current_task g)) (\<lambda>task.
          let gs = ground_claims (wr_claims r) (state_evidence env g) (run_text g) (task_key task);
              issues = deterministic_output_issues (wr_answer r) @ grounding_issues gs;
              finish = (\<lambda>model report. state_update (verified_state g model gs report))
          in if llm_backend s \<noteq> Ollama then finish ''echo'' (echo_report issues)
             else ebind (select_model s g (td_verifier_role (classify_task (g_message g) task))) (\<lambda>model.
               attempt_or (model_operation_scope (agent_verify env s model
                   (verify_payload env g task r gs issues)))
                 (on_budget (stop_verifying g)) (finish model))))"

definition verify_node :: "runtime_env \<Rightarrow> settings \<Rightarrow> gstate \<Rightarrow> gstate eff" where
  "verify_node env s g =
     ethen count_verifier_round (check_then (stop_verifying g) (verify_body env s g))"

section \<open>Revise\<close>

definition count_revision_round :: "unit eff" where
  "count_revision_round =
     put_meter (\<lambda>b. b\<lparr>mstate := (mstate b)\<lparr>revision_rounds := revision_rounds (mstate b) + 1\<rparr>\<rparr>)"

definition revised_state :: "gstate \<Rightarrow> string \<Rightarrow> worker_result \<Rightarrow> gstate" where
  "revised_state g model r =
     g\<lparr>g_worker := Some r, g_iterations := g_iterations g + 1,
       g_selected_models := with_selected_model g ''revise'' model, g_model := Some model\<rparr>"

definition revise_payload :: "runtime_env \<Rightarrow> gstate \<Rightarrow> plan_task \<Rightarrow> jobj" where
  "revise_payload env g task =
     [(''user_request'', JStr (g_message g)), (''task'', JObj (plan_task_fields task)),
      (''worker_result'', opt_json (worker_json env) (g_worker g)),
      (''verification'', opt_json (verification_json env) (g_verification g)),
      (''evidence'', JList (map evidence_json (g_evidence g)))]"

definition revise_node :: "runtime_env \<Rightarrow> settings \<Rightarrow> gstate \<Rightarrow> gstate eff" where
  "revise_node env s g = ethen count_revision_round (budget_guard g
     (ebind (elift (current_task g)) (\<lambda>task.
        if llm_backend s = Ollama then
          ebind (select_model s g (td_worker_role (classify_task (g_message g) task))) (\<lambda>model.
          ebind (model_operation_scope (agent_revise env s model (revise_payload env g task))) (\<lambda>r.
          state_update (revised_state g model r)))
        else (case g_worker g of
            None \<Rightarrow> eraise (ValidationError ''WorkerResult'')
          | Some r \<Rightarrow> state_update (revised_state g ''echo'' r)))))"

section \<open>Research\<close>

text \<open>What the loops of \<open>_research\<close> accumulate.\<close>

record research_acc =
  ra_evidence :: "evidence list"
  ra_failures :: "json list"
  ra_tools :: "string list"

definition failure_entry :: "string \<Rightarrow> string \<Rightarrow> json" where
  "failure_entry tool err = JObj [(''tool'', JStr tool), (''error'', JStr err)]"

definition add_failure :: "research_acc \<Rightarrow> json \<Rightarrow> research_acc" where
  "add_failure acc f = acc\<lparr>ra_failures := ra_failures acc @ [f]\<rparr>"

definition add_evidence :: "research_acc \<Rightarrow> evidence \<Rightarrow> string \<Rightarrow> research_acc" where
  "add_evidence acc e tool =
     acc\<lparr>ra_evidence := ra_evidence acc @ [e], ra_tools := ra_tools acc @ [tool]\<rparr>"

definition tool_failure_text :: "tool_result \<Rightarrow> string" where
  "tool_failure_text r = (case tr_error r of
     Some e \<Rightarrow> if e = [] then ''tool failed'' else e | None \<Rightarrow> ''tool failed'')"

definition query_fingerprint :: "runtime_env \<Rightarrow> string \<Rightarrow> string" where
  "query_fingerprint env query = take 12 (sha256 (re_text env) query)"

text \<open>
  The inner loop: the candidates of one query, until one yields eligible evidence. A refused tool
  is skipped; an exhausted budget ends the node (\<open>Inr\<close> of the message).
\<close>

fun try_candidates ::
  "runtime_env \<Rightarrow> settings \<Rightarrow> gstate \<Rightarrow> int \<Rightarrow> string \<Rightarrow> nat \<Rightarrow> string \<Rightarrow> tool_decision list
   \<Rightarrow> research_acc \<Rightarrow> (research_acc + string) eff" where
  "try_candidates env s g rounds key qi query [] acc = eret (Inl acc)"
| "try_candidates env s g rounds key qi query (c # cs) acc =
     ebind (ecatch (ebind (execute_tool env s (to_name c) (to_arguments c)) (\<lambda>r. eret (Inl r)))
        (\<lambda>e. case e of
            ToolApprovalRequired m \<Rightarrow> eret (Inr (Inl m))
          | ToolExecutionDenied m \<Rightarrow> eret (Inr (Inl m))
          | BudgetExceeded m \<Rightarrow> eret (Inr (Inr m))
          | _ \<Rightarrow> eraise e))
      (\<lambda>v. case v of
          Inr (Inr m) \<Rightarrow> eret (Inr m)
        | Inr (Inl m) \<Rightarrow> try_candidates env s g rounds key qi query cs
              (add_failure acc (failure_entry (to_name c) m))
        | Inl r \<Rightarrow>
            ebind read_clock (\<lambda>now.
            ebind (elift (evidence_from_tool_result (re_text env) r
                (''research-'' @ key @ ''-'' @ show_int rounds @ ''-'' @ show_nat qi)
                (run_text g) key (Some (query_fingerprint env query)) (to_name c) query now)) (\<lambda>e.
            if ev_eligible e then eret (Inl (add_evidence acc e (to_name c)))
            else try_candidates env s g rounds key qi query cs
              (add_failure acc (failure_entry (to_name c) (tool_failure_text r))))))"

fun research_queries ::
  "runtime_env \<Rightarrow> settings \<Rightarrow> gstate \<Rightarrow> int \<Rightarrow> plan_task \<Rightarrow> string \<Rightarrow> string list \<Rightarrow> nat
   \<Rightarrow> string list \<Rightarrow> research_acc \<Rightarrow> (research_acc + string) eff" where
  "research_queries env s g rounds task key actions qi [] acc = eret (Inl acc)"
| "research_queries env s g rounds task key actions qi (query # rest) acc =
     ebind (elift (select_tools (g_message g) task actions (g_inventory g) (g_metadata g) 3 (Some query)))
      (\<lambda>candidates.
        ebind (try_candidates env s g rounds key qi query candidates acc) (\<lambda>v.
          case v of
            Inr m \<Rightarrow> eret (Inr m)
          | Inl acc' \<Rightarrow> research_queries env s g rounds task key actions (Suc qi) rest acc'))"

text \<open>\<open>metadata.setdefault("research_failures", []).extend(failures)\<close>.\<close>

definition extend_failures :: "jobj \<Rightarrow> json list \<Rightarrow> jobj result" where
  "extend_failures metadata fs =
     (case map_of metadata ''research_failures'' of
        None \<Rightarrow> Inr (alist_put ''research_failures'' (JList fs) metadata)
      | Some (JList xs) \<Rightarrow> Inr (alist_put ''research_failures'' (JList (xs @ fs)) metadata)
      | Some _ \<Rightarrow> Inl (AttributeError ''extend''))"

definition no_evidence_reason :: string where
  "no_evidence_reason = ''all compatible read-only MCP research attempts failed; no current evidence was retrieved''"

definition researched_state ::
  "gstate \<Rightarrow> int \<Rightarrow> string \<Rightarrow> string list \<Rightarrow> jobj \<Rightarrow> research_acc \<Rightarrow> gstate" where
  "researched_state g rounds key queries metadata acc =
     (let base = g\<lparr>g_metadata := metadata, g_research_rounds := rounds,
                   g_queries := alist_put key queries (g_queries g)\<rparr>
      in case dedup (ra_tools acc) of
           [] \<Rightarrow> base\<lparr>g_evidence := ra_evidence acc, g_reason := Some no_evidence_reason\<rparr>
         | tool # tools \<Rightarrow>
             base\<lparr>g_researched := dedup (g_researched g @ [key]), g_selected_tool := Some tool,
                  g_selected_tools := alist_put key
                    (if tools = [] then JStr tool else strs (tool # tools)) (g_selected_tools g),
                  g_evidence := deduplicate_evidence (ra_evidence acc),
                  g_next_action := ''worker''\<rparr>)"

definition set_research_rounds :: "int \<Rightarrow> unit eff" where
  "set_research_rounds n = put_meter (\<lambda>b. b\<lparr>mstate := (mstate b)\<lparr>research_rounds_used := n\<rparr>\<rparr>)"

definition research_key :: "gstate \<Rightarrow> plan_task \<Rightarrow> string" where
  "research_key g t = (if pt_id t = [] then ''task-'' @ show_nat (g_task_index g) else pt_id t)"

definition research_node :: "runtime_env \<Rightarrow> settings \<Rightarrow> gstate \<Rightarrow> gstate eff" where
  "research_node env s g =
     (let rounds = g_research_rounds g + 1 in
      ethen (set_research_rounds rounds)
       (if \<not> mcp_enabled s
        then state_update (g\<lparr>g_research_rounds := rounds,
               g_reason := Some ''external evidence is required but MCP is disabled''\<rparr>)
        else if agent_max_research_rounds s < rounds
        then budget_termination g ''maximum research rounds exceeded'' None
        else
          let actions = (case g_verification g of None \<Rightarrow> [] | Some v \<Rightarrow> ve_required_actions v) in
          ebind (elift (current_task g)) (\<lambda>task.
          ebind read_clock (\<lambda>now.
          let key = research_key g task;
              queries = build_research_queries s now (g_message g) task actions
                          (Some (research_max_queries_per_task s))
          in ebind (research_queries env s g rounds task key actions 1 queries
                     \<lparr>ra_evidence = state_evidence env g, ra_failures = [], ra_tools = []\<rparr>) (\<lambda>v.
             case v of
               Inr m \<Rightarrow> budget_termination g m None
             | Inl acc \<Rightarrow>
                 ebind (elift (extend_failures (g_metadata g) (ra_failures acc))) (\<lambda>metadata.
                 state_update (researched_state g rounds key queries metadata acc)))))))"

section \<open>Replan and advance\<close>

definition set_replans :: "int \<Rightarrow> unit eff" where
  "set_replans n = put_meter (\<lambda>b. b\<lparr>mstate := (mstate b)\<lparr>replans_used := n\<rparr>\<rparr>)"

definition replanned_state :: "gstate \<Rightarrow> int \<Rightarrow> string \<Rightarrow> exec_plan \<Rightarrow> gstate" where
  "replanned_state g replans model plan =
     g\<lparr>g_plan := Some plan, g_task_index := 0, g_results := [], g_worker := None,
       g_verification := None, g_evidence := [], g_research_rounds := 0, g_replans := replans,
       g_researched := [], g_queries := [], g_selected_models := with_selected_model g ''replan'' model\<rparr>"

definition replan_node :: "runtime_env \<Rightarrow> settings \<Rightarrow> gstate \<Rightarrow> gstate eff" where
  "replan_node env s g =
     (let replans = g_replans g + 1;
          finish = (\<lambda>model plan. ebind (state_update (replanned_state g replans model plan)) set_next_action)
      in ethen (set_replans replans)
       (if agent_max_replans s < replans
        then state_update (g\<lparr>g_replans := replans, g_reason := Some ''maximum replans exceeded''\<rparr>)
        else if llm_backend s = Ollama then
          ebind (select_model s g ''planner'') (\<lambda>model.
          ebind (model_operation_scope (agent_plan env s model [(''request'', JStr (g_message g))])) (\<lambda>plan.
          finish model plan))
        else (case Option.bind (g_plan g) (\<lambda>p. validate_plan (plan_json p)) of
            None \<Rightarrow> eraise (ValidationError ''ExecutionPlan'')
          | Some plan \<Rightarrow> finish ''echo'' plan)))"

definition advanced_state :: "gstate \<Rightarrow> plan_task \<Rightarrow> gstate" where
  "advanced_state g task =
     g\<lparr>g_results := g_results g @ [\<lparr>tk_task = task, tk_worker = g_worker g,
         tk_verification = g_verification g, tk_grounding = g_grounding g,
         tk_evidence = g_evidence g\<rparr>],
       g_task_index := g_task_index g + 1, g_verification := None, g_worker := None,
       g_grounding := [], g_evidence := [], g_research_rounds := 0, g_selected_tool := None,
       g_next_action := ''worker''\<rparr>"

definition advance_node :: "runtime_env \<Rightarrow> settings \<Rightarrow> gstate \<Rightarrow> gstate eff" where
  "advance_node env s g =
     ebind (elift (current_task g)) (\<lambda>task.
     ebind (state_update (advanced_state g task)) (\<lambda>g'.
       if g_task_index g' < length (plan_tasks g') then set_next_action g' else eret g'))"

section \<open>Finish\<close>

definition terminate_node :: "runtime_env \<Rightarrow> settings \<Rightarrow> gstate \<Rightarrow> gstate eff" where
  "terminate_node env s g = state_update
     (g\<lparr>g_response := partial_response g, g_backend := backend_text s, g_model := Some (model_general s)\<rparr>)"

text \<open>\<open>except Exception\<close>: everything but a cancellation.\<close>

definition on_exception :: "(exn \<Rightarrow> 'a eff) \<Rightarrow> exn \<Rightarrow> 'a eff" where
  "on_exception h e = (if e = CancelledError then eraise e else h e)"

definition finalized_state :: "settings \<Rightarrow> gstate \<Rightarrow> string \<Rightarrow> string \<Rightarrow> bool \<Rightarrow> gstate" where
  "finalized_state s g model response needed =
     g\<lparr>g_response := response, g_backend := backend_text s, g_model := Some model,
       g_final_required := needed, g_final := None, g_final_rounds := 0,
       g_selected_models := with_selected_model g ''finalize'' model\<rparr>"

definition last_answer :: "gstate \<Rightarrow> string result" where
  "last_answer g =
     (if g_results g = []
      then Inr (case g_worker g of None \<Rightarrow> [] | Some w \<Rightarrow> wr_answer w)
      else case tk_worker (last (g_results g)) of
             None \<Rightarrow> Inl (KeyError ''answer'') | Some w \<Rightarrow> Inr (wr_answer w))"

definition synthesis_payload :: "runtime_env \<Rightarrow> gstate \<Rightarrow> jobj" where
  "synthesis_payload env g =
     [(''user_request'', JStr (g_message g)),
      (''verified_results'', JList (map (task_record_json env) (g_results g)))]"

definition finalize_node :: "runtime_env \<Rightarrow> settings \<Rightarrow> gstate \<Rightarrow> gstate eff" where
  "finalize_node env s g =
     (if reason_set g then terminate_node env s g
      else if llm_backend s = Ollama \<and> 1 < length (g_results g) then
        ebind (select_model s g ''synthesis'') (\<lambda>model.
        attempt_or (model_operation_scope (agent_synthesize env s model (synthesis_payload env g)))
          (on_exception (\<lambda>e. ebind (state_update
              (g\<lparr>g_reason := Some (''final synthesis failed: '' @ exn_class e)\<rparr>)) (terminate_node env s)))
          (\<lambda>response. state_update
              (finalized_state s g model response (final_verification_enabled s))))
      else
        let model = (case g_model g of Some m \<Rightarrow> if m = [] then model_general s else m
                                     | None \<Rightarrow> model_general s)
        in ebind (elift (last_answer g)) (\<lambda>response.
           state_update (finalized_state s g model response False)))"

definition final_failure :: string where
  "final_failure = ''final answer could not be independently verified''"

definition final_checked_state :: "settings \<Rightarrow> gstate \<Rightarrow> string \<Rightarrow> final_verification \<Rightarrow> gstate" where
  "final_checked_state s g model report =
     g\<lparr>g_final := Some report, g_selected_models := with_selected_model g ''verify_final'' model\<rparr>"

definition verify_final_node :: "runtime_env \<Rightarrow> settings \<Rightarrow> gstate \<Rightarrow> gstate eff" where
  "verify_final_node env s g = budget_guard g
     (ebind (select_model s g ''reasoning'') (\<lambda>model.
      attempt_or (model_operation_scope (agent_verify_final env s model
          (synthesis_payload env g @ [(''candidate_final_answer'', JStr (g_response g))])))
        (on_structured (\<lambda>n. state_update
            (g\<lparr>g_reason := Some (structured_reason ''final verification'' n)\<rparr>)))
        (\<lambda>report. ebind (state_update (final_checked_state s g model report)) (\<lambda>g'.
            eret (if \<not> fv_pass report \<and> final_max_revision_rounds s \<le> g_final_rounds g
                  then g'\<lparr>g_reason := Some final_failure\<rparr> else g')))))"

definition set_final_rounds :: "int \<Rightarrow> unit eff" where
  "set_final_rounds n = put_meter (\<lambda>b. b\<lparr>mstate := (mstate b)\<lparr>final_revision_rounds_used := n\<rparr>\<rparr>)"

definition final_revised_state :: "gstate \<Rightarrow> int \<Rightarrow> string \<Rightarrow> string \<Rightarrow> gstate" where
  "final_revised_state g rounds model response =
     g\<lparr>g_response := response, g_final_rounds := rounds, g_final := None,
       g_selected_models := with_selected_model g ''revise_final'' model\<rparr>"

definition revise_final_node :: "runtime_env \<Rightarrow> settings \<Rightarrow> gstate \<Rightarrow> gstate eff" where
  "revise_final_node env s g =
     (let rounds = g_final_rounds g + 1 in
      ethen (set_final_rounds rounds) (budget_guard g
       (ebind (select_model s g ''synthesis'') (\<lambda>model.
        attempt_or (model_operation_scope (agent_synthesize env s model
            (synthesis_payload env g
             @ [(''previous_answer'', JStr (g_response g)),
                (''final_verification'', opt_json (final_json env) (g_final g)),
                (''instruction'', JStr ''Revise only as required; do not introduce new facts.'')])))
          (on_exception (\<lambda>e. state_update
              (g\<lparr>g_reason := Some (''final answer revision failed: '' @ exn_class e),
                 g_final_rounds := rounds\<rparr>)))
          (\<lambda>response. state_update (final_revised_state g rounds model response))))))"

section \<open>The graph\<close>

fun run_node :: "runtime_env \<Rightarrow> settings \<Rightarrow> node \<Rightarrow> gstate \<Rightarrow> gstate eff" where
  "run_node env s NPlan g = plan_node env s g"
| "run_node env s NResearch g = research_node env s g"
| "run_node env s NWorker g = worker_node env s g"
| "run_node env s NVerify g = verify_node env s g"
| "run_node env s NRevise g = revise_node env s g"
| "run_node env s NReplan g = replan_node env s g"
| "run_node env s NAdvance g = advance_node env s g"
| "run_node env s NFinalize g = finalize_node env s g"
| "run_node env s NVerifyFinal g = verify_final_node env s g"
| "run_node env s NReviseFinal g = revise_final_node env s g"
| "run_node env s NTerminate g = terminate_node env s g"

text \<open>
  One invocation of the compiled graph with \<open>fuel\<close> supersteps, LangGraph's recursion limit: it
  finishes at a node, or an exception leaves it, or the steps run out.
\<close>

datatype run_outcome = Finished node gstate | Failed exn | OutOfSteps

fun run_graph ::
  "runtime_env \<Rightarrow> settings \<Rightarrow> nat \<Rightarrow> node \<Rightarrow> gstate \<Rightarrow> world \<Rightarrow> run_outcome \<times> world" where
  "run_graph env s 0 n g w = (OutOfSteps, w)"
| "run_graph env s (Suc fuel) n g w =
     (case run_node env s n g w of
        (Inl e, w') \<Rightarrow> (Failed e, w')
      | (Inr g', w') \<Rightarrow>
          (case next_node s n g' of
             Inl e \<Rightarrow> (Failed e, w')
           | Inr None \<Rightarrow> (Finished n g', w')
           | Inr (Some n') \<Rightarrow> run_graph env s fuel n' g' w'))"

end
