(* ===== verification/GraphSafety.thy ===== *)
theory GraphSafety
  imports Graph
begin

text \<open>
  What a whole run of the graph can do to the outside: spending and tool calls. Every node keeps
  the frame conditions of the theory World, so every run does, however long it is and however it
  ends; and only the verify node counts verifier rounds.
\<close>

abbreviation safe_world :: "world \<Rightarrow> world \<Rightarrow> bool" where
  "safe_world \<equiv> evolves (calls_only explicitly_safe_read)"

lemmas safe_intros = ev.keep_intros [where P = "calls_only explicitly_safe_read"]

lemma state_update_keeps [inv_intros]:
  "preserves (evolves P) (state_update g)" "preserves same_rounds (state_update g)"
  "preserves (evolves P) (budget_termination g m r)" "preserves same_rounds (budget_termination g m r)"
  unfolding state_update_def budget_termination_def
  by (auto intro!: ev.keep_intros vr.keep_intros inv_intros)

lemma handlers_keep [inv_intros]:
  "(\<And>m. preserves (evolves P) (h m)) \<Longrightarrow> preserves (evolves P) (on_budget h e)"
  "(\<And>m. preserves same_rounds (h m)) \<Longrightarrow> preserves same_rounds (on_budget h e)"
  "(\<And>n. preserves (evolves P) (k n)) \<Longrightarrow> preserves (evolves P) (on_structured k e)"
  "(\<And>n. preserves same_rounds (k n)) \<Longrightarrow> preserves same_rounds (on_structured k e)"
  "(\<And>x. preserves (evolves P) (l x)) \<Longrightarrow> preserves (evolves P) (on_exception l e)"
  "(\<And>x. preserves same_rounds (l x)) \<Longrightarrow> preserves same_rounds (on_exception l e)"
  unfolding on_budget_def on_structured_def on_exception_def
  by (auto intro!: ev.keep_intros vr.keep_intros split: exn.splits)

lemma check_then_keeps [inv_intros]:
  "(\<And>m. preserves (evolves P) (h m)) \<Longrightarrow> preserves (evolves P) k \<Longrightarrow> preserves (evolves P) (check_then h k)"
  "(\<And>m. preserves same_rounds (h m)) \<Longrightarrow> preserves same_rounds k \<Longrightarrow> preserves same_rounds (check_then h k)"
  "preserves (evolves P) l \<Longrightarrow> preserves (evolves P) (budget_guard g l)"
  "preserves same_rounds l \<Longrightarrow> preserves same_rounds (budget_guard g l)"
  unfolding budget_guard_def check_then_def
  by (auto intro!: ev.keep_intros vr.keep_intros inv_intros split: option.splits)

lemma attempt_or_keeps [inv_intros]:
  "preserves (evolves P) m \<Longrightarrow> (\<And>e. preserves (evolves P) (h e)) \<Longrightarrow>
   (\<And>x. preserves (evolves P) (k x)) \<Longrightarrow> preserves (evolves P) (attempt_or m h k)"
  "preserves same_rounds m \<Longrightarrow> (\<And>e. preserves same_rounds (h e)) \<Longrightarrow>
   (\<And>x. preserves same_rounds (k x)) \<Longrightarrow> preserves same_rounds (attempt_or m h k)"
  unfolding attempt_or_def
  by (auto intro!: ev.keep_intros vr.keep_intros split: sum.splits)

lemma select_model_keeps [inv_intros]:
  "preserves (evolves P) (select_model s g r)" "preserves same_rounds (select_model s g r)"
  "preserves (evolves P) (set_next_action g)" "preserves same_rounds (set_next_action g)"
  unfolding select_model_def set_next_action_def Let_def
  by (auto intro!: ev.keep_intros vr.keep_intros inv_intros)

lemma meter_setters_keep [inv_intros]:
  "preserves (evolves P) count_revision_round" "preserves same_rounds count_revision_round"
  "preserves (evolves P) (set_research_rounds n)" "preserves same_rounds (set_research_rounds n)"
  "preserves (evolves P) (set_replans n)" "preserves same_rounds (set_replans n)"
  "preserves (evolves P) (set_final_rounds n)" "preserves same_rounds (set_final_rounds n)"
  "preserves (evolves P) count_verifier_round"
  unfolding count_revision_round_def set_research_rounds_def set_replans_def set_final_rounds_def
    count_verifier_round_def
  by (auto intro!: put_meter_keeps simp: same_limits_def within_limits_def set_verifier_rounds_def)

lemma plan_node_keeps [inv_intros]:
  "preserves (evolves P) (plan_node env s g)" "preserves same_rounds (plan_node env s g)"
  unfolding plan_node_def Let_def
  by (auto intro!: ev.keep_intros vr.keep_intros inv_intros)

lemma worker_node_keeps [inv_intros]:
  "preserves (evolves P) (worker_node env s g)" "preserves same_rounds (worker_node env s g)"
  unfolding worker_node_def Let_def
  by (auto intro!: ev.keep_intros vr.keep_intros inv_intros)

lemma verify_body_keeps [inv_intros]:
  "preserves (evolves P) (verify_body env s g)" "preserves same_rounds (verify_body env s g)"
  unfolding verify_body_def stop_verifying_def Let_def
  by (auto intro!: ev.keep_intros vr.keep_intros inv_intros split: option.splits)

lemma verify_node_keeps [inv_intros]: "preserves (evolves P) (verify_node env s g)"
  unfolding verify_node_def stop_verifying_def
  by (auto intro!: ev.keep_intros inv_intros)

lemma revise_node_keeps [inv_intros]:
  "preserves (evolves P) (revise_node env s g)" "preserves same_rounds (revise_node env s g)"
  unfolding revise_node_def
  by (auto intro!: ev.keep_intros vr.keep_intros inv_intros split: option.splits)

lemma try_candidates_keeps [inv_intros]:
  "preserves safe_world (try_candidates env s g r key qi q cs acc)"
  "preserves same_rounds (try_candidates env s g r key qi q cs acc)"
  by (induction cs arbitrary: acc)
    (auto intro!: ev.keep_intros vr.keep_intros inv_intros split: sum.splits exn.splits)

lemma research_queries_keeps [inv_intros]:
  "preserves safe_world (research_queries env s g r t key as qi qs acc)"
  "preserves same_rounds (research_queries env s g r t key as qi qs acc)"
  by (induction qs arbitrary: qi acc)
    (auto intro!: ev.keep_intros vr.keep_intros inv_intros split: sum.splits)

lemma research_node_keeps [inv_intros]:
  "preserves safe_world (research_node env s g)" "preserves same_rounds (research_node env s g)"
  unfolding research_node_def Let_def
  by (auto intro!: ev.keep_intros vr.keep_intros inv_intros split: sum.splits)

lemma replan_node_keeps [inv_intros]:
  "preserves (evolves P) (replan_node env s g)" "preserves same_rounds (replan_node env s g)"
  unfolding replan_node_def Let_def
  by (auto intro!: ev.keep_intros vr.keep_intros inv_intros split: option.splits)

lemma advance_node_keeps [inv_intros]:
  "preserves (evolves P) (advance_node env s g)" "preserves same_rounds (advance_node env s g)"
  unfolding advance_node_def
  by (auto intro!: ev.keep_intros vr.keep_intros inv_intros)

lemma terminate_node_keeps [inv_intros]:
  "preserves (evolves P) (terminate_node env s g)" "preserves same_rounds (terminate_node env s g)"
  unfolding terminate_node_def by (rule inv_intros)+

lemma finalize_node_keeps [inv_intros]:
  "preserves (evolves P) (finalize_node env s g)" "preserves same_rounds (finalize_node env s g)"
  unfolding finalize_node_def Let_def
  by (auto intro!: ev.keep_intros vr.keep_intros inv_intros)

lemma final_nodes_keep [inv_intros]:
  "preserves (evolves P) (verify_final_node env s g)" "preserves same_rounds (verify_final_node env s g)"
  "preserves (evolves P) (revise_final_node env s g)" "preserves same_rounds (revise_final_node env s g)"
  unfolding verify_final_node_def revise_final_node_def Let_def
  by (auto intro!: ev.keep_intros vr.keep_intros inv_intros)

lemma run_node_safe: "preserves safe_world (run_node env s n g)"
  by (cases n) (simp_all add: inv_intros)

lemma run_node_same_rounds: "n \<noteq> NVerify \<Longrightarrow> preserves same_rounds (run_node env s n g)"
  by (cases n) (simp_all add: inv_intros)

lemma run_graph_safe: "safe_world w (snd (run_graph env s fuel n g w))"
proof (induction env s fuel n g w rule: run_graph.induct)
  case (1 env s n g w)
  then show ?case by (simp add: evolves_refl)
next
  case (2 env s fuel n g w)
  obtain r w' where node: "run_node env s n g w = (r, w')" by fastforce
  then have step: "safe_world w w'" by (rule preservesD [OF run_node_safe])
  show ?case
  proof (cases r)
    case (Inl e)
    then show ?thesis using node step by simp
  next
    case (Inr g')
    show ?thesis
    proof (cases "\<exists>n'. next_node s n g' = Inr (Some n')")
      case True
      then obtain n' where n': "next_node s n g' = Inr (Some n')" by blast
      have "safe_world w' (snd (run_graph env s fuel n' g' w'))"
        using 2 [OF node [symmetric] Inr n'] by simp
      with step show ?thesis using node Inr n' by (simp add: evolves_trans)
    next
      case False
      then show ?thesis using node Inr step by (auto split: sum.splits option.splits)
    qed
  qed
qed

text \<open>
  C6: no run of the graph spends more than its budget or calls an unapproved tool. Whatever the
  models, the tool server and the clocks do, and however many supersteps are taken, the model
  attempts and tool attempts stay within the limits of the request, and every tool call that
  left the process has a name with a read marker and no write marker.
\<close>

theorem graph_run_is_bounded_and_safe:
  assumes "w_meter w = new_budget d models tools rounds None now mclk"
    and "0 \<le> models" and "0 \<le> tools" and "w_mcp_log w = []"
  shows "let w' = snd (run_graph env s fuel n g w) in
     physical_model_attempts (mstate (w_meter w')) \<le> models \<and>
     tool_attempts (mstate (w_meter w')) \<le> tools \<and>
     list_all (calls_only explicitly_safe_read) (w_mcp_log w')"
proof -
  let ?w' = "snd (run_graph env s fuel n g w)"
  have ev: "safe_world w ?w'" by (rule run_graph_safe)
  then have "within_limits (w_meter ?w')" and "same_limits (w_meter w) (w_meter ?w')"
    using assms(1-3) by (simp_all add: evolves_def new_budget_within_limits)
  then show ?thesis
    using ev assms(1,4)
    by (auto simp: Let_def within_limits_def same_limits_def meter_simps evolves_def list_all_iff)
qed

definition sample_state :: gstate where
  "sample_state =
     (build_fresh_run_state ''a'' \<lparr>pd_prompt = ''p'', pd_source = ''request'', pd_domain = ''general'',
        pd_requires_external = False\<rparr> [] [] ''q'' empty_inventory ''echo'')\<lparr>g_run_id := ''r''\<rparr>"

theorem graph_run_is_bounded_and_safe_witness:
  "let w' = snd (run_graph sample_runtime default_settings 25 NPlan sample_state sample_world) in
     physical_model_attempts (mstate (w_meter w')) \<le> 8 \<and>
     tool_attempts (mstate (w_meter w')) \<le> 10 \<and>
     list_all (calls_only explicitly_safe_read) (w_mcp_log w')"
  by (rule graph_run_is_bounded_and_safe) (simp_all add: sample_world_def)

end
