(* ===== verification/GraphInvariant.thy ===== *)
theory GraphInvariant
  imports GraphSafety
begin

text \<open>
  What the states of a run satisfy: the invariant at the entry of each node, kept by every
  superstep, and what it says of a run that finishes.
\<close>

section \<open>What a computation returns\<close>

definition returns :: "('a \<Rightarrow> bool) \<Rightarrow> 'a eff \<Rightarrow> bool" where
  "returns Q m \<longleftrightarrow> (\<forall>w x w'. m w = (Inr x, w') \<longrightarrow> Q x)"

named_theorems returns_intros \<open>rules for what a computation returns\<close>

lemma returnsD: "returns Q m \<Longrightarrow> m w = (Inr x, w') \<Longrightarrow> Q x"
  by (auto simp: returns_def)

lemma returns_eret [returns_intros]: "Q x \<Longrightarrow> returns Q (eret x)"
  by (simp add: returns_def)

lemma returns_eraise [returns_intros]: "returns Q (eraise e)"
  by (simp add: returns_def)

lemma returns_True: "returns (\<lambda>_. True) m"
  by (simp add: returns_def)

lemma returns_ebind:
  "returns P m \<Longrightarrow> (\<And>x. P x \<Longrightarrow> returns Q (f x)) \<Longrightarrow> returns Q (ebind m f)"
  by (fastforce simp: returns_def ebind_Inr_iff)

lemma returns_ebind_any [returns_intros]: "(\<And>x. returns Q (f x)) \<Longrightarrow> returns Q (ebind m f)"
  by (fastforce simp: returns_def ebind_Inr_iff)

lemma returns_elift_ebind: "(\<And>x. r = Inr x \<Longrightarrow> returns Q (f x)) \<Longrightarrow> returns Q (ebind (elift r) f)"
  by (auto simp: returns_def ebind_Inr_iff)

lemma returns_ethen [returns_intros]: "returns Q k \<Longrightarrow> returns Q (ethen m k)"
  by (auto simp: returns_def ethen_Inr_iff)

lemma returns_ecatch:
  "returns Q m \<Longrightarrow> (\<And>e. returns Q (h e)) \<Longrightarrow> returns Q (ecatch m h)"
  by (auto simp: returns_def ecatch_def split: prod.splits sum.splits)

lemma returns_scope [returns_intros]:
  assumes "returns Q m"
  shows "returns Q (model_operation_scope m)"
  unfolding returns_def
proof (intro allI impI)
  fix w x w'
  assume "model_operation_scope m w = (Inr x, w')"
  then obtain w1 where "ethen (set_ops (Some 0)) (efinally m (set_ops (w_ops w1))) w1 = (Inr x, w')"
    by (auto simp: model_operation_scope_def ethen_Inr_iff)
  then obtain w2 where "efinally m (set_ops (w_ops w1)) w2 = (Inr x, w')"
    by (auto simp: ethen_Inr_iff)
  then obtain w3 where "m w2 = (Inr x, w3)"
    by (auto simp: efinally_def set_ops_def split: prod.splits sum.splits)
  then show "Q x" by (rule returnsD [OF assms])
qed

lemma returns_state_update [returns_intros]:
  "(\<And>m. Q (g\<lparr>g_meter := Some m\<rparr>)) \<Longrightarrow> returns Q (state_update g)"
  by (auto simp: state_update_def intro!: returns_intros)

lemma returns_attempt_or:
  assumes "returns P m" and "\<And>e. returns Q (h e)" and "\<And>x. P x \<Longrightarrow> returns Q (k x)"
  shows "returns Q (attempt_or m h k)"
  unfolding attempt_or_def
proof (rule returns_ebind [where P = "\<lambda>v. case v of Inl x \<Rightarrow> P x | Inr g \<Rightarrow> Q g"])
  show "returns (\<lambda>v. case v of Inl x \<Rightarrow> P x | Inr g \<Rightarrow> Q g)
     (ecatch (ebind m (\<lambda>x. eret (Inl x))) (\<lambda>e. ebind (h e) (\<lambda>g. eret (Inr g))))"
    by (intro returns_ecatch returns_ebind [OF assms(1)] returns_ebind [OF assms(2)] returns_eret)
      simp_all
qed (use assms(3) in \<open>auto simp: returns_def split: sum.splits\<close>)

lemma check_budget_nonempty: "check_budget b now = Some m \<Longrightarrow> m \<noteq> []"
  by (auto simp: check_budget_def split: if_splits)

lemma meter_check_Inl: "meter_check w = (Inl e, w') \<Longrightarrow> \<exists>m. e = BudgetExceeded m \<and> m \<noteq> []"
  by (auto simp: meter_check_def ebind_Inl_iff read_clock_def get_meter_def
      dest: check_budget_nonempty split: option.splits)

lemma returns_check_then:
  assumes "\<And>m. m \<noteq> [] \<Longrightarrow> returns Q (h m)" and "returns Q k"
  shows "returns Q (check_then h k)"
  unfolding check_then_def
proof (rule returns_ebind [where P = "\<lambda>v. case v of None \<Rightarrow> True | Some m \<Rightarrow> m \<noteq> []"])
  show "returns (\<lambda>v. case v of None \<Rightarrow> True | Some m \<Rightarrow> m \<noteq> [])
     (ecatch (ethen meter_check (eret None)) (on_budget (\<lambda>m. eret (Some m))))"
    by (auto simp: returns_def ecatch_def ethen_def ebind_def on_budget_def eret_def
        split: prod.splits sum.splits exn.splits dest: meter_check_Inl)
qed (use assms in \<open>auto split: option.splits\<close>)

lemma returns_budget_guard:
  assumes "\<And>m r. m \<noteq> [] \<Longrightarrow> Q (g\<lparr>g_reason := Some m, g_meter := Some r\<rparr>)" and "returns Q k"
  shows "returns Q (budget_guard g k)"
  unfolding budget_guard_def budget_termination_def
  by (rule returns_check_then) (auto intro!: returns_intros assms)

lemma returns_on_structured:
  "(\<And>n. returns Q (h n)) \<Longrightarrow> returns Q (on_structured h e)"
  by (auto simp: on_structured_def intro: returns_intros split: exn.splits)

lemma returns_on_exception: "(\<And>x. returns Q (h x)) \<Longrightarrow> returns Q (on_exception h e)"
  by (auto simp: on_exception_def intro: returns_intros)

lemma returns_on_budget: "(\<And>m. returns Q (h m)) \<Longrightarrow> returns Q (on_budget h e)"
  by (auto simp: on_budget_def intro: returns_intros split: exn.splits)

lemma agent_plan_returns: "returns (\<lambda>p. pl_tasks p \<noteq> []) (agent_plan env s model payload)"
  unfolding agent_plan_def invoke_json_def returns_def
  by (auto dest!: structured_attempts_checked validate_plan_tasks_nonempty)

section \<open>The invariant\<close>

text \<open>
  A finished task: its report said pass and complete, and every claim of its answer rests on
  evidence records of this run and this task that were retrieved successfully and are fresh
  enough.
\<close>

definition task_passed :: "runtime_env \<Rightarrow> string \<Rightarrow> task_record \<Rightarrow> bool" where
  "task_passed env run r \<longleftrightarrow>
     (\<exists>wr v. tk_worker r = Some wr \<and> tk_verification r = Some v \<and>
        ve_verdict v = Pass \<and> ve_task_complete v \<and>
        (\<forall>c\<in>set (wr_claims wr).
           claim_grounded (map (enforce_evidence (re_text env)) (tk_evidence r)) run
             (task_key (tk_task r)) c))"

text \<open>The results are those of the tasks before the index, in order, and all of them passed.\<close>

definition progress_ok :: "runtime_env \<Rightarrow> gstate \<Rightarrow> bool" where
  "progress_ok env g \<longleftrightarrow>
     map tk_task (g_results g) = take (g_task_index g) (plan_tasks g) \<and>
     g_task_index g \<le> length (plan_tasks g) \<and>
     list_all (task_passed env (run_text g)) (g_results g)"

definition has_task :: "gstate \<Rightarrow> bool" where
  "has_task g \<longleftrightarrow> g_task_index g < length (plan_tasks g)"

definition task_ready :: "runtime_env \<Rightarrow> gstate \<Rightarrow> bool" where
  "task_ready env g \<longleftrightarrow>
     task_passed env (run_text g)
       \<lparr>tk_task = plan_tasks g ! g_task_index g, tk_worker = g_worker g,
        tk_verification = g_verification g, tk_grounding = g_grounding g,
        tk_evidence = g_evidence g\<rparr>"

definition all_done :: "gstate \<Rightarrow> bool" where
  "all_done g \<longleftrightarrow> g_plan g \<noteq> None \<and> g_task_index g = length (plan_tasks g) \<and> plan_tasks g \<noteq> []"

fun inv_at :: "runtime_env \<Rightarrow> node \<Rightarrow> gstate \<Rightarrow> bool" where
  "inv_at env NPlan g = progress_ok env g"
| "inv_at env NTerminate g = progress_ok env g"
| "inv_at env NResearch g = (progress_ok env g \<and> has_task g)"
| "inv_at env NWorker g = (progress_ok env g \<and> has_task g)"
| "inv_at env NVerify g = (progress_ok env g \<and> has_task g \<and> g_worker g \<noteq> None)"
| "inv_at env NRevise g = (progress_ok env g \<and> has_task g \<and> g_worker g \<noteq> None)"
| "inv_at env NReplan g = (progress_ok env g \<and> has_task g)"
| "inv_at env NAdvance g = (progress_ok env g \<and> has_task g \<and> task_ready env g \<and> \<not> reason_set g)"
| "inv_at env NFinalize g = (progress_ok env g \<and> all_done g)"
| "inv_at env NVerifyFinal g = (progress_ok env g \<and> all_done g)"
| "inv_at env NReviseFinal g = (progress_ok env g \<and> all_done g)"

text \<open>What a node must return for the next node's entry condition.\<close>

definition leads_on :: "runtime_env \<Rightarrow> settings \<Rightarrow> node \<Rightarrow> gstate \<Rightarrow> bool" where
  "leads_on env s n g \<longleftrightarrow> (\<exists>t. next_node s n g = Inr t \<and>
     (case t of
        None \<Rightarrow> progress_ok env g \<and> (n = NTerminate \<or> all_done g \<and> \<not> reason_set g)
      | Some n' \<Rightarrow> inv_at env n' g))"

lemmas progress_defs = progress_ok_def has_task_def task_ready_def all_done_def plan_tasks_def run_text_def

lemma current_task_has_task:
  "has_task g \<Longrightarrow> current_task g = Inr (plan_tasks g ! g_task_index g)"
  by (auto simp: has_task_def current_task_def plan_tasks_def split: option.splits)

lemma progress_update [simp]:
  "progress_ok env (g\<lparr>g_meter := x\<rparr>) = progress_ok env g"
  "progress_ok env (g\<lparr>g_reason := r\<rparr>) = progress_ok env g"
  "progress_ok env (g\<lparr>g_verification := v\<rparr>) = progress_ok env g"
  "progress_ok env (g\<lparr>g_worker := wk\<rparr>) = progress_ok env g"
  "progress_ok env (g\<lparr>g_evidence := es\<rparr>) = progress_ok env g"
  "progress_ok env (g\<lparr>g_next_action := na\<rparr>) = progress_ok env g"
  "progress_ok env (g\<lparr>g_routing := ro\<rparr>) = progress_ok env g"
  "progress_ok env (g\<lparr>g_selected_models := sm\<rparr>) = progress_ok env g"
  "progress_ok env (g\<lparr>g_selected_tool := st\<rparr>) = progress_ok env g"
  "progress_ok env (g\<lparr>g_selected_tools := sts\<rparr>) = progress_ok env g"
  "progress_ok env (g\<lparr>g_researched := rs\<rparr>) = progress_ok env g"
  "progress_ok env (g\<lparr>g_queries := qs\<rparr>) = progress_ok env g"
  "progress_ok env (g\<lparr>g_grounding := gs\<rparr>) = progress_ok env g"
  "progress_ok env (g\<lparr>g_iterations := i\<rparr>) = progress_ok env g"
  "progress_ok env (g\<lparr>g_research_rounds := rr\<rparr>) = progress_ok env g"
  "progress_ok env (g\<lparr>g_replans := rp\<rparr>) = progress_ok env g"
  "progress_ok env (g\<lparr>g_metadata := md\<rparr>) = progress_ok env g"
  "progress_ok env (g\<lparr>g_model := mo\<rparr>) = progress_ok env g"
  "progress_ok env (g\<lparr>g_backend := bk\<rparr>) = progress_ok env g"
  "progress_ok env (g\<lparr>g_response := re\<rparr>) = progress_ok env g"
  "progress_ok env (g\<lparr>g_final_required := fr\<rparr>) = progress_ok env g"
  "progress_ok env (g\<lparr>g_final := f\<rparr>) = progress_ok env g"
  "progress_ok env (g\<lparr>g_final_rounds := n\<rparr>) = progress_ok env g"
  by (simp_all add: progress_ok_def plan_tasks_def run_text_def)

lemma reason_set_Some [simp]: "g_reason g = Some m \<Longrightarrow> reason_set g \<longleftrightarrow> m \<noteq> []"
  by (simp add: reason_set_def)

lemma stopped_leads_on:
  assumes "progress_ok env g" and "reason_set g" and "n \<notin> {NAdvance, NReviseFinal, NTerminate}"
  shows "leads_on env s n g"
  using assms
  by (cases n) (simp_all add: leads_on_def next_node_def after_budgeted_step_def after_plan_def
      after_verification_def after_finalize_def after_final_verification_def)

lemma structured_reason_nonempty [simp]: "structured_reason w n \<noteq> []"
  by (simp add: structured_reason_def)

section \<open>Every node keeps the invariant\<close>

lemma next_action_cases: "next_action_for g t = ''research'' \<or> next_action_for g t = ''worker''"
  by (simp add: next_action_for_def)

lemma set_next_action_returns:
  assumes "progress_ok env g" and "has_task g" and "\<not> reason_set g" and "n = NPlan \<or> n = NAdvance"
  shows "returns (leads_on env s n) (set_next_action g)"
  unfolding set_next_action_def Let_def
  using assms next_action_cases [of g]
  by (intro returns_elift_ebind returns_state_update)
    (auto simp: leads_on_def next_node_def after_plan_def after_advance_def has_task_def
      plan_tasks_def reason_set_def)

lemma set_next_action_worker:
  assumes "progress_ok env g" and "has_task g"
  shows "returns (leads_on env s NReplan) (set_next_action g)"
  unfolding set_next_action_def Let_def
  using assms
  by (intro returns_elift_ebind returns_state_update)
    (auto simp: leads_on_def next_node_def after_budgeted_step_def has_task_def plan_tasks_def)

lemma plan_node_leads_on:
  assumes "inv_at env NPlan g"
  shows "returns (leads_on env s NPlan) (plan_node env s g)"
proof -
  have finish: "returns (leads_on env s NPlan)
      (ebind read_clock (\<lambda>now. ebind (state_update (planned_state env g now model plan)) set_next_action))"
    if "pl_tasks plan \<noteq> []" for model plan
    by (intro returns_ebind_any returns_ebind [where P = "\<lambda>g'. progress_ok env g' \<and> has_task g' \<and> \<not> reason_set g'"])
      (use that in \<open>auto intro!: returns_intros set_next_action_returns
        simp: planned_state_def progress_ok_def has_task_def plan_tasks_def reason_set_def\<close>)
  have stop: "leads_on env s NPlan (g\<lparr>g_reason := Some m, g_meter := r\<rparr>)" if "m \<noteq> []" for m r
    using assms that by (intro stopped_leads_on) simp_all
  show ?thesis
    unfolding plan_node_def Let_def
    by (intro returns_budget_guard stop)
      (auto intro!: returns_ebind_any returns_attempt_or [where P = "\<lambda>p. pl_tasks p \<noteq> []"]
        returns_scope agent_plan_returns returns_on_structured returns_state_update finish stop
        simp: echo_plan_def)
qed

lemma worker_node_leads_on:
  assumes "inv_at env NWorker g"
  shows "returns (leads_on env s NWorker) (worker_node env s g)"
proof -
  have stop: "leads_on env s NWorker (g\<lparr>g_reason := Some m, g_meter := r\<rparr>)" if "m \<noteq> []" for m r
    using assms that by (intro stopped_leads_on) simp_all
  have finish: "returns (leads_on env s NWorker) (state_update (worked_state env g model r))" for model r
    using assms
    by (auto intro!: returns_state_update simp: leads_on_def next_node_def after_budgeted_step_def
        worked_state_def has_task_def plan_tasks_def)
  show ?thesis
    unfolding worker_node_def Let_def
    by (intro returns_budget_guard stop)
      (auto intro!: returns_ebind_any returns_attempt_or [OF returns_True] returns_on_structured
        returns_state_update finish [unfolded Let_def] stop)
qed

lemma revise_node_leads_on:
  assumes "inv_at env NRevise g"
  shows "returns (leads_on env s NRevise) (revise_node env s g)"
proof -
  have stop: "leads_on env s NRevise (g\<lparr>g_reason := Some m, g_meter := r\<rparr>)" if "m \<noteq> []" for m r
    using assms that by (intro stopped_leads_on) simp_all
  have finish: "returns (leads_on env s NRevise) (state_update (revised_state g model r))" for model r
    using assms
    by (auto intro!: returns_state_update simp: leads_on_def next_node_def after_budgeted_step_def
        revised_state_def has_task_def plan_tasks_def)
  show ?thesis
    unfolding revise_node_def
    by (intro returns_ethen returns_budget_guard stop)
      (auto intro!: returns_ebind_any returns_eraise finish split: option.splits)
qed

lemma researched_state_frame [simp]:
  "g_plan (researched_state g r k q md acc) = g_plan g"
  "g_task_index (researched_state g r k q md acc) = g_task_index g"
  "progress_ok env (researched_state g r k q md acc) = progress_ok env g"
  by (simp_all add: researched_state_def Let_def progress_ok_def plan_tasks_def run_text_def split: list.split)

lemma research_node_leads_on:
  assumes "inv_at env NResearch g"
  shows "returns (leads_on env s NResearch) (research_node env s g)"
proof -
  have any: "leads_on env s NResearch g'"
    if "progress_ok env g'" "g_plan g' = g_plan g" "g_task_index g' = g_task_index g" for g'
    using that assms
    by (auto simp: leads_on_def next_node_def after_budgeted_step_def has_task_def plan_tasks_def)
  have ok: "progress_ok env g" using assms by simp
  show ?thesis
    unfolding research_node_def budget_termination_def Let_def
    by (auto intro!: returns_ethen returns_ebind_any returns_state_update any simp: ok split: sum.splits)
qed

lemma replan_node_leads_on:
  assumes "inv_at env NReplan g"
  shows "returns (leads_on env s NReplan) (replan_node env s g)"
proof -
  have finish: "returns (leads_on env s NReplan)
      (ebind (state_update (replanned_state g n model plan)) set_next_action)"
    if "pl_tasks plan \<noteq> []" for n model plan
    by (intro returns_ebind [where P = "\<lambda>g'. progress_ok env g' \<and> has_task g'"])
      (use that in \<open>auto intro!: returns_intros set_next_action_worker
        simp: replanned_state_def progress_ok_def has_task_def plan_tasks_def\<close>)
  have stop: "leads_on env s NReplan (g\<lparr>g_replans := n, g_reason := Some ''maximum replans exceeded'', g_meter := r\<rparr>)" for n r
    using assms by (intro stopped_leads_on) simp_all
  show ?thesis
    unfolding replan_node_def Let_def
    by (auto intro!: returns_ethen returns_state_update stop finish returns_eraise
        returns_ebind_any [where m = "select_model s g ''planner''"]
        returns_ebind [OF returns_scope [OF agent_plan_returns]]
        dest: validate_plan_tasks_nonempty simp: bind_eq_Some_conv split: option.splits)
qed

lemma override_pass_Pass:
  "ve_verdict (override_pass gis r) = Pass \<Longrightarrow> gis = []"
  by (auto simp: override_pass_def split: if_splits)

lemma no_grounding_issues: "grounding_issues gs = [] \<Longrightarrow> g \<in> set gs \<Longrightarrow> gr_status g = Supported"
  by (auto simp: grounding_issues_def filter_empty_conv)

lemma verified_state_leads_on:
  assumes "inv_at env NVerify g" and r: "g_worker g = Some r"
    and gs: "gs = ground_claims (wr_claims r) (state_evidence env g) (run_text g)
                    (task_key (plan_tasks g ! g_task_index g))"
  shows "leads_on env s NVerify ((verified_state g model gs report)\<lparr>g_meter := m\<rparr>)"
proof (cases "reason_set g")
  case True
  then show ?thesis
    using assms by (intro stopped_leads_on) (simp_all add: verified_state_def reason_set_def)
next
  case False
  let ?v = "override_pass (grounding_issues gs) report"
  let ?g = "(verified_state g model gs report)\<lparr>g_meter := m\<rparr>"
  have ok: "progress_ok env ?g" "has_task ?g" "g_worker ?g \<noteq> None" "\<not> reason_set ?g"
    "g_verification ?g = Some ?v"
    using assms False by (auto simp: verified_state_def has_task_def plan_tasks_def reason_set_def)
  have ready: "task_ready env ?g" if "ve_verdict ?v = Pass" "ve_task_complete ?v"
  proof -
    have "\<forall>x\<in>set gs. gr_status x = Supported"
      using no_grounding_issues [OF override_pass_Pass [OF that(1)]] by blast
    then have "\<forall>c\<in>set (wr_claims r). claim_grounded (state_evidence env g) (run_text g)
        (task_key (plan_tasks g ! g_task_index g)) c"
      using all_supported_grounded gs by blast
    moreover have "run_text ?g = run_text g" "plan_tasks ?g = plan_tasks g"
      by (simp_all add: verified_state_def run_text_def plan_tasks_def)
    moreover have "g_task_index ?g = g_task_index g" "g_evidence ?g = g_evidence g" "g_worker ?g = Some r"
      using r by (simp_all add: verified_state_def)
    ultimately show ?thesis
      using that ok(5) by (simp add: task_ready_def task_passed_def state_evidence_def)
  qed
  show ?thesis
    using ok ready
    by (cases "ve_verdict ?v")
      (simp_all add: leads_on_def next_node_def after_verification_def)
qed

lemma verify_node_leads_on:
  assumes "inv_at env NVerify g"
  shows "returns (leads_on env s NVerify) (verify_node env s g)"
proof -
  have stop: "returns (leads_on env s NVerify) (stop_verifying g m)" for m
    using assms
    by (auto simp: stop_verifying_def budget_termination_def leads_on_def next_node_def
        after_verification_def termination_report_def intro!: returns_state_update)
  have task: "current_task g = Inr (plan_tasks g ! g_task_index g)"
    using assms by (intro current_task_has_task) simp
  obtain r where r: "g_worker g = Some r" using assms by auto
  have finish: "leads_on env s NVerify ((verified_state g model (ground_claims (wr_claims r)
      (state_evidence env g) (run_text g) (task_key t)) report)\<lparr>g_meter := m\<rparr>)"
    if "current_task g = Inr t" for t model report m
    by (rule verified_state_leads_on [OF assms r]) (use that task in simp)
  have body: "returns (leads_on env s NVerify) (verify_body env s g)"
    unfolding verify_body_def Let_def r option.case
    by (rule returns_elift_ebind)
      (auto intro!: returns_ebind_any returns_attempt_or [OF returns_True] returns_on_budget stop
        returns_state_update finish)
  show ?thesis
    unfolding verify_node_def by (intro returns_ethen returns_check_then stop body)
qed

lemma advanced_state_progress:
  assumes "inv_at env NAdvance g" and "current_task g = Inr task"
  shows "progress_ok env (advanced_state g task)"
proof -
  let ?i = "g_task_index g"
  have i: "?i < length (plan_tasks g)" and task: "task = plan_tasks g ! ?i"
    using assms current_task_has_task [of g] by (simp_all add: has_task_def)
  have "take (Suc ?i) (plan_tasks g) = take ?i (plan_tasks g) @ [plan_tasks g ! ?i]"
    using i by (simp add: take_Suc_conv_app_nth)
  moreover have "run_text (advanced_state g task) = run_text g"
    "plan_tasks (advanced_state g task) = plan_tasks g"
    "g_task_index (advanced_state g task) = Suc ?i"
    "g_results (advanced_state g task) = g_results g @ [\<lparr>tk_task = task, tk_worker = g_worker g,
         tk_verification = g_verification g, tk_grounding = g_grounding g, tk_evidence = g_evidence g\<rparr>]"
    by (simp_all add: advanced_state_def run_text_def plan_tasks_def)
  ultimately show ?thesis
    using assms(1) i task by (simp add: progress_ok_def task_ready_def)
qed

lemma advance_node_leads_on:
  assumes inv: "inv_at env NAdvance g"
  shows "returns (leads_on env s NAdvance) (advance_node env s g)"
proof -
  have i: "g_task_index g < length (plan_tasks g)" and assms: "inv_at env NAdvance g" "\<not> reason_set g"
    using inv by (simp_all add: has_task_def)
  have finish: "leads_on env s NAdvance (g'\<lparr>g_meter := m\<rparr>)"
    if "g' = advanced_state g task" "current_task g = Inr task" "\<not> Suc (g_task_index g) < length (plan_tasks g)"
    for g' m task
  proof -
    have "progress_ok env (g'\<lparr>g_meter := m\<rparr>)"
      using advanced_state_progress [OF assms(1) that(2)] that(1) by simp
    moreover have "all_done (g'\<lparr>g_meter := m\<rparr>)" "\<not> reason_set (g'\<lparr>g_meter := m\<rparr>)"
      "length (plan_tasks (g'\<lparr>g_meter := m\<rparr>)) \<le> g_task_index (g'\<lparr>g_meter := m\<rparr>)"
      using that i assms(2)
      by (auto simp: all_done_def advanced_state_def plan_tasks_def reason_set_def split: option.splits)
    ultimately show ?thesis by (simp add: leads_on_def next_node_def after_advance_def)
  qed
  have again: "returns (leads_on env s NAdvance) (set_next_action (g'\<lparr>g_meter := m\<rparr>))"
    if "g' = advanced_state g task" "current_task g = Inr task" "Suc (g_task_index g) < length (plan_tasks g)"
    for g' m task
    using advanced_state_progress [OF assms(1) that(2)] that assms(2)
    by (intro set_next_action_returns)
      (simp_all add: has_task_def advanced_state_def plan_tasks_def reason_set_def)
  have sizes: "plan_tasks ((advanced_state g task)\<lparr>g_meter := m\<rparr>) = plan_tasks g"
    "g_task_index ((advanced_state g task)\<lparr>g_meter := m\<rparr>) = Suc (g_task_index g)" for task m
    by (simp_all add: advanced_state_def plan_tasks_def)
  show ?thesis
    unfolding advance_node_def
    by (rule returns_elift_ebind,
        rule_tac P = "\<lambda>g'. \<exists>m. g' = (advanced_state g x)\<lparr>g_meter := m\<rparr>" in returns_ebind)
      (auto intro!: returns_state_update returns_eret again finish simp: sizes)
qed

lemma terminate_node_leads_on:
  "progress_ok env g \<Longrightarrow> returns (\<lambda>g'. progress_ok env g' \<and> g_reason g' = g_reason g) (terminate_node env s g)"
  unfolding terminate_node_def by (auto intro!: returns_state_update)

lemma finalize_node_leads_on:
  assumes "inv_at env NFinalize g"
  shows "returns (leads_on env s NFinalize) (finalize_node env s g)"
proof -
  have stop: "returns (leads_on env s NFinalize) (terminate_node env s g')"
    if "progress_ok env g'" "reason_set g'" for g'
    unfolding terminate_node_def using that
    by (auto intro!: returns_state_update stopped_leads_on simp: reason_set_def)
  have fin: "leads_on env s NFinalize ((finalized_state s g model r b)\<lparr>g_meter := m\<rparr>)"
    if "\<not> reason_set g" for model r b m
    using assms that
    by (auto simp: finalized_state_def leads_on_def next_node_def after_finalize_def all_done_def
        plan_tasks_def reason_set_def)
  have failed: "returns (leads_on env s NFinalize)
      (ebind (state_update (g\<lparr>g_reason := Some c\<rparr>)) (terminate_node env s))" if "c \<noteq> []" for c
    by (rule returns_ebind [where P = "\<lambda>g'. progress_ok env g' \<and> reason_set g'"])
      (use assms that in \<open>auto intro!: returns_state_update stop simp: reason_set_def\<close>)
  show ?thesis
    unfolding finalize_node_def Let_def
    using assms
    by (auto intro!: stop fin failed returns_ebind_any [where m = "select_model s g ''synthesis''"]
        returns_ebind_any [where m = "elift (last_answer g)"] returns_attempt_or [OF returns_True]
        returns_on_exception returns_state_update)
qed

lemma verify_final_node_leads_on:
  assumes "inv_at env NVerifyFinal g"
  shows "returns (leads_on env s NVerifyFinal) (verify_final_node env s g)"
proof -
  have any: "leads_on env s NVerifyFinal g'"
    if "progress_ok env g'" "g_plan g' = g_plan g" "g_task_index g' = g_task_index g" for g'
    using that assms
    by (auto simp: leads_on_def next_node_def after_final_verification_def all_done_def plan_tasks_def)
  have ok: "progress_ok env g" using assms by simp
  show ?thesis
    unfolding verify_final_node_def
    by (intro returns_budget_guard any)
      (auto intro!: any returns_ebind [where P = "\<lambda>g'. progress_ok env g' \<and> g_plan g' = g_plan g \<and>
            g_task_index g' = g_task_index g"] returns_attempt_or [OF returns_True]
          returns_on_structured returns_state_update returns_eret
        intro: returns_ebind_any simp: ok final_checked_state_def)
qed

lemma revise_final_node_leads_on:
  assumes "inv_at env NReviseFinal g"
  shows "returns (leads_on env s NReviseFinal) (revise_final_node env s g)"
proof -
  have any: "leads_on env s NReviseFinal g'"
    if "progress_ok env g'" "g_plan g' = g_plan g" "g_task_index g' = g_task_index g" for g'
    using that assms by (auto simp: leads_on_def next_node_def all_done_def plan_tasks_def)
  have ok: "progress_ok env g" using assms by simp
  show ?thesis
    unfolding revise_final_node_def Let_def
    by (intro returns_ethen returns_budget_guard any)
      (auto intro!: any returns_ebind_any returns_attempt_or [OF returns_True]
        returns_on_exception returns_state_update simp: ok final_revised_state_def)
qed

lemma terminate_leads_on:
  "inv_at env NTerminate g \<Longrightarrow> returns (leads_on env s NTerminate) (terminate_node env s g)"
  unfolding terminate_node_def
  by (auto intro!: returns_state_update simp: leads_on_def next_node_def)

lemma run_node_leads_on:
  "inv_at env n g \<Longrightarrow> returns (leads_on env s n) (run_node env s n g)"
  by (cases n) (simp_all only: run_node.simps plan_node_leads_on research_node_leads_on
      worker_node_leads_on verify_node_leads_on revise_node_leads_on replan_node_leads_on
      advance_node_leads_on finalize_node_leads_on verify_final_node_leads_on
      revise_final_node_leads_on terminate_leads_on)

text \<open>One answer to one task is delivered as it was verified.\<close>

definition delivers_single :: "gstate \<Rightarrow> bool" where
  "delivers_single g \<longleftrightarrow> (case g_results g of
       [r] \<Rightarrow> (case tk_worker r of Some wr \<Rightarrow> g_response g = wr_answer wr | None \<Rightarrow> False)
     | _ \<Rightarrow> True)"

definition finished_well :: "node \<Rightarrow> gstate \<Rightarrow> bool" where
  "finished_well n g \<longleftrightarrow>
     (n = NFinalize \<and> \<not> g_final_required g \<and> delivers_single g) \<or>
     (n = NVerifyFinal \<and> (\<exists>r. g_final g = Some r \<and> fv_pass r \<and> fv_answer_complete r)) \<or>
     n = NTerminate"

lemma finalize_delivers:
  "returns (\<lambda>g'. reason_set g' \<or> g_final_required g' \<or> delivers_single g') (finalize_node env s g)"
proof -
  have stop: "returns (\<lambda>g'. reason_set g' \<or> g_final_required g' \<or> delivers_single g') (terminate_node env s g')"
    if "reason_set g'" for g'
    unfolding terminate_node_def using that by (auto intro!: returns_state_update simp: reason_set_def)
  have failed: "returns (\<lambda>g'. reason_set g' \<or> g_final_required g' \<or> delivers_single g')
      (ebind (state_update (g\<lparr>g_reason := Some c\<rparr>)) (terminate_node env s))" if "c \<noteq> []" for c
    by (rule returns_ebind [where P = reason_set])
      (use that in \<open>auto intro!: returns_state_update stop\<close>)
  have many: "delivers_single ((finalized_state s g model r b)\<lparr>g_meter := m\<rparr>)"
    if "1 < length (g_results g)" for model r b m
    using that by (auto simp: delivers_single_def finalized_state_def split: list.splits)
  have one: "delivers_single ((finalized_state s g model r b)\<lparr>g_meter := m\<rparr>)"
    if "last_answer g = Inr r" for model r b m
    using that
    by (auto simp: delivers_single_def finalized_state_def last_answer_def split: list.splits option.splits if_splits)
  have fin: "delivers_single ((finalized_state s g model r b)\<lparr>g_meter := m\<rparr>)"
    if "1 < length (g_results g) \<or> last_answer g = Inr r" for model r b m
    using that many one by blast
  show ?thesis
    unfolding finalize_node_def Let_def
    by (auto intro!: stop failed returns_ebind_any [where m = "select_model s g ''synthesis''"]
        returns_elift_ebind returns_attempt_or [OF returns_True]
        returns_on_exception returns_state_update fin)
qed

lemma next_node_None:
  assumes "next_node s n g = Inr None"
  shows "n = NTerminate \<or> (n = NFinalize \<and> \<not> reason_set g \<and> \<not> g_final_required g) \<or>
    (n = NVerifyFinal \<and> (\<exists>r. g_final g = Some r \<and> fv_pass r \<and> fv_answer_complete r))"
  using assms
  by (cases n) (auto simp: next_node_def after_budgeted_step_def after_plan_def after_verification_def
      after_advance_def after_finalize_def after_final_verification_def
      split: if_splits option.splits verdict.splits)

lemma run_graph_finished:
  assumes "inv_at env n g" and "run_graph env s fuel n g w = (Finished m g', w')"
  shows "progress_ok env g' \<and> finished_well m g' \<and> (m = NTerminate \<or> all_done g' \<and> \<not> reason_set g')"
  using assms
proof (induction fuel arbitrary: n g w)
  case (Suc fuel)
  obtain r w1 where node: "run_node env s n g w = (r, w1)" by fastforce
  with Suc.prems(2) obtain g1 where r: "r = Inr g1" by (cases r) auto
  have lead: "leads_on env s n g1"
    by (rule returnsD [OF run_node_leads_on [OF Suc.prems(1)] node [unfolded r]])
  then obtain t where t: "next_node s n g1 = Inr t" by (auto simp: leads_on_def)
  show ?case
  proof (cases t)
    case (Some n')
    with lead t have "inv_at env n' g1" by (simp add: leads_on_def)
    moreover have "run_graph env s fuel n' g1 w1 = (Finished m g', w')"
      using Suc.prems(2) node r t Some by simp
    ultimately show ?thesis by (rule Suc.IH)
  next
    case None
    then have eq: "m = n" "g' = g1" using Suc.prems(2) node r t by simp_all
    have "finished_well n g1"
      using next_node_None [of s n g1] returnsD [OF finalize_delivers, of env s g w g1 w1] t None node r
      by (auto simp: finished_well_def)
    then show ?thesis using lead t None eq by (simp add: leads_on_def)
  qed
qed simp



text \<open>The response of the terminate node.\<close>

definition says_stopped :: "string \<Rightarrow> bool" where
  "says_stopped answer \<longleftrightarrow> (\<exists>before after. answer = before @ ''Execution stopped safely before '' @ after)"

lemma partial_response_says: "says_stopped (partial_response g)"
proof (cases "partial_sections g = []")
  case True
  then have "partial_response g = [] @ ''Execution stopped safely before '' @
      (''a verified answer could be produced: '' @ stop_reason g @ ''.'')"
    by (simp add: partial_response_def)
  then show ?thesis unfolding says_stopped_def by blast
next
  case False
  then have "partial_response g =
      (join [newline, newline] (partial_sections g) @ [newline, newline]) @
      ''Execution stopped safely before '' @
      (''all work was completed: '' @ stop_reason g @ ''. Treat any in-progress output as unverified.'')"
    by (simp add: partial_response_def)
  then show ?thesis unfolding says_stopped_def by blast
qed

lemma partial_response_reason: "\<exists>before after. partial_response g = before @ stop_reason g @ after"
  unfolding partial_response_def by (metis append.assoc)

lemma terminate_response:
  "\<exists>g'. fst (terminate_node env s g w) = Inr g' \<and> g_response g' = partial_response g"
  by (simp add: terminate_node_def state_update_def meter_snapshot_def ebind_def read_clock_def
      read_mono_def get_meter_def eret_def)

lemma run_graph_stopped:
  "run_graph env s fuel n g w = (Finished NTerminate g', w') \<Longrightarrow> says_stopped (g_response g')"
proof (induction fuel arbitrary: n g w)
  case (Suc fuel)
  obtain r w1 where node: "run_node env s n g w = (r, w1)" by fastforce
  with Suc.prems obtain g1 where r: "r = Inr g1" by (cases r) auto
  then obtain t where t: "next_node s n g1 = Inr t" using Suc.prems node by (cases "next_node s n g1") auto
  show ?case
  proof (cases t)
    case (Some n')
    then show ?thesis using Suc node r t by auto
  next
    case None
    then have "n = NTerminate" "g' = g1" using Suc.prems node r t by simp_all
    then show ?thesis using terminate_response [of env s g w] partial_response_says [of g] node r by auto
  qed
qed simp

text \<open>
  A run that was stopped says so. What the terminate node returns as the response always
  tells the reader that the execution stopped and why; the answer of an unfinished run is never
  returned bare.
\<close>

theorem stopped_run_says_so:
  "case fst (terminate_node env s g w) of
     Inl e \<Rightarrow> False
   | Inr g' \<Rightarrow> (\<exists>before after. g_response g' =
        before @ ''Execution stopped safely before '' @ after) \<and>
      (\<exists>before after. g_response g' = before @ stop_reason g @ after)"
proof -
  obtain g' where "fst (terminate_node env s g w) = Inr g'" "g_response g' = partial_response g"
    using terminate_response by blast
  then show ?thesis
    using partial_response_says [of g] partial_response_reason [of g] by (simp add: says_stopped_def)
qed

end
