(* ===== verification/GraphTermination.thy ===== *)
theory GraphTermination
  imports GraphInvariant
begin

text \<open>
  Every run of the graph ends within a number of supersteps that the settings determine: each
  cycle of the graph goes through \<open>verify\<close>, which counts a verifier round before anything else,
  or through \<open>revise_final\<close>, which counts a final revision. The weight of a configuration drops
  with every superstep.
\<close>

section \<open>The weight of a configuration\<close>

definition rounds_left :: "world \<Rightarrow> nat" where
  "rounds_left w = nat (max_verifier_rounds (w_meter w) - verifier_rounds (mstate (w_meter w)))"

definition revisions_left :: "settings \<Rightarrow> gstate \<Rightarrow> nat" where
  "revisions_left s g = nat (final_max_revision_rounds s - g_final_rounds g)"

definition finish_weight :: "settings \<Rightarrow> nat" where
  "finish_weight s = 2 * nat (final_max_revision_rounds s) + 3"

definition loop_weight :: "settings \<Rightarrow> nat \<Rightarrow> nat" where
  "loop_weight s k = 4 * k + 2 + finish_weight s"

fun weight :: "settings \<Rightarrow> node \<Rightarrow> gstate \<Rightarrow> nat \<Rightarrow> nat" where
  "weight s NPlan g k = loop_weight s k + 3"
| "weight s NResearch g k = loop_weight s k + 2"
| "weight s NWorker g k = loop_weight s k + 1"
| "weight s NVerify g k = loop_weight s k"
| "weight s NRevise g k = loop_weight s k + 1"
| "weight s NReplan g k = loop_weight s k + 2"
| "weight s NAdvance g k = loop_weight s k + 3"
| "weight s NFinalize g k = finish_weight s"
| "weight s NVerifyFinal g k = (if reason_set g then 2 else 2 * revisions_left s g + 2)"
| "weight s NReviseFinal g k = 2 * revisions_left s g + 1"
| "weight s NTerminate g k = 1"

text \<open>A final revision is entered only while revisions are left.\<close>

definition may_enter :: "settings \<Rightarrow> node \<Rightarrow> gstate \<Rightarrow> bool" where
  "may_enter s n g \<longleftrightarrow> (if n = NReviseFinal then g_final_rounds g < final_max_revision_rounds s else True)"

lemma next_may_enter: "next_node s n g = Inr (Some n') \<Longrightarrow> may_enter s n' g"
  by (cases n) (auto simp: may_enter_def next_node_def after_budgeted_step_def after_plan_def
      after_verification_def after_advance_def after_finalize_def after_final_verification_def
      split: if_splits option.splits verdict.splits)

lemma next_when_stopped:
  "next_node s n g = Inr (Some n') \<Longrightarrow> reason_set g \<Longrightarrow> n \<noteq> NReviseFinal \<Longrightarrow> n' = NTerminate"
  by (cases n) (auto simp: next_node_def after_budgeted_step_def after_plan_def
      after_verification_def after_advance_def after_finalize_def after_final_verification_def
      split: if_splits)

lemmas route_defs = next_node_def after_budgeted_step_def after_plan_def after_verification_def
  after_advance_def after_finalize_def after_final_verification_def

lemma next_cases:
  assumes "next_node s n g = Inr (Some n')"
  shows "n' = NTerminate \<or>
    (n = NPlan \<and> n' \<in> {NResearch, NWorker}) \<or> (n = NResearch \<and> n' = NWorker) \<or>
    (n = NWorker \<and> n' = NVerify) \<or> (n = NRevise \<and> n' = NVerify) \<or> (n = NReplan \<and> n' = NWorker) \<or>
    (n = NVerify \<and> n' \<in> {NAdvance, NRevise, NResearch, NReplan}) \<or>
    (n = NAdvance \<and> n' \<in> {NResearch, NWorker, NFinalize}) \<or>
    (n = NFinalize \<and> n' = NVerifyFinal) \<or> (n = NVerifyFinal \<and> n' = NReviseFinal) \<or>
    (n = NReviseFinal \<and> n' = NVerifyFinal)"
  using assms
  by (cases n) (auto simp: route_defs split: if_splits option.splits verdict.splits)

section \<open>What the counting nodes return\<close>

lemma verify_counts:
  assumes "verify_node env s g w = (Inr g', w')"
  shows "reason_set g' \<and> rounds_left w' \<le> rounds_left w \<or> Suc (rounds_left w') = rounds_left w"
proof -
  let ?b = "set_verifier_rounds (verifier_rounds (mstate (w_meter w)) + 1) (w_meter w)"
  let ?w1 = "w\<lparr>w_meter := ?b\<rparr>"
  let ?w2 = "?w1\<lparr>w_tick := Suc (w_tick w)\<rparr>"
  have run: "check_then (stop_verifying g) (verify_body env s g) ?w1 = (Inr g', w')"
    using assms by (simp add: verify_node_def ethen_def ebind_def count_verifier_round_def put_meter_def)
  have left: "rounds_left w' = rounds_left ?w1" if "same_rounds ?w1 w'"
    using that by (simp add: rounds_left_def same_rounds_def)
  have less: "rounds_left ?w1 \<le> rounds_left w"
    "verifier_rounds (mstate ?b) \<le> max_verifier_rounds ?b \<Longrightarrow> Suc (rounds_left ?w1) = rounds_left w"
    by (auto simp: rounds_left_def set_verifier_rounds_def)
  have same: "same_rounds ?w1 w'"
  proof -
    have "preserves same_rounds (check_then (stop_verifying g) (verify_body env s g))"
      unfolding stop_verifying_def by (intro inv_intros)
    from preservesD [OF this run] show ?thesis .
  qed
  show ?thesis
  proof (cases "check_budget ?b (w_clock w (w_tick w))")
    case (Some m)
    then have m: "m \<noteq> []" by (rule check_budget_nonempty)
    have "stop_verifying g m ?w2 = (Inr g', w')"
      using run Some
      by (simp add: check_then_def meter_check_def read_clock_def get_meter_def ethen_def ebind_def
          ecatch_def on_budget_def eraise_def eret_def)
    then have "reason_set g'"
      using m by (auto simp: stop_verifying_def budget_termination_def state_update_def ebind_Inr_iff)
    then show ?thesis using left same less by simp
  next
    case None
    then have "verifier_rounds (mstate ?b) \<le> max_verifier_rounds ?b"
      by (rule check_budget_None_verifier)
    then show ?thesis using left same less by simp
  qed
qed

lemma finalize_resets:
  "returns (\<lambda>g'. reason_set g' \<or> g_final_rounds g' = 0) (finalize_node env s g)"
proof -
  have stop: "returns (\<lambda>g'. reason_set g' \<or> g_final_rounds g' = 0) (terminate_node env s g')"
    if "reason_set g'" for g'
    unfolding terminate_node_def using that by (auto intro!: returns_state_update simp: reason_set_def)
  have failed: "returns (\<lambda>g'. reason_set g' \<or> g_final_rounds g' = 0)
      (ebind (state_update (g\<lparr>g_reason := Some c\<rparr>)) (terminate_node env s))" if "c \<noteq> []" for c
    by (rule returns_ebind [where P = reason_set]) (use that in \<open>auto intro!: returns_state_update stop\<close>)
  show ?thesis
    unfolding finalize_node_def Let_def
    by (auto intro!: stop failed returns_ebind_any [where m = "select_model s g ''synthesis''"]
        returns_ebind_any [where m = "elift (last_answer g)"] returns_attempt_or [OF returns_True]
        returns_on_exception returns_state_update simp: finalized_state_def)
qed

definition keeps_final :: "gstate \<Rightarrow> gstate \<Rightarrow> bool" where
  "keeps_final g g' \<longleftrightarrow> g_final_rounds g' = g_final_rounds g \<and> (reason_set g \<longrightarrow> reason_set g')"

lemma verify_final_keeps_rounds: "returns (keeps_final g) (verify_final_node env s g)"
proof -
  have stop: "keeps_final g (g\<lparr>g_reason := Some m, g_meter := r\<rparr>)" if "m \<noteq> []" for m r
    using that by (simp add: keeps_final_def)
  have fin: "returns (keeps_final g)
      (ebind (state_update (final_checked_state s g model report))
        (\<lambda>g'. eret (if b then g'\<lparr>g_reason := Some final_failure\<rparr> else g')))" for model report b
    by (rule returns_ebind [where P = "keeps_final g"])
      (auto intro!: returns_state_update returns_eret
        simp: keeps_final_def final_checked_state_def final_failure_def reason_set_def)
  show ?thesis
    unfolding verify_final_node_def
    by (intro returns_budget_guard stop)
      (auto intro!: fin returns_ebind_any [where m = "select_model s g ''reasoning''"]
        returns_attempt_or [OF returns_True] returns_on_structured returns_state_update stop)
qed

lemma revise_final_counts:
  "returns (\<lambda>g'. reason_set g' \<or> g_final_rounds g' = g_final_rounds g + 1) (revise_final_node env s g)"
  unfolding revise_final_node_def Let_def
  by (intro returns_ethen returns_budget_guard)
    (auto intro!: returns_ebind_any returns_attempt_or [OF returns_True]
      returns_on_exception returns_state_update simp: final_revised_state_def)

section \<open>Every superstep lowers the weight\<close>

lemma rounds_left_same:
  assumes "n \<noteq> NVerify" and "run_node env s n g w = (r, w')"
  shows "rounds_left w' = rounds_left w"
  using preservesD [OF run_node_same_rounds [OF assms(1)] assms(2)]
  by (simp add: rounds_left_def same_rounds_def)

lemma weight_drops:
  assumes run: "run_node env s n g w = (Inr g', w')" and nxt: "next_node s n g' = Inr (Some n')"
    and "may_enter s n g"
  shows "weight s n' g' (rounds_left w') < weight s n g (rounds_left w)"
proof (cases "n = NVerify")
  case True
  have "reason_set g' \<and> rounds_left w' \<le> rounds_left w \<or> Suc (rounds_left w') = rounds_left w"
    using verify_counts run True by simp
  then show ?thesis
    using next_cases [OF nxt] next_when_stopped [OF nxt] True
    by (auto simp: loop_weight_def)
next
  case False
  have k: "rounds_left w' = rounds_left w" by (rule rounds_left_same [OF False run])
  have low: "1 < weight s n g (rounds_left w)" if "n \<noteq> NTerminate"
    using that assms(3)
    by (cases n) (auto simp: loop_weight_def finish_weight_def may_enter_def revisions_left_def)
  have "n \<noteq> NTerminate" using nxt by (auto simp: next_node_def)
  show ?thesis
  proof (cases "n' = NTerminate")
    case True
    then show ?thesis using low \<open>n \<noteq> NTerminate\<close> by simp
  next
    case go: False
    consider "n = NFinalize" | "n = NVerifyFinal" | "n = NReviseFinal"
      | "n \<notin> {NFinalize, NVerifyFinal, NReviseFinal, NVerify}" using False by blast
    then show ?thesis
    proof cases
      case 1
      then have "reason_set g' \<or> g_final_rounds g' = 0"
        using returnsD [OF finalize_resets] run by simp
      then show ?thesis
        using 1 next_cases [OF nxt] next_when_stopped [OF nxt] go
        by (auto simp: finish_weight_def revisions_left_def)
    next
      case 2
      then have "keeps_final g g'" using returnsD [OF verify_final_keeps_rounds] run by simp
      then show ?thesis
        using 2 next_cases [OF nxt] next_when_stopped [OF nxt] go
        by (auto simp: keeps_final_def revisions_left_def)
    next
      case 3
      then have "reason_set g' \<or> g_final_rounds g' = g_final_rounds g + 1"
        using returnsD [OF revise_final_counts] run by simp
      then show ?thesis
        using 3 next_cases [OF nxt] go assms(3)
        by (auto simp: revisions_left_def may_enter_def)
    next
      case 4
      then show ?thesis
        using next_cases [OF nxt] go k by (auto simp: loop_weight_def)
    qed
  qed
qed

lemma run_graph_ends:
  assumes "weight s n g (rounds_left w) \<le> fuel" and "may_enter s n g"
  shows "fst (run_graph env s fuel n g w) \<noteq> OutOfSteps"
  using assms
proof (induction fuel arbitrary: n g w)
  case 0
  then show ?case by (cases n) (simp_all add: loop_weight_def finish_weight_def split: if_splits)
next
  case (Suc fuel)
  obtain r w' where node: "run_node env s n g w = (r, w')" by fastforce
  show ?case
  proof (cases "\<exists>g' n'. r = Inr g' \<and> next_node s n g' = Inr (Some n')")
    case True
    then obtain g' n' where g': "r = Inr g'" and n': "next_node s n g' = Inr (Some n')" by blast
    have "weight s n' g' (rounds_left w') < weight s n g (rounds_left w)"
      by (rule weight_drops [OF node [unfolded g'] n' Suc.prems(2)])
    then have "fst (run_graph env s fuel n' g' w') \<noteq> OutOfSteps"
      using Suc.prems(1) next_may_enter [OF n'] by (intro Suc.IH) simp_all
    then show ?thesis using node g' n' by simp
  next
    case False
    then show ?thesis using node by (auto split: sum.splits option.splits)
  qed
qed

text \<open>
  C5: every run of the graph ends. With at most \<open>r\<close> verifier rounds and \<open>f\<close> final revisions
  configured, any run started on a fresh meter is over after at most \<open>4 r + 2 f + 8\<close> supersteps,
  whatever the models, tools and clocks do; with that recursion limit or a larger one, the run
  never runs out of steps.
\<close>

theorem graph_run_terminates:
  assumes "w_meter w = new_budget d models tools rounds None now mclk"
    and "4 * nat rounds + 2 * nat (final_max_revision_rounds s) + 8 \<le> limit"
  shows "fst (run_graph env s limit NPlan g w) \<noteq> OutOfSteps"
proof (rule run_graph_ends)
  show "weight s NPlan g (rounds_left w) \<le> limit"
    using assms by (simp add: rounds_left_def loop_weight_def finish_weight_def meter_simps)
qed (simp add: may_enter_def)

text \<open>The default settings stay within LangGraph's classic default limit of 25 supersteps.\<close>

theorem graph_run_terminates_witness:
  "fst (run_graph sample_runtime default_settings 25 NPlan sample_state sample_world) \<noteq> OutOfSteps"
  by (rule graph_run_terminates [where rounds = 3])
    (simp_all add: sample_world_def default_settings_def)

end
