(* ===== verification/Runs.thy ===== *)
theory Runs
  imports Json
begin

text \<open>
  The run repository, \<open>src/app/state/run_repository.py\<close>: durable run records, expiring
  conversation leases with fencing tokens, and terminal outcomes, in the process-local
  implementation and in the PostgreSQL one, whose statements are modelled on the two tables of
  \<open>migrations/0001_run_repository.sql\<close>.

  Each method is atomic: the memory repository holds its lock throughout, the PostgreSQL one
  runs one transaction or one statement. \<open>clk\<close> gives the successive clock readings of one call:
  \<open>_utcnow()\<close> in the memory repository, the single \<open>NOW()\<close> of the transaction in PostgreSQL. Run
  ids are canonical UUID strings, as \<open>ChatRequest\<close> and \<open>uuid4\<close> produce them.
\<close>

section \<open>Data\<close>

datatype run_status =
    Pending | Running | Interrupted_run | Completed | Failed_run | Cancelled | Expired | Reconciling

definition terminal_status :: "run_status \<Rightarrow> bool" where
  "terminal_status st \<longleftrightarrow> st = Completed \<or> st = Failed_run \<or> st = Cancelled \<or> st = Expired"

record run_identity =
  ri_conversation :: string
  ri_run :: string
  ri_thread :: string
  ri_namespace :: string
  ri_schema :: int
  ri_hash :: string
  ri_hash_version :: int
  ri_token_version :: int
  ri_key_id :: "string option"
  ri_resume_requested :: bool
  ri_resumed :: bool
  ri_client_supplied :: bool

record run_record =
  rd_run :: string
  rd_conversation :: string
  rd_thread :: string
  rd_hash :: string
  rd_hash_version :: int
  rd_schema :: int
  rd_status :: run_status
  rd_fencing :: "int option"
  rd_owner :: "string option"
  rd_expires :: "time option"
  rd_checkpoint :: "string option"
  rd_payload :: "jobj option"
  rd_reason :: "string option"
  rd_error :: "string option"
  rd_created :: "time option"
  rd_updated :: "time option"
  rd_started :: "time option"
  rd_completed :: "time option"
  rd_history :: "time option"
  rd_token_version :: int

record run_lease =
  ls_conversation :: string
  ls_run :: string
  ls_owner :: string
  ls_token :: int
  ls_expires :: time

text \<open>The arguments of \<open>mark_terminal\<close>.\<close>

record outcome =
  oc_status :: run_status
  oc_payload :: "jobj option"
  oc_reason :: "string option"
  oc_error :: "string option"
  oc_checkpoint :: "string option"

definition fresh_record :: "run_identity \<Rightarrow> time \<Rightarrow> run_record" where
  "fresh_record i now =
     \<lparr>rd_run = ri_run i, rd_conversation = ri_conversation i, rd_thread = ri_thread i,
      rd_hash = ri_hash i, rd_hash_version = ri_hash_version i, rd_schema = ri_schema i,
      rd_status = Pending, rd_fencing = None, rd_owner = None, rd_expires = None,
      rd_checkpoint = None, rd_payload = None, rd_reason = None, rd_error = None,
      rd_created = Some now, rd_updated = Some now, rd_started = None, rd_completed = None,
      rd_history = None, rd_token_version = ri_token_version i\<rparr>"

definition validate_record_identity :: "run_record \<Rightarrow> run_identity \<Rightarrow> exn option" where
  "validate_record_identity r i =
     (if rd_conversation r \<noteq> ri_conversation i
      then Some (RunConflictError ''The run_id belongs to a different conversation'')
      else if rd_thread r \<noteq> ri_thread i
      then Some (RunConflictError ''The run_id has a different execution identity'')
      else if rd_hash r \<noteq> ri_hash i \<or> rd_hash_version r \<noteq> ri_hash_version i
      then Some (RunConflictError ''The supplied run_id is already bound to a different request payload'')
      else if rd_schema r \<noteq> ri_schema i
      then Some (RunConflictError ''The run_id uses an incompatible state schema'')
      else None)"

definition started_record :: "run_record \<Rightarrow> run_lease \<Rightarrow> time \<Rightarrow> run_record" where
  "started_record r l now =
     r\<lparr>rd_status := Running, rd_fencing := Some (ls_token l), rd_owner := Some (ls_owner l),
       rd_expires := Some (ls_expires l),
       rd_started := (case rd_started r of None \<Rightarrow> Some now | Some t \<Rightarrow> Some t),
       rd_updated := Some now\<rparr>"

definition busy :: exn where
  "busy = ConversationBusyError ''Another run is already active for this conversation''"

definition no_record :: exn where
  "no_record = RunConflictError ''The run record does not exist''"

definition stale :: exn where
  "stale = StaleLeaseError ''The run no longer owns the conversation lease''"

definition same_owner :: "run_lease \<Rightarrow> run_lease \<Rightarrow> bool" where
  "same_owner a b \<longleftrightarrow> ls_conversation a = ls_conversation b \<and> ls_run a = ls_run b \<and>
     ls_owner a = ls_owner b \<and> ls_token a = ls_token b"

section \<open>The process-local repository\<close>

record memory_runs =
  mm_records :: "(string \<times> run_record) list"
  mm_leases :: "(string \<times> run_lease) list"
  mm_fencing :: "(string \<times> int) list"

definition empty_memory_runs :: memory_runs where
  "empty_memory_runs = \<lparr>mm_records = [], mm_leases = [], mm_fencing = []\<rparr>"

definition put_record :: "run_record \<Rightarrow> memory_runs \<Rightarrow> memory_runs" where
  "put_record r s = s\<lparr>mm_records := alist_put (rd_run r) r (mm_records s)\<rparr>"

definition mem_create_or_get ::
  "(nat \<Rightarrow> time) \<Rightarrow> run_identity \<Rightarrow> memory_runs \<Rightarrow> (run_record \<times> bool) result \<times> memory_runs" where
  "mem_create_or_get clk i s =
     (case map_of (mm_records s) (ri_run i) of
        Some r \<Rightarrow> (case validate_record_identity r i of
                     Some e \<Rightarrow> (Inl e, s) | None \<Rightarrow> (Inr (r, False), s))
      | None \<Rightarrow> (let r = fresh_record i (clk 0) in (Inr (r, True), put_record r s)))"

definition fence_of :: "(string \<times> int) list \<Rightarrow> string \<Rightarrow> int" where
  "fence_of f c = (case map_of f c of None \<Rightarrow> 0 | Some n \<Rightarrow> n)"

definition mem_acquire ::
  "(nat \<Rightarrow> time) \<Rightarrow> run_identity \<Rightarrow> string \<Rightarrow> int \<Rightarrow> memory_runs \<Rightarrow> run_lease result \<times> memory_runs" where
  "mem_acquire clk i owner ttl s =
     (case map_of (mm_records s) (ri_run i) of
        None \<Rightarrow> (Inl no_record, s)
      | Some r \<Rightarrow>
          (case validate_record_identity r i of
             Some e \<Rightarrow> (Inl e, s)
           | None \<Rightarrow>
               let now = clk 0; c = ri_conversation i in
               if (case map_of (mm_leases s) c of None \<Rightarrow> False | Some l \<Rightarrow> now < ls_expires l)
               then (Inl busy, s)
               else let token = fence_of (mm_fencing s) c + 1;
                        l = \<lparr>ls_conversation = c, ls_run = ri_run i, ls_owner = owner,
                             ls_token = token, ls_expires = now + seconds ttl\<rparr>
                    in (Inr l, s\<lparr>mm_fencing := alist_put c token (mm_fencing s),
                                 mm_leases := alist_put c l (mm_leases s),
                                 mm_records := alist_put (ri_run i) (started_record r l now)
                                                 (mm_records s)\<rparr>)))"

definition mem_assert_lease :: "time \<Rightarrow> run_lease \<Rightarrow> memory_runs \<Rightarrow> bool" where
  "mem_assert_lease now l s =
     (case map_of (mm_leases s) (ls_conversation l) of
        None \<Rightarrow> False
      | Some cur \<Rightarrow> same_owner cur l \<and> now < ls_expires cur)"

text \<open>\<open>self._records[lease.run_id]\<close> raises when the record is missing.\<close>

definition mem_renew ::
  "(nat \<Rightarrow> time) \<Rightarrow> run_lease \<Rightarrow> int \<Rightarrow> memory_runs \<Rightarrow> run_lease result \<times> memory_runs" where
  "mem_renew clk l ttl s =
     (if \<not> mem_assert_lease (clk 0) l s then (Inl stale, s)
      else let l' = l\<lparr>ls_expires := clk 1 + seconds ttl\<rparr>;
               s' = s\<lparr>mm_leases := alist_put (ls_conversation l) l' (mm_leases s)\<rparr>
           in case map_of (mm_records s') (ls_run l) of
                None \<Rightarrow> (Inl (KeyError (ls_run l)), s')
              | Some r \<Rightarrow> (Inr l', s'\<lparr>mm_records := alist_put (ls_run l)
                    (r\<lparr>rd_expires := Some (ls_expires l'), rd_updated := Some (clk 2)\<rparr>)
                    (mm_records s')\<rparr>))"

definition mem_release :: "run_lease \<Rightarrow> memory_runs \<Rightarrow> unit result \<times> memory_runs" where
  "mem_release l s =
     (Inr (), case map_of (mm_leases s) (ls_conversation l) of
        None \<Rightarrow> s
      | Some cur \<Rightarrow>
          if same_owner cur l then s\<lparr>mm_leases := alist_del (ls_conversation l) (mm_leases s)\<rparr> else s)"

text \<open>An empty payload is falsy and is stored as \<open>None\<close>.\<close>

definition finished_record :: "run_record \<Rightarrow> outcome \<Rightarrow> jobj option \<Rightarrow> time \<Rightarrow> run_record" where
  "finished_record r oc payload now =
     r\<lparr>rd_status := oc_status oc, rd_payload := payload, rd_reason := oc_reason oc,
       rd_error := oc_error oc, rd_checkpoint := oc_checkpoint oc,
       rd_completed := (if terminal_status (oc_status oc) then Some now else None),
       rd_updated := Some now\<rparr>"

definition mem_mark_terminal ::
  "(nat \<Rightarrow> time) \<Rightarrow> run_lease \<Rightarrow> outcome \<Rightarrow> memory_runs \<Rightarrow> run_record result \<times> memory_runs" where
  "mem_mark_terminal clk l oc s =
     (if \<not> mem_assert_lease (clk 0) l s then (Inl stale, s)
      else case map_of (mm_records s) (ls_run l) of
          None \<Rightarrow> (Inl (KeyError (ls_run l)), s)
        | Some r \<Rightarrow>
            let r' = finished_record r oc
                       (case oc_payload oc of Some (kv # kvs) \<Rightarrow> Some (kv # kvs) | _ \<Rightarrow> None) (clk 1)
            in (Inr r', s\<lparr>mm_records := alist_put (ls_run l) r' (mm_records s)\<rparr>))"

definition new_payload :: "jobj option \<Rightarrow> run_record \<Rightarrow> jobj option" where
  "new_payload payload r = (case payload of Some p \<Rightarrow> Some p | None \<Rightarrow> rd_payload r)"

definition mem_mark_history ::
  "(nat \<Rightarrow> time) \<Rightarrow> run_lease \<Rightarrow> jobj option \<Rightarrow> memory_runs \<Rightarrow> run_record result \<times> memory_runs" where
  "mem_mark_history clk l payload s =
     (if \<not> mem_assert_lease (clk 0) l s then (Inl stale, s)
      else case map_of (mm_records s) (ls_run l) of
          None \<Rightarrow> (Inl (KeyError (ls_run l)), s)
        | Some r \<Rightarrow>
            let r' = r\<lparr>rd_payload := new_payload payload r, rd_history := Some (clk 1),
                       rd_updated := Some (clk 2)\<rparr>
            in (Inr r', s\<lparr>mm_records := alist_put (ls_run l) r' (mm_records s)\<rparr>))"

definition reconciled_record :: "run_record \<Rightarrow> jobj option \<Rightarrow> time \<Rightarrow> time \<Rightarrow> run_record" where
  "reconciled_record r payload t t' =
     r\<lparr>rd_payload := new_payload payload r,
       rd_history := (case rd_history r of None \<Rightarrow> Some t | Some h \<Rightarrow> Some h),
       rd_updated := Some t'\<rparr>"

definition mem_reconcile ::
  "(nat \<Rightarrow> time) \<Rightarrow> string \<Rightarrow> jobj option \<Rightarrow> memory_runs \<Rightarrow> run_record result \<times> memory_runs" where
  "mem_reconcile clk run payload s =
     (case map_of (mm_records s) run of
        None \<Rightarrow> (Inl no_record, s)
      | Some r \<Rightarrow>
          let r' = reconciled_record r payload (clk 0) (clk 1)
          in (Inr r', s\<lparr>mm_records := alist_put run r' (mm_records s)\<rparr>))"

definition mem_revoke ::
  "(nat \<Rightarrow> time) \<Rightarrow> string \<Rightarrow> memory_runs \<Rightarrow> int result \<times> memory_runs" where
  "mem_revoke clk run s =
     (case map_of (mm_records s) run of
        None \<Rightarrow> (Inl no_record, s)
      | Some r \<Rightarrow>
          let r' = r\<lparr>rd_token_version := rd_token_version r + 1, rd_updated := Some (clk 0)\<rparr>
          in (Inr (rd_token_version r'), s\<lparr>mm_records := alist_put run r' (mm_records s)\<rparr>))"

section \<open>The PostgreSQL repository\<close>

text \<open>
  The rows of \<open>app_runs\<close> and \<open>app_conversation_leases\<close> by primary key. A statement that fails
  leaves the tables as they were.
\<close>

record pg_runs =
  pg_rows :: "(string \<times> run_record) list"
  pg_leases :: "(string \<times> run_lease) list"

definition empty_pg_runs :: pg_runs where
  "empty_pg_runs = \<lparr>pg_rows = [], pg_leases = []\<rparr>"

text \<open>\<open>INSERT .. ON CONFLICT (run_id) DO NOTHING\<close>; \<open>execution_thread_id\<close> is \<open>UNIQUE\<close>.\<close>

definition thread_taken :: "string \<Rightarrow> pg_runs \<Rightarrow> bool" where
  "thread_taken thread s = list_ex (\<lambda>(_, r). rd_thread r = thread) (pg_rows s)"

definition pg_create_or_get ::
  "(nat \<Rightarrow> time) \<Rightarrow> run_identity \<Rightarrow> pg_runs \<Rightarrow> (run_record \<times> bool) result \<times> pg_runs" where
  "pg_create_or_get clk i s =
     (case map_of (pg_rows s) (ri_run i) of
        Some r \<Rightarrow> (case validate_record_identity r i of
                     Some e \<Rightarrow> (Inl e, s) | None \<Rightarrow> (Inr (r, False), s))
      | None \<Rightarrow>
          if thread_taken (ri_thread i) s then (Inl (UniqueViolationError ''app_runs''), s)
          else let r = fresh_record i (clk 0)
               in (Inr (r, True), s\<lparr>pg_rows := alist_put (ri_run i) r (pg_rows s)\<rparr>))"

text \<open>
  The upsert of the lease, guarded by the expiry of the row it replaces, and the update of the
  run, in one transaction: when the run is missing the lease is rolled back.
\<close>

definition pg_acquire ::
  "(nat \<Rightarrow> time) \<Rightarrow> run_identity \<Rightarrow> string \<Rightarrow> int \<Rightarrow> pg_runs \<Rightarrow> run_lease result \<times> pg_runs" where
  "pg_acquire clk i owner ttl s =
     (let now = clk 0; c = ri_conversation i;
          upsert = (case map_of (pg_leases s) c of
                      None \<Rightarrow> Some 1
                    | Some l \<Rightarrow> if ls_expires l \<le> now then Some (ls_token l + 1) else None)
      in case upsert of
          None \<Rightarrow> (Inl busy, s)
        | Some token \<Rightarrow>
            let l = \<lparr>ls_conversation = c, ls_run = ri_run i, ls_owner = owner,
                     ls_token = token, ls_expires = now + seconds ttl\<rparr>
            in case map_of (pg_rows s) (ri_run i) of
                None \<Rightarrow> (Inl no_record, s)
              | Some r \<Rightarrow>
                  (Inr l, s\<lparr>pg_leases := alist_put c l (pg_leases s),
                            pg_rows := alist_put (ri_run i) (started_record r l now) (pg_rows s)\<rparr>))"

definition pg_renew ::
  "(nat \<Rightarrow> time) \<Rightarrow> run_lease \<Rightarrow> int \<Rightarrow> pg_runs \<Rightarrow> run_lease result \<times> pg_runs" where
  "pg_renew clk l ttl s =
     (let now = clk 0; expires = now + seconds ttl in
      case map_of (pg_leases s) (ls_conversation l) of
        None \<Rightarrow> (Inl stale, s)
      | Some cur \<Rightarrow>
          if ls_run cur = ls_run l \<and> ls_owner cur = ls_owner l \<and> ls_token cur = ls_token l \<and>
             now < ls_expires cur
          then (Inr (l\<lparr>ls_expires := expires\<rparr>),
                s\<lparr>pg_leases := alist_put (ls_conversation l) (cur\<lparr>ls_expires := expires\<rparr>) (pg_leases s),
                  pg_rows := (case map_of (pg_rows s) (ls_run l) of
                      None \<Rightarrow> pg_rows s
                    | Some r \<Rightarrow>
                        if rd_fencing r = Some (ls_token l)
                        then alist_put (ls_run l)
                               (r\<lparr>rd_expires := Some expires, rd_updated := Some now\<rparr>) (pg_rows s)
                        else pg_rows s)\<rparr>)
          else (Inl stale, s))"

definition pg_release :: "(nat \<Rightarrow> time) \<Rightarrow> run_lease \<Rightarrow> pg_runs \<Rightarrow> unit result \<times> pg_runs" where
  "pg_release clk l s =
     (Inr (), case map_of (pg_leases s) (ls_conversation l) of
        None \<Rightarrow> s
      | Some cur \<Rightarrow>
          if ls_run cur = ls_run l \<and> ls_owner cur = ls_owner l \<and> ls_token cur = ls_token l
          then s\<lparr>pg_leases := alist_put (ls_conversation l) (cur\<lparr>ls_expires := clk 0\<rparr>) (pg_leases s)\<rparr>
          else s)"

text \<open>The \<open>WHERE\<close> clause of the two guarded updates of \<open>app_runs\<close>.\<close>

definition pg_guard :: "time \<Rightarrow> run_lease \<Rightarrow> pg_runs \<Rightarrow> run_record \<Rightarrow> bool" where
  "pg_guard now l s r \<longleftrightarrow>
     rd_owner r = Some (ls_owner l) \<and> rd_fencing r = Some (ls_token l) \<and>
     (case map_of (pg_leases s) (rd_conversation r) of
        None \<Rightarrow> False
      | Some cur \<Rightarrow> ls_run cur = rd_run r \<and> ls_owner cur = ls_owner l \<and>
                     ls_token cur = ls_token l \<and> now < ls_expires cur)"

definition pg_guarded_update ::
  "string \<Rightarrow> time \<Rightarrow> run_lease \<Rightarrow> (run_record \<Rightarrow> run_record) \<Rightarrow> pg_runs \<Rightarrow> run_record result \<times> pg_runs" where
  "pg_guarded_update message now l f s =
     (case map_of (pg_rows s) (ls_run l) of
        None \<Rightarrow> (Inl (StaleLeaseError message), s)
      | Some r \<Rightarrow>
          if pg_guard now l s r
          then (Inr (f r), s\<lparr>pg_rows := alist_put (ls_run l) (f r) (pg_rows s)\<rparr>)
          else (Inl (StaleLeaseError message), s))"

definition pg_mark_terminal ::
  "(nat \<Rightarrow> time) \<Rightarrow> run_lease \<Rightarrow> outcome \<Rightarrow> pg_runs \<Rightarrow> run_record result \<times> pg_runs" where
  "pg_mark_terminal clk l oc =
     pg_guarded_update ''A stale run owner cannot persist an outcome'' (clk 0) l
       (\<lambda>r. r\<lparr>rd_status := oc_status oc, rd_payload := oc_payload oc, rd_reason := oc_reason oc,
              rd_error := oc_error oc, rd_checkpoint := oc_checkpoint oc,
              rd_completed := (if oc_status oc \<in> {Completed, Failed_run, Cancelled}
                               then Some (clk 0) else None),
              rd_updated := Some (clk 0)\<rparr>)"

definition pg_mark_history ::
  "(nat \<Rightarrow> time) \<Rightarrow> run_lease \<Rightarrow> jobj option \<Rightarrow> pg_runs \<Rightarrow> run_record result \<times> pg_runs" where
  "pg_mark_history clk l payload =
     pg_guarded_update ''A stale run owner cannot commit conversation history'' (clk 0) l
       (\<lambda>r. reconciled_record r payload (clk 0) (clk 0))"

definition pg_reconcile ::
  "(nat \<Rightarrow> time) \<Rightarrow> string \<Rightarrow> jobj option \<Rightarrow> pg_runs \<Rightarrow> run_record result \<times> pg_runs" where
  "pg_reconcile clk run payload s =
     (case map_of (pg_rows s) run of
        None \<Rightarrow> (Inl (RunConflictError ''The terminal run record does not exist''), s)
      | Some r \<Rightarrow>
          if rd_status r \<in> {Completed, Failed_run, Cancelled}
          then let r' = reconciled_record r payload (clk 0) (clk 0)
               in (Inr r', s\<lparr>pg_rows := alist_put run r' (pg_rows s)\<rparr>)
          else (Inl (RunConflictError ''The terminal run record does not exist''), s))"

definition pg_revoke :: "(nat \<Rightarrow> time) \<Rightarrow> string \<Rightarrow> pg_runs \<Rightarrow> int result \<times> pg_runs" where
  "pg_revoke clk run s =
     (case map_of (pg_rows s) run of
        None \<Rightarrow> (Inl no_record, s)
      | Some r \<Rightarrow>
          let r' = r\<lparr>rd_token_version := rd_token_version r + 1, rd_updated := Some (clk 0)\<rparr>
          in (Inr (rd_token_version r'), s\<lparr>pg_rows := alist_put run r' (pg_rows s)\<rparr>))"

end
