(* ===== verification/Leases.thy ===== *)
theory Leases
  imports Runs
begin

text \<open>
  The contract both run repositories keep: one lease per conversation, fencing tokens that only
  grow, and writes that only the holder of the live lease can make. The contract is the locale
  \<open>lease_store\<close>, its laws are discharged for the memory and for the PostgreSQL repository, and
  what a client may rely on is proved once inside it.
\<close>

section \<open>Operations and replies\<close>

datatype run_op =
    OpCreate run_identity
  | OpAcquire run_identity string int
  | OpRenew run_lease int
  | OpRelease run_lease
  | OpFinish run_lease outcome
  | OpHistory run_lease "jobj option"
  | OpReconcile string "jobj option"
  | OpRevoke string

datatype run_reply =
    RCreated run_record bool | RLease run_lease | RDone | RRecord run_record | RVersion int

fun reply_of :: "('a \<Rightarrow> run_reply) \<Rightarrow> 'a result \<times> 's \<Rightarrow> run_reply result \<times> 's" where
  "reply_of f (Inl e, s) = (Inl e, s)"
| "reply_of f (Inr x, s) = (Inr (f x), s)"

fun mem_exec :: "(nat \<Rightarrow> time) \<Rightarrow> run_op \<Rightarrow> memory_runs \<Rightarrow> run_reply result \<times> memory_runs" where
  "mem_exec clk (OpCreate i) s = reply_of (\<lambda>(r, new). RCreated r new) (mem_create_or_get clk i s)"
| "mem_exec clk (OpAcquire i owner ttl) s = reply_of RLease (mem_acquire clk i owner ttl s)"
| "mem_exec clk (OpRenew l ttl) s = reply_of RLease (mem_renew clk l ttl s)"
| "mem_exec clk (OpRelease l) s = reply_of (\<lambda>_. RDone) (mem_release l s)"
| "mem_exec clk (OpFinish l oc) s = reply_of RRecord (mem_mark_terminal clk l oc s)"
| "mem_exec clk (OpHistory l p) s = reply_of RRecord (mem_mark_history clk l p s)"
| "mem_exec clk (OpReconcile run p) s = reply_of RRecord (mem_reconcile clk run p s)"
| "mem_exec clk (OpRevoke run) s = reply_of RVersion (mem_revoke clk run s)"

fun pg_exec :: "(nat \<Rightarrow> time) \<Rightarrow> run_op \<Rightarrow> pg_runs \<Rightarrow> run_reply result \<times> pg_runs" where
  "pg_exec clk (OpCreate i) s = reply_of (\<lambda>(r, new). RCreated r new) (pg_create_or_get clk i s)"
| "pg_exec clk (OpAcquire i owner ttl) s = reply_of RLease (pg_acquire clk i owner ttl s)"
| "pg_exec clk (OpRenew l ttl) s = reply_of RLease (pg_renew clk l ttl s)"
| "pg_exec clk (OpRelease l) s = reply_of (\<lambda>_. RDone) (pg_release clk l s)"
| "pg_exec clk (OpFinish l oc) s = reply_of RRecord (pg_mark_terminal clk l oc s)"
| "pg_exec clk (OpHistory l p) s = reply_of RRecord (pg_mark_history clk l p s)"
| "pg_exec clk (OpReconcile run p) s = reply_of RRecord (pg_reconcile clk run p s)"
| "pg_exec clk (OpRevoke run) s = reply_of RVersion (pg_revoke clk run s)"

lemma reply_of_iff [simp]:
  "reply_of f m = (Inl e, s) \<longleftrightarrow> m = (Inl e, s)"
  "reply_of f m = (Inr y, s) \<longleftrightarrow> (\<exists>x. m = (Inr x, s) \<and> y = f x)"
  by (cases "(f, m)" rule: reply_of.cases; auto)+

fun_cases reply_of_cases: "reply_of f m = (r, s)"

text \<open>The lease a write presents, and the precondition the runtime establishes before it acquires.\<close>

fun presented :: "run_op \<Rightarrow> run_lease option" where
  "presented (OpRenew l _) = Some l"
| "presented (OpFinish l _) = Some l"
| "presented (OpHistory l _) = Some l"
| "presented _ = None"

fun op_ok :: "(string \<Rightarrow> run_record option) \<Rightarrow> run_op \<Rightarrow> bool" where
  "op_ok recs (OpAcquire i _ _) =
     (case recs (ri_run i) of None \<Rightarrow> True | Some r \<Rightarrow> rd_conversation r = ri_conversation i)"
| "op_ok recs _ = True"

text \<open>The states other processes can lead a repository through.\<close>

inductive run_reach ::
  "((nat \<Rightarrow> time) \<Rightarrow> run_op \<Rightarrow> 's \<Rightarrow> run_reply result \<times> 's) \<Rightarrow> ('s \<Rightarrow> string \<Rightarrow> run_record option)
   \<Rightarrow> 's \<Rightarrow> 's \<Rightarrow> bool" for exec recs where
  run_refl: "run_reach exec recs s s"
| run_step: "run_reach exec recs s s' \<Longrightarrow> op_ok (recs s') op \<Longrightarrow> exec clk op s' = (r, s'')
    \<Longrightarrow> run_reach exec recs s s''"

section \<open>The contract\<close>

locale lease_store =
  fixes exec :: "(nat \<Rightarrow> time) \<Rightarrow> run_op \<Rightarrow> 's \<Rightarrow> run_reply result \<times> 's"
    and recs :: "'s \<Rightarrow> string \<Rightarrow> run_record option"
    and leases :: "'s \<Rightarrow> string \<Rightarrow> run_lease option"
    and fence :: "'s \<Rightarrow> string \<Rightarrow> int"
    and sound :: "'s \<Rightarrow> bool"
  assumes sound_step: "sound s \<Longrightarrow> op_ok (recs s) op \<Longrightarrow> exec clk op s = (r, s') \<Longrightarrow> sound s'"
    and lease_token: "sound s \<Longrightarrow> leases s c = Some l \<Longrightarrow> ls_token l = fence s c"
    and fence_grows: "exec clk op s = (r, s') \<Longrightarrow> sound s \<Longrightarrow> fence s c \<le> fence s' c"
    and failed_no_effect: "exec clk op s = (Inl e, s') \<Longrightarrow> sound s \<Longrightarrow> s' = s"
    and grant: "exec clk (OpAcquire i owner ttl) s = (Inr (RLease l), s') \<Longrightarrow> sound s \<Longrightarrow>
        ls_conversation l = ri_conversation i \<and> ls_run l = ri_run i \<and> recs s (ri_run i) \<noteq> None \<and>
        ls_token l = fence s (ri_conversation i) + 1 \<and> fence s' (ri_conversation i) = ls_token l \<and>
        leases s' (ri_conversation i) = Some l"
    and guarded: "exec clk op s = (Inr y, s') \<Longrightarrow> sound s \<Longrightarrow> presented op = Some l \<Longrightarrow>
        recs s (ls_run l) = Some x \<Longrightarrow> rd_conversation x = ls_conversation l \<Longrightarrow>
        (\<exists>cur. leases s (ls_conversation l) = Some cur \<and> same_owner cur l \<and> clk 0 < ls_expires cur)"
    and home_kept: "exec clk op s = (r, s') \<Longrightarrow> recs s run = Some x \<Longrightarrow>
        (\<exists>x'. recs s' run = Some x' \<and> rd_conversation x' = rd_conversation x)"
begin

lemma reach_sound: "run_reach exec recs s s' \<Longrightarrow> sound s \<Longrightarrow> sound s'"
  by (induction rule: run_reach.induct) (auto intro: sound_step)

lemma reach_fence: "run_reach exec recs s s' \<Longrightarrow> sound s \<Longrightarrow> fence s c \<le> fence s' c"
  by (induction rule: run_reach.induct) (auto dest: fence_grows reach_sound intro: order_trans)

lemma reach_home:
  "run_reach exec recs s s' \<Longrightarrow> recs s run = Some x \<Longrightarrow>
     \<exists>x'. recs s' run = Some x' \<and> rd_conversation x' = rd_conversation x"
  by (induction rule: run_reach.induct) (force dest: home_kept)+

lemma superseded_lease_fails:
  assumes "sound s" and "op_ok (recs s) (OpAcquire i owner ttl)"
    and "exec clk (OpAcquire i owner ttl) s = (Inr (RLease l), s1)"
    and "run_reach exec recs s1 s2" and "op_ok (recs s2) (OpAcquire i' owner' ttl')"
    and "exec clk' (OpAcquire i' owner' ttl') s2 = (Inr (RLease l'), s3)"
    and "ri_conversation i' = ri_conversation i"
    and "run_reach exec recs s3 s4" and "presented op = Some l"
    and "exec clk'' op s4 = (y, s5)"
  shows "(\<exists>e. y = Inl e) \<and> s5 = s4"
proof -
  let ?c = "ri_conversation i"
  have s1: "sound s1" using assms(1-3) sound_step by blast
  have s2: "sound s2" using reach_sound [OF assms(4) s1] .
  have s3: "sound s3" using s2 assms(5,6) sound_step by blast
  have s4: "sound s4" using reach_sound [OF assms(8) s3] .
  from grant [OF assms(3,1)] have g: "ls_conversation l = ?c" "ls_run l = ri_run i"
    "recs s (ri_run i) \<noteq> None" "fence s1 ?c = ls_token l" by auto
  from grant [OF assms(6) s2] assms(7) have "fence s3 ?c = fence s2 ?c + 1" by simp
  with reach_fence [OF assms(4) s1, of ?c] reach_fence [OF assms(8) s3, of ?c] g(4)
  have newer: "ls_token l < fence s4 ?c" by simp
  from g(3) obtain r where r: "recs s (ri_run i) = Some r" by blast
  with assms(2) have home: "rd_conversation r = ?c" by simp
  from home_kept [OF assms(3) r] obtain r1 where "recs s1 (ri_run i) = Some r1"
    "rd_conversation r1 = ?c" using home by auto
  with reach_home [OF assms(4)] obtain r2 where "recs s2 (ri_run i) = Some r2"
    "rd_conversation r2 = ?c" by fastforce
  with home_kept [OF assms(6)] obtain r3 where "recs s3 (ri_run i) = Some r3"
    "rd_conversation r3 = ?c" by fastforce
  with reach_home [OF assms(8)] obtain r4 where r4: "recs s4 (ri_run i) = Some r4"
    "rd_conversation r4 = ?c" by fastforce
  show ?thesis
  proof (cases y)
    case (Inl e)
    then show ?thesis using failed_no_effect assms(10) s4 by blast
  next
    case (Inr z)
    with guarded [of clk'' op s4 z s5 l r4] assms(9,10) s4 g r4
    obtain cur where "leases s4 ?c = Some cur" "same_owner cur l" by auto
    with lease_token [OF s4] newer show ?thesis by (fastforce simp: same_owner_def)
  qed
qed

end


section \<open>The invariant of a repository\<close>

text \<open>
  Every record sits under its own run id; every lease row belongs to its conversation, carries
  the highest token given out there, and the record of its run names the same owner and token.
\<close>

definition leases_sound ::
  "(string \<Rightarrow> run_record option) \<Rightarrow> (string \<Rightarrow> run_lease option) \<Rightarrow> (string \<Rightarrow> int) \<Rightarrow> bool" where
  "leases_sound R L F \<longleftrightarrow>
     (\<forall>run x. R run = Some x \<longrightarrow> rd_run x = run) \<and>
     (\<forall>c l. L c = Some l \<longrightarrow> ls_conversation l = c \<and> ls_token l = F c \<and>
        (\<exists>x. R (ls_run l) = Some x \<and> rd_conversation x = c \<and> rd_owner x = Some (ls_owner l) \<and>
             rd_fencing x = Some (F c)))"

lemma sound_key: "leases_sound R L F \<Longrightarrow> R run = Some x \<Longrightarrow> rd_run x = run"
  by (simp add: leases_sound_def)

lemma sound_lease:
  assumes "leases_sound R L F" and "L c = Some l"
  shows "ls_conversation l = c" and "ls_token l = F c"
    and "\<exists>x. R (ls_run l) = Some x \<and> rd_conversation x = c \<and> rd_owner x = Some (ls_owner l) \<and>
             rd_fencing x = Some (F c)"
  using assms by (auto simp: leases_sound_def)

lemma sound_touch:
  "leases_sound R L F \<Longrightarrow> R run = Some x \<Longrightarrow> rd_run y = rd_run x \<Longrightarrow>
   rd_conversation y = rd_conversation x \<Longrightarrow> rd_owner y = rd_owner x \<Longrightarrow> rd_fencing y = rd_fencing x \<Longrightarrow>
   leases_sound (R(run \<mapsto> y)) L F"
  by (fastforce simp: leases_sound_def)

lemma sound_new: "leases_sound R L F \<Longrightarrow> R run = None \<Longrightarrow> rd_run y = run \<Longrightarrow> leases_sound (R(run \<mapsto> y)) L F"
  by (fastforce simp: leases_sound_def)

lemma sound_drop: "leases_sound R L F \<Longrightarrow> leases_sound R (L(c := None)) F"
  by (simp add: leases_sound_def)

lemma sound_extend:
  "leases_sound R L F \<Longrightarrow> L c = Some l \<Longrightarrow> same_owner l' l \<Longrightarrow> leases_sound R (L(c \<mapsto> l')) F"
  by (auto simp: leases_sound_def same_owner_def)

lemma sound_grant:
  assumes "leases_sound R L F" and "R (ls_run l) = Some x" and "rd_conversation x = ls_conversation l"
  shows "leases_sound (R(ls_run l \<mapsto> started_record x l now)) (L(ls_conversation l \<mapsto> l))
           (F(ls_conversation l := ls_token l))"
  unfolding leases_sound_def
proof (intro conjI allI impI)
  fix run y assume "(R(ls_run l \<mapsto> started_record x l now)) run = Some y"
  then show "rd_run y = run"
    using assms by (auto simp: leases_sound_def started_record_def split: if_splits)
next
  fix c m assume m: "(L(ls_conversation l \<mapsto> l)) c = Some m"
  show "ls_conversation m = c" "ls_token m = (F(ls_conversation l := ls_token l)) c"
    using m sound_lease(1,2) [OF assms(1)] by (auto split: if_splits)
  show "\<exists>y. (R(ls_run l \<mapsto> started_record x l now)) (ls_run m) = Some y \<and> rd_conversation y = c \<and>
          rd_owner y = Some (ls_owner m) \<and>
          rd_fencing y = Some ((F(ls_conversation l := ls_token l)) c)"
  proof (cases "c = ls_conversation l")
    case True
    with m assms(3) show ?thesis by (simp add: started_record_def)
  next
    case False
    with m have "L c = Some m" by simp
    from sound_lease(3) [OF assms(1) this] obtain y where y: "R (ls_run m) = Some y"
      "rd_conversation y = c" "rd_owner y = Some (ls_owner m)" "rd_fencing y = Some (F c)"
      by blast
    with False assms(2,3) have "ls_run m \<noteq> ls_run l" by auto
    with y False show ?thesis by simp
  qed
qed

section \<open>The two repositories keep the contract\<close>

definition mem_record :: "memory_runs \<Rightarrow> string \<Rightarrow> run_record option" where
  "mem_record s = map_of (mm_records s)"

definition mem_lease :: "memory_runs \<Rightarrow> string \<Rightarrow> run_lease option" where
  "mem_lease s = map_of (mm_leases s)"

definition mem_fence :: "memory_runs \<Rightarrow> string \<Rightarrow> int" where
  "mem_fence s = fence_of (mm_fencing s)"

definition mem_sound :: "memory_runs \<Rightarrow> bool" where
  "mem_sound s \<longleftrightarrow> leases_sound (mem_record s) (mem_lease s) (mem_fence s)"

definition pg_record :: "pg_runs \<Rightarrow> string \<Rightarrow> run_record option" where
  "pg_record s = map_of (pg_rows s)"

definition pg_lease :: "pg_runs \<Rightarrow> string \<Rightarrow> run_lease option" where
  "pg_lease s = map_of (pg_leases s)"

definition pg_fence :: "pg_runs \<Rightarrow> string \<Rightarrow> int" where
  "pg_fence s c = (case pg_lease s c of None \<Rightarrow> 0 | Some l \<Rightarrow> ls_token l)"

definition pg_sound :: "pg_runs \<Rightarrow> bool" where
  "pg_sound s \<longleftrightarrow> leases_sound (pg_record s) (pg_lease s) (pg_fence s)"

lemma fence_of_put [simp]: "fence_of (alist_put c n f) = (fence_of f)(c := n)"
  by (auto simp: fence_of_def fun_eq_iff)

lemmas mem_views = mem_record_def mem_lease_def mem_fence_def
lemmas pg_views = pg_record_def pg_lease_def

lemmas mem_op_defs = mem_create_or_get_def mem_acquire_def mem_renew_def mem_release_def
  mem_mark_terminal_def mem_mark_history_def mem_reconcile_def mem_revoke_def
lemmas pg_op_defs = pg_create_or_get_def pg_acquire_def pg_renew_def pg_release_def
  pg_mark_terminal_def pg_mark_history_def pg_guarded_update_def pg_reconcile_def pg_revoke_def

lemmas record_kept = finished_record_def new_payload_def reconciled_record_def fresh_record_def
  started_record_def

lemma validated_home: "validate_record_identity x i = None \<Longrightarrow> rd_conversation x = ri_conversation i"
  by (auto simp: validate_record_identity_def split: if_splits)

lemma same_owner_sym: "same_owner a b \<Longrightarrow> same_owner b a"
  by (simp add: same_owner_def)


lemma snd_reply_of [simp]: "snd (reply_of f m) = snd m"
  by (cases "(f, m)" rule: reply_of.cases) auto

lemma snd_eqI: "m = (r, s) \<Longrightarrow> s = snd m"
  by simp

lemma mem_sound_snd: "mem_sound s \<Longrightarrow> op_ok (mem_record s) op \<Longrightarrow> mem_sound (snd (mem_exec clk op s))"
proof (cases op)
  case (OpCreate i)
  then show "mem_sound s \<Longrightarrow> ?thesis"
    by (auto simp: mem_sound_def mem_views mem_create_or_get_def Let_def put_record_def fresh_record_def
        intro!: sound_new split: option.splits)
next
  case (OpAcquire i owner ttl)
  let ?c = "ri_conversation i"
  let ?l = "\<lparr>ls_conversation = ?c, ls_run = ri_run i, ls_owner = owner,
              ls_token = mem_fence s ?c + 1, ls_expires = clk 0 + seconds ttl\<rparr>"
  assume "mem_sound s" and "op_ok (mem_record s) op"
  then show ?thesis
    using OpAcquire sound_grant [of "mem_record s" "mem_lease s" "mem_fence s" ?l _ "clk 0"]
    by (auto simp: mem_sound_def mem_views mem_acquire_def Let_def split: option.splits)
next
  case (OpRenew l ttl)
  assume "mem_sound s"
  let ?l = "l\<lparr>ls_expires := clk 1 + seconds ttl\<rparr>"
  show ?thesis
  proof (cases "mem_assert_lease (clk 0) l s")
    case True
    then have "\<exists>cur. mem_lease s (ls_conversation l) = Some cur \<and> same_owner ?l cur"
      by (auto simp: mem_assert_lease_def mem_lease_def same_owner_def split: option.splits)
    then obtain cur where "mem_lease s (ls_conversation l) = Some cur" "same_owner ?l cur" by blast
    with \<open>mem_sound s\<close> have ext: "leases_sound (mem_record s)
        ((mem_lease s)(ls_conversation l \<mapsto> ?l)) (mem_fence s)"
      unfolding mem_sound_def by (rule sound_extend)
    show ?thesis
      using OpRenew True ext sound_touch [OF ext, of "ls_run l"]
      by (auto simp: mem_sound_def mem_views mem_renew_def Let_def split: option.splits)
  qed (use OpRenew \<open>mem_sound s\<close> in \<open>simp add: mem_renew_def\<close>)
next
  case (OpRelease l)
  then show "mem_sound s \<Longrightarrow> ?thesis"
    by (auto simp: mem_sound_def mem_views mem_release_def map_of_alist_del
        intro: sound_drop split: option.splits)
qed (auto simp: mem_sound_def mem_views mem_mark_terminal_def mem_mark_history_def mem_reconcile_def
    mem_revoke_def Let_def finished_record_def reconciled_record_def intro!: sound_touch
    split: option.splits)

lemma mem_home:
  "mem_record s run = Some x \<Longrightarrow>
     \<exists>x'. mem_record (snd (mem_exec clk op s)) run = Some x' \<and> rd_conversation x' = rd_conversation x"
  by (cases op)
    (auto simp: mem_views mem_op_defs Let_def put_record_def record_kept split: option.splits list.splits)

lemma mem_failed: "mem_exec clk op s = (Inl e, s') \<Longrightarrow> mem_sound s \<Longrightarrow> s' = s"
proof (cases op)
  case (OpRenew l ttl)
  assume run: "mem_exec clk op s = (Inl e, s')" and "mem_sound s"
  show ?thesis
  proof (cases "mem_assert_lease (clk 0) l s")
    case True
    then have "mem_record s (ls_run l) \<noteq> None"
      using sound_lease(3) [OF \<open>mem_sound s\<close> [unfolded mem_sound_def], of "ls_conversation l"]
      by (fastforce simp: mem_assert_lease_def mem_lease_def same_owner_def split: option.splits)
    with True run OpRenew show ?thesis
      by (auto simp: mem_renew_def Let_def mem_record_def split: option.splits)
  qed (use run OpRenew in \<open>simp add: mem_renew_def\<close>)
qed (auto simp: mem_op_defs Let_def split: option.splits if_splits)

lemma mem_fence_grows: "mem_fence s c \<le> mem_fence (snd (mem_exec clk op s)) c"
  by (cases op)
    (auto simp: mem_views mem_op_defs Let_def put_record_def split: option.splits)

lemma mem_guarded:
  "mem_exec clk op s = (Inr y, s') \<Longrightarrow> presented op = Some l \<Longrightarrow>
     \<exists>cur. mem_lease s (ls_conversation l) = Some cur \<and> same_owner cur l \<and> clk 0 < ls_expires cur"
  by (cases op)
    (auto simp: mem_views mem_op_defs mem_assert_lease_def Let_def split: option.splits if_splits)

lemma mem_granted:
  "mem_acquire clk i owner ttl s = (Inr l, s') \<Longrightarrow>
     ls_conversation l = ri_conversation i \<and> ls_run l = ri_run i \<and> mem_record s (ri_run i) \<noteq> None \<and>
     ls_token l = mem_fence s (ri_conversation i) + 1 \<and> mem_fence s' (ri_conversation i) = ls_token l \<and>
     mem_lease s' (ri_conversation i) = Some l"
  by (auto simp: mem_acquire_def mem_views Let_def split: option.splits if_splits)

interpretation mem: lease_store mem_exec mem_record mem_lease mem_fence mem_sound
proof (unfold_locales, goal_cases)
  case (1 s op clk r s')
  then show ?case using mem_sound_snd [of s op clk] by simp
next
  case (2 s c l)
  then show ?case using sound_lease(2) by (auto simp: mem_sound_def)
next
  case (3 clk op s r s' c)
  then show ?case using mem_fence_grows [of s c clk op] by simp
next
  case (4 clk op s e s')
  then show ?case by (rule mem_failed)
next
  case (5 clk i owner ttl s l s')
  then show ?case using mem_granted by simp
next
  case (6 clk op s y s' l x)
  then show ?case by (intro mem_guarded)
next
  case (7 clk op s r s' run x)
  then show ?case using mem_home [of s run x clk op] by simp
qed


text \<open>Moving the expiry of a lease row leaves the tokens alone.\<close>

lemma pg_fence_put:
  "pg_fence (s\<lparr>pg_leases := alist_put c l (pg_leases s), pg_rows := rows\<rparr>) = (pg_fence s)(c := ls_token l)"
  "pg_fence (s\<lparr>pg_leases := alist_put c l (pg_leases s)\<rparr>) = (pg_fence s)(c := ls_token l)"
  "pg_fence (s\<lparr>pg_rows := rows\<rparr>) = pg_fence s"
  by (auto simp: pg_fence_def pg_lease_def fun_eq_iff)

lemma pg_fence_same: "pg_lease s c = Some l \<Longrightarrow> (pg_fence s)(c := ls_token l) = pg_fence s"
  by (auto simp: pg_fence_def fun_eq_iff)

lemma pg_sound_lease_moved:
  assumes "pg_sound s" and "pg_lease s c = Some cur"
  shows "leases_sound (pg_record s) ((pg_lease s)(c \<mapsto> cur\<lparr>ls_expires := t\<rparr>)) (pg_fence s)"
  using assms unfolding pg_sound_def by (elim sound_extend) (auto simp: same_owner_def)

lemma pg_sound_snd: "pg_sound s \<Longrightarrow> op_ok (pg_record s) op \<Longrightarrow> pg_sound (snd (pg_exec clk op s))"
proof (cases op)
  case (OpCreate i)
  then show "pg_sound s \<Longrightarrow> ?thesis"
    by (auto simp: pg_sound_def pg_views pg_fence_put pg_create_or_get_def Let_def fresh_record_def
        intro!: sound_new split: option.splits)
next
  case (OpAcquire i owner ttl)
  let ?c = "ri_conversation i"
  let ?l = "\<lparr>ls_conversation = ?c, ls_run = ri_run i, ls_owner = owner,
              ls_token = pg_fence s ?c + 1, ls_expires = clk 0 + seconds ttl\<rparr>"
  assume "pg_sound s" and "op_ok (pg_record s) op"
  then show ?thesis
    using OpAcquire sound_grant [of "pg_record s" "pg_lease s" "pg_fence s" ?l _ "clk 0"]
    by (auto simp: pg_sound_def pg_views pg_fence_put pg_acquire_def Let_def
        pg_fence_def [of s ?c] split: option.splits)
next
  case (OpRenew l ttl)
  assume sound: "pg_sound s"
  show ?thesis
  proof (cases "pg_lease s (ls_conversation l)")
    case (Some cur)
    note ext = pg_sound_lease_moved [OF sound Some, of "clk 0 + seconds ttl"]
    show ?thesis
      using OpRenew Some sound ext sound_touch [OF ext, of "ls_run l"] pg_fence_same [OF Some]
      by (auto simp: pg_sound_def pg_views pg_fence_put pg_renew_def Let_def split: option.splits)
  qed (use OpRenew sound in \<open>simp add: pg_renew_def pg_lease_def\<close>)
next
  case (OpRelease l)
  assume sound: "pg_sound s"
  show ?thesis
  proof (cases "pg_lease s (ls_conversation l)")
    case (Some cur)
    show ?thesis
      using OpRelease Some sound pg_sound_lease_moved [OF sound Some] pg_fence_same [OF Some]
      by (auto simp: pg_sound_def pg_views pg_fence_put pg_release_def)
  qed (use OpRelease sound in \<open>simp add: pg_release_def pg_lease_def\<close>)
qed (auto simp: pg_sound_def pg_views pg_fence_put pg_mark_terminal_def pg_mark_history_def
    pg_guarded_update_def pg_reconcile_def pg_revoke_def Let_def reconciled_record_def
    intro!: sound_touch split: option.splits)

lemma pg_home:
  "pg_record s run = Some x \<Longrightarrow>
     \<exists>x'. pg_record (snd (pg_exec clk op s)) run = Some x' \<and> rd_conversation x' = rd_conversation x"
  by (cases op)
    (auto simp: pg_views pg_op_defs Let_def record_kept split: option.splits)

lemma pg_failed: "pg_exec clk op s = (Inl e, s') \<Longrightarrow> s' = s"
  by (cases op) (auto simp: pg_op_defs Let_def split: option.splits if_splits)

lemma pg_fence_grows: "pg_fence s c \<le> pg_fence (snd (pg_exec clk op s)) c"
  by (cases op)
    (auto simp: pg_fence_put pg_fence_def [of s c] pg_lease_def pg_op_defs Let_def split: option.splits)

lemma pg_guarded:
  assumes "pg_exec clk op s = (Inr y, s')" and "pg_sound s" and "presented op = Some l"
    and "pg_record s (ls_run l) = Some x" and "rd_conversation x = ls_conversation l"
  shows "\<exists>cur. pg_lease s (ls_conversation l) = Some cur \<and> same_owner cur l \<and> clk 0 < ls_expires cur"
proof -
  have "rd_run x = ls_run l"
    using sound_key [OF assms(2) [unfolded pg_sound_def] assms(4)] .
  with assms(1,3-5) have "\<exists>cur. pg_lease s (ls_conversation l) = Some cur \<and> ls_run cur = ls_run l \<and>
      ls_owner cur = ls_owner l \<and> ls_token cur = ls_token l \<and> clk 0 < ls_expires cur"
    by (cases op)
      (auto simp: pg_views pg_op_defs pg_guard_def Let_def split: option.splits if_splits)
  then show ?thesis
    using sound_lease(1) [OF assms(2) [unfolded pg_sound_def]] unfolding same_owner_def by blast
qed

lemma pg_granted:
  "pg_acquire clk i owner ttl s = (Inr l, s') \<Longrightarrow>
     ls_conversation l = ri_conversation i \<and> ls_run l = ri_run i \<and> pg_record s (ri_run i) \<noteq> None \<and>
     ls_token l = pg_fence s (ri_conversation i) + 1 \<and> pg_fence s' (ri_conversation i) = ls_token l \<and>
     pg_lease s' (ri_conversation i) = Some l"
  by (auto simp: pg_acquire_def pg_views pg_fence_def Let_def split: option.splits if_splits)

interpretation pg: lease_store pg_exec pg_record pg_lease pg_fence pg_sound
proof (unfold_locales, goal_cases)
  case (1 s op clk r s')
  then show ?case using pg_sound_snd [of s op clk] by simp
next
  case (2 s c l)
  then show ?case by (simp add: pg_fence_def)
next
  case (3 clk op s r s' c)
  then show ?case using pg_fence_grows [of s c clk op] by simp
next
  case (4 clk op s e s')
  then show ?case using pg_failed by simp
next
  case (5 clk i owner ttl s l s')
  then show ?case using pg_granted by simp
next
  case (6 clk op s y s' l x)
  then show ?case by (intro pg_guarded)
next
  case (7 clk op s r s' run x)
  then show ?case using pg_home [of s run x clk op] by simp
qed


section \<open>Stale owners\<close>

lemma empty_runs_sound: "pg_sound empty_pg_runs" "mem_sound empty_memory_runs"
  by (simp_all add: pg_sound_def mem_sound_def leases_sound_def pg_views mem_views
      empty_pg_runs_def empty_memory_runs_def)

text \<open>
  C4: a superseded owner can never write. Take any history of the PostgreSQL repository in which
  a lease \<open>l\<close> was granted for a conversation and, after whatever other processes did, another
  one was granted for the same conversation. From then on no renewal, no outcome and no history
  commit presented under \<open>l\<close> is accepted, however much later and whatever the clocks say, and
  the refused write changes nothing.
\<close>

theorem superseded_owner_cannot_write:
  assumes "run_reach pg_exec pg_record empty_pg_runs s"
    and "op_ok (pg_record s) (OpAcquire i owner ttl)"
    and "pg_exec clk (OpAcquire i owner ttl) s = (Inr (RLease l), s1)"
    and "run_reach pg_exec pg_record s1 s2"
    and "op_ok (pg_record s2) (OpAcquire i' owner' ttl')"
    and "pg_exec clk' (OpAcquire i' owner' ttl') s2 = (Inr (RLease l'), s3)"
    and "ri_conversation i' = ri_conversation i"
    and "run_reach pg_exec pg_record s3 s4" and "presented op = Some l"
  shows "\<exists>e. pg_exec clk'' op s4 = (Inl e, s4)"
  using pg.superseded_lease_fails [OF pg.reach_sound [OF assms(1)] assms(2-9)] empty_runs_sound(1)
  by (metis prod.exhaust)

text \<open>The same holds of the process-local repository.\<close>

lemma mem_superseded_owner_cannot_write:
  assumes "run_reach mem_exec mem_record empty_memory_runs s"
    and "op_ok (mem_record s) (OpAcquire i owner ttl)"
    and "mem_exec clk (OpAcquire i owner ttl) s = (Inr (RLease l), s1)"
    and "run_reach mem_exec mem_record s1 s2"
    and "op_ok (mem_record s2) (OpAcquire i' owner' ttl')"
    and "mem_exec clk' (OpAcquire i' owner' ttl') s2 = (Inr (RLease l'), s3)"
    and "ri_conversation i' = ri_conversation i"
    and "run_reach mem_exec mem_record s3 s4" and "presented op = Some l"
  shows "\<exists>e. mem_exec clk'' op s4 = (Inl e, s4)"
  using mem.superseded_lease_fails [OF mem.reach_sound [OF assms(1)] assms(2-9)] empty_runs_sound(2)
  by (metis prod.exhaust)

definition sample_identity :: "string \<Rightarrow> run_identity" where
  "sample_identity run =
     \<lparr>ri_conversation = ''c'', ri_run = run, ri_thread = ''c:'' @ run, ri_namespace = ''n'',
      ri_schema = 1, ri_hash = ''h'', ri_hash_version = 1, ri_token_version = 1, ri_key_id = None,
      ri_resume_requested = False, ri_resumed = False, ri_client_supplied = False\<rparr>"

definition sample_lease :: "string \<Rightarrow> string \<Rightarrow> int \<Rightarrow> time \<Rightarrow> run_lease" where
  "sample_lease run owner token t =
     \<lparr>ls_conversation = ''c'', ls_run = run, ls_owner = owner, ls_token = token, ls_expires = t\<rparr>"

definition sample_runs :: pg_runs where
  "sample_runs = snd (pg_exec (\<lambda>_. 0) (OpCreate (sample_identity ''b''))
     (snd (pg_exec (\<lambda>_. 0) (OpCreate (sample_identity ''a'')) empty_pg_runs)))"

text \<open>Run a holds the lease, then run b takes the expired lease over.\<close>

definition sample_held :: pg_runs where
  "sample_held = snd (pg_exec (\<lambda>_. 0) (OpAcquire (sample_identity ''a'') ''p'' 60) sample_runs)"

definition sample_taken_over :: pg_runs where
  "sample_taken_over =
     snd (pg_exec (\<lambda>_. 100000000) (OpAcquire (sample_identity ''b'') ''q'' 60) sample_held)"

lemma run_step_snd:
  "run_reach exec recs s s' \<Longrightarrow> op_ok (recs s') op \<Longrightarrow> run_reach exec recs s (snd (exec clk op s'))"
  by (rule run_step [OF _ _ surjective_pairing])

lemma sample_runs_reachable: "run_reach pg_exec pg_record empty_pg_runs sample_runs"
  unfolding sample_runs_def by (intro run_step_snd run_refl) simp_all

lemma sample_acquires:
  "pg_exec (\<lambda>_. 0) (OpAcquire (sample_identity ''a'') ''p'' 60) sample_runs =
     (Inr (RLease (sample_lease ''a'' ''p'' 1 60000000)), sample_held)"
  "pg_exec (\<lambda>_. 100000000) (OpAcquire (sample_identity ''b'') ''q'' 60) sample_held =
     (Inr (RLease (sample_lease ''b'' ''q'' 2 160000000)), sample_taken_over)"
  unfolding sample_taken_over_def sample_held_def by code_simp+

theorem superseded_owner_cannot_write_witness:
  "\<exists>e. pg_exec (\<lambda>_. 100000001) (OpHistory (sample_lease ''a'' ''p'' 1 60000000) None) sample_taken_over =
     (Inl e, sample_taken_over)"
proof -
  have "op_ok (pg_record sample_runs) (OpAcquire (sample_identity ''a'') ''p'' 60)"
    "op_ok (pg_record sample_held) (OpAcquire (sample_identity ''b'') ''q'' 60)"
    by code_simp+
  moreover have "ri_conversation (sample_identity ''b'') = ri_conversation (sample_identity ''a'')"
    by (simp add: sample_identity_def)
  ultimately show ?thesis
    by (rule superseded_owner_cannot_write [OF sample_runs_reachable _ sample_acquires(1) run_refl
          _ sample_acquires(2) _ run_refl]) simp
qed

end
