(* ===== verification/RunEquiv.thy ===== *)
theory RunEquiv
  imports Leases
begin

text \<open>
  "Process-local repository implementing the same contract as PostgreSQL": a simulation between
  the two run repositories, and where they part.
\<close>

section \<open>The relation\<close>

text \<open>
  Same records; the memory repository's counters are the tokens of the lease rows; a lease it
  holds is the lease row, and a row it has dropped has expired by \<open>now\<close>.
\<close>

definition runs_related :: "time \<Rightarrow> memory_runs \<Rightarrow> pg_runs \<Rightarrow> bool" where
  "runs_related now ms ps \<longleftrightarrow>
     mem_sound ms \<and> pg_sound ps \<and> mem_record ms = pg_record ps \<and> mem_fence ms = pg_fence ps \<and>
     (\<forall>c l. mem_lease ms c = Some l \<longrightarrow> pg_lease ps c = Some l) \<and>
     (\<forall>c l. mem_lease ms c = None \<and> pg_lease ps c = Some l \<longrightarrow> ls_expires l \<le> now)"

text \<open>
  The calls on which both keep the same contract: what the runtime does, except that a payload
  is not empty and history is committed once. A new run has a thread of its own; a run is
  acquired with the identity of its record; a lease is presented for the conversation of its run.
\<close>

definition lease_at_home :: "pg_runs \<Rightarrow> run_lease \<Rightarrow> bool" where
  "lease_at_home ps l \<longleftrightarrow>
     (case pg_record ps (ls_run l) of None \<Rightarrow> True | Some x \<Rightarrow> rd_conversation x = ls_conversation l)"

fun same_contract :: "pg_runs \<Rightarrow> run_op \<Rightarrow> bool" where
  "same_contract ps (OpCreate i) =
     (pg_record ps (ri_run i) \<noteq> None \<or> \<not> thread_taken (ri_thread i) ps)"
| "same_contract ps (OpAcquire i _ _) =
     (case pg_record ps (ri_run i) of None \<Rightarrow> False | Some x \<Rightarrow> validate_record_identity x i = None)"
| "same_contract ps (OpRenew l _) = lease_at_home ps l"
| "same_contract ps (OpRelease l) = True"
| "same_contract ps (OpFinish l oc) =
     (lease_at_home ps l \<and> oc_payload oc \<noteq> Some [] \<and> oc_status oc \<noteq> Expired)"
| "same_contract ps (OpHistory l _) =
     (lease_at_home ps l \<and>
      (case pg_record ps (ls_run l) of None \<Rightarrow> True | Some x \<Rightarrow> rd_history x = None))"
| "same_contract ps (OpReconcile run _) =
     (case pg_record ps run of None \<Rightarrow> True | Some x \<Rightarrow> rd_status x \<in> {Completed, Failed_run, Cancelled})"
| "same_contract ps (OpRevoke run) = True"

text \<open>Equal replies; two exceptions of the same class count as equal, their texts differ.\<close>

fun same_reply :: "run_reply result \<Rightarrow> run_reply result \<Rightarrow> bool" where
  "same_reply (Inr a) (Inr b) = (a = b)"
| "same_reply (Inl e) (Inl e') = (exn_class e = exn_class e')"
| "same_reply _ _ = False"

lemma relatedD:
  assumes "runs_related now ms ps"
  shows "mem_sound ms" "pg_sound ps" "mem_record ms = pg_record ps" "mem_fence ms = pg_fence ps"
    and "mem_lease ms c = Some l \<Longrightarrow> pg_lease ps c = Some l"
    and "mem_lease ms c = None \<Longrightarrow> pg_lease ps c = Some l \<Longrightarrow> ls_expires l \<le> now"
  using assms unfolding runs_related_def by blast+

text \<open>Whether a lease is live looks the same from both sides.\<close>

lemma live_same:
  assumes "runs_related now ms ps" and "now \<le> t"
  shows "(\<exists>l. mem_lease ms c = Some l \<and> t < ls_expires l \<and> P l) \<longleftrightarrow>
         (\<exists>l. pg_lease ps c = Some l \<and> t < ls_expires l \<and> P l)"
  using relatedD(5,6) [OF assms(1)] assms(2) by (cases "mem_lease ms c") fastforce+

lemma assert_lease_live:
  "mem_assert_lease t l ms \<longleftrightarrow>
     (\<exists>cur. mem_lease ms (ls_conversation l) = Some cur \<and> t < ls_expires cur \<and> same_owner cur l)"
  by (auto simp: mem_assert_lease_def mem_lease_def split: option.splits)

text \<open>The guard of the PostgreSQL updates is the memory repository's assertion.\<close>

lemma guard_same:
  assumes "runs_related now ms ps" and "now \<le> t" and "pg_record ps (ls_run l) = Some x"
    and "lease_at_home ps l"
  shows "pg_guard t l ps x = mem_assert_lease t l ms"
proof -
  note sound = relatedD(2) [OF assms(1), unfolded pg_sound_def]
  have home: "rd_conversation x = ls_conversation l" "rd_run x = ls_run l"
    using assms(3,4) sound_key [OF sound] by (auto simp: lease_at_home_def)
  have row: "\<And>cur. pg_lease ps (ls_conversation l) = Some cur \<Longrightarrow> ls_run cur = ls_run l \<Longrightarrow>
      ls_conversation cur = ls_conversation l \<and> rd_owner x = Some (ls_owner cur) \<and>
      rd_fencing x = Some (ls_token cur)"
    using sound_lease [OF sound] assms(3) by fastforce
  have "pg_guard t l ps x \<longleftrightarrow>
      rd_owner x = Some (ls_owner l) \<and> rd_fencing x = Some (ls_token l) \<and>
      (\<exists>cur. pg_lease ps (ls_conversation l) = Some cur \<and> ls_run cur = ls_run l \<and>
             ls_owner cur = ls_owner l \<and> ls_token cur = ls_token l \<and> t < ls_expires cur)"
    by (simp add: pg_guard_def home pg_lease_def split: option.split)
  also have "\<dots> \<longleftrightarrow>
      (\<exists>cur. pg_lease ps (ls_conversation l) = Some cur \<and> t < ls_expires cur \<and> same_owner cur l)"
  proof (cases "pg_lease ps (ls_conversation l)")
    case (Some cur)
    then show ?thesis using row [OF Some] by (auto simp: same_owner_def)
  qed simp
  finally have "pg_guard t l ps x \<longleftrightarrow>
      (\<exists>cur. pg_lease ps (ls_conversation l) = Some cur \<and> t < ls_expires cur \<and> same_owner cur l)" .
  then show ?thesis
    unfolding assert_lease_live using live_same [OF assms(1,2)] by simp
qed


section \<open>One call\<close>

text \<open>What remains to show of the relation, soundness aside.\<close>

definition same_views :: "time \<Rightarrow> memory_runs \<Rightarrow> pg_runs \<Rightarrow> bool" where
  "same_views t ms ps \<longleftrightarrow>
     mem_record ms = pg_record ps \<and> mem_fence ms = pg_fence ps \<and>
     (\<forall>c l. mem_lease ms c = Some l \<longrightarrow> pg_lease ps c = Some l) \<and>
     (\<forall>c l. mem_lease ms c = None \<and> pg_lease ps c = Some l \<longrightarrow> ls_expires l \<le> t)"

lemma related_views:
  assumes "runs_related now ms ps" and "now \<le> t"
  shows "same_views t ms ps"
  using assms unfolding runs_related_def same_views_def by (meson order_trans)

lemma views_record:
  "same_views t ms ps \<Longrightarrow>
     same_views t (ms\<lparr>mm_records := alist_put run x (mm_records ms)\<rparr>)
                  (ps\<lparr>pg_rows := alist_put run x (pg_rows ps)\<rparr>)"
  by (simp add: same_views_def mem_views pg_views pg_fence_put)

lemma views_lease:
  assumes "same_views t ms ps"
  shows "same_views t (ms\<lparr>mm_fencing := alist_put c (ls_token l) (mm_fencing ms),
                           mm_leases := alist_put c l (mm_leases ms),
                           mm_records := alist_put run x (mm_records ms)\<rparr>)
                      (ps\<lparr>pg_leases := alist_put c l (pg_leases ps),
                           pg_rows := alist_put run x (pg_rows ps)\<rparr>)"
  using assms by (simp add: same_views_def mem_views pg_views pg_fence_put)

lemma views_renewed:
  assumes "same_views t ms ps" and "pg_lease ps c = Some cur" and "ls_token l = ls_token cur"
  shows "same_views t (ms\<lparr>mm_leases := alist_put c l (mm_leases ms),
                           mm_records := alist_put run x (mm_records ms)\<rparr>)
                      (ps\<lparr>pg_leases := alist_put c l (pg_leases ps),
                           pg_rows := alist_put run x (pg_rows ps)\<rparr>)"
proof -
  have "(pg_fence ps)(c := ls_token l) = pg_fence ps"
    using pg_fence_same [OF assms(2)] assms(3) by simp
  with assms(1) show ?thesis by (simp add: same_views_def mem_views pg_views pg_fence_put)
qed

lemma views_released:
  assumes "same_views t ms ps" and "pg_lease ps c = Some cur"
  shows "same_views t (ms\<lparr>mm_leases := alist_del c (mm_leases ms)\<rparr>)
                      (ps\<lparr>pg_leases := alist_put c (cur\<lparr>ls_expires := t\<rparr>) (pg_leases ps)\<rparr>)"
proof -
  have "(pg_fence ps)(c := ls_token cur) = pg_fence ps" using pg_fence_same [OF assms(2)] .
  with assms(1) show ?thesis
    by (simp add: same_views_def mem_views pg_views pg_fence_put map_of_alist_del)
qed

lemma views_gone:
  assumes "same_views t ms ps" and "pg_lease ps c = Some cur" and "mem_lease ms c = None"
  shows "same_views t ms (ps\<lparr>pg_leases := alist_put c (cur\<lparr>ls_expires := t\<rparr>) (pg_leases ps)\<rparr>)"
proof -
  have "(pg_fence ps)(c := ls_token cur) = pg_fence ps" using pg_fence_same [OF assms(2)] .
  with assms(1,3) show ?thesis
    by (simp add: same_views_def mem_views pg_views pg_fence_put)
qed


text \<open>The steps, one operation at a time; \<open>step_same\<close> is their common conclusion.\<close>

definition step_same :: "time \<Rightarrow> run_op \<Rightarrow> memory_runs \<Rightarrow> pg_runs \<Rightarrow> bool" where
  "step_same t op ms ps \<longleftrightarrow>
     same_reply (fst (mem_exec (\<lambda>_. t) op ms)) (fst (pg_exec (\<lambda>_. t) op ps)) \<and>
     same_views t (snd (mem_exec (\<lambda>_. t) op ms)) (snd (pg_exec (\<lambda>_. t) op ps))"

lemma related_rows: "runs_related now ms ps \<Longrightarrow> map_of (mm_records ms) = map_of (pg_rows ps)"
  using relatedD(3) by (simp add: mem_record_def pg_record_def)

lemma step_create:
  assumes "runs_related now ms ps" and "now \<le> t" and "same_contract ps (OpCreate i)"
  shows "step_same t (OpCreate i) ms ps"
proof (cases "map_of (pg_rows ps) (ri_run i)")
  case None
  with assms(3) have "\<not> thread_taken (ri_thread i) ps" by (simp add: pg_record_def)
  with None show ?thesis
    using views_record [OF related_views [OF assms(1,2)], where run = "ri_run i" and x = "fresh_record i t"]
      related_rows [OF assms(1)]
    by (simp add: step_same_def mem_create_or_get_def pg_create_or_get_def put_record_def Let_def
        fresh_record_def)
next
  case (Some x)
  then show ?thesis
    using related_views [OF assms(1,2)] related_rows [OF assms(1)]
    by (simp add: step_same_def mem_create_or_get_def pg_create_or_get_def split: option.split)
qed

lemma live_row:
  assumes "runs_related now ms ps" and "now \<le> t"
  shows "(case map_of (mm_leases ms) c of None \<Rightarrow> False | Some l \<Rightarrow> t < ls_expires l) \<longleftrightarrow>
         (case map_of (pg_leases ps) c of None \<Rightarrow> False | Some l \<Rightarrow> t < ls_expires l)"
  using live_same [OF assms, of c "\<lambda>_. True"]
  by (auto simp: mem_lease_def pg_lease_def split: option.splits)

lemma step_acquire:
  assumes "runs_related now ms ps" and "now \<le> t" and "same_contract ps (OpAcquire i owner ttl)"
  shows "step_same t (OpAcquire i owner ttl) ms ps"
proof -
  let ?c = "ri_conversation i"
  from assms(3) obtain x where x: "map_of (pg_rows ps) (ri_run i) = Some x"
    "validate_record_identity x i = None"
    by (auto simp: pg_record_def split: option.splits)
  have token: "fence_of (mm_fencing ms) ?c = pg_fence ps ?c"
    using relatedD(4) [OF assms(1)] by (metis mem_fence_def)
  let ?l = "\<lparr>ls_conversation = ?c, ls_run = ri_run i, ls_owner = owner,
              ls_token = pg_fence ps ?c + 1, ls_expires = t + seconds ttl\<rparr>"
  note views = views_lease [OF related_views [OF assms(1,2)], where c = ?c and l = ?l
      and run = "ri_run i" and x = "started_record x ?l t"]
  show ?thesis
  proof (cases "map_of (pg_leases ps) ?c")
    case None
    then show ?thesis
      using x token views live_row [OF assms(1,2), of ?c] related_rows [OF assms(1)]
      by (simp add: step_same_def mem_acquire_def pg_acquire_def Let_def pg_fence_def pg_lease_def)
  next
    case (Some l)
    then show ?thesis
      using x token views live_row [OF assms(1,2), of ?c] related_rows [OF assms(1)]
        related_views [OF assms(1,2)]
      by (auto simp: step_same_def mem_acquire_def pg_acquire_def Let_def pg_fence_def pg_lease_def)
  qed
qed

lemma step_guarded_fails:
  assumes "runs_related now ms ps" and "now \<le> t" and "lease_at_home ps l"
    and "\<not> mem_assert_lease t l ms"
  shows "pg_guarded_update message t l f ps = (Inl (StaleLeaseError message), ps)"
  using guard_same [OF assms(1,2) _ assms(3)] assms(4)
  by (auto simp: pg_guarded_update_def pg_record_def split: option.split)

lemma assert_lease_record:
  assumes "runs_related now ms ps" and "mem_assert_lease t l ms"
  shows "\<exists>x. map_of (pg_rows ps) (ls_run l) = Some x \<and> rd_fencing x = Some (ls_token l)"
proof -
  from assms(2) obtain cur where cur: "mem_lease ms (ls_conversation l) = Some cur" "same_owner cur l"
    by (auto simp: assert_lease_live)
  have "leases_sound (mem_record ms) (mem_lease ms) (mem_fence ms)"
    using relatedD(1) [OF assms(1)] by (simp add: mem_sound_def)
  from sound_lease(2,3) [OF this cur(1)] cur(2) show ?thesis
    using related_rows [OF assms(1)] by (auto simp: mem_record_def same_owner_def)
qed

lemma step_finish:
  assumes "runs_related now ms ps" and "now \<le> t" and "same_contract ps (OpFinish l oc)"
  shows "step_same t (OpFinish l oc) ms ps"
proof (cases "mem_assert_lease t l ms")
  case False
  then show ?thesis
    using step_guarded_fails [OF assms(1,2) _ False] assms(3) related_views [OF assms(1,2)]
    by (simp add: step_same_def mem_mark_terminal_def pg_mark_terminal_def stale_def)
next
  case True
  with assert_lease_record [OF assms(1)] obtain x where x: "map_of (pg_rows ps) (ls_run l) = Some x" by blast
  with True guard_same [OF assms(1,2), of l x] assms(3) have "pg_guard t l ps x"
    by (simp add: pg_record_def)
  moreover have "(case oc_payload oc of Some (kv # kvs) \<Rightarrow> Some (kv # kvs) | _ \<Rightarrow> None) = oc_payload oc"
    using assms(3) by (cases "oc_payload oc") (auto split: list.splits)
  moreover have "terminal_status (oc_status oc) \<longleftrightarrow> oc_status oc \<in> {Completed, Failed_run, Cancelled}"
    using assms(3) by (auto simp: terminal_status_def)
  ultimately show ?thesis
    using x True related_rows [OF assms(1)] views_record [OF related_views [OF assms(1,2)], where run = "ls_run l"]
    by (simp add: step_same_def mem_mark_terminal_def pg_mark_terminal_def pg_guarded_update_def
        finished_record_def Let_def)
qed

lemma step_history:
  assumes "runs_related now ms ps" and "now \<le> t" and "same_contract ps (OpHistory l p)"
  shows "step_same t (OpHistory l p) ms ps"
proof (cases "mem_assert_lease t l ms")
  case False
  then show ?thesis
    using step_guarded_fails [OF assms(1,2) _ False] assms(3) related_views [OF assms(1,2)]
    by (simp add: step_same_def mem_mark_history_def pg_mark_history_def stale_def)
next
  case True
  with assert_lease_record [OF assms(1)] obtain x where x: "map_of (pg_rows ps) (ls_run l) = Some x" by blast
  with True guard_same [OF assms(1,2), of l x] assms(3) have "pg_guard t l ps x" "rd_history x = None"
    by (simp_all add: pg_record_def)
  then show ?thesis
    using x True related_rows [OF assms(1)] views_record [OF related_views [OF assms(1,2)], where run = "ls_run l"]
    by (simp add: step_same_def mem_mark_history_def pg_mark_history_def pg_guarded_update_def
        reconciled_record_def Let_def)
qed


lemma step_renew:
  assumes "runs_related now ms ps" and "now \<le> t" and "same_contract ps (OpRenew l ttl)"
  shows "step_same t (OpRenew l ttl) ms ps"
proof (cases "mem_assert_lease t l ms")
  case False
  have "pg_renew (\<lambda>_. t) l ttl ps = (Inl stale, ps)"
  proof (cases "pg_lease ps (ls_conversation l)")
    case (Some cur)
    have "ls_conversation cur = ls_conversation l"
      using sound_lease(1) [of _ "pg_lease ps"] relatedD(2) [OF assms(1)] Some
      by (auto simp: pg_sound_def)
    with Some False live_same [OF assms(1,2), of "ls_conversation l" "\<lambda>m. same_owner m l"] show ?thesis
      by (auto simp: pg_renew_def assert_lease_live pg_lease_def same_owner_def Let_def)
  qed (simp add: pg_renew_def pg_lease_def)
  with False show ?thesis
    using related_views [OF assms(1,2)] by (simp add: step_same_def mem_renew_def)
next
  case True
  with assert_lease_record [OF assms(1)] obtain x where
    x: "map_of (pg_rows ps) (ls_run l) = Some x" "rd_fencing x = Some (ls_token l)" by blast
  from True live_same [OF assms(1,2), of "ls_conversation l" "\<lambda>m. same_owner m l"] obtain cur where
    cur: "pg_lease ps (ls_conversation l) = Some cur" "t < ls_expires cur" "same_owner cur l"
    by (auto simp: assert_lease_live)
  let ?l = "l\<lparr>ls_expires := t + seconds ttl\<rparr>"
  have eq: "cur\<lparr>ls_expires := t + seconds ttl\<rparr> = ?l"
    using cur(3) by (cases cur; cases l) (simp add: same_owner_def)
  with cur x True related_rows [OF assms(1)] show ?thesis
    using views_renewed [OF related_views [OF assms(1,2)] cur(1), where l = ?l and run = "ls_run l"
        and x = "x\<lparr>rd_expires := Some (t + seconds ttl), rd_updated := Some t\<rparr>"]
    by (simp add: step_same_def mem_renew_def pg_renew_def pg_lease_def same_owner_def Let_def eq)
qed

lemma step_release:
  assumes "runs_related now ms ps" and "now \<le> t"
  shows "step_same t (OpRelease l) ms ps"
proof (cases "pg_lease ps (ls_conversation l)")
  case None
  then have "mem_lease ms (ls_conversation l) = None"
    using relatedD(5) [OF assms(1), of "ls_conversation l"] by (cases "mem_lease ms (ls_conversation l)") auto
  with None show ?thesis
    using related_views [OF assms(1,2)]
    by (simp add: step_same_def mem_release_def pg_release_def mem_lease_def pg_lease_def)
next
  case (Some cur)
  have conv: "ls_conversation cur = ls_conversation l"
    using sound_lease(1) [of _ "pg_lease ps"] relatedD(2) [OF assms(1)] Some
    by (auto simp: pg_sound_def)
  show ?thesis
  proof (cases "mem_lease ms (ls_conversation l)")
    case None
    then show ?thesis
      using Some conv related_views [OF assms(1,2)] views_gone [OF related_views [OF assms(1,2)] Some None]
      by (simp add: step_same_def mem_release_def pg_release_def mem_lease_def pg_lease_def)
  next
    case mem: (Some m)
    with relatedD(5) [OF assms(1) mem] Some have "m = cur" by simp
    with mem show ?thesis
      using Some conv related_views [OF assms(1,2)] views_released [OF related_views [OF assms(1,2)] Some]
      by (simp add: step_same_def mem_release_def pg_release_def mem_lease_def pg_lease_def same_owner_def)
  qed
qed

lemma step_admin:
  assumes "runs_related now ms ps" and "now \<le> t"
  shows "same_contract ps (OpReconcile run p) \<Longrightarrow> step_same t (OpReconcile run p) ms ps"
    and "step_same t (OpRevoke run) ms ps"
  using related_views [OF assms] related_rows [OF assms(1)]
    views_record [OF related_views [OF assms], where run = run]
  by (auto simp: step_same_def mem_reconcile_def pg_reconcile_def mem_revoke_def pg_revoke_def
      pg_record_def no_record_def Let_def split: option.split)

lemma step_related:
  assumes "runs_related now ms ps" and "now \<le> t" and "same_contract ps op"
  shows "same_reply (fst (mem_exec (\<lambda>_. t) op ms)) (fst (pg_exec (\<lambda>_. t) op ps))"
    and "runs_related t (snd (mem_exec (\<lambda>_. t) op ms)) (snd (pg_exec (\<lambda>_. t) op ps))"
proof -
  have step: "step_same t op ms ps"
    using assms
    by (cases op) (simp_all only: step_create step_acquire step_renew step_release step_finish
        step_history step_admin)
  have ok: "op_ok (pg_record ps) op"
    using assms(3) validated_home by (cases op) (auto split: option.splits)
  show "same_reply (fst (mem_exec (\<lambda>_. t) op ms)) (fst (pg_exec (\<lambda>_. t) op ps))"
    using step by (simp add: step_same_def)
  show "runs_related t (snd (mem_exec (\<lambda>_. t) op ms)) (snd (pg_exec (\<lambda>_. t) op ps))"
    using step mem_sound_snd pg_sound_snd relatedD(1-3) [OF assms(1)] ok
    by (simp add: step_same_def same_views_def runs_related_def)
qed

section \<open>Whole histories\<close>

fun replies ::
  "((nat \<Rightarrow> time) \<Rightarrow> run_op \<Rightarrow> 's \<Rightarrow> run_reply result \<times> 's) \<Rightarrow> (time \<times> run_op) list \<Rightarrow> 's
   \<Rightarrow> run_reply result list" where
  "replies exec [] s = []"
| "replies exec ((t, op) # ops) s =
     (case exec (\<lambda>_. t) op s of (r, s') \<Rightarrow> r # replies exec ops s')"

text \<open>Time does not run backwards, and every call is one both repositories answer alike.\<close>

fun contract_history :: "time \<Rightarrow> (time \<times> run_op) list \<Rightarrow> pg_runs \<Rightarrow> bool" where
  "contract_history now [] ps = True"
| "contract_history now ((t, op) # ops) ps =
     (now \<le> t \<and> same_contract ps op \<and> contract_history t ops (snd (pg_exec (\<lambda>_. t) op ps)))"

lemma replies_related:
  "runs_related now ms ps \<Longrightarrow> contract_history now ops ps \<Longrightarrow>
     list_all2 same_reply (replies mem_exec ops ms) (replies pg_exec ops ps)"
proof (induction ops arbitrary: now ms ps)
  case (Cons call ops)
  obtain t op where call: "call = (t, op)" by fastforce
  with Cons.prems have now: "now \<le> t" and same: "same_contract ps op"
    and rest: "contract_history t ops (snd (pg_exec (\<lambda>_. t) op ps))" by simp_all
  from Cons.IH [OF step_related(2) [OF Cons.prems(1) now same] rest]
    step_related(1) [OF Cons.prems(1) now same] call
  show ?case by (simp add: case_prod_beta)
qed simp

lemma empty_related: "runs_related now empty_memory_runs empty_pg_runs"
  using empty_runs_sound
  by (auto simp: runs_related_def mem_views pg_views pg_fence_def empty_memory_runs_def
      empty_pg_runs_def fence_of_def fun_eq_iff)

text \<open>
  C9: the process-local repository implements the contract of the PostgreSQL one: on every
  history of calls the two start on empty, with time not running backwards, they give the same
  replies call by call, the same records, leases and tokens, and exceptions of the same class.
  The histories leave out what the two do differently: history committed twice, an empty
  payload, reconciling a run that is not finished, acquiring under a foreign identity.
\<close>

theorem memory_repository_matches_postgres:
  assumes "contract_history now ops empty_pg_runs"
  shows "list_all2 same_reply (replies mem_exec ops empty_memory_runs) (replies pg_exec ops empty_pg_runs)"
  using replies_related [OF empty_related assms] .

text \<open>Two owners in turn, the second after the first one's lease ran out.\<close>

definition sample_history :: "(time \<times> run_op) list" where
  "sample_history =
     [(0, OpCreate (sample_identity ''a'')), (1, OpAcquire (sample_identity ''a'') ''p'' 60),
      (2, OpAcquire (sample_identity ''a'') ''q'' 60), (100000000, OpAcquire (sample_identity ''a'') ''q'' 60),
      (100000001, OpFinish (sample_lease ''a'' ''p'' 1 60000001)
         \<lparr>oc_status = Completed, oc_payload = Some [(''x'', JNull)], oc_reason = None, oc_error = None,
          oc_checkpoint = None\<rparr>),
      (100000002, OpRelease (sample_lease ''a'' ''q'' 2 160000000)),
      (100000003, OpAcquire (sample_identity ''a'') ''r'' 60)]"

theorem memory_repository_matches_postgres_witness:
  "list_all2 same_reply (replies mem_exec sample_history empty_memory_runs)
     (replies pg_exec sample_history empty_pg_runs) \<and>
   map is_ok (replies pg_exec sample_history empty_pg_runs) =
     [True, True, False, True, False, True, True]"
proof
  have "contract_history 0 sample_history empty_pg_runs" by code_simp
  then show "list_all2 same_reply (replies mem_exec sample_history empty_memory_runs)
     (replies pg_exec sample_history empty_pg_runs)"
    by (rule memory_repository_matches_postgres)
  show "map is_ok (replies pg_exec sample_history empty_pg_runs) =
     [True, True, False, True, False, True, True]"
    by code_simp
qed

end
