(* ===== verification/JsonText.thy ===== *)
theory JsonText
  imports Json
begin

text \<open>
  Reading JSON text: \<open>json.loads\<close> on a string, as the standard library's scanner does it, and its
  round trip with \<open>json.dumps\<close>. The text of a number with a fraction or an exponent is turned
  into a float by the parameter \<open>fl\<close>. A \<open>\u\<close> escape beyond code point 255 lies outside the
  characters of the model and is not read.
\<close>

section \<open>Lexical parts\<close>

definition is_ws :: "char \<Rightarrow> bool" where
  "is_ws c \<longleftrightarrow> (of_char c :: nat) \<in> {32, 9, 10, 13}"

definition skip_ws :: "string \<Rightarrow> string" where
  "skip_ws s = dropWhile is_ws s"

definition is_decimal :: "char \<Rightarrow> bool" where
  "is_decimal c \<longleftrightarrow> 48 \<le> (of_char c :: nat) \<and> (of_char c :: nat) \<le> 57"

definition hex_value :: "char \<Rightarrow> nat option" where
  "hex_value c = (let n = of_char c in
     if 48 \<le> n \<and> n \<le> 57 then Some (n - 48)
     else if 97 \<le> n \<and> n \<le> 102 then Some (n - 87)
     else if 65 \<le> n \<and> n \<le> 70 then Some (n - 55) else None)"

fun hex4 :: "string \<Rightarrow> (nat \<times> string) option" where
  "hex4 (a # b # c # d # rest) =
     (case (hex_value a, hex_value b, hex_value c, hex_value d) of
        (Some i, Some j, Some k, Some l) \<Rightarrow> Some (((i * 16 + j) * 16 + k) * 16 + l, rest)
      | _ \<Rightarrow> None)"
| "hex4 _ = None"

text \<open>The letter after a backslash; \<open>None\<close> for \<open>u\<close> and for what is no escape.\<close>

definition short_escape :: "char \<Rightarrow> char option" where
  "short_escape e = (let n = (of_char e :: nat) in
     if n = 34 \<or> n = 92 \<or> n = 47 then Some e
     else if n = 98 then Some (char_of (8 :: nat))
     else if n = 102 then Some (char_of (12 :: nat))
     else if n = 110 then Some (char_of (10 :: nat))
     else if n = 114 then Some (char_of (13 :: nat))
     else if n = 116 then Some (char_of (9 :: nat)) else None)"

definition cons_char :: "char \<Rightarrow> (string \<times> string) option \<Rightarrow> (string \<times> string) option" where
  "cons_char c r = map_option (\<lambda>(t, rest). (c # t, rest)) r"

text \<open>The rest of a string literal, after its opening quote.\<close>

fun scan_string :: "nat \<Rightarrow> string \<Rightarrow> (string \<times> string) option" where
  "scan_string 0 s = None"
| "scan_string (Suc n) [] = None"
| "scan_string (Suc n) (c # cs) =
     (if of_char c = (34 :: nat) then Some ([], cs)
      else if of_char c = (92 :: nat) then
        (case cs of
           [] \<Rightarrow> None
         | e # es \<Rightarrow>
             if of_char e = (117 :: nat) then
               (case hex4 es of
                  None \<Rightarrow> None
                | Some (k, rest) \<Rightarrow>
                    if k < 256 then cons_char (char_of k) (scan_string n rest) else None)
             else (case short_escape e of
                     None \<Rightarrow> None
                   | Some x \<Rightarrow> cons_char x (scan_string n es)))
      else if of_char c < (32 :: nat) then None
      else cons_char c (scan_string n cs))"

definition nat_of_decimal :: "string \<Rightarrow> nat" where
  "nat_of_decimal ds = foldl (\<lambda>v c. v * 10 + (of_char c - 48)) 0 ds"

text \<open>The scanner's pattern: sign, integer part without leading zeros, fraction, exponent.\<close>

definition scan_int :: "string \<Rightarrow> (string \<times> string) option" where
  "scan_int s =
     (case s of
        [] \<Rightarrow> None
      | c # cs \<Rightarrow>
          if of_char c = (48 :: nat) then Some ([c], cs)
          else if is_decimal c then Some (takeWhile is_decimal s, dropWhile is_decimal s)
          else None)"

definition scan_fraction :: "string \<Rightarrow> string \<times> string" where
  "scan_fraction s =
     (case s of
        c # d # ds \<Rightarrow>
          if of_char c = (46 :: nat) \<and> is_decimal d
          then (c # takeWhile is_decimal (d # ds), dropWhile is_decimal (d # ds)) else ([], s)
      | _ \<Rightarrow> ([], s))"

definition scan_exponent :: "string \<Rightarrow> string \<times> string" where
  "scan_exponent s =
     (case s of
        c # cs \<Rightarrow>
          if of_char c = (101 :: nat) \<or> of_char c = (69 :: nat) then
            let sign = (case cs of d # _ \<Rightarrow>
                  if of_char d = (43 :: nat) \<or> of_char d = (45 :: nat) then [d] else [] | [] \<Rightarrow> []);
                ds = drop (length sign) cs
            in if takeWhile is_decimal ds = [] then ([], s)
               else (c # sign @ takeWhile is_decimal ds, dropWhile is_decimal ds)
          else ([], s)
      | [] \<Rightarrow> ([], s))"

definition scan_number :: "(string \<Rightarrow> pyfloat) \<Rightarrow> string \<Rightarrow> (json \<times> string) option" where
  "scan_number fl s =
     (let neg = starts_with ''-'' s;
          body = (if neg then tl s else s)
      in case scan_int body of
          None \<Rightarrow> None
        | Some (ds, r1) \<Rightarrow>
            case scan_fraction r1 of (fs, r2) \<Rightarrow>
            case scan_exponent r2 of (es, r3) \<Rightarrow>
              if fs = [] \<and> es = []
              then Some (JInt (if neg then - int (nat_of_decimal ds) else int (nat_of_decimal ds)), r1)
              else Some (JFloat (fl ((if neg then ''-'' else []) @ ds @ fs @ es)), r3))"

section \<open>Values\<close>

definition quote_mark :: char where
  "quote_mark = char_of (34 :: nat)"

text \<open>
  One value, the items after \<open>[\<close> and the members after an opening brace; every call takes a unit of fuel.
  Pairs are collected in order, a repeated key keeps its place and takes the last value.
\<close>

fun parse_value :: "(string \<Rightarrow> pyfloat) \<Rightarrow> nat \<Rightarrow> string \<Rightarrow> (json \<times> string) option"
and parse_items :: "(string \<Rightarrow> pyfloat) \<Rightarrow> nat \<Rightarrow> string \<Rightarrow> (json list \<times> string) option"
and parse_members :: "(string \<Rightarrow> pyfloat) \<Rightarrow> nat \<Rightarrow> jobj \<Rightarrow> string \<Rightarrow> (jobj \<times> string) option" where
  "parse_value fl 0 s = None"
| "parse_value fl (Suc n) s =
     (if starts_with [quote_mark] s
      then map_option (\<lambda>(t, r). (JStr t, r)) (scan_string (length s) (tl s))
      else if starts_with ''{'' s then
        (let r = skip_ws (tl s) in
         if starts_with ''}'' r then Some (JObj [], tl r)
         else map_option (\<lambda>(kvs, r'). (JObj kvs, r')) (parse_members fl n [] r))
      else if starts_with ''['' s then
        (let r = skip_ws (tl s) in
         if starts_with '']'' r then Some (JList [], tl r)
         else map_option (\<lambda>(xs, r'). (JList xs, r')) (parse_items fl n r))
      else if starts_with ''null'' s then Some (JNull, drop 4 s)
      else if starts_with ''true'' s then Some (JBool True, drop 4 s)
      else if starts_with ''false'' s then Some (JBool False, drop 5 s)
      else if starts_with ''NaN'' s then Some (JFloat (FNonFinite ''nan''), drop 3 s)
      else if starts_with ''Infinity'' s then Some (JFloat (FNonFinite ''inf''), drop 8 s)
      else if starts_with ''-Infinity'' s then Some (JFloat (FNonFinite ''-inf''), drop 9 s)
      else scan_number fl s)"
| "parse_items fl 0 s = None"
| "parse_items fl (Suc n) s =
     (case parse_value fl n s of
        None \<Rightarrow> None
      | Some (v, r) \<Rightarrow>
          let r' = skip_ws r in
          if starts_with '']'' r' then Some ([v], tl r')
          else if starts_with '','' r'
          then map_option (\<lambda>(vs, q). (v # vs, q)) (parse_items fl n (skip_ws (tl r')))
          else None)"
| "parse_members fl 0 acc s = None"
| "parse_members fl (Suc n) acc s =
     (if \<not> starts_with [quote_mark] s then None
      else case scan_string (length s) (tl s) of
        None \<Rightarrow> None
      | Some (k, r) \<Rightarrow>
          let r1 = skip_ws r in
          if \<not> starts_with '':'' r1 then None
          else case parse_value fl n (skip_ws (tl r1)) of
            None \<Rightarrow> None
          | Some (v, r2) \<Rightarrow>
              let r3 = skip_ws r2; acc' = alist_put k v acc in
              if starts_with ''}'' r3 then Some (acc', tl r3)
              else if starts_with '','' r3 then parse_members fl n acc' (skip_ws (tl r3))
              else None)"

text \<open>Every call reads at least one character, so the length of the text is fuel enough.\<close>

definition json_loads :: "(string \<Rightarrow> pyfloat) \<Rightarrow> string \<Rightarrow> json option" where
  "json_loads fl s =
     (case parse_value fl (Suc (2 * length s)) (skip_ws s) of
        Some (v, r) \<Rightarrow> if skip_ws r = [] then Some v else None
      | None \<Rightarrow> None)"


section \<open>Reading back what was written\<close>

lemma hex_value_digit [simp]: "n < 16 \<Longrightarrow> hex_value (hex_digit n) = Some n"
  by (auto simp: hex_value_def hex_digit_def Let_def)

lemma cons_char_Some [simp]: "cons_char c (Some (t, r)) = Some (c # t, r)"
  by (simp add: cons_char_def)

lemma hex4_low: "n < 256 \<Longrightarrow>
    hex4 (CHR ''0'' # CHR ''0'' # hex_digit (n div 16) # hex_digit (n mod 16) # rest) = Some (n, rest)"
proof -
  assume "n < 256"
  moreover have "hex_value (CHR ''0'') = Some 0" by (simp add: hex_value_def)
  ultimately show ?thesis by simp
qed

lemma scan_plain_char:
  "of_char c \<noteq> (34 :: nat) \<Longrightarrow> of_char c \<noteq> (92 :: nat) \<Longrightarrow> \<not> of_char c < (32 :: nat) \<Longrightarrow>
     scan_string (Suc n) (c # rest) = cons_char c (scan_string n rest)"
  by simp

lemma scan_escaped_char:
  "short_escape e = Some c \<Longrightarrow> of_char e \<noteq> (117 :: nat) \<Longrightarrow>
     scan_string (Suc n) (char_of (92 :: nat) # e # rest) = cons_char c (scan_string n rest)"
  by simp

lemma scan_low_char:
  assumes "of_char c < (32 :: nat)"
  shows "scan_string (Suc n) (char_of (92 :: nat) # CHR ''u'' # CHR ''0'' # CHR ''0''
           # hex_digit (of_char c div 16) # hex_digit (of_char c mod 16) # rest) =
         cons_char c (scan_string n rest)"
proof -
  have "(of_char c :: nat) < 256" using assms by simp
  from hex4_low [OF this] assms show ?thesis by (simp del: hex4.simps)
qed

lemma scan_json_char:
  "scan_string (Suc n) (json_char c @ rest) = cons_char c (scan_string n rest)"
proof -
  have c: "c = char_of k" if "of_char c = (k :: nat)" for k using that by (metis char_of_char)
  let ?k = "of_char c :: nat"
  consider "?k = 34 \<or> ?k = 92" | "?k = 10" | "?k = 13" | "?k = 9" | "?k = 8" | "?k = 12"
    | "?k < 32" "?k \<notin> {8, 9, 10, 12, 13}" | "\<not> ?k < 32" "?k \<noteq> 34" "?k \<noteq> 92" by auto
  then show ?thesis
  proof cases
    case 1
    then show ?thesis using scan_escaped_char [of c c n rest]
      by (auto simp: json_char_def short_escape_def simp del: scan_string.simps)
  next
    case 2
    then show ?thesis using scan_escaped_char [of "CHR ''n''" c n rest] c [OF 2]
      by (simp add: json_char_def short_escape_def del: scan_string.simps)
  next
    case 3
    then show ?thesis using scan_escaped_char [of "CHR ''r''" c n rest] c [OF 3]
      by (simp add: json_char_def short_escape_def del: scan_string.simps)
  next
    case 4
    then show ?thesis using scan_escaped_char [of "CHR ''t''" c n rest] c [OF 4]
      by (simp add: json_char_def short_escape_def del: scan_string.simps)
  next
    case 5
    then show ?thesis using scan_escaped_char [of "CHR ''b''" c n rest] c [OF 5]
      by (simp add: json_char_def short_escape_def del: scan_string.simps)
  next
    case 6
    then show ?thesis using scan_escaped_char [of "CHR ''f''" c n rest] c [OF 6]
      by (simp add: json_char_def short_escape_def del: scan_string.simps)
  next
    case 7
    then show ?thesis using scan_low_char [OF 7(1), of n rest]
      by (auto simp: json_char_def Let_def simp del: scan_string.simps)
  next
    case 8
    then show ?thesis using scan_plain_char [OF 8(2,3,1), of n rest]
      by (simp add: json_char_def Let_def del: scan_string.simps)
  qed
qed

declare scan_string.simps(3) [simp del]

lemma scan_written_string:
  "length s < n \<Longrightarrow> scan_string n (concat (map json_char s) @ quote_mark # rest) = Some (s, rest)"
proof (induction s arbitrary: n)
  case Nil
  then show ?case by (cases n) (auto simp: quote_mark_def scan_string.simps(3))
next
  case (Cons c s)
  then obtain m where "n = Suc m" "length s < m" by (cases n) auto
  with Cons.IH show ?case by (simp add: scan_json_char)
qed

lemma json_char_length: "1 \<le> length (json_char c)"
  by (simp add: json_char_def Let_def)

lemma escaped_length: "length s \<le> length (concat (map json_char s))"
proof (induction s)
  case (Cons c s)
  then show ?case using json_char_length [of c] by simp
qed simp


subsection \<open>Numbers\<close>

lemma digits_decimal: "list_all is_decimal (digits n)"
proof (induction n rule: digits.induct)
  case (1 n)
  have "is_decimal (char_of (48 + k :: nat))" if "k < 10" for k
    using that by (simp add: is_decimal_def)
  with 1 show ?case by (subst digits.simps) auto
qed

lemma nat_of_decimal_snoc: "nat_of_decimal (ds @ [c]) = nat_of_decimal ds * 10 + (of_char c - 48)"
  by (simp add: nat_of_decimal_def)

lemma nat_of_digits [simp]: "nat_of_decimal (digits n) = n"
proof (induction n rule: digits.induct)
  case (1 n)
  show ?case
  proof (cases "n < 10")
    case True
    then show ?thesis by (subst digits.simps) (simp add: nat_of_decimal_def)
  next
    case False
    then have "nat_of_decimal (digits n) = n div 10 * 10 + (n mod 10)"
      using 1 by (subst digits.simps) (simp add: nat_of_decimal_snoc)
    then show ?thesis by simp
  qed
qed

text \<open>Only zero starts with a zero.\<close>

lemma digits_head: "\<exists>c cs. digits n = c # cs \<and> is_decimal c \<and> (of_char c = (48 :: nat) \<longrightarrow> n = 0 \<and> cs = [])"
proof (induction n rule: digits.induct)
  case (1 n)
  show ?case
  proof (cases "n < 10")
    case True
    then show ?thesis by (subst digits.simps) (simp add: is_decimal_def)
  next
    case False
    from 1 [OF False] obtain c cs where h: "digits (n div 10) = c # cs" "is_decimal c"
      "of_char c = (48 :: nat) \<longrightarrow> n div 10 = 0 \<and> cs = []" by blast
    from False have "n div 10 \<noteq> 0" by auto
    with h False show ?thesis by (subst digits.simps) auto
  qed
qed

text \<open>What may follow a value: the end, a separator or a closing bracket.\<close>

definition after_value :: "string \<Rightarrow> bool" where
  "after_value rest \<longleftrightarrow> (case rest of [] \<Rightarrow> True | c # _ \<Rightarrow> c \<in> {CHR '','', CHR '']'', CHR ''}''})"

lemma after_value_cases:
  assumes "after_value rest"
  obtains "rest = []" | r where "rest = CHR '','' # r" | r where "rest = CHR '']'' # r"
    | r where "rest = CHR ''}'' # r"
  using assms by (cases rest) (auto simp: after_value_def)

lemma takeWhile_decimal:
  "list_all is_decimal ds \<Longrightarrow> after_value rest \<Longrightarrow>
     takeWhile is_decimal (ds @ rest) = ds \<and> dropWhile is_decimal (ds @ rest) = rest"
  by (cases rest) (auto simp: after_value_def is_decimal_def list_all_iff takeWhile_append dropWhile_append)

lemma scan_int_digits:
  assumes "after_value rest"
  shows "scan_int (digits n @ rest) = Some (digits n, rest)"
proof -
  from digits_head obtain c cs where h: "digits n = c # cs" "is_decimal c"
    "of_char c = (48 :: nat) \<longrightarrow> n = 0 \<and> cs = []" by blast
  show ?thesis
    using h takeWhile_decimal [OF digits_decimal assms, of n] by (auto simp: scan_int_def)
qed

lemma scan_rest_plain:
  "after_value rest \<Longrightarrow> scan_fraction rest = ([], rest) \<and> scan_exponent rest = ([], rest)"
  by (erule after_value_cases)
    (auto simp: scan_fraction_def scan_exponent_def split: list.split)

lemma digits_no_sign: "starts_with ''-'' (digits n @ rest) = False"
proof -
  from digits_head obtain c cs where "digits n = c # cs" "is_decimal c" by blast
  then show ?thesis by (auto simp: starts_with_def is_decimal_def)
qed

lemma scan_written_int: "after_value rest \<Longrightarrow> scan_number fl (show_int i @ rest) = Some (JInt i, rest)"
  using scan_int_digits scan_rest_plain digits_no_sign [of "nat i" rest]
  by (auto simp: scan_number_def show_int_def starts_with_def)

subsection \<open>Values\<close>

text \<open>Values without floats, whose objects have distinct keys.\<close>

fun plain_json :: "json \<Rightarrow> bool" where
  "plain_json (JFloat _) = False"
| "plain_json (JList xs) = list_all plain_json xs"
| "plain_json (JObj kvs) = (distinct (map fst kvs) \<and> list_all (\<lambda>kv. plain_json (snd kv)) kvs)"
| "plain_json _ = True"

definition separators :: "string \<Rightarrow> string \<Rightarrow> bool" where
  "separators isep ksep \<longleftrightarrow> isep \<in> {'','', '', ''} \<and> ksep \<in> {'':'', '': ''}"

text \<open>The first character of a written value is no white space and decides the scanner's branch.\<close>

definition value_start :: "string \<Rightarrow> bool" where
  "value_start s \<longleftrightarrow> (case s of [] \<Rightarrow> False | c # _ \<Rightarrow> \<not> is_ws c \<and> c \<notin> {CHR '']'', CHR ''}''})"

lemma show_int_start: "\<exists>c cs. show_int i = c # cs \<and> (is_decimal c \<or> c = CHR ''-'')"
  using digits_head by (auto simp: show_int_def) (metis append_Cons)+

lemma quote_char: "char_of (34 :: nat) = CHR 0x22"
  by code_simp

lemma dumps_start: "plain_json v \<Longrightarrow> value_start (dumps isep ksep False v @ rest)"
proof (cases v)
  case (JInt i)
  from show_int_start [of i] JInt show ?thesis
    by (auto simp: value_start_def is_ws_def is_decimal_def)
qed (auto simp: value_start_def is_ws_def json_string_def quote_char)

lemma skip_start: "value_start s \<Longrightarrow> skip_ws s = s"
  by (cases s) (auto simp: value_start_def skip_ws_def)

lemma value_start_open: "value_start s \<Longrightarrow> \<not> starts_with '']'' s \<and> \<not> starts_with ''}'' s"
  by (cases s) (auto simp: value_start_def starts_with_def)

lemma skip_separator:
  "separators isep ksep \<Longrightarrow> value_start s \<Longrightarrow>
     starts_with '','' (isep @ s) \<and> skip_ws (tl (isep @ s)) = s \<and> skip_ws (isep @ s) = isep @ s \<and>
     starts_with '':'' (ksep @ s) \<and> skip_ws (tl (ksep @ s)) = s \<and> skip_ws (ksep @ s) = ksep @ s \<and>
     after_value (isep @ s) \<and> \<not> starts_with '']'' (isep @ s) \<and> \<not> starts_with ''}'' (isep @ s)"
  using skip_start [of s]
  by (auto simp: separators_def starts_with_def skip_ws_def is_ws_def after_value_def)


lemma scan_literal:
  assumes "n = Suc m"
  shows "parse_value fl n (''null'' @ rest) = Some (JNull, rest)"
    and "parse_value fl n (''true'' @ rest) = Some (JBool True, rest)"
    and "parse_value fl n (''false'' @ rest) = Some (JBool False, rest)"
  using assms by (simp_all add: starts_with_def quote_mark_def quote_char)

lemma parse_written_string:
  "parse_value fl (Suc n) (json_string s @ rest) = Some (JStr s, rest)"
proof -
  have "length s < length (json_string s @ rest)"
    using escaped_length [of s] by (simp add: json_string_def)
  from scan_written_string [OF this, of rest] show ?thesis
    by (simp add: json_string_def starts_with_def quote_mark_def)
qed

lemma parse_written_int:
  assumes "after_value rest"
  shows "parse_value fl (Suc n) (show_int i @ rest) = Some (JInt i, rest)"
proof -
  obtain c cs where h: "show_int i = c # cs" "is_decimal c \<or> c = CHR ''-''" using show_int_start by blast
  have "\<not> starts_with ''-Infinity'' (show_int i @ rest)"
  proof (cases "i < 0")
    case True
    then obtain d ds where "show_int i = CHR ''-'' # d # ds" "is_decimal d"
      using digits_head [of "nat (- i)"] by (auto simp: show_int_def)
    then show ?thesis by (auto simp: starts_with_def is_decimal_def)
  next
    case False
    then show ?thesis using digits_head [of "nat i"] by (auto simp: show_int_def starts_with_def is_decimal_def)
  qed
  moreover have "\<not> starts_with [quote_mark] (show_int i @ rest)" "\<not> starts_with ''{'' (show_int i @ rest)"
    "\<not> starts_with ''['' (show_int i @ rest)" "\<not> starts_with ''null'' (show_int i @ rest)"
    "\<not> starts_with ''true'' (show_int i @ rest)" "\<not> starts_with ''false'' (show_int i @ rest)"
    "\<not> starts_with ''NaN'' (show_int i @ rest)" "\<not> starts_with ''Infinity'' (show_int i @ rest)"
    using h by (auto simp: starts_with_def is_decimal_def quote_mark_def quote_char)
  ultimately show ?thesis using scan_written_int [OF assms, of fl i] by simp
qed

text \<open>Every call of the scanner gets more fuel than the text it still has to read.\<close>

definition reads_back :: "(string \<Rightarrow> pyfloat) \<Rightarrow> string \<Rightarrow> string \<Rightarrow> json \<Rightarrow> bool" where
  "reads_back fl isep ksep v \<longleftrightarrow>
     (\<forall>n rest. length (dumps isep ksep False v) \<le> n \<longrightarrow> after_value rest \<longrightarrow>
        parse_value fl n (dumps isep ksep False v @ rest) = Some (v, rest))"

lemma reads_backD:
  "reads_back fl isep ksep v \<Longrightarrow> length (dumps isep ksep False v) \<le> n \<Longrightarrow> after_value rest \<Longrightarrow>
     parse_value fl n (dumps isep ksep False v @ rest) = Some (v, rest)"
  by (simp add: reads_back_def)

lemma dumps_nonempty: "plain_json v \<Longrightarrow> 0 < length (dumps isep ksep False v)"
  using dumps_start [of v isep ksep "[]"] by (auto simp: value_start_def split: list.splits)

lemma join_Cons: "xs \<noteq> [] \<Longrightarrow> join sep (x # xs) = x @ sep @ join sep xs"
  by (cases xs) auto

lemma items_start:
  "xs \<noteq> [] \<Longrightarrow> list_all plain_json xs \<Longrightarrow> value_start (join isep (map (dumps isep ksep False) xs) @ rest)"
proof (cases xs)
  case (Cons x ys)
  assume "list_all plain_json xs"
  then show ?thesis
    using Cons dumps_start [of x isep ksep] by (cases ys) simp_all
qed simp

lemma parse_written_items:
  assumes "separators isep ksep" and "xs \<noteq> []" and "\<And>x. x \<in> set xs \<Longrightarrow> plain_json x \<and> reads_back fl isep ksep x"
    and "length (join isep (map (dumps isep ksep False) xs)) < n"
  shows "parse_items fl n (join isep (map (dumps isep ksep False) xs) @ CHR '']'' # rest) = Some (xs, rest)"
  using assms(2-4)
proof (induction xs arbitrary: n)
  case (Cons x xs)
  then obtain m where n: "n = Suc m" by (cases n) auto
  have x: "plain_json x" "reads_back fl isep ksep x" using Cons.prems by auto
  show ?case
  proof (cases "xs = []")
    case True
    have "parse_value fl m (dumps isep ksep False x @ CHR '']'' # rest) = Some (x, CHR '']'' # rest)"
      using x(2) Cons.prems(3) True n unfolding reads_back_def by (simp add: after_value_def)
    with True n show ?thesis by (simp add: skip_ws_def is_ws_def starts_with_def)
  next
    case False
    let ?more = "join isep (map (dumps isep ksep False) xs) @ CHR '']'' # rest"
    have "list_all plain_json xs" using Cons.prems(2) by (simp add: list_all_iff)
    then have "value_start ?more" using False by (intro items_start)
    note sep = skip_separator [OF assms(1) this]
    have written: "join isep (map (dumps isep ksep False) (x # xs)) =
        dumps isep ksep False x @ isep @ join isep (map (dumps isep ksep False) xs)"
      using False by (simp add: join_Cons)
    have "length isep \<ge> 1" using assms(1) by (auto simp: separators_def)
    with Cons.prems(3) written n dumps_nonempty [OF x(1), of isep ksep]
    have len: "length (dumps isep ksep False x) \<le> m"
      "length (join isep (map (dumps isep ksep False) xs)) < m" by auto
    have "parse_value fl m (dumps isep ksep False x @ isep @ ?more) = Some (x, isep @ ?more)"
      using x(2) len(1) sep unfolding reads_back_def by simp
    moreover have "parse_items fl m ?more = Some (xs, rest)"
      using Cons.IH [OF False _ len(2)] Cons.prems(2) by simp
    ultimately show ?thesis using sep n written by simp
  qed
qed simp

definition written_member :: "string \<Rightarrow> string \<Rightarrow> string \<times> json \<Rightarrow> string" where
  "written_member isep ksep kv = json_string (fst kv) @ ksep @ dumps isep ksep False (snd kv)"

lemma scan_key:
  "length s < n \<Longrightarrow> starts_with [quote_mark] (json_string s @ rest) \<and>
     scan_string n (tl (json_string s @ rest)) = Some (s, rest)"
  using scan_written_string [of s n rest]
  by (simp add: json_string_def starts_with_def quote_mark_def)

lemma json_string_length: "length s < length (json_string s)"
  using escaped_length [of s] by (simp add: json_string_def)

lemma member_start: "value_start (written_member isep ksep kv @ rest)"
  by (auto simp: value_start_def is_ws_def written_member_def json_string_def quote_char)

lemma parse_written_members:
  assumes "separators isep ksep" and "kvs \<noteq> []"
    and "\<And>kv. kv \<in> set kvs \<Longrightarrow> plain_json (snd kv) \<and> reads_back fl isep ksep (snd kv)"
    and "length (join isep (map (written_member isep ksep) kvs)) < n"
    and "distinct (map fst (acc @ kvs))"
  shows "parse_members fl n acc (join isep (map (written_member isep ksep) kvs) @ CHR ''}'' # rest) =
           Some (acc @ kvs, rest)"
  using assms(2-5)
proof (induction kvs arbitrary: n acc)
  case (Cons kv kvs)
  obtain k v where kv: "kv = (k, v)" by (cases kv)
  from Cons.prems(3) obtain m where n: "n = Suc m" by (cases n) auto
  have v: "plain_json v" "reads_back fl isep ksep v" using Cons.prems(2) [of kv] kv by auto
  have put: "alist_put k v acc = acc @ [kv]"
    using Cons.prems(4) kv by (intro trans [OF alist_put_fresh]) auto
  let ?last = "CHR ''}'' # rest"
  have key: "starts_with [quote_mark] (json_string k @ r) \<and>
      scan_string (length (json_string k @ r)) (tl (json_string k @ r)) = Some (k, r)" for r
    by (rule scan_key) (use json_string_length [of k] in simp)
  note start = dumps_start [OF v(1), of isep ksep]
  note sep1 = skip_separator [OF assms(1) start]
  have value_read: "length (dumps isep ksep False v) \<le> m \<Longrightarrow> after_value r \<Longrightarrow>
      parse_value fl m (dumps isep ksep False v @ r) = Some (v, r)" for r
    using v(2) unfolding reads_back_def by blast
  show ?case
  proof (cases "kvs = []")
    case True
    have len: "length (dumps isep ksep False v) \<le> m"
      using Cons.prems(3) True n kv by (simp add: written_member_def)
    from key [of "ksep @ dumps isep ksep False v @ ?last"] sep1 [of ?last] value_read [OF len, of ?last] True n kv put
    show ?thesis
      by (simp add: written_member_def after_value_def skip_ws_def is_ws_def starts_with_def)
  next
    case False
    let ?more = "join isep (map (written_member isep ksep) kvs) @ ?last"
    have "value_start ?more"
      using False member_start [of isep ksep] by (cases kvs; cases "tl kvs") auto
    note sep = skip_separator [OF assms(1) this]
    have written: "join isep (map (written_member isep ksep) (kv # kvs)) =
        json_string k @ ksep @ dumps isep ksep False v @ isep @ join isep (map (written_member isep ksep) kvs)"
      using False kv by (simp add: join_Cons written_member_def)
    have "length isep \<ge> 1" using assms(1) by (auto simp: separators_def)
    with Cons.prems(3) written n
    have len: "length (dumps isep ksep False v) \<le> m"
      "length (join isep (map (written_member isep ksep) kvs)) < m"
      using json_string_length [of k] by auto
    have more: "parse_members fl m (acc @ [kv]) ?more = Some ((acc @ [kv]) @ kvs, rest)"
      using Cons.prems(2,4) by (intro Cons.IH [OF False _ len(2)]) auto
    from key [of "ksep @ dumps isep ksep False v @ isep @ ?more"] sep sep1 [of "isep @ ?more"]
      value_read [OF len(1), of "isep @ ?more"] n kv put more written
    show ?thesis by (simp add: Let_def)
  qed
qed simp

subsection \<open>Round trip\<close>

lemma dumps_members:
  "dumps isep ksep False (JObj kvs) = ''{'' @ join isep (map (written_member isep ksep) kvs) @ ''}''"
  by (simp add: Let_def written_member_def [abs_def] o_def)

lemma written_reads_back:
  assumes "separators isep ksep"
  shows "plain_json v \<Longrightarrow> reads_back fl isep ksep v"
proof (induction v)
  case JNull
  show ?case unfolding reads_back_def
    by (intro allI impI, case_tac n) (use scan_literal(1) in auto)
next
  case (JBool b)
  show ?case unfolding reads_back_def
    by (intro allI impI, case_tac n; cases b) (use scan_literal(2,3) in auto)
next
  case (JInt i)
  have "0 < length (show_int i)" using show_int_start [of i] by auto
  then show ?case unfolding reads_back_def
    by (intro allI impI, case_tac n) (use parse_written_int [of _ fl _ i] in \<open>auto simp del: parse_value.simps\<close>)
next
  case (JStr t)
  have "json_string t \<noteq> []" using json_string_length [of t] by auto
  then show ?case unfolding reads_back_def
    by (intro allI impI, case_tac n) (use parse_written_string [of fl _ t] in \<open>auto simp del: parse_value.simps\<close>)
next
  case (JList xs)
  have items: "plain_json x \<and> reads_back fl isep ksep x" if "x \<in> set xs" for x
    using JList that by (auto simp: list_all_iff)
  show ?case unfolding reads_back_def
  proof (intro allI impI)
    fix n rest
    assume len: "length (dumps isep ksep False (JList xs)) \<le> n"
    let ?body = "join isep (map (dumps isep ksep False) xs)"
    from len obtain m where n: "n = Suc m" "length ?body < m" by (cases n) auto
    show "parse_value fl n (dumps isep ksep False (JList xs) @ rest) = Some (JList xs, rest)"
    proof (cases "xs = []")
      case True
      with n show ?thesis by (simp add: starts_with_def quote_mark_def quote_char skip_ws_def is_ws_def)
    next
      case False
      have "value_start (?body @ CHR '']'' # rest)"
        using False JList.prems by (intro items_start) auto
      then have "skip_ws (?body @ CHR '']'' # rest) = ?body @ CHR '']'' # rest"
        "\<not> starts_with '']'' (?body @ CHR '']'' # rest)"
        using value_start_open by (auto simp: skip_start)
      with n parse_written_items [OF assms False items n(2)] show ?thesis
        by (simp add: starts_with_def quote_mark_def quote_char)
    qed
  qed
next
  case (JObj kvs)
  have members: "plain_json (snd kv) \<and> reads_back fl isep ksep (snd kv)" if "kv \<in> set kvs" for kv
    using JObj that by (cases kv) (auto simp: list_all_iff)
  show ?case unfolding reads_back_def
  proof (intro allI impI)
    fix n rest
    assume len: "length (dumps isep ksep False (JObj kvs)) \<le> n"
    let ?body = "join isep (map (written_member isep ksep) kvs)"
    from len obtain m where n: "n = Suc m" "length ?body < m" unfolding dumps_members by (cases n) auto
    show "parse_value fl n (dumps isep ksep False (JObj kvs) @ rest) = Some (JObj kvs, rest)"
      unfolding dumps_members
    proof (cases "kvs = []")
      case True
      with n show "parse_value fl n ((''{'' @ ?body @ ''}'') @ rest) = Some (JObj kvs, rest)"
        by (simp add: starts_with_def quote_mark_def quote_char skip_ws_def is_ws_def)
    next
      case False
      have "value_start (?body @ CHR ''}'' # rest)"
        using False member_start [of isep ksep] by (cases kvs; cases "tl kvs") auto
      then have "skip_ws (?body @ CHR ''}'' # rest) = ?body @ CHR ''}'' # rest"
        "\<not> starts_with ''}'' (?body @ CHR ''}'' # rest)"
        using value_start_open by (auto simp: skip_start)
      with n JObj.prems parse_written_members [OF assms False members n(2), of "[]"]
      show "parse_value fl n ((''{'' @ ?body @ ''}'') @ rest) = Some (JObj kvs, rest)"
        by (simp add: starts_with_def quote_mark_def quote_char)
    qed
  qed
qed simp_all

lemma loads_dumps:
  assumes "separators isep ksep" and "plain_json v"
  shows "json_loads fl (dumps isep ksep False v) = Some v"
proof -
  let ?s = "dumps isep ksep False v"
  have "parse_value fl (Suc (2 * length ?s)) (?s @ []) = Some (v, [])"
    by (rule reads_backD [OF written_reads_back [OF assms]]) (simp_all add: after_value_def)
  moreover have "skip_ws ?s = ?s" using dumps_start [OF assms(2), of isep ksep "[]"] by (simp add: skip_start)
  ultimately show ?thesis by (simp add: json_loads_def skip_ws_def del: parse_value.simps)
qed

text \<open>With \<open>sort_keys\<close>, the value read back has its objects sorted by key.\<close>

fun sort_keys :: "json \<Rightarrow> json" where
  "sort_keys (JList xs) = JList (map sort_keys xs)"
| "sort_keys (JObj kvs) = JObj (sort_key fst (map (\<lambda>kv. (fst kv, sort_keys (snd kv))) kvs))"
| "sort_keys v = v"

lemma sort_key_map: "(\<And>x. f (g x) = h x) \<Longrightarrow> sort_key f (map g xs) = map g (sort_key h xs)"
proof (induction xs)
  case (Cons x xs)
  have "insort_key f (g x) (map g ys) = map g (insort_key h x ys)" for ys
    by (induction ys) (simp_all add: Cons.prems)
  with Cons show ?case by simp
qed simp

lemma dumps_sorted: "dumps isep ksep True v = dumps isep ksep False (sort_keys v)"
proof (induction v)
  case (JList xs)
  then have "map (dumps isep ksep True) xs = map (dumps isep ksep False) (map sort_keys xs)" by simp
  then show ?case by (simp only: dumps.simps sort_keys.simps)
next
  case (JObj kvs)
  let ?w = "\<lambda>kv. (fst kv, json_string (fst kv) @ ksep @ dumps isep ksep False (snd kv))"
  have written: "map (\<lambda>kv. (fst kv, json_string (fst kv) @ ksep @ dumps isep ksep True (snd kv))) kvs =
      map ?w (map (\<lambda>kv. (fst kv, sort_keys (snd kv))) kvs)"
    using JObj by (auto simp: fsts.simps snds.simps)
  have "sort_key fst (map (\<lambda>kv. (fst kv, json_string (fst kv) @ ksep @ dumps isep ksep True (snd kv))) kvs) =
      map ?w (sort_key fst (map (\<lambda>kv. (fst kv, sort_keys (snd kv))) kvs))"
    unfolding written by (rule sort_key_map) simp
  then show ?case by (simp add: Let_def)
qed simp_all

lemma distinct_keys_sorted: "distinct (map fst kvs) \<Longrightarrow> distinct (map fst (sort_key fst kvs))"
  by (simp add: distinct_map)

lemma plain_sort_keys: "plain_json v \<Longrightarrow> plain_json (sort_keys v)"
proof (induction v)
  case (JObj kvs)
  have "map fst (map (\<lambda>kv. (fst kv, sort_keys (snd kv))) kvs) = map fst kvs" by simp
  with JObj.prems have "distinct (map fst (sort_key fst (map (\<lambda>kv. (fst kv, sort_keys (snd kv))) kvs)))"
    by (intro distinct_keys_sorted) (simp add: o_def)
  moreover have "plain_json (sort_keys (snd kv))" if "kv \<in> set kvs" for kv
    using JObj that by (cases kv) (auto simp: list_all_iff)
  ultimately show ?case by (auto simp: list_all_iff)
qed (auto simp: list_all_iff)

lemma loads_dumps_sorted:
  assumes "separators isep ksep" and "plain_json v"
  shows "json_loads fl (dumps isep ksep True v) = Some (sort_keys v)"
  using loads_dumps [OF assms(1) plain_sort_keys [OF assms(2)]] by (simp add: dumps_sorted)

text \<open>Sorting the keys changes neither the keys nor what each of them holds.\<close>

lemma map_of_sorted: "distinct (map fst kvs) \<Longrightarrow> map_of (sort_key fst kvs) = map_of kvs"
  using distinct_keys_sorted [of kvs] by (intro map_of_inject_set [THEN iffD2]) simp_all

end
