(* ===== verification/Stores.thy ===== *)
theory Stores
  imports JsonText Config
begin

text \<open>
  Conversation history, \<open>src/app/state/\<close>: the bounded process-local store of \<open>in_memory.py\<close>, the
  PostgreSQL store of \<open>postgres.py\<close> over its two tables and the Redis store of \<open>redis.py\<close> over one
  key space. A message is a
  dictionary. Each operation is atomic: it runs under the store's lock, in one transaction, or as
  one script. Connection handling is not modelled; \<open>now\<close> is the clock reading of the call.
\<close>

section \<open>The process-local store\<close>

record store_limits =
  sl_ttl :: int
  sl_sessions :: nat
  sl_messages :: nat

record memory_store =
  ms_data :: "(string \<times> (time \<times> jobj list)) list"
  ms_committed :: "(string \<times> string list) list"

definition store_init :: "int \<Rightarrow> int \<Rightarrow> int \<Rightarrow> store_limits result" where
  "store_init ttl sessions messages =
     (if ttl \<le> 0 then Inl (ValueError ''ttl_seconds must be positive'')
      else if sessions \<le> 0 then Inl (ValueError ''max_sessions must be positive'')
      else if messages \<le> 0 then Inl (ValueError ''max_messages must be positive'')
      else Inr \<lparr>sl_ttl = ttl, sl_sessions = nat sessions, sl_messages = nat messages\<rparr>)"

definition empty_store :: memory_store where
  "empty_store = \<lparr>ms_data = [], ms_committed = []\<rparr>"

definition expired_at :: "time \<Rightarrow> store_limits \<Rightarrow> time \<times> jobj list \<Rightarrow> bool" where
  "expired_at now bd e \<longleftrightarrow> fst e < now - seconds (sl_ttl bd)"

definition store_purge :: "time \<Rightarrow> store_limits \<Rightarrow> memory_store \<Rightarrow> memory_store" where
  "store_purge now bd s =
     (let expired = map fst (filter (\<lambda>kv. expired_at now bd (snd kv)) (ms_data s))
      in \<lparr>ms_data = filter (\<lambda>kv. fst kv \<notin> set expired) (ms_data s),
          ms_committed = filter (\<lambda>kv. fst kv \<notin> set expired) (ms_committed s)\<rparr>)"

definition store_get ::
  "time \<Rightarrow> store_limits \<Rightarrow> string \<Rightarrow> memory_store \<Rightarrow> jobj list \<times> memory_store" where
  "store_get now bd k s =
     (if k = [] then ([], s)
      else let s' = store_purge now bd s in
        case map_of (ms_data s') k of
          None \<Rightarrow> ([], s')
        | Some (_, messages) \<Rightarrow>
            (messages, s'\<lparr>ms_data := alist_put_last k (now, messages) (ms_data s')\<rparr>))"

text \<open>The loop that pops the oldest sessions.\<close>

definition evict_oldest :: "store_limits \<Rightarrow> memory_store \<Rightarrow> memory_store" where
  "evict_oldest bd s =
     (let n = length (ms_data s) - sl_sessions bd; out = map fst (take n (ms_data s))
      in \<lparr>ms_data = drop n (ms_data s),
          ms_committed = filter (\<lambda>kv. fst kv \<notin> set out) (ms_committed s)\<rparr>)"

definition append_locked ::
  "time \<Rightarrow> store_limits \<Rightarrow> string \<Rightarrow> jobj list \<Rightarrow> memory_store \<Rightarrow> memory_store" where
  "append_locked now bd k messages s =
     (let current = (case map_of (ms_data s) k of None \<Rightarrow> [] | Some (_, ms) \<Rightarrow> ms)
      in evict_oldest bd
           (s\<lparr>ms_data := alist_put_last k (now, last_n (sl_messages bd) (current @ messages)) (ms_data s)\<rparr>))"

definition store_append ::
  "time \<Rightarrow> store_limits \<Rightarrow> string \<Rightarrow> jobj list \<Rightarrow> memory_store \<Rightarrow> unit result \<times> memory_store" where
  "store_append now bd k messages s =
     (if k = [] then (Inl (ValueError ''conversation key must not be empty''), s)
      else if messages = [] then (Inr (), s)
      else (Inr (), append_locked now bd k messages (store_purge now bd s)))"

definition store_append_turn ::
  "time \<Rightarrow> store_limits \<Rightarrow> string \<Rightarrow> string \<Rightarrow> jobj \<Rightarrow> jobj \<Rightarrow> memory_store \<Rightarrow> bool result \<times> memory_store" where
  "store_append_turn now bd k run user assistant s =
     (if k = [] \<or> run = []
      then (Inl (ValueError ''conversation key and run_id must not be empty''), s)
      else
        let s' = store_purge now bd s;
            committed = (case map_of (ms_committed s') k of None \<Rightarrow> [] | Some runs \<Rightarrow> runs);
            s'' = s'\<lparr>ms_committed := alist_put k committed (ms_committed s')\<rparr>
        in if run \<in> set committed then (Inr False, s'')
           else let t = append_locked now bd k [user, assistant] s''
                in (Inr True, t\<lparr>ms_committed := alist_put k (run # committed) (ms_committed t)\<rparr>))"

definition store_clear :: "string option \<Rightarrow> memory_store \<Rightarrow> memory_store" where
  "store_clear k s =
     (case k of
        None \<Rightarrow> empty_store
      | Some k \<Rightarrow> \<lparr>ms_data = alist_del k (ms_data s), ms_committed = alist_del k (ms_committed s)\<rparr>)"

section \<open>The PostgreSQL store\<close>

text \<open>
  A \<open>JSONB\<close> column holds the value it was given; the order of its keys is not observable.
  \<open>app_conversation_messages\<close> is the list of its rows in insertion order.
\<close>

record message_row =
  mr_thread :: string
  mr_seq :: int
  mr_role :: string
  mr_content :: string
  mr_metadata :: json
  mr_run :: "string option"
  mr_kind :: "string option"

record pg_store =
  ps_rows :: "message_row list"
  ps_commits :: "(string \<times> string) list"

definition str_get :: "jobj \<Rightarrow> string \<Rightarrow> string \<Rightarrow> string" where
  "str_get m k d = (case map_of m k of None \<Rightarrow> d | Some v \<Rightarrow> py_str v)"

definition metadata_column :: "jobj \<Rightarrow> json" where
  "metadata_column m = or_else (jget m ''metadata'') (JObj [])"

definition thread_rows :: "string \<Rightarrow> pg_store \<Rightarrow> message_row list" where
  "thread_rows t s = filter (\<lambda>r. mr_thread r = t) (ps_rows s)"

text \<open>\<open>ORDER BY sequence_no DESC LIMIT n\<close>, turned round again.\<close>

definition newest_rows :: "nat \<Rightarrow> string \<Rightarrow> pg_store \<Rightarrow> message_row list" where
  "newest_rows n t s = last_n n (sort_key mr_seq (thread_rows t s))"

definition row_message :: "message_row \<Rightarrow> jobj" where
  "row_message r =
     [(''role'', JStr (mr_role r)), (''content'', JStr (mr_content r)),
      (''metadata'', JObj (obj_fields (mr_metadata r)))]"

definition pg_history :: "nat \<Rightarrow> string \<Rightarrow> pg_store \<Rightarrow> jobj list" where
  "pg_history n t s = map row_message (newest_rows n t s)"

definition next_sequence :: "string \<Rightarrow> pg_store \<Rightarrow> int" where
  "next_sequence t s =
     (case map mr_seq (thread_rows t s) of [] \<Rightarrow> 1 | q # qs \<Rightarrow> foldl max q qs + 1)"

definition pg_trim :: "nat \<Rightarrow> string \<Rightarrow> pg_store \<Rightarrow> pg_store" where
  "pg_trim n t s =
     (let kept = map mr_seq (newest_rows n t s)
      in s\<lparr>ps_rows := filter (\<lambda>r. mr_thread r \<noteq> t \<or> mr_seq r \<in> set kept) (ps_rows s)\<rparr>)"

definition plain_row :: "string \<Rightarrow> int \<Rightarrow> jobj \<Rightarrow> message_row" where
  "plain_row t q m =
     \<lparr>mr_thread = t, mr_seq = q, mr_role = str_get m ''role'' ''assistant'',
      mr_content = str_get m ''content'' [], mr_metadata = metadata_column m,
      mr_run = None, mr_kind = None\<rparr>"

definition turn_row :: "string \<Rightarrow> int \<Rightarrow> string \<Rightarrow> string \<Rightarrow> jobj \<Rightarrow> message_row" where
  "turn_row t q run kind m =
     \<lparr>mr_thread = t, mr_seq = q, mr_role = str_get m ''role'' kind,
      mr_content = str_get m ''content'' [], mr_metadata = metadata_column m,
      mr_run = Some run, mr_kind = Some kind\<rparr>"

definition pg_append :: "nat \<Rightarrow> string \<Rightarrow> jobj list \<Rightarrow> pg_store \<Rightarrow> pg_store" where
  "pg_append n t messages s =
     (if messages = [] then s
      else let q = next_sequence t s in
        pg_trim n t (s\<lparr>ps_rows := ps_rows s @ map (\<lambda>(i, m). plain_row t (q + int i) m) (enumerate 0 messages)\<rparr>))"

text \<open>\<open>ON CONFLICT DO NOTHING\<close> under the two unique constraints.\<close>

definition row_conflict :: "pg_store \<Rightarrow> message_row \<Rightarrow> bool" where
  "row_conflict s r \<longleftrightarrow> list_ex (\<lambda>o'. mr_thread o' = mr_thread r \<and>
     (mr_seq o' = mr_seq r \<or> mr_run o' = mr_run r \<and> mr_kind o' = mr_kind r)) (ps_rows s)"

definition insert_row :: "message_row \<Rightarrow> pg_store \<Rightarrow> pg_store" where
  "insert_row r s = (if row_conflict s r then s else s\<lparr>ps_rows := ps_rows s @ [r]\<rparr>)"

definition pg_append_turn ::
  "nat \<Rightarrow> string \<Rightarrow> string \<Rightarrow> jobj \<Rightarrow> jobj \<Rightarrow> pg_store \<Rightarrow> bool \<times> pg_store" where
  "pg_append_turn n t run user assistant s =
     (if (t, run) \<in> set (ps_commits s) then (False, s)
      else
        let s' = s\<lparr>ps_commits := (t, run) # ps_commits s\<rparr>; q = next_sequence t s'
        in (True, pg_trim n t
              (insert_row (turn_row t (q + 1) run ''assistant'' assistant)
                (insert_row (turn_row t q run ''user'' user) s'))))"

definition pg_clear :: "string \<Rightarrow> pg_store \<Rightarrow> pg_store" where
  "pg_clear t s =
     \<lparr>ps_rows = filter (\<lambda>r. mr_thread r \<noteq> t) (ps_rows s),
      ps_commits = filter (\<lambda>c. fst c \<noteq> t) (ps_commits s)\<rparr>"

section \<open>The Redis store\<close>

text \<open>One key space: a key holds a list, a set or a string, and may expire.\<close>

datatype redis_value = RList "string list" | RSet "string list" | RString

type_synonym key_space = "(string \<times> (redis_value \<times> time option)) list"

definition live_keys :: "time \<Rightarrow> key_space \<Rightarrow> key_space" where
  "live_keys now ks = filter (\<lambda>(_, _, e). case e of None \<Rightarrow> True | Some t \<Rightarrow> now < t) ks"

definition wrong_type :: exn where
  "wrong_type = ResponseError ''WRONGTYPE Operation against a key holding the wrong kind of value''"

definition list_at :: "string \<Rightarrow> key_space \<Rightarrow> string list result" where
  "list_at k ks = (case map_of ks k of
     None \<Rightarrow> Inr [] | Some (RList xs, _) \<Rightarrow> Inr xs | _ \<Rightarrow> Inl wrong_type)"

definition set_at :: "string \<Rightarrow> key_space \<Rightarrow> string list result" where
  "set_at k ks = (case map_of ks k of
     None \<Rightarrow> Inr [] | Some (RSet xs, _) \<Rightarrow> Inr xs | _ \<Rightarrow> Inl wrong_type)"

record redis_config =
  rc_prefix :: string
  rc_ttl :: int
  rc_messages :: nat

definition redis_key :: "redis_config \<Rightarrow> string \<Rightarrow> string" where
  "redis_key c t = rc_prefix c @ '':'' @ t"

definition turns_key :: "redis_config \<Rightarrow> string \<Rightarrow> string" where
  "turns_key c t = rc_prefix c @ '':turns:'' @ t"

definition turn_key :: "redis_config \<Rightarrow> string \<Rightarrow> string \<Rightarrow> string" where
  "turn_key c t run = rc_prefix c @ '':turn:'' @ t @ '':'' @ run"

definition expires :: "time \<Rightarrow> redis_config \<Rightarrow> time option" where
  "expires now c = Some (now + seconds (rc_ttl c))"

definition redis_get ::
  "(string \<Rightarrow> pyfloat) \<Rightarrow> redis_config \<Rightarrow> time \<Rightarrow> string \<Rightarrow> key_space \<Rightarrow> jobj list result" where
  "redis_get fl c now t ks =
     bind_result (list_at (redis_key c t) (live_keys now ks)) (\<lambda>values.
     bind_result (map_result (\<lambda>v. case json_loads fl v of
          None \<Rightarrow> Inl (ValueError ''invalid JSON'') | Some j \<Rightarrow> Inr j) (last_n (rc_messages c) values))
       (\<lambda>parsed. Inr (map obj_fields (filter is_jobj parsed))))"

text \<open>The pipeline runs every command; only \<open>EXPIRE\<close> takes a key of any type.\<close>

definition redis_append ::
  "redis_config \<Rightarrow> time \<Rightarrow> string \<Rightarrow> jobj list \<Rightarrow> key_space \<Rightarrow> unit result \<times> key_space" where
  "redis_append c now t messages ks =
     (if messages = [] then (Inr (), ks)
      else let live = live_keys now ks; k = redis_key c t in
        case list_at k live of
          Inr xs \<Rightarrow>
            (Inr (), alist_put k (RList (last_n (rc_messages c) (xs @ map (\<lambda>m. json_dumps (JObj m)) messages)),
                                  expires now c) live)
        | Inl e \<Rightarrow>
            (Inl e, case map_of live k of None \<Rightarrow> live
                    | Some (v, _) \<Rightarrow> alist_put k (v, expires now c) live))"

text \<open>
  \<open>_APPEND_TURN_SCRIPT\<close>. An error ends the script, what it has written stays written.
\<close>

definition redis_append_turn ::
  "redis_config \<Rightarrow> time \<Rightarrow> string \<Rightarrow> string \<Rightarrow> jobj \<Rightarrow> jobj \<Rightarrow> key_space \<Rightarrow> bool result \<times> key_space" where
  "redis_append_turn c now t run user assistant ks =
     (let live = live_keys now ks in
      case set_at (turns_key c t) live of
        Inl e \<Rightarrow> (Inl e, live)
      | Inr runs \<Rightarrow>
          let seen = run \<in> set runs \<or> map_of live (turn_key c t run) \<noteq> None;
              marked = alist_put (turns_key c t)
                (RSet (if run \<in> set runs then runs else run # runs), expires now c) live
          in if seen then (Inr False, marked)
             else case list_at (redis_key c t) marked of
                 Inl e \<Rightarrow> (Inl e, marked)
               | Inr xs \<Rightarrow>
                   (Inr True, alist_put (redis_key c t)
                      (RList (last_n (rc_messages c)
                         (xs @ [json_dumps (JObj user), json_dumps (JObj assistant)])), expires now c) marked))"

text \<open>\<open>glob\<close> is the server's matcher of \<open>SCAN\<close> patterns.\<close>

definition redis_clear ::
  "(string \<Rightarrow> string \<Rightarrow> bool) \<Rightarrow> redis_config \<Rightarrow> time \<Rightarrow> string \<Rightarrow> key_space \<Rightarrow> key_space" where
  "redis_clear glob c now t ks =
     filter (\<lambda>kv. fst kv \<noteq> redis_key c t \<and> fst kv \<noteq> turns_key c t \<and>
                  \<not> glob (turn_key c t ''*'') (fst kv)) (live_keys now ks)"

end
