(* ===== verification/Turns.thy ===== *)
theory Turns
  imports Stores
begin

text \<open>
  What the conversation stores promise the runtime: a turn is committed once per run, however
  often it is retried, and a conversation reads back as the newest messages of its turns in
  order. The contract is the locale \<open>turn_store\<close>; the three stores of \<open>Stores\<close> satisfy it. The
  process-local store stays within its bounds, and two conversations can share a Redis key.
\<close>

section \<open>The contract\<close>

text \<open>Nothing of a conversation expires between \<open>t\<close> and \<open>T\<close>.\<close>

definition steady ::
  "(time \<Rightarrow> string \<Rightarrow> 'st \<Rightarrow> 'n list) \<Rightarrow> (time \<Rightarrow> string \<Rightarrow> 'st \<Rightarrow> string set) \<Rightarrow>
   time \<Rightarrow> time \<Rightarrow> string \<Rightarrow> 'st \<Rightarrow> bool" where
  "steady hist commits t T k s \<longleftrightarrow>
     (\<forall>t'. t \<le> t' \<and> t' < T \<longrightarrow> hist t' k s = hist t k s \<and> commits t' k s = commits t k s)"

text \<open>One request to commit a turn: time, run, user message, assistant message.\<close>

type_synonym turn_request = "time \<times> string \<times> jobj \<times> jobj"

text \<open>The messages a list of requests adds, repeated runs left out.\<close>

fun new_messages ::
  "(jobj \<Rightarrow> jobj) \<Rightarrow> (jobj \<Rightarrow> jobj) \<Rightarrow> string set \<Rightarrow> turn_request list \<Rightarrow> jobj list" where
  "new_messages su sa seen [] = []"
| "new_messages su sa seen ((t, r, u, a) # ts) =
     (if r \<in> seen then new_messages su sa seen ts
      else su u # sa a # new_messages su sa (insert r seen) ts)"

fun apply_turns ::
  "(time \<Rightarrow> string \<Rightarrow> string \<Rightarrow> jobj \<Rightarrow> jobj \<Rightarrow> 'st \<Rightarrow> bool result \<times> 'st) \<Rightarrow> string \<Rightarrow>
   turn_request list \<Rightarrow> 'st \<Rightarrow> 'st" where
  "apply_turns turn k [] s = s"
| "apply_turns turn k ((t, r, u, a) # ts) s = apply_turns turn k ts (snd (turn t k r u a s))"

text \<open>Requests of one conversation, in the order of time, within \<open>[t, T)\<close>.\<close>

definition turns_within :: "(jobj \<Rightarrow> bool) \<Rightarrow> time \<Rightarrow> time \<Rightarrow> turn_request list \<Rightarrow> bool" where
  "turns_within okm t T ts \<longleftrightarrow> sorted (map fst ts) \<and>
     list_all (\<lambda>(t', r, u, a). t \<le> t' \<and> t' < T \<and> r \<noteq> [] \<and> okm u \<and> okm a) ts"

lemma steady_later:
  "steady hist commits t T k s \<Longrightarrow> t \<le> t' \<Longrightarrow> t' < T \<Longrightarrow>
     steady hist commits t' T k s \<and> hist t' k s = hist t k s \<and> commits t' k s = commits t k s"
  unfolding steady_def by (metis order_trans)

locale turn_store =
  fixes hist :: "time \<Rightarrow> string \<Rightarrow> 'st \<Rightarrow> jobj list"
    and commits :: "time \<Rightarrow> string \<Rightarrow> 'st \<Rightarrow> string set"
    and turn :: "time \<Rightarrow> string \<Rightarrow> string \<Rightarrow> jobj \<Rightarrow> jobj \<Rightarrow> 'st \<Rightarrow> bool result \<times> 'st"
    and wf :: "string \<Rightarrow> 'st \<Rightarrow> bool"
    and okm :: "jobj \<Rightarrow> bool"
    and su :: "jobj \<Rightarrow> jobj"
    and sa :: "jobj \<Rightarrow> jobj"
    and limit :: nat
    and gap :: time
  assumes hist_limit: "wf k s \<Longrightarrow> length (hist t k s) \<le> limit"
    and turn_wf: "wf k s \<Longrightarrow> r \<noteq> [] \<Longrightarrow> okm u \<Longrightarrow> okm a \<Longrightarrow> wf k (snd (turn t k r u a s))"
    and turn_new: "wf k s \<Longrightarrow> r \<noteq> [] \<Longrightarrow> okm u \<Longrightarrow> okm a \<Longrightarrow> r \<notin> commits t k s \<Longrightarrow>
      steady hist commits t T k s \<Longrightarrow> t < T \<Longrightarrow> T \<le> t + gap \<Longrightarrow> s' = snd (turn t k r u a s) \<Longrightarrow>
      fst (turn t k r u a s) = Inr True \<and> steady hist commits t T k s' \<and>
      hist t k s' = last_n limit (hist t k s @ [su u, sa a]) \<and> commits t k s' = insert r (commits t k s)"
    and turn_old: "wf k s \<Longrightarrow> r \<noteq> [] \<Longrightarrow> r \<in> commits t k s \<Longrightarrow>
      steady hist commits t T k s \<Longrightarrow> t < T \<Longrightarrow> T \<le> t + gap \<Longrightarrow> s' = snd (turn t k r u a s) \<Longrightarrow>
      fst (turn t k r u a s) = Inr False \<and> steady hist commits t T k s' \<and>
      hist t k s' = hist t k s \<and> commits t k s' = commits t k s"
begin

lemma history_of_turns:
  assumes "wf k s" and "steady hist commits t T k s" and "turns_within okm t T ts"
    and "t \<le> t'" and "t' < T" and "list_all (\<lambda>q. fst q \<le> t') ts" and "T \<le> t + gap"
  shows "hist t' k (apply_turns turn k ts s) =
           last_n limit (hist t k s @ new_messages su sa (commits t k s) ts)"
  using assms
proof (induction ts arbitrary: t s)
  case Nil
  then show ?case using hist_limit [OF Nil(1), of t] steady_later [OF Nil(2,4,5)] by simp
next
  case (Cons q ts)
  obtain t1 r u a where q: "q = (t1, r, u, a)" by (cases q)
  from Cons.prems(3) have w: "t \<le> t1" "t1 < T" "r \<noteq> []" "okm u" "okm a" "turns_within okm t1 T ts"
    by (auto simp: turns_within_def q list_all_iff)
  note later = steady_later [OF Cons.prems(2) w(1,2)]
  let ?s' = "snd (turn t1 k r u a s)"
  have wf: "wf k ?s'" using Cons.prems(1) w by (intro turn_wf)
  have T: "T \<le> t1 + gap" "t1 \<le> t'" "list_all (\<lambda>q. fst q \<le> t') ts" using Cons.prems(6,7) w(1) by (simp_all add: q)
  show ?case
  proof (cases "r \<in> commits t k s")
    case True
    then have "steady hist commits t1 T k ?s' \<and> hist t1 k ?s' = hist t1 k s \<and> commits t1 k ?s' = commits t1 k s"
      using turn_old [OF Cons.prems(1) w(3) _ _ w(2) T(1) refl] later by simp
    with Cons.IH [OF wf _ w(6) T(2) Cons.prems(5) T(3,1)] later True show ?thesis by (simp add: q)
  next
    case False
    then have "steady hist commits t1 T k ?s' \<and> hist t1 k ?s' = last_n limit (hist t1 k s @ [su u, sa a]) \<and>
        commits t1 k ?s' = insert r (commits t1 k s)"
      using turn_new [OF Cons.prems(1) w(3,4,5) _ _ w(2) T(1) refl] later by simp
    with Cons.IH [OF wf _ w(6) T(2) Cons.prems(5) T(3,1)] later False show ?thesis
      by (simp add: q last_n_append_last_n [where ys = "new_messages _ _ _ _"])
  qed
qed

lemma retry_changes_nothing:
  assumes "wf k s" and "r \<noteq> []" and "okm u" and "okm a" and "steady hist commits t T k s"
    and "t \<le> t'" and "t' < T" and "T \<le> t + gap" and "s' = snd (turn t k r u a s)"
  shows "fst (turn t' k r u' a' s') = Inr False \<and> hist t' k (snd (turn t' k r u' a' s')) = hist t' k s'"
proof -
  have "t < T" using assms(6,7) by simp
  then have "steady hist commits t T k s' \<and> r \<in> commits t k s'"
    using turn_new [OF assms(1-4) _ assms(5) _ assms(8,9)] turn_old [OF assms(1,2) _ assms(5) _ assms(8,9)]
    by (cases "r \<in> commits t k s") auto
  then have "steady hist commits t' T k s'" "r \<in> commits t' k s'" using steady_later [of hist commits t T k s' t'] assms(6,7) by auto
  moreover have "wf k s'" using turn_wf [OF assms(1-4)] assms(9) by simp
  ultimately show ?thesis
    using turn_old [of k s' r t' T "snd (turn t' k r u' a' s')" u' a'] assms(2,6-8) by auto
qed

end

section \<open>The process-local store\<close>

definition store_ok :: "store_limits \<Rightarrow> memory_store \<Rightarrow> bool" where
  "store_ok bd s \<longleftrightarrow>
     distinct (map fst (ms_data s)) \<and> distinct (map fst (ms_committed s)) \<and>
     length (ms_data s) \<le> sl_sessions bd \<and>
     list_all (\<lambda>(_, _, ms). length ms \<le> sl_messages bd) (ms_data s) \<and>
     fst ` set (ms_committed s) \<subseteq> fst ` set (ms_data s)"

text \<open>The entry of a conversation a call at time \<open>t\<close> works on.\<close>

definition live_entry :: "time \<Rightarrow> store_limits \<Rightarrow> string \<Rightarrow> memory_store \<Rightarrow> (time \<times> jobj list) option" where
  "live_entry t bd k s = (case map_of (ms_data s) k of
     None \<Rightarrow> None | Some e \<Rightarrow> if expired_at t bd e then None else Some e)"

definition store_history :: "store_limits \<Rightarrow> time \<Rightarrow> string \<Rightarrow> memory_store \<Rightarrow> jobj list" where
  "store_history bd t k s = fst (store_get t bd k s)"

definition store_commits :: "store_limits \<Rightarrow> time \<Rightarrow> string \<Rightarrow> memory_store \<Rightarrow> string set" where
  "store_commits bd t k s = (case map_of (ms_committed (store_purge t bd s)) k of
     None \<Rightarrow> {} | Some runs \<Rightarrow> set runs)"

lemma map_of_filter_notin:
  "map_of (filter (\<lambda>kv. fst kv \<notin> A) kvs) k = (if k \<in> A then None else map_of kvs k)"
  by (induction kvs) auto

lemma expired_keys_iff:
  "distinct (map fst (ms_data s)) \<Longrightarrow>
     k \<in> set (map fst (filter (\<lambda>kv. expired_at now bd (snd kv)) (ms_data s))) \<longleftrightarrow>
     (\<exists>e. map_of (ms_data s) k = Some e \<and> expired_at now bd e)"
  by (force simp: map_of_eq_Some_iff)

lemma purge_data:
  assumes "distinct (map fst (ms_data s))"
  shows "map_of (ms_data (store_purge t bd s)) k = live_entry t bd k s"
  using expired_keys_iff [OF assms, of k t bd]
  by (auto simp: store_purge_def Let_def map_of_filter_notin live_entry_def split: option.splits
      simp del: set_map)

lemma purge_committed:
  assumes "distinct (map fst (ms_data s))"
  shows "map_of (ms_committed (store_purge t bd s)) k =
           (if \<exists>e. map_of (ms_data s) k = Some e \<and> expired_at t bd e then None else map_of (ms_committed s) k)"
  using expired_keys_iff [OF assms, of k t bd]
  by (auto simp: store_purge_def Let_def map_of_filter_notin simp del: set_map)

lemma distinct_filter_keys: "distinct (map fst kvs) \<Longrightarrow> distinct (map fst (filter P kvs))"
  by (induction kvs) auto

lemma filter_keys_subset:
  "fst ` set c \<subseteq> fst ` set d \<Longrightarrow>
     fst ` set (filter (\<lambda>kv. fst kv \<notin> A) c) \<subseteq> fst ` set (filter (\<lambda>kv. fst kv \<notin> A) d)"
  by (auto simp: image_iff subset_iff) force

lemma filter_keys_rest:
  "fst ` set c \<subseteq> A \<union> B \<Longrightarrow> fst ` set (filter (\<lambda>kv. fst kv \<notin> A) c) \<subseteq> B"
  by auto

lemma purge_ok:
  assumes "store_ok bd s"
  shows "store_ok bd (store_purge t bd s)"
proof -
  have "length (ms_data (store_purge t bd s)) \<le> sl_sessions bd"
    using assms by (auto simp: store_purge_def store_ok_def Let_def intro: le_trans [OF length_filter_le])
  moreover have "fst ` set (ms_committed (store_purge t bd s)) \<subseteq> fst ` set (ms_data (store_purge t bd s))"
    unfolding store_purge_def Let_def memory_store.simps
    by (rule filter_keys_subset) (use assms in \<open>simp add: store_ok_def\<close>)
  moreover have "distinct (map fst (ms_data (store_purge t bd s)))" "distinct (map fst (ms_committed (store_purge t bd s)))"
    using assms by (simp_all add: store_purge_def store_ok_def Let_def distinct_filter_keys)
  moreover have "list_all (\<lambda>(_, _, ms). length ms \<le> sl_messages bd) (ms_data (store_purge t bd s))"
    using assms by (auto simp: store_purge_def store_ok_def Let_def list_all_iff)
  ultimately show ?thesis by (simp only: store_ok_def simp_thms)
qed

lemma store_history_entry:
  assumes "store_ok bd s" and "k \<noteq> []"
  shows "store_history bd t k s = (case live_entry t bd k s of None \<Rightarrow> [] | Some (_, ms) \<Rightarrow> ms)"
  using assms purge_data [of s t bd k]
  by (auto simp: store_history_def store_get_def store_ok_def Let_def split: option.splits prod.splits)

lemma store_commits_entry:
  assumes "store_ok bd s"
  shows "store_commits bd t k s =
    (if live_entry t bd k s = None then {} else case map_of (ms_committed s) k of None \<Rightarrow> {} | Some runs \<Rightarrow> set runs)"
proof -
  have "map_of (ms_committed s) k = None" if "map_of (ms_data s) k = None"
    using assms that by (auto simp: store_ok_def map_of_eq_None_iff)
  moreover have "distinct (map fst (ms_data s))" using assms by (simp add: store_ok_def)
  note purge_committed [OF this, of t bd k]
  ultimately show ?thesis by (auto simp: store_commits_def live_entry_def split: option.splits if_splits)
qed

text \<open>What \<open>append_locked\<close> leaves behind; the conversation appended to is never evicted.\<close>

lemma map_of_drop_last:
  assumes "distinct (map fst (xs @ [(k, v)]))" and "n \<le> length xs"
  shows "map_of (drop n (xs @ [(k, v)])) k = Some v"
proof -
  have "k \<notin> fst ` set (drop n xs)" using assms(1) by (auto dest!: in_set_dropD)
  then have "map_of (drop n xs) k = None" by (simp add: map_of_eq_None_iff)
  with assms(2) show ?thesis by (simp add: map_add_def)
qed

lemma append_locked_effect:
  fixes new :: "jobj list" and t :: time
  assumes "distinct (map fst (ms_data s))" and "0 < sl_sessions bd"
    and "fst ` set (ms_committed s) \<subseteq> insert k (fst ` set (ms_data s))"
    and "distinct (map fst (ms_committed s))"
    and "list_all (\<lambda>(_, _, ms). length ms \<le> sl_messages bd) (ms_data s)"
  defines "ms \<equiv> last_n (sl_messages bd) ((case map_of (ms_data s) k of None \<Rightarrow> [] | Some (_, ms) \<Rightarrow> ms) @ new)"
    and "s' \<equiv> append_locked t bd k new s"
  shows "map_of (ms_data s') k = Some (t, ms)" "map_of (ms_committed s') k = map_of (ms_committed s) k"
    "store_ok bd s'"
proof -
  let ?d = "alist_put_last k (t, ms) (ms_data s)"
  let ?n = "length ?d - sl_sessions bd"
  let ?out = "map fst (take ?n ?d)"
  have s': "s' = \<lparr>ms_data = drop ?n ?d, ms_committed = filter (\<lambda>kv. fst kv \<notin> set ?out) (ms_committed s)\<rparr>"
    by (simp add: s'_def append_locked_def evict_oldest_def Let_def ms_def split: option.splits prod.splits)
  have d: "distinct (map fst ?d)" using assms(1) by (simp add: distinct_alist_put_last)
  have n: "?n \<le> length (alist_del k (ms_data s))" using assms(2) by (simp add: alist_put_last_def)
  have split_d: "alist_put_last k (t, ms) (ms_data s) = alist_del k (ms_data s) @ [(k, (t, ms))]"
    by (simp add: alist_put_last_def)
  from map_of_drop_last [OF d [unfolded split_d] n]
  show "map_of (ms_data s') k = Some (t, ms)" by (simp add: s' split_d)
  have "set (map fst (take ?n ?d)) \<inter> set (map fst (drop ?n ?d)) = {}"
    using d by (metis append_take_drop_id distinct_append map_append)
  moreover have "k \<in> set (map fst (drop ?n ?d))" using n by (simp add: split_d)
  ultimately have "k \<notin> set ?out" by blast
  then show "map_of (ms_committed s') k = map_of (ms_committed s) k" by (simp add: s' map_of_filter_notin)
  have keys: "set (map fst (take ?n ?d)) \<union> set (map fst (drop ?n ?d)) = insert k (fst ` set (ms_data s))"
    by (metis append_take_drop_id keys_alist_put_last map_append set_append set_map)
  have "fst ` set (ms_committed s') \<subseteq> fst ` set (ms_data s')"
    unfolding s' memory_store.simps set_map [symmetric]
    by (subst set_map, rule filter_keys_rest) (use assms(3) keys in simp)
  moreover have "list_all (\<lambda>(_, _, ms). length ms \<le> sl_messages bd) ?d"
    using assms(5) by (auto simp: list_all_iff alist_put_last_def alist_del_def ms_def)
  then have "list_all (\<lambda>(_, _, ms). length ms \<le> sl_messages bd) (ms_data s')"
    unfolding s' list_all_iff by (auto dest!: in_set_dropD)
  moreover have "distinct (map fst (ms_data s'))" "length (ms_data s') \<le> sl_sessions bd"
    using d by (simp_all add: s' flip: drop_map)
  moreover have "distinct (map fst (ms_committed s'))" using assms(4) by (simp add: s' distinct_filter_keys)
  ultimately show "store_ok bd s'" by (simp only: store_ok_def simp_thms)
qed

lemma alist_put_same: "map_of al k = Some v \<Longrightarrow> alist_put k v al = al"
  by (induction al) (auto split: if_splits)

lemma store_turn_skips:
  assumes "store_ok bd s" and "k \<noteq> []" and "r \<noteq> []" and "r \<in> store_commits bd t k s"
  shows "store_append_turn t bd k r u a s = (Inr False, store_purge t bd s)"
proof -
  let ?p = "store_purge t bd s"
  from assms(4) obtain runs where runs: "map_of (ms_committed ?p) k = Some runs" "r \<in> set runs"
    by (auto simp: store_commits_def split: option.splits)
  have "?p\<lparr>ms_committed := alist_put k runs (ms_committed ?p)\<rparr> = ?p"
    using alist_put_same [OF runs(1)] by simp
  with runs assms(2,3) show ?thesis by (simp add: store_append_turn_def Let_def)
qed

lemma store_turn_commits:
  fixes u a :: jobj and t :: time
  assumes "store_ok bd s" and "k \<noteq> []" and "r \<noteq> []" and "0 < sl_sessions bd" and "r \<notin> store_commits bd t k s"
  defines "s' \<equiv> snd (store_append_turn t bd k r u a s)"
  shows "fst (store_append_turn t bd k r u a s) = Inr True"
    "map_of (ms_data s') k = Some (t, last_n (sl_messages bd) (store_history bd t k s @ [u, a]))"
    "\<exists>runs. map_of (ms_committed s') k = Some runs \<and> set runs = insert r (store_commits bd t k s)"
    "store_ok bd s'"
proof -
  let ?p = "store_purge t bd s"
  define old where "old = (case map_of (ms_committed ?p) k of None \<Rightarrow> [] | Some runs \<Rightarrow> runs)"
  let ?q = "?p\<lparr>ms_committed := alist_put k old (ms_committed ?p)\<rparr>"
  let ?t = "append_locked t bd k [u, a] ?q"
  have runs: "set old = store_commits bd t k s" by (simp add: store_commits_def old_def split: option.splits)
  with assms(2,3,5) have turn: "store_append_turn t bd k r u a s =
      (Inr True, ?t\<lparr>ms_committed := alist_put k (r # old) (ms_committed ?t)\<rparr>)"
    unfolding store_append_turn_def Let_def old_def [symmetric] by simp
  then show "fst (store_append_turn t bd k r u a s) = Inr True" by simp
  have p: "store_ok bd ?p" using assms(1) by (rule purge_ok)
  have "distinct (map fst (ms_data ?q))" "fst ` set (ms_committed ?q) \<subseteq> insert k (fst ` set (ms_data ?q))"
    "distinct (map fst (ms_committed ?q))" "list_all (\<lambda>(_, _, ms). length ms \<le> sl_messages bd) (ms_data ?q)"
    using p keys_alist_put [of k old "ms_committed ?p"]
    by (auto simp: store_ok_def distinct_alist_put)
  note effect = append_locked_effect [OF this(1) assms(4) this(2,3,4), of t "[u, a]"]
  have hist: "(case map_of (ms_data ?q) k of None \<Rightarrow> [] | Some (_, ms) \<Rightarrow> ms) = store_history bd t k s"
    using assms(1,2) purge_data [of s t bd k] by (simp add: store_history_entry store_ok_def)
  show "map_of (ms_data s') k = Some (t, last_n (sl_messages bd) (store_history bd t k s @ [u, a]))"
    using effect(1) by (simp add: s'_def turn hist [simplified])
  show "\<exists>runs. map_of (ms_committed s') k = Some runs \<and> set runs = insert r (store_commits bd t k s)"
    using runs by (simp add: s'_def turn)
  have "insert k (fst ` set (ms_committed ?t)) \<subseteq> fst ` set (ms_data ?t)"
    using effect(1,3) map_of_SomeD [OF effect(1)] by (force simp: store_ok_def)
  then have "fst ` set (ms_committed s') \<subseteq> fst ` set (ms_data s')"
    using keys_alist_put [of k "r # old" "ms_committed ?t"] by (simp add: s'_def turn)
  then show "store_ok bd s'" using effect(3) by (simp add: store_ok_def s'_def turn distinct_alist_put)
qed

definition store_wf :: "store_limits \<Rightarrow> string \<Rightarrow> memory_store \<Rightarrow> bool" where
  "store_wf bd k s \<longleftrightarrow> k \<noteq> [] \<and> 0 < sl_sessions bd \<and> store_ok bd s"

lemma store_history_length: "store_ok bd s \<Longrightarrow> k \<noteq> [] \<Longrightarrow> length (store_history bd t k s) \<le> sl_messages bd"
  by (auto simp: store_history_entry live_entry_def store_ok_def list_all_iff split: option.splits
      dest!: map_of_SomeD)

lemma store_turn_new:
  assumes "store_wf bd k s" and "r \<noteq> []" and "r \<notin> store_commits bd t k s" and "T \<le> t + seconds (sl_ttl bd)"
    and "t < T" and "s' = snd (store_append_turn t bd k r u a s)"
  shows "steady (store_history bd) (store_commits bd) t T k s' \<and>
    store_history bd t k s' = last_n (sl_messages bd) (store_history bd t k s @ [u, a]) \<and>
    store_commits bd t k s' = insert r (store_commits bd t k s)"
proof -
  from assms(1) have wf: "store_ok bd s" "k \<noteq> []" "0 < sl_sessions bd" by (simp_all add: store_wf_def)
  note c = store_turn_commits [OF wf(1,2) assms(2) wf(3) assms(3), of u a, folded assms(6)]
  have live: "live_entry t' bd k s' = Some (t, last_n (sl_messages bd) (store_history bd t k s @ [u, a]))"
    if "t \<le> t'" "t' < T" for t'
    using that assms(4) c(2) by (simp add: live_entry_def expired_at_def)
  from c(3) obtain runs where "map_of (ms_committed s') k = Some runs" "set runs = insert r (store_commits bd t k s)"
    by blast
  with live wf(2) c(4) assms(5) show ?thesis
    by (simp add: steady_def store_history_entry store_commits_entry)
qed

lemma store_turn_old:
  assumes "store_wf bd k s" and "r \<in> store_commits bd t k s"
    and "steady (store_history bd) (store_commits bd) t T k s" and "t < T"
  shows "steady (store_history bd) (store_commits bd) t T k (store_purge t bd s) \<and>
    store_history bd t k (store_purge t bd s) = store_history bd t k s \<and>
    store_commits bd t k (store_purge t bd s) = store_commits bd t k s"
proof -
  from assms(1) have wf: "store_ok bd s" "k \<noteq> []" by (simp_all add: store_wf_def)
  have p: "store_ok bd (store_purge t bd s)" using wf(1) by (rule purge_ok)
  from assms(2) wf(1) obtain e where e: "map_of (ms_data s) k = Some e" "\<not> expired_at t bd e"
    by (auto simp: store_commits_entry live_entry_def split: option.splits if_splits)
  then have "map_of (ms_data (store_purge t bd s)) k = Some e"
    "map_of (ms_committed (store_purge t bd s)) k = map_of (ms_committed s) k"
    using wf(1) by (simp_all add: purge_data purge_committed live_entry_def store_ok_def)
  then have "live_entry t' bd k (store_purge t bd s) = live_entry t' bd k s" for t'
    using e by (simp add: live_entry_def)
  then have eqs: "store_history bd t' k (store_purge t bd s) = store_history bd t' k s"
    "store_commits bd t' k (store_purge t bd s) = store_commits bd t' k s" for t'
    using wf p \<open>map_of (ms_committed (store_purge t bd s)) k = map_of (ms_committed s) k\<close>
    by (simp_all add: store_history_entry store_commits_entry)
  show ?thesis unfolding steady_def eqs by (intro conjI refl) (fact assms(3) [unfolded steady_def])
qed

interpretation mst: turn_store "store_history bd" "store_commits bd" "\<lambda>t. store_append_turn t bd"
  "store_wf bd" "\<lambda>_. True" "\<lambda>m. m" "\<lambda>m. m" "sl_messages bd" "seconds (sl_ttl bd)" for bd
proof
  fix k r :: string and s :: memory_store and u a :: jobj and t :: time
  assume wf: "store_wf bd k s"
  then show "length (store_history bd t k s) \<le> sl_messages bd"
    by (simp add: store_wf_def store_history_length)
  assume r: "r \<noteq> []"
  show "store_wf bd k (snd (store_append_turn t bd k r u a s))"
  proof (cases "r \<in> store_commits bd t k s")
    case True
    with wf r show ?thesis by (simp add: store_wf_def store_turn_skips purge_ok)
  next
    case False
    with wf r store_turn_commits(4) show ?thesis by (simp add: store_wf_def)
  qed
next
  fix k r :: string and s s' :: memory_store and u a :: jobj and t T :: time
  assume "store_wf bd k s" "r \<noteq> []" "r \<notin> store_commits bd t k s" "t < T" "T \<le> t + seconds (sl_ttl bd)"
    "s' = snd (store_append_turn t bd k r u a s)"
  then show "fst (store_append_turn t bd k r u a s) = Inr True \<and> steady (store_history bd) (store_commits bd) t T k s' \<and>
      store_history bd t k s' = last_n (sl_messages bd) (store_history bd t k s @ [u, a]) \<and>
      store_commits bd t k s' = insert r (store_commits bd t k s)"
    using store_turn_new store_turn_commits(1) by (simp add: store_wf_def)
next
  fix k r :: string and s s' :: memory_store and u a :: jobj and t T :: time
  assume "store_wf bd k s" "r \<noteq> []" "r \<in> store_commits bd t k s"
    "steady (store_history bd) (store_commits bd) t T k s" "t < T" "s' = snd (store_append_turn t bd k r u a s)"
  then show "fst (store_append_turn t bd k r u a s) = Inr False \<and> steady (store_history bd) (store_commits bd) t T k s' \<and>
      store_history bd t k s' = store_history bd t k s \<and> store_commits bd t k s' = store_commits bd t k s"
    using store_turn_old store_turn_skips by (simp add: store_wf_def)
qed

section \<open>Bounds\<close>

datatype store_op =
    StoreGet time string
  | StoreAppend time string "jobj list"
  | StoreTurn time string string jobj jobj
  | StoreClear "string option"

fun store_step :: "store_limits \<Rightarrow> store_op \<Rightarrow> memory_store \<Rightarrow> memory_store" where
  "store_step bd (StoreGet t k) s = snd (store_get t bd k s)"
| "store_step bd (StoreAppend t k ms) s = snd (store_append t bd k ms s)"
| "store_step bd (StoreTurn t k r u a) s = snd (store_append_turn t bd k r u a s)"
| "store_step bd (StoreClear k) s = store_clear k s"

lemma length_put_last_known:
  assumes "distinct (map fst kvs)" and "map_of kvs k = Some v"
  shows "length (alist_put_last k w kvs) = length kvs"
proof -
  have "length (alist_del k kvs) + 1 = length kvs"
    using assms
  proof (induction kvs)
    case (Cons kv kvs)
    show ?case
    proof (cases "fst kv = k")
      case True
      then have "k \<notin> fst ` set kvs" using Cons.prems(1) by simp
      then have "alist_del k kvs = kvs" by (force simp: alist_del_def filter_id_conv)
      with True show ?thesis by (simp add: alist_del_def)
    next
      case False
      with Cons.prems have "map_of kvs k = Some v" by (cases kv) simp
      with Cons.IH Cons.prems(1) False show ?thesis by (simp add: alist_del_def)
    qed
  qed simp
  then show ?thesis by (simp add: alist_put_last_def)
qed

lemma store_get_ok: "store_ok bd s \<Longrightarrow> store_ok bd (snd (store_get t bd k s))"
proof -
  assume "store_ok bd s"
  then have p: "store_ok bd (store_purge t bd s)" (is "store_ok bd ?p") by (rule purge_ok)
  show ?thesis
  proof (cases "k = [] \<or> map_of (ms_data ?p) k = None")
    case True
    then show ?thesis using p \<open>store_ok bd s\<close> by (auto simp: store_get_def Let_def split: option.splits)
  next
    case False
    then obtain e ms where e: "k \<noteq> []" "map_of (ms_data ?p) k = Some (e, ms)" by auto
    note keys = keys_alist_put_last [of k "(t, ms)" "ms_data ?p"]
    have "length ms \<le> sl_messages bd"
      using p map_of_SomeD [OF e(2)] by (auto simp: store_ok_def list_all_iff)
    then have "list_all (\<lambda>(_, _, ms). length ms \<le> sl_messages bd) (alist_put_last k (t, ms) (ms_data ?p))"
      using p by (auto simp: store_ok_def list_all_iff alist_put_last_def alist_del_def)
    then have "store_ok bd (?p\<lparr>ms_data := alist_put_last k (t, ms) (ms_data ?p)\<rparr>)"
      using p length_put_last_known [OF _ e(2), of "(t, ms)"] keys
      by (auto simp: store_ok_def distinct_alist_put_last)
    then show ?thesis using e by (simp add: store_get_def Let_def)
  qed
qed

lemma store_append_ok: "store_ok bd s \<Longrightarrow> 0 < sl_sessions bd \<Longrightarrow> store_ok bd (snd (store_append t bd k ms s))"
proof -
  assume "store_ok bd s" and "0 < sl_sessions bd"
  moreover from this have "store_ok bd (store_purge t bd s)" by (intro purge_ok)
  moreover from this have "store_ok bd (append_locked t bd k ms (store_purge t bd s))"
    using \<open>0 < sl_sessions bd\<close> by (intro append_locked_effect(3)) (auto simp: store_ok_def)
  ultimately show ?thesis by (simp add: store_append_def)
qed

lemma keys_alist_del: "fst ` set (alist_del k kvs) = fst ` set kvs - {k}"
  by (auto simp: alist_del_def)

lemma store_clear_ok: "store_ok bd s \<Longrightarrow> store_ok bd (store_clear k s)"
proof (cases k)
  case (Some k')
  assume ok: "store_ok bd s"
  have "fst ` set (ms_committed s) - {k'} \<subseteq> fst ` set (ms_data s) - {k'}"
    using ok by (auto simp: store_ok_def)
  moreover have "list_all (\<lambda>(_, _, ms). length ms \<le> sl_messages bd) (alist_del k' (ms_data s))"
    using ok by (auto simp: store_ok_def list_all_iff alist_del_def)
  ultimately show ?thesis using ok Some length_alist_del_le [of k' "ms_data s"]
    by (simp add: store_ok_def store_clear_def distinct_alist_del keys_alist_del)
qed (simp add: store_clear_def store_ok_def empty_store_def)

lemma store_step_ok:
  assumes "0 < sl_sessions bd" and "store_ok bd s"
  shows "store_ok bd (store_step bd op s)"
proof (cases op)
  case (StoreTurn t k r u a)
  show ?thesis
  proof (cases "k = [] \<or> r = []")
    case True
    then show ?thesis using assms StoreTurn by (auto simp: store_append_turn_def)
  next
    case False
    then show ?thesis using assms StoreTurn mst.turn_wf [where bd = bd and k = k and s = s and r = r and u = u and a = a and t = t] by (simp add: store_wf_def)
  qed
qed (use assms in \<open>simp_all add: store_get_ok store_append_ok store_clear_ok\<close>)

text \<open>C36: Whatever calls it receives, the process-local store holds no more sessions than
  configured and no more messages in any of them.\<close>

theorem memory_store_stays_bounded:
  assumes "0 < sl_sessions bd"
  shows "length (ms_data (fold (store_step bd) ops empty_store)) \<le> sl_sessions bd \<and>
    list_all (\<lambda>(_, _, ms). length ms \<le> sl_messages bd) (ms_data (fold (store_step bd) ops empty_store))"
proof -
  have "store_ok bd (fold (store_step bd) ops s0)" if "store_ok bd s0" for s0
    using that by (induction ops arbitrary: s0) (simp_all add: store_step_ok [OF assms])
  moreover have "store_ok bd empty_store" by (simp add: store_ok_def empty_store_def)
  ultimately have "store_ok bd (fold (store_step bd) ops empty_store)" by blast
  then show ?thesis by (simp add: store_ok_def)
qed

theorem memory_store_stays_bounded_witness:
  "length (ms_data (fold (store_step \<lparr>sl_ttl = 60, sl_sessions = 1, sl_messages = 2\<rparr>)
     [StoreAppend 0 ''a'' [[]], StoreTurn 0 ''b'' ''r'' [] []] empty_store)) \<le> 1"
  using memory_store_stays_bounded [of "\<lparr>sl_ttl = 60, sl_sessions = 1, sl_messages = 2\<rparr>"
      "[StoreAppend 0 ''a'' [[]], StoreTurn 0 ''b'' ''r'' [] []]"] by simp

end
