(* ===== verification/DurableTurns.thy ===== *)
theory DurableTurns
  imports Turns
begin

text \<open>
  The shared conversation stores keep the contract of \<open>Turns\<close>: the PostgreSQL tables and the
  Redis key space of \<open>Stores\<close>.
\<close>

section \<open>PostgreSQL\<close>

text \<open>
  Every conversation's rows are numbered in the order of insertion, and a row that belongs to a
  run belongs to a committed one.
\<close>

definition pg_store_ok :: "pg_store \<Rightarrow> bool" where
  "pg_store_ok s \<longleftrightarrow>
     (\<forall>t. sorted_wrt (<) (map mr_seq (thread_rows t s))) \<and>
     list_all (\<lambda>r. case mr_run r of None \<Rightarrow> True | Some run \<Rightarrow> (mr_thread r, run) \<in> set (ps_commits s)) (ps_rows s)"

definition pg_commits :: "string \<Rightarrow> pg_store \<Rightarrow> string set" where
  "pg_commits t s = {run. (t, run) \<in> set (ps_commits s)}"

lemma foldl_max_start: "q \<le> foldl max (q :: int) qs"
proof (induction qs arbitrary: q)
  case (Cons p qs)
  have "q \<le> max q p" by simp
  also have "\<dots> \<le> foldl max (max q p) qs" by (rule Cons)
  finally show ?case by simp
qed simp

lemma foldl_max: "x \<in> insert q (set qs) \<Longrightarrow> x \<le> foldl max (q :: int) qs"
proof (induction qs arbitrary: q)
  case (Cons p qs)
  show ?case
  proof (cases "x \<in> set qs")
    case False
    then have "x \<le> max q p" using Cons.prems by auto
    also have "\<dots> \<le> foldl max (max q p) qs" by (rule foldl_max_start)
    finally show ?thesis by simp
  qed (simp add: Cons.IH)
qed simp

lemma next_sequence_fresh: "r \<in> set (thread_rows t s) \<Longrightarrow> mr_seq r < next_sequence t s"
proof -
  assume r: "r \<in> set (thread_rows t s)"
  then obtain q qs where q: "map mr_seq (thread_rows t s) = q # qs" by (cases "thread_rows t s") auto
  have "mr_seq r \<in> set (map mr_seq (thread_rows t s))" using r by simp
  then have "mr_seq r \<le> foldl max q qs" unfolding q by (intro foldl_max) simp
  with q show ?thesis by (simp add: next_sequence_def)
qed

lemma sorted_rows: "pg_store_ok s \<Longrightarrow> sort_key mr_seq (thread_rows t s) = thread_rows t s"
proof -
  assume "pg_store_ok s"
  then have "sorted_wrt (<) (map mr_seq (thread_rows t s))" by (simp add: pg_store_ok_def)
  then have "sorted (map mr_seq (thread_rows t s))" by (metis sorted_wrt_mono_rel less_imp_le)
  then show ?thesis by (rule sort_key_id_if_sorted)
qed

lemma sorted_filter_seq:
  "sorted_wrt (<) (map f xs) \<Longrightarrow> sorted_wrt (<) (map f (filter P xs))" for f :: "'a \<Rightarrow> int"
  by (induction xs) auto

lemma filter_last_n:
  assumes "distinct (map f xs)"
  shows "filter (\<lambda>x. f x \<in> f ` set (last_n n xs)) xs = last_n n xs"
proof -
  let ?m = "length xs - n"
  have parts: "xs = take ?m xs @ drop ?m xs" by simp
  have "f x \<notin> f ` set (drop ?m xs)" if "x \<in> set (take ?m xs)" for x
    using assms that by (metis (no_types, lifting) IntI append_take_drop_id distinct_append empty_iff imageI list.set_map map_append)
  then have "filter (\<lambda>x. f x \<in> f ` set (drop ?m xs)) (take ?m xs) = []" by (simp add: filter_empty_conv)
  moreover have "filter (\<lambda>x. f x \<in> f ` set (drop ?m xs)) (drop ?m xs) = drop ?m xs"
    by (simp add: filter_id_conv)
  ultimately show ?thesis unfolding last_n_def
    by (subst (3) parts) (simp only: filter_append append_Nil)
qed

text \<open>Trimming keeps the newest rows of the conversation and all rows of the others.\<close>

lemma pg_trim_rows:
  assumes "pg_store_ok s"
  shows "thread_rows t (pg_trim n t s) = last_n n (thread_rows t s)"
    and "t' \<noteq> t \<Longrightarrow> thread_rows t' (pg_trim n t s) = thread_rows t' s"
    and "pg_store_ok (pg_trim n t s)"
proof -
  have dist: "distinct (map mr_seq (thread_rows t s))"
    using assms by (auto simp: pg_store_ok_def strict_sorted_iff)
  let ?kept = "mr_seq ` set (last_n n (thread_rows t s))"
  have trim: "pg_trim n t s = s\<lparr>ps_rows := filter (\<lambda>r. mr_thread r \<noteq> t \<or> mr_seq r \<in> ?kept) (ps_rows s)\<rparr>"
    by (simp add: pg_trim_def newest_rows_def sorted_rows [OF assms] Let_def)
  have "thread_rows t (pg_trim n t s) = filter (\<lambda>r. mr_seq r \<in> ?kept) (thread_rows t s)"
    by (simp add: trim thread_rows_def) (rule filter_cong, auto)
  then show "thread_rows t (pg_trim n t s) = last_n n (thread_rows t s)"
    using filter_last_n [OF dist] by simp
  show "thread_rows t' (pg_trim n t s) = thread_rows t' s" if "t' \<noteq> t"
    using that by (simp add: trim thread_rows_def) (rule filter_cong, auto)
  have "thread_rows t' (pg_trim n t s) = filter (\<lambda>r. mr_thread r \<noteq> t \<or> mr_seq r \<in> ?kept) (thread_rows t' s)" for t'
    by (simp add: trim thread_rows_def) (rule filter_cong, auto)
  then show "pg_store_ok (pg_trim n t s)"
    using assms by (auto simp: pg_store_ok_def sorted_filter_seq trim list_all_iff split: option.splits)
qed

lemma map_last_n: "map f (last_n n xs) = last_n n (map f xs)"
  by (simp add: last_n_def drop_map)

lemma last_n_idem [simp]: "last_n n (last_n n xs) = last_n n xs"
  by (rule last_n_all) simp

lemma pg_history_rows: "pg_store_ok s \<Longrightarrow> pg_history n t s = last_n n (map row_message (thread_rows t s))"
  by (simp add: pg_history_def newest_rows_def sorted_rows map_last_n)

text \<open>A row with a fresh number and a fresh run goes in.\<close>

lemma insert_turn_row:
  fixes m :: jobj
  assumes "pg_store_ok s" and "next_sequence t s \<le> q" and "(t, run) \<in> set (ps_commits s)"
    and "\<And>o'. o' \<in> set (thread_rows t s) \<Longrightarrow> mr_run o' = Some run \<Longrightarrow> mr_kind o' \<noteq> Some kind"
  defines "r \<equiv> turn_row t q run kind m"
  shows "thread_rows t (insert_row r s) = thread_rows t s @ [r]"
    and "ps_commits (insert_row r s) = ps_commits s" and "pg_store_ok (insert_row r s)"
proof -
  have fresh: "mr_seq o' < q" if "o' \<in> set (ps_rows s)" "mr_thread o' = t" for o'
    using next_sequence_fresh [of o' t s] that assms(2) by (simp add: thread_rows_def)
  have "\<not> row_conflict s r"
    using fresh assms(4) by (fastforce simp: row_conflict_def list_ex_iff r_def turn_row_def thread_rows_def)
  then have ins: "insert_row r s = s\<lparr>ps_rows := ps_rows s @ [r]\<rparr>" by (simp add: insert_row_def)
  have thr: "mr_thread r = t" "mr_seq r = q" "mr_run r = Some run" by (simp_all add: r_def turn_row_def)
  show rows: "thread_rows t (insert_row r s) = thread_rows t s @ [r]"
    and "ps_commits (insert_row r s) = ps_commits s"
    using thr by (simp_all add: ins thread_rows_def)
  have "thread_rows t' (insert_row r s) = thread_rows t' s" if "t' \<noteq> t" for t'
    using that thr by (simp add: ins thread_rows_def)
  moreover have "sorted_wrt (<) (map mr_seq (thread_rows t s @ [r]))"
    using assms(1) fresh thr by (auto simp: pg_store_ok_def sorted_wrt_append thread_rows_def)
  ultimately have "sorted_wrt (<) (map mr_seq (thread_rows t' (insert_row r s)))" for t'
    using assms(1) rows by (cases "t' = t") (simp_all add: pg_store_ok_def)
  then show "pg_store_ok (insert_row r s)"
    using assms(1,3) thr by (auto simp: pg_store_ok_def ins list_all_iff split: option.splits)
qed

definition user_row :: "jobj \<Rightarrow> jobj" where
  "user_row m = row_message (turn_row [] 0 [] ''user'' m)"

definition assistant_row :: "jobj \<Rightarrow> jobj" where
  "assistant_row m = row_message (turn_row [] 0 [] ''assistant'' m)"

lemma row_message_turn:
  "row_message (turn_row t q run ''user'' m) = user_row m"
  "row_message (turn_row t q run ''assistant'' m) = assistant_row m"
  by (simp_all add: row_message_def turn_row_def user_row_def assistant_row_def)

lemma pg_turn_new:
  assumes "pg_store_ok s" and "run \<notin> pg_commits t s"
  shows "fst (pg_append_turn n t run u a s) = True"
    and "pg_store_ok (snd (pg_append_turn n t run u a s))"
    and "pg_history n t (snd (pg_append_turn n t run u a s)) =
           last_n n (pg_history n t s @ [user_row u, assistant_row a])"
    and "pg_commits t (snd (pg_append_turn n t run u a s)) = insert run (pg_commits t s)"
proof -
  define s1 where "s1 = s\<lparr>ps_commits := (t, run) # ps_commits s\<rparr>"
  let ?q = "next_sequence t s1"
  define s2 where "s2 = insert_row (turn_row t ?q run ''user'' u) s1"
  define s3 where "s3 = insert_row (turn_row t (?q + 1) run ''assistant'' a) s2"
  have turn: "pg_append_turn n t run u a s = (True, pg_trim n t s3)"
    using assms(2) by (simp add: pg_append_turn_def pg_commits_def s1_def s2_def s3_def Let_def)
  then show "fst (pg_append_turn n t run u a s) = True" by simp
  have rows1: "thread_rows t s1 = thread_rows t s" by (simp add: s1_def thread_rows_def)
  have ok1: "pg_store_ok s1"
    using assms(1) by (auto simp: pg_store_ok_def s1_def thread_rows_def list_all_iff split: option.splits)
  have new: "mr_run o' \<noteq> Some run" if "o' \<in> set (thread_rows t s)" for o'
    using assms that by (auto simp: pg_store_ok_def list_all_iff thread_rows_def pg_commits_def)
  note i2 = insert_turn_row [of s1 t ?q run "''user''" u, folded s2_def]
  have i2: "thread_rows t s2 = thread_rows t s @ [turn_row t ?q run ''user'' u]" "ps_commits s2 = ps_commits s1"
    "pg_store_ok s2"
    using i2 ok1 new rows1 by (auto simp: s1_def)
  have q2: "next_sequence t s2 \<le> ?q + 1"
  proof -
    have "next_sequence t s2 = ?q + 1"
    proof (cases "map mr_seq (thread_rows t s)")
      case Nil
      then show ?thesis using i2(1) rows1 by (simp add: next_sequence_def turn_row_def)
    next
      case (Cons p ps)
      then show ?thesis using i2(1) rows1 by (simp add: next_sequence_def turn_row_def)
    qed
    then show ?thesis by simp
  qed
  have commits2: "(t, run) \<in> set (ps_commits s2)" using i2(2) by (simp add: s1_def)
  have no_assistant: "mr_kind o' \<noteq> Some ''assistant''" if "o' \<in> set (thread_rows t s2)" "mr_run o' = Some run" for o'
    using that new i2(1) by (auto simp: turn_row_def)
  note i3 = insert_turn_row [OF i2(3) q2 commits2 no_assistant, where m = a, folded s3_def]
  have i3: "thread_rows t s3 = thread_rows t s2 @ [turn_row t (?q + 1) run ''assistant'' a]"
    "ps_commits s3 = ps_commits s2" "pg_store_ok s3"
    using i3 by simp_all
  note trim = pg_trim_rows [OF i3(3), where t = t and n = n]
  show "pg_store_ok (snd (pg_append_turn n t run u a s))" using trim(3) by (simp add: turn)
  show "pg_commits t (snd (pg_append_turn n t run u a s)) = insert run (pg_commits t s)"
    using i2(2) i3(2) by (auto simp: turn pg_commits_def pg_trim_def Let_def s1_def)
  have "pg_history n t (pg_trim n t s3) = last_n n (map row_message (last_n n (thread_rows t s3)))"
    using trim by (simp add: pg_history_rows)
  also have "\<dots> = last_n n (map row_message (thread_rows t s @
      [turn_row t ?q run ''user'' u, turn_row t (?q + 1) run ''assistant'' a]))"
    using i2(1) i3(1) by (simp only: map_last_n last_n_idem append.assoc append_Cons append_Nil)
  also have "\<dots> = last_n n (map row_message (thread_rows t s) @ [user_row u, assistant_row a])"
    by (simp add: row_message_turn)
  also have "\<dots> = last_n n (pg_history n t s @ [user_row u, assistant_row a])"
    using pg_history_rows [OF assms(1)] by (simp add: last_n_append_last_n)
  finally show "pg_history n t (snd (pg_append_turn n t run u a s)) =
      last_n n (pg_history n t s @ [user_row u, assistant_row a])" by (simp add: turn)
qed

definition pg_turn ::
  "nat \<Rightarrow> time \<Rightarrow> string \<Rightarrow> string \<Rightarrow> jobj \<Rightarrow> jobj \<Rightarrow> pg_store \<Rightarrow> bool result \<times> pg_store" where
  "pg_turn n now t run u a s = (case pg_append_turn n t run u a s of (b, s') \<Rightarrow> (Inr b, s'))"

lemma pg_turn_old:
  "run \<in> pg_commits t s \<Longrightarrow> pg_turn n now t run u a s = (Inr False, s)"
  by (simp add: pg_turn_def pg_append_turn_def pg_commits_def)

interpretation pst: turn_store "\<lambda>_. pg_history n" "\<lambda>_. pg_commits" "pg_turn n" "\<lambda>_. pg_store_ok" "\<lambda>_. True"
  user_row assistant_row n gap for n gap
proof
  fix k r :: string and s :: pg_store and u a :: jobj and t :: time
  assume ok: "pg_store_ok s"
  then show "length (pg_history n k s) \<le> n" by (simp add: pg_history_rows)
  show "pg_store_ok (snd (pg_turn n t k r u a s))"
  proof (cases "r \<in> pg_commits k s")
    case True
    with ok show ?thesis by (simp add: pg_turn_old)
  next
    case False
    from pg_turn_new(2) [OF ok this, of n u a] show ?thesis
      by (cases "pg_append_turn n k r u a s") (simp add: pg_turn_def)
  qed
next
  fix k r :: string and s s' :: pg_store and u a :: jobj and t T :: time
  assume "pg_store_ok s" "r \<notin> pg_commits k s" "s' = snd (pg_turn n t k r u a s)"
  then show "fst (pg_turn n t k r u a s) = Inr True \<and> steady (\<lambda>_. pg_history n) (\<lambda>_. pg_commits) t T k s' \<and>
      pg_history n k s' = last_n n (pg_history n k s @ [user_row u, assistant_row a]) \<and>
      pg_commits k s' = insert r (pg_commits k s)"
    using pg_turn_new [of s r k n u a] by (auto simp: pg_turn_def steady_def split: prod.splits)
qed (auto simp: pg_turn_old steady_def)

section \<open>Redis\<close>

text \<open>
  The keys of the conversation hold what this program writes there: a list of dumped messages and
  a set of runs.
\<close>

definition redis_ok :: "redis_config \<Rightarrow> string \<Rightarrow> key_space \<Rightarrow> bool" where
  "redis_ok c t ks \<longleftrightarrow> distinct (map fst ks) \<and>
     (case map_of ks (redis_key c t) of
        None \<Rightarrow> True
      | Some (RList xs, _) \<Rightarrow> (\<exists>ms. xs = map (\<lambda>m. json_dumps (JObj m)) ms \<and> list_all (\<lambda>m. plain_json (JObj m)) ms)
      | _ \<Rightarrow> False) \<and>
     (case map_of ks (turns_key c t) of None \<Rightarrow> True | Some (RSet _, _) \<Rightarrow> True | _ \<Rightarrow> False)"

definition redis_history ::
  "(string \<Rightarrow> pyfloat) \<Rightarrow> redis_config \<Rightarrow> time \<Rightarrow> string \<Rightarrow> key_space \<Rightarrow> jobj list" where
  "redis_history fl c now t ks = (case redis_get fl c now t ks of Inl _ \<Rightarrow> [] | Inr ms \<Rightarrow> ms)"

definition redis_commits :: "redis_config \<Rightarrow> time \<Rightarrow> string \<Rightarrow> key_space \<Rightarrow> string set" where
  "redis_commits c now t ks =
     (case set_at (turns_key c t) (live_keys now ks) of Inl _ \<Rightarrow> {} | Inr runs \<Rightarrow> set runs) \<union>
     {run. map_of (live_keys now ks) (turn_key c t run) \<noteq> None}"

lemma map_of_filter_entries:
  "distinct (map fst kvs) \<Longrightarrow> map_of (filter P kvs) k =
     (case map_of kvs k of None \<Rightarrow> None | Some v \<Rightarrow> if P (k, v) then Some v else None)"
proof (induction kvs)
  case (Cons kv kvs)
  then have "map_of (filter P kvs) (fst kv) = None"
    by (auto simp: map_of_eq_None_iff)
  with Cons show ?case by (cases kv) auto
qed simp

definition alive :: "time \<Rightarrow> redis_value \<times> time option \<Rightarrow> bool" where
  "alive now ve \<longleftrightarrow> (case snd ve of None \<Rightarrow> True | Some t \<Rightarrow> now < t)"

lemma live_keys_alive: "live_keys now ks = filter (\<lambda>kv. alive now (snd kv)) ks"
  by (simp add: live_keys_def alive_def case_prod_unfold)

lemma live_lookup:
  "distinct (map fst ks) \<Longrightarrow> map_of (live_keys now ks) k =
     (case map_of ks k of None \<Rightarrow> None | Some ve \<Rightarrow> if alive now ve then Some ve else None)"
  by (simp add: live_keys_alive map_of_filter_entries split: option.split)

lemma live_distinct: "distinct (map fst ks) \<Longrightarrow> distinct (map fst (live_keys now ks))"
  by (simp add: live_keys_def distinct_filter_keys)

lemma alive_later: "t \<le> t' \<Longrightarrow> alive t' ve \<Longrightarrow> alive t ve"
  by (auto simp: alive_def split: option.splits)

lemma live_live: "t \<le> t' \<Longrightarrow> live_keys t' (live_keys t ks) = live_keys t' ks"
  using alive_later by (auto simp: live_keys_alive intro: filter_cong)

lemma turn_keys_differ [simp]:
  "redis_key c t \<noteq> turns_key c t" "turns_key c t \<noteq> redis_key c t"
  "redis_key c t \<noteq> turn_key c t r" "turns_key c t \<noteq> turn_key c t r"
  "turn_key c t r \<noteq> redis_key c t" "turn_key c t r \<noteq> turns_key c t"
proof -
  have len: "length (redis_key c t) < length (turns_key c t)" "length (redis_key c t) < length (turn_key c t r)"
    by (simp_all add: redis_key_def turns_key_def turn_key_def)
  then show "redis_key c t \<noteq> turns_key c t" "turns_key c t \<noteq> redis_key c t" "redis_key c t \<noteq> turn_key c t r"
    "turn_key c t r \<noteq> redis_key c t" by auto
  show "turns_key c t \<noteq> turn_key c t r" "turn_key c t r \<noteq> turns_key c t" by (simp_all add: turns_key_def turn_key_def)
qed

lemma encoded_reads_back:
  "plain_json (JObj m) \<Longrightarrow> json_loads fl (json_dumps (JObj m)) = Some (JObj m)"
  unfolding json_dumps_def by (rule loads_dumps) (simp_all add: separators_def)

lemma redis_get_messages:
  assumes "list_at (redis_key c t) (live_keys now ks) = Inr (map (\<lambda>m. json_dumps (JObj m)) ms)"
    and "list_all (\<lambda>m. plain_json (JObj m)) ms"
  shows "redis_get fl c now t ks = Inr (last_n (rc_messages c) ms)"
proof -
  let ?decode = "\<lambda>v. case json_loads fl v of None \<Rightarrow> Inl (ValueError ''invalid JSON'') | Some j \<Rightarrow> Inr j"
  have "map_result ?decode (map (\<lambda>m. json_dumps (JObj m)) xs) = Inr (map JObj xs)"
    if "list_all (\<lambda>m. plain_json (JObj m)) xs" for xs
    using that
  proof (induction xs)
    case (Cons m xs)
    then have "json_loads fl (json_dumps (JObj m)) = Some (JObj m)" by (intro encoded_reads_back) simp
    with Cons show ?case by simp
  qed simp
  moreover have "list_all (\<lambda>m. plain_json (JObj m)) (last_n (rc_messages c) ms)"
    using assms(2) set_last_n_subset [of "rc_messages c" ms] by (auto simp: list_all_iff)
  ultimately have "map_result ?decode (last_n (rc_messages c) (map (\<lambda>m. json_dumps (JObj m)) ms)) =
      Inr (map JObj (last_n (rc_messages c) ms))" by (simp flip: map_last_n)
  moreover have "map obj_fields (filter is_jobj (map JObj xs)) = xs" for xs by (induction xs) simp_all
  ultimately show ?thesis by (simp add: redis_get_def assms(1))
qed

text \<open>What the conversation's two keys hold.\<close>

lemma redis_ok_parts:
  assumes "redis_ok c t ks"
  obtains ms runs where "list_at (redis_key c t) (live_keys now ks) = Inr (map (\<lambda>m. json_dumps (JObj m)) ms)"
    "list_all (\<lambda>m. plain_json (JObj m)) ms" "set_at (turns_key c t) (live_keys now ks) = Inr runs"
proof -
  have "distinct (map fst ks)" using assms by (simp add: redis_ok_def)
  note live = live_lookup [OF this, of now]
  note [simp del] = map_of_eq_Some_iff
  have "\<exists>ms. list_at (redis_key c t) (live_keys now ks) = Inr (map (\<lambda>m. json_dumps (JObj m)) ms) \<and>
      list_all (\<lambda>m. plain_json (JObj m)) ms"
    using assms by (auto simp: redis_ok_def list_at_def live split: option.splits prod.splits redis_value.splits
        intro: exI [of _ "[]"])
  moreover have "\<exists>runs. set_at (turns_key c t) (live_keys now ks) = Inr runs"
    using assms by (auto simp: redis_ok_def set_at_def live split: option.splits prod.splits redis_value.splits)
  ultimately show thesis using that by blast
qed

lemma redis_turn_known:
  assumes "redis_ok c k ks" and "r \<in> redis_commits c t k ks" and "s' = snd (redis_append_turn c t k r u a ks)"
  shows "fst (redis_append_turn c t k r u a ks) = Inr False"
    and "\<exists>runs'. s' = alist_put (turns_key c k) (RSet runs', expires t c) (live_keys t ks) \<and>
           (case set_at (turns_key c k) (live_keys t ks) of Inl _ \<Rightarrow> False | Inr runs \<Rightarrow> set runs' = insert r (set runs))"
proof -
  obtain runs where runs: "set_at (turns_key c k) (live_keys t ks) = Inr runs"
    using redis_ok_parts [OF assms(1)] by metis
  with assms(2) have seen: "r \<in> set runs \<or> map_of (live_keys t ks) (turn_key c k r) \<noteq> None"
    by (auto simp: redis_commits_def)
  show "fst (redis_append_turn c t k r u a ks) = Inr False"
    using runs seen by (simp add: redis_append_turn_def Let_def)
  show "\<exists>runs'. s' = alist_put (turns_key c k) (RSet runs', expires t c) (live_keys t ks) \<and>
      (case set_at (turns_key c k) (live_keys t ks) of Inl _ \<Rightarrow> False | Inr runs \<Rightarrow> set runs' = insert r (set runs))"
    using runs seen assms(3)
    by (intro exI [of _ "if r \<in> set runs then runs else r # runs"])
      (auto simp: redis_append_turn_def Let_def insert_absorb)
qed

lemma redis_turn_fresh:
  assumes "redis_ok c k ks" and "r \<notin> redis_commits c t k ks" and "s' = snd (redis_append_turn c t k r u a ks)"
  shows "fst (redis_append_turn c t k r u a ks) = Inr True"
    and "\<exists>runs ms. set_at (turns_key c k) (live_keys t ks) = Inr runs \<and>
      list_at (redis_key c k) (live_keys t ks) = Inr (map (\<lambda>m. json_dumps (JObj m)) ms) \<and>
      list_all (\<lambda>m. plain_json (JObj m)) ms \<and>
      s' = alist_put (redis_key c k) (RList (map (\<lambda>m. json_dumps (JObj m)) (last_n (rc_messages c) (ms @ [u, a]))), expires t c)
             (alist_put (turns_key c k) (RSet (r # runs), expires t c) (live_keys t ks))"
proof -
  obtain runs ms where p: "set_at (turns_key c k) (live_keys t ks) = Inr runs"
    "list_at (redis_key c k) (live_keys t ks) = Inr (map (\<lambda>m. json_dumps (JObj m)) ms)"
    "list_all (\<lambda>m. plain_json (JObj m)) ms"
    using redis_ok_parts [OF assms(1)] by metis
  with assms(2) have new: "r \<notin> set runs" "map_of (live_keys t ks) (turn_key c k r) = None"
    by (simp_all add: redis_commits_def del: not_None_eq)
  have marked: "list_at (redis_key c k) (alist_put (turns_key c k) v (live_keys t ks)) =
      list_at (redis_key c k) (live_keys t ks)" for v by (simp add: list_at_def)
  have turn: "redis_append_turn c t k r u a ks = (Inr True, alist_put (redis_key c k)
      (RList (last_n (rc_messages c) (map (\<lambda>m. json_dumps (JObj m)) ms @ [json_dumps (JObj u), json_dumps (JObj a)])), expires t c)
      (alist_put (turns_key c k) (RSet (r # runs), expires t c) (live_keys t ks)))"
    using p new by (simp add: redis_append_turn_def Let_def marked)
  then show "fst (redis_append_turn c t k r u a ks) = Inr True" by simp
  have "map (\<lambda>m. json_dumps (JObj m)) (last_n (rc_messages c) (ms @ [u, a])) =
      last_n (rc_messages c) (map (\<lambda>m. json_dumps (JObj m)) ms @ [json_dumps (JObj u), json_dumps (JObj a)])"
    by (simp add: map_last_n)
  with p turn assms(3) show "\<exists>runs ms. set_at (turns_key c k) (live_keys t ks) = Inr runs \<and>
      list_at (redis_key c k) (live_keys t ks) = Inr (map (\<lambda>m. json_dumps (JObj m)) ms) \<and>
      list_all (\<lambda>m. plain_json (JObj m)) ms \<and>
      s' = alist_put (redis_key c k) (RList (map (\<lambda>m. json_dumps (JObj m)) (last_n (rc_messages c) (ms @ [u, a]))), expires t c)
             (alist_put (turns_key c k) (RSet (r # runs), expires t c) (live_keys t ks))"
    by (intro exI [of _ runs] exI [of _ ms]) simp
qed

lemma redis_history_messages:
  assumes "list_at (redis_key c t) (live_keys now ks) = Inr (map (\<lambda>m. json_dumps (JObj m)) ms)"
    and "list_all (\<lambda>m. plain_json (JObj m)) ms"
  shows "redis_history fl c now t ks = last_n (rc_messages c) ms"
  using redis_get_messages [OF assms] by (simp add: redis_history_def)

text \<open>Runs marked before the call, as seen later in the window.\<close>

definition redis_marks :: "redis_config \<Rightarrow> time \<Rightarrow> string \<Rightarrow> key_space \<Rightarrow> string set" where
  "redis_marks c now t ks = {run. map_of (live_keys now ks) (turn_key c t run) \<noteq> None}"

lemma redis_marks_steady:
  assumes "redis_ok c k ks" and "set_at (turns_key c k) (live_keys t ks) = Inr runs" and "t \<le> t'"
    and "redis_commits c t' k ks = redis_commits c t k ks"
  shows "set runs \<union> redis_marks c t' k ks = redis_commits c t k ks"
proof -
  have d: "distinct (map fst ks)" using assms(1) by (simp add: redis_ok_def)
  have "redis_marks c t' k ks \<subseteq> redis_marks c t k ks"
    using alive_later [OF assms(3)]
    by (auto simp: redis_marks_def live_lookup [OF d] split: option.splits if_splits simp del: map_of_eq_Some_iff)
  moreover obtain runs' where r': "set_at (turns_key c k) (live_keys t' ks) = Inr runs'"
    using redis_ok_parts [OF assms(1)] by metis
  have "set runs' \<subseteq> set runs"
    using r' assms(2) alive_later [OF assms(3)]
    by (auto simp: set_at_def live_lookup [OF d] split: option.splits if_splits prod.splits redis_value.splits
        simp del: map_of_eq_Some_iff)
  ultimately show ?thesis using assms(2,4) r' by (auto simp: redis_commits_def redis_marks_def)
qed

lemma redis_steady_after:
  assumes "redis_ok c k ks" and "set_at (turns_key c k) (live_keys t ks) = Inr runs"
    and "steady (redis_history fl c) (redis_commits c) t T k ks" and "T \<le> t + seconds (rc_ttl c)"
    and "distinct (map fst s')"
    and "map_of s' (turns_key c k) = Some (RSet runs', expires t c)"
    and "\<And>x. map_of s' (turn_key c k x) = map_of (live_keys t ks) (turn_key c k x)"
    and "t \<le> t'" and "t' < T"
  shows "redis_commits c t' k s' = set runs' \<union> redis_marks c t' k ks"
    and "set runs' = insert r (set runs) \<Longrightarrow> redis_commits c t' k s' = insert r (redis_commits c t k ks)"
proof -
  have d: "distinct (map fst ks)" using assms(1) by (simp add: redis_ok_def)
  have "alive t' (RSet runs', expires t c)" using assms(4,9) by (simp add: alive_def expires_def)
  then have "set_at (turns_key c k) (live_keys t' s') = Inr runs'"
    by (simp add: set_at_def live_lookup [OF assms(5)] assms(6))
  moreover have "map_of (live_keys t' s') (turn_key c k x) = map_of (live_keys t' ks) (turn_key c k x)" for x
    using assms(7) [of x] live_lookup [OF assms(5), of t'] live_lookup [OF live_distinct [OF d, of t], of t']
      live_live [OF assms(8), of ks] by simp
  ultimately show commits: "redis_commits c t' k s' = set runs' \<union> redis_marks c t' k ks"
    by (simp add: redis_commits_def redis_marks_def)
  have "redis_commits c t' k ks = redis_commits c t k ks"
    using assms(3,8,9) unfolding steady_def by blast
  from redis_marks_steady [OF assms(1,2,8) this] commits
  show "set runs' = insert r (set runs) \<Longrightarrow> redis_commits c t' k s' = insert r (redis_commits c t k ks)" by auto
qed

lemma redis_turn_ok:
  assumes "redis_ok c k ks" and "plain_json (JObj u)" and "plain_json (JObj a)"
  shows "redis_ok c k (snd (redis_append_turn c t k r u a ks))"
proof -
  have d: "distinct (map fst ks)" using assms(1) by (simp add: redis_ok_def)
  show ?thesis
  proof (cases "r \<in> redis_commits c t k ks")
    case True
    obtain runs' where s': "snd (redis_append_turn c t k r u a ks) =
        alist_put (turns_key c k) (RSet runs', expires t c) (live_keys t ks)"
      using redis_turn_known(2) [OF assms(1) True refl] by blast
    show ?thesis unfolding s'
      using assms(1) live_lookup [OF d, of t] distinct_alist_put [OF live_distinct [OF d, of t]]
      by (auto simp: redis_ok_def split: option.splits simp del: map_of_eq_Some_iff plain_json.simps)
  next
    case False
    obtain runs ms where f: "list_all (\<lambda>m. plain_json (JObj m)) ms"
      and s': "snd (redis_append_turn c t k r u a ks) =
        alist_put (redis_key c k) (RList (map (\<lambda>m. json_dumps (JObj m)) (last_n (rc_messages c) (ms @ [u, a]))), expires t c)
          (alist_put (turns_key c k) (RSet (r # runs), expires t c) (live_keys t ks))"
      using redis_turn_fresh(2) [OF assms(1) False refl] by blast
    have "list_all (\<lambda>m. plain_json (JObj m)) (last_n (rc_messages c) (ms @ [u, a]))"
      using f assms(2,3) set_last_n_subset [of "rc_messages c" "ms @ [u, a]"] unfolding list_all_iff by fastforce
    then show ?thesis unfolding s' using distinct_alist_put [OF distinct_alist_put [OF live_distinct [OF d, of t]]]
      by (auto simp: redis_ok_def simp del: map_of_eq_Some_iff plain_json.simps)
  qed
qed

lemma redis_turn_new:
  assumes "redis_ok c k ks" and "r \<notin> redis_commits c t k ks" and "plain_json (JObj u)" and "plain_json (JObj a)"
    and "steady (redis_history fl c) (redis_commits c) t T k ks" and "t < T" and "T \<le> t + seconds (rc_ttl c)"
    and "s' = snd (redis_append_turn c t k r u a ks)"
  shows "steady (redis_history fl c) (redis_commits c) t T k s' \<and>
    redis_history fl c t k s' = last_n (rc_messages c) (redis_history fl c t k ks @ [u, a]) \<and>
    redis_commits c t k s' = insert r (redis_commits c t k ks)"
proof -
  obtain runs ms where f: "set_at (turns_key c k) (live_keys t ks) = Inr runs"
    "list_at (redis_key c k) (live_keys t ks) = Inr (map (\<lambda>m. json_dumps (JObj m)) ms)"
    "list_all (\<lambda>m. plain_json (JObj m)) ms"
    and s': "s' = alist_put (redis_key c k) (RList (map (\<lambda>m. json_dumps (JObj m)) (last_n (rc_messages c) (ms @ [u, a]))), expires t c)
      (alist_put (turns_key c k) (RSet (r # runs), expires t c) (live_keys t ks))"
    using redis_turn_fresh(2) [OF assms(1,2,8)] by blast
  have d: "distinct (map fst ks)" using assms(1) by (simp add: redis_ok_def)
  have ds: "distinct (map fst s')" unfolding s' using live_distinct [OF d] by (intro distinct_alist_put)
  have plain: "list_all (\<lambda>m. plain_json (JObj m)) (last_n (rc_messages c) (ms @ [u, a]))"
    using f(3) assms(3,4) set_last_n_subset [of "rc_messages c" "ms @ [u, a]"] unfolding list_all_iff by fastforce
  have list: "map_of s' (redis_key c k) =
      Some (RList (map (\<lambda>m. json_dumps (JObj m)) (last_n (rc_messages c) (ms @ [u, a]))), expires t c)"
    by (simp add: s' del: map_of_eq_Some_iff)
  have turns: "map_of s' (turns_key c k) = Some (RSet (r # runs), expires t c)"
    "map_of s' (turn_key c k x) = map_of (live_keys t ks) (turn_key c k x)" for x
    by (simp_all add: s' del: map_of_eq_Some_iff)
  have commits: "redis_commits c t' k s' = insert r (redis_commits c t k ks)" if "t \<le> t'" "t' < T" for t'
    using redis_steady_after(2) [OF assms(1) f(1) assms(5,7) ds turns that, of r] by simp
  have hist: "redis_history fl c t' k s' = last_n (rc_messages c) (ms @ [u, a])" if "t \<le> t'" "t' < T" for t'
  proof -
    have "list_at (redis_key c k) (live_keys t' s') = Inr (map (\<lambda>m. json_dumps (JObj m)) (last_n (rc_messages c) (ms @ [u, a])))"
      using that assms(7)
      by (simp add: list_at_def live_lookup [OF ds] list alive_def expires_def del: map_of_eq_Some_iff)
    from redis_history_messages [OF this plain] show ?thesis by simp
  qed
  have "redis_history fl c t k ks = last_n (rc_messages c) ms"
    using redis_history_messages [OF f(2,3)] .
  then show ?thesis using hist commits assms(6) by (simp add: steady_def last_n_append_last_n)
qed

lemma redis_turn_old:
  assumes "redis_ok c k ks" and "r \<in> redis_commits c t k ks"
    and "steady (redis_history fl c) (redis_commits c) t T k ks" and "t < T" and "T \<le> t + seconds (rc_ttl c)"
    and "s' = snd (redis_append_turn c t k r u a ks)"
  shows "steady (redis_history fl c) (redis_commits c) t T k s' \<and>
    redis_history fl c t k s' = redis_history fl c t k ks \<and> redis_commits c t k s' = redis_commits c t k ks"
proof -
  obtain runs where runs: "set_at (turns_key c k) (live_keys t ks) = Inr runs"
    using redis_ok_parts [OF assms(1)] by metis
  obtain runs' where s': "s' = alist_put (turns_key c k) (RSet runs', expires t c) (live_keys t ks)"
    "set runs' = insert r (set runs)"
    using redis_turn_known(2) [OF assms(1,2,6)] runs by auto
  have d: "distinct (map fst ks)" using assms(1) by (simp add: redis_ok_def)
  have ds: "distinct (map fst s')" unfolding s'(1) using live_distinct [OF d] by (intro distinct_alist_put)
  have turns: "map_of s' (turns_key c k) = Some (RSet runs', expires t c)"
    "map_of s' (turn_key c k x) = map_of (live_keys t ks) (turn_key c k x)" for x
    by (simp_all add: s' del: map_of_eq_Some_iff)
  have commits: "redis_commits c t' k s' = redis_commits c t k ks" if "t \<le> t'" "t' < T" for t'
    using redis_steady_after(2) [OF assms(1) runs assms(3,5) ds turns that, of r] s'(2) assms(2) by auto
  have entry: "map_of (live_keys t' s') (redis_key c k) = map_of (live_keys t' ks) (redis_key c k)" if "t \<le> t'" for t'
    using live_lookup [OF ds, of t'] live_lookup [OF live_distinct [OF d, of t], of t'] live_live [OF that, of ks]
    by (simp add: s'(1) del: map_of_eq_Some_iff)
  have hist: "redis_history fl c t' k s' = redis_history fl c t k ks" if "t \<le> t'" "t' < T" for t'
  proof -
    have "redis_history fl c t' k s' = redis_history fl c t' k ks"
      using entry [OF that(1)] by (simp add: redis_history_def redis_get_def list_at_def)
    then show ?thesis using assms(3) that unfolding steady_def by metis
  qed
  from hist commits assms(4) show ?thesis by (simp add: steady_def)
qed

interpretation rst: turn_store "redis_history fl c" "redis_commits c" "\<lambda>t. redis_append_turn c t" "redis_ok c"
  "\<lambda>m. plain_json (JObj m)" "\<lambda>m. m" "\<lambda>m. m" "rc_messages c" "seconds (rc_ttl c)" for fl c
proof
  fix k r :: string and s :: key_space and u a :: jobj and t :: time
  assume ok: "redis_ok c k s"
  then show "length (redis_history fl c t k s) \<le> rc_messages c"
  proof -
    from redis_ok_parts [OF ok, of t] obtain ms where
      "list_at (redis_key c k) (live_keys t s) = Inr (map (\<lambda>m. json_dumps (JObj m)) ms)"
      "list_all (\<lambda>m. plain_json (JObj m)) ms" by metis
    from redis_history_messages [OF this] show ?thesis by simp
  qed
  assume plain: "plain_json (JObj u)" "plain_json (JObj a)"
  with ok show "redis_ok c k (snd (redis_append_turn c t k r u a s))" by (rule redis_turn_ok)
next
  fix k r :: string and s s' :: key_space and u a :: jobj and t T :: time
  assume new: "redis_ok c k s" "plain_json (JObj u)" "plain_json (JObj a)" "r \<notin> redis_commits c t k s"
    "steady (redis_history fl c) (redis_commits c) t T k s" "t < T" "T \<le> t + seconds (rc_ttl c)"
    "s' = snd (redis_append_turn c t k r u a s)"
  show "fst (redis_append_turn c t k r u a s) = Inr True \<and> steady (redis_history fl c) (redis_commits c) t T k s' \<and>
      redis_history fl c t k s' = last_n (rc_messages c) (redis_history fl c t k s @ [u, a]) \<and>
      redis_commits c t k s' = insert r (redis_commits c t k s)"
    using redis_turn_new [OF new(1,4,2,3,5-8)] redis_turn_fresh(1) [OF new(1,4,8)] by blast
next
  fix k r :: string and s s' :: key_space and u a :: jobj and t T :: time
  assume known: "redis_ok c k s" "r \<in> redis_commits c t k s"
    "steady (redis_history fl c) (redis_commits c) t T k s" "t < T" "T \<le> t + seconds (rc_ttl c)"
    "s' = snd (redis_append_turn c t k r u a s)"
  show "fst (redis_append_turn c t k r u a s) = Inr False \<and> steady (redis_history fl c) (redis_commits c) t T k s' \<and>
      redis_history fl c t k s' = redis_history fl c t k s \<and> redis_commits c t k s' = redis_commits c t k s"
    using redis_turn_old [OF known] redis_turn_known(1) [OF known(1,2,6)] by blast
qed

section \<open>Conversations that share a key\<close>

text \<open>The conversation named \<open>turns:c\<close> keeps its messages under the key of the runs of \<open>c\<close>.\<close>

lemma shared_key: "redis_key c (''turns:'' @ t) = turns_key c t"
  by (simp add: redis_key_def turns_key_def)

lemmas shared_key_plain = shared_key [simplified]

section \<open>Properties\<close>

text \<open>C37: Whatever requests to commit turns a conversation receives within the lifetime of its
  session, retries of a run included, the process-local store reads back the newest messages of
  the old history followed by the turns of the runs not committed before, each once, in order.\<close>

theorem memory_store_keeps_newest_turns:
  assumes "store_ok bd s" and "0 < sl_sessions bd" and "k \<noteq> []"
    and "steady (store_history bd) (store_commits bd) t T k s" and "turns_within (\<lambda>_. True) t T ts"
    and "t \<le> t'" and "t' < T" and "list_all (\<lambda>q. fst q \<le> t') ts" and "T \<le> t + seconds (sl_ttl bd)"
  shows "fst (store_get t' bd k (apply_turns (\<lambda>t. store_append_turn t bd) k ts s)) =
    last_n (sl_messages bd) (fst (store_get t bd k s) @ new_messages (\<lambda>m. m) (\<lambda>m. m) (store_commits bd t k s) ts)"
  using mst.history_of_turns [of bd k s t T ts t'] assms by (simp add: store_wf_def store_history_def)

theorem memory_store_keeps_newest_turns_witness:
  "fst (store_get 3 \<lparr>sl_ttl = 60, sl_sessions = 10, sl_messages = 3\<rparr> ''c''
     (apply_turns (\<lambda>t. store_append_turn t \<lparr>sl_ttl = 60, sl_sessions = 10, sl_messages = 3\<rparr>) ''c''
       [(1, ''r'', [(''content'', JStr ''q'')], []), (2, ''r'', [], []), (3, ''s'', [], [])] empty_store)) =
   [[], [], []]"
proof -
  let ?bd = "\<lparr>sl_ttl = 60, sl_sessions = 10, sl_messages = 3\<rparr> :: store_limits"
  let ?ts = "[(1, ''r'', [(''content'', JStr ''q'')], []), (2, ''r'', [], []), (3, ''s'', [], [])] :: turn_request list"
  have "store_ok ?bd empty_store" by (simp add: store_ok_def empty_store_def)
  moreover have "steady (store_history ?bd) (store_commits ?bd) 0 4 ''c'' empty_store"
    by (simp add: steady_def store_history_def store_get_def store_purge_def empty_store_def store_commits_def)
  moreover have "turns_within (\<lambda>_. True) 0 4 ?ts" by (simp add: turns_within_def)
  moreover have "fst (store_get 0 ?bd ''c'' empty_store) = []" "store_commits ?bd 0 ''c'' empty_store = {}"
    by (simp_all add: store_get_def store_purge_def empty_store_def store_commits_def)
  ultimately show ?thesis
    using memory_store_keeps_newest_turns [of ?bd empty_store "''c''" 0 4 ?ts 3]
    by (simp add: seconds_def last_n_def)
qed

text \<open>C38: The PostgreSQL store reads back the newest messages of the old history followed by the
  turns of the runs not committed before, each once, in order, however often they are sent.\<close>

theorem postgres_store_keeps_newest_turns:
  assumes "pg_store_ok s" and "turns_within (\<lambda>_. True) t T ts"
    and "t \<le> t'" and "t' < T" and "list_all (\<lambda>q. fst q \<le> t') ts"
  shows "pg_history n k (apply_turns (pg_turn n) k ts s) =
    last_n n (pg_history n k s @ new_messages user_row assistant_row (pg_commits k s) ts)"
  using pst.history_of_turns [where k = k and s = s and n = n and t = t and T = T and ts = ts and t' = t' and gap = "T - t"] assms
  by (simp add: steady_def)

theorem postgres_store_keeps_newest_turns_witness:
  "pg_history 2 ''c'' (apply_turns (pg_turn 2) ''c'' [(0, ''r'', [], []), (0, ''r'', [], [])] \<lparr>ps_rows = [], ps_commits = []\<rparr>) =
   [user_row [], assistant_row []]"
proof -
  let ?ts = "[(0, ''r'', [], []), (0, ''r'', [], [])] :: turn_request list"
  let ?s = "\<lparr>ps_rows = [], ps_commits = []\<rparr> :: pg_store"
  have "pg_store_ok ?s" by (simp add: pg_store_ok_def thread_rows_def)
  moreover have "turns_within (\<lambda>_. True) 0 1 ?ts" by (simp add: turns_within_def)
  moreover have "pg_history 2 ''c'' ?s = []" "pg_commits ''c'' ?s = {}"
    by (simp_all add: pg_history_def newest_rows_def thread_rows_def pg_commits_def last_n_def)
  ultimately show ?thesis
    using postgres_store_keeps_newest_turns [of ?s 0 1 ?ts 0 2 "''c''"] by simp
qed

text \<open>C39: While the conversation's keys live, and hold what this program writes, the Redis store
  reads back the newest messages of the old history followed by the turns of the runs not
  committed before, each once, in order, through their JSON text.\<close>

theorem redis_store_keeps_newest_turns:
  assumes "redis_ok c k s" and "steady (redis_history fl c) (redis_commits c) t T k s"
    and "turns_within (\<lambda>m. plain_json (JObj m)) t T ts"
    and "t \<le> t'" and "t' < T" and "list_all (\<lambda>q. fst q \<le> t') ts" and "T \<le> t + seconds (rc_ttl c)"
  shows "redis_history fl c t' k (apply_turns (\<lambda>t. redis_append_turn c t) k ts s) =
    last_n (rc_messages c) (redis_history fl c t k s @ new_messages (\<lambda>m. m) (\<lambda>m. m) (redis_commits c t k s) ts)"
  using assms by (rule rst.history_of_turns)

theorem redis_store_keeps_newest_turns_witness:
  "redis_history (\<lambda>_. FFinite ''0'' 0) \<lparr>rc_prefix = ''p'', rc_ttl = 60, rc_messages = 2\<rparr> 1 ''c''
     (apply_turns (\<lambda>t. redis_append_turn \<lparr>rc_prefix = ''p'', rc_ttl = 60, rc_messages = 2\<rparr> t) ''c''
       [(0, ''r'', [(''content'', JStr ''q'')], []), (1, ''r'', [], [])] []) = [[(''content'', JStr ''q'')], []]"
proof -
  let ?c = "\<lparr>rc_prefix = ''p'', rc_ttl = 60, rc_messages = 2\<rparr> :: redis_config"
  let ?ts = "[(0, ''r'', [(''content'', JStr ''q'')], []), (1, ''r'', [], [])] :: turn_request list"
  let ?fl = "\<lambda>_ :: string. FFinite ''0'' 0"
  have e: "redis_history ?fl ?c t ''c'' [] = []" "redis_commits ?c t ''c'' [] = {}" for t
    by (simp_all add: redis_history_def redis_get_def live_keys_def list_at_def set_at_def redis_commits_def last_n_def)
  have "redis_ok ?c ''c'' []" by (simp add: redis_ok_def)
  moreover have "steady (redis_history ?fl ?c) (redis_commits ?c) 0 2 ''c'' []" by (simp add: steady_def e)
  moreover have "turns_within (\<lambda>m. plain_json (JObj m)) 0 2 ?ts" by (simp add: turns_within_def)
  ultimately show ?thesis
    using redis_store_keeps_newest_turns [of ?c "''c''" "[]" ?fl 0 2 ?ts 1] e by (simp add: seconds_def)
qed

text \<open>C40: Two conversations can get in each other's way in Redis: once \<open>turns:c\<close> has messages, no
  turn of the conversation \<open>c\<close> can be committed.\<close>

theorem redis_conversations_share_keys:
  assumes "redis_append c now (''turns:'' @ k) [m] [] = (Inr (), ks)" and "0 < rc_ttl c"
  shows "fst (redis_append_turn c now k run user assistant ks) = Inl wrong_type"
proof -
  have "ks = [(turns_key c k, (RList (last_n (rc_messages c) [json_dumps (JObj m)]), expires now c))]"
    using assms(1) by (auto simp: redis_append_def live_keys_def list_at_def shared_key_plain Let_def)
  then show ?thesis using assms(2)
    by (simp add: redis_append_turn_def live_keys_def set_at_def expires_def seconds_def Let_def)
qed

theorem redis_conversations_share_keys_witness:
  "\<exists>ks. redis_append \<lparr>rc_prefix = ''p'', rc_ttl = 60, rc_messages = 30\<rparr> 0 (''turns:'' @ ''c'') [[]] [] = (Inr (), ks) \<and>
     fst (redis_append_turn \<lparr>rc_prefix = ''p'', rc_ttl = 60, rc_messages = 30\<rparr> 0 ''c'' ''r'' [] [] ks) = Inl wrong_type"
proof -
  let ?c = "\<lparr>rc_prefix = ''p'', rc_ttl = 60, rc_messages = 30\<rparr> :: redis_config"
  have "fst (redis_append ?c 0 (''turns:'' @ ''c'') [[]] []) = Inr ()"
    by (simp add: redis_append_def live_keys_def list_at_def Let_def)
  then obtain ks where ks: "redis_append ?c 0 (''turns:'' @ ''c'') [[]] [] = (Inr (), ks)"
    by (metis prod.collapse)
  from redis_conversations_share_keys [OF this] ks show ?thesis by auto
qed

end
