(* ===== verification/Admission.thy ===== *)
theory Admission
  imports Inventory
begin

text \<open>
  Admission to the model server, \<open>src/app/llm/resource_manager.py\<close>: \<open>OllamaResourceManager\<close> with
  any number of requests that interleave at their awaits.

  \<open>asyncio.Semaphore\<close> is modelled with its queue: \<open>release\<close> hands the slot to the first waiter,
  which still has to be resumed, and a waiter that was handed a slot and is cancelled gives it back.
  The state lock is only ever held between two awaits, so it never suspends a task and its blocks
  are atomic.
\<close>

section \<open>Semaphores\<close>

text \<open>The waiters in order of arrival; the flag says that a slot was handed over.\<close>

record semaphore =
  sm_value :: nat
  sm_waiters :: "(nat \<times> bool) list"

definition new_semaphore :: "nat \<Rightarrow> semaphore" where
  "new_semaphore n = \<lparr>sm_value = n, sm_waiters = []\<rparr>"

text \<open>\<open>_wake_up_next\<close>: the first waiter that has no slot yet gets one.\<close>

fun grant_first :: "(nat \<times> bool) list \<Rightarrow> (nat \<times> bool) list option" where
  "grant_first [] = None"
| "grant_first ((i, True) # ws) = map_option ((#) (i, True)) (grant_first ws)"
| "grant_first ((i, False) # ws) = Some ((i, True) # ws)"

fun wake_all :: "nat \<Rightarrow> (nat \<times> bool) list \<Rightarrow> semaphore" where
  "wake_all 0 ws = \<lparr>sm_value = 0, sm_waiters = ws\<rparr>"
| "wake_all (Suc v) ws =
     (case grant_first ws of None \<Rightarrow> \<lparr>sm_value = Suc v, sm_waiters = ws\<rparr> | Some ws' \<Rightarrow> wake_all v ws')"

text \<open>\<open>acquire\<close> up to its await: \<open>True\<close> when it does not wait.\<close>

definition sem_acquire :: "nat \<Rightarrow> semaphore \<Rightarrow> bool \<times> semaphore" where
  "sem_acquire i s =
     (if 0 < sm_value s \<and> sm_waiters s = [] then (True, s\<lparr>sm_value := sm_value s - 1\<rparr>)
      else (False, s\<lparr>sm_waiters := sm_waiters s @ [(i, False)]\<rparr>))"

definition sem_release :: "semaphore \<Rightarrow> semaphore" where
  "sem_release s =
     (case grant_first (sm_waiters s) of
        None \<Rightarrow> s\<lparr>sm_value := sm_value s + 1\<rparr>
      | Some ws \<Rightarrow> s\<lparr>sm_waiters := ws\<rparr>)"

text \<open>What a waiter does when it runs again, with its slot or cancelled.\<close>

definition sem_resume :: "nat \<Rightarrow> semaphore \<Rightarrow> semaphore" where
  "sem_resume i s = wake_all (sm_value s) (filter (\<lambda>w. fst w \<noteq> i) (sm_waiters s))"

definition sem_cancel :: "nat \<Rightarrow> semaphore \<Rightarrow> semaphore" where
  "sem_cancel i s =
     wake_all (sm_value s + (if (i, True) \<in> set (sm_waiters s) then 1 else 0))
       (filter (\<lambda>w. fst w \<noteq> i) (sm_waiters s))"

section \<open>The resource manager\<close>

record resources =
  rm_all :: semaphore
  rm_heavy :: semaphore
  rm_active :: nat
  rm_active_heavy :: nat
  rm_queued :: nat

definition at_least_one :: "int \<Rightarrow> nat" where
  "at_least_one n = nat (max 1 n)"

definition new_resources :: "settings \<Rightarrow> resources" where
  "new_resources s =
     \<lparr>rm_all = new_semaphore (at_least_one (ollama_max_concurrency s)),
      rm_heavy = new_semaphore (at_least_one (ollama_heavy_max_concurrency s)),
      rm_active = 0, rm_active_heavy = 0, rm_queued = 0\<rparr>"

text \<open>Where a request is in \<open>acquire\<close>: the requests of a run are numbered.\<close>

datatype phase = Fresh | AtAll | AtHeavy | Inside | Gone

record admission =
  ad_res :: resources
  ad_phase :: "phase list"

definition set_phase :: "nat \<Rightarrow> phase \<Rightarrow> resources \<Rightarrow> admission \<Rightarrow> admission" where
  "set_phase i p r s = \<lparr>ad_res = r, ad_phase = (ad_phase s)[i := p]\<rparr>"

text \<open>With every slot it needs the request is counted as active.\<close>

definition go_inside :: "bool \<Rightarrow> nat \<Rightarrow> resources \<Rightarrow> admission \<Rightarrow> admission" where
  "go_inside heavy i r s =
     set_phase i Inside
       (r\<lparr>rm_queued := rm_queued r - 1, rm_active := rm_active r + 1,
          rm_active_heavy := rm_active_heavy r + (if heavy then 1 else 0)\<rparr>) s"

definition after_all :: "bool \<Rightarrow> nat \<Rightarrow> resources \<Rightarrow> admission \<Rightarrow> admission" where
  "after_all heavy i r s =
     (if heavy then
        case sem_acquire i (rm_heavy r) of
          (True, h) \<Rightarrow> go_inside heavy i (r\<lparr>rm_heavy := h\<rparr>) s
        | (False, h) \<Rightarrow> set_phase i AtHeavy (r\<lparr>rm_heavy := h\<rparr>) s
      else go_inside heavy i r s)"

definition release_all :: "resources \<Rightarrow> resources" where
  "release_all r = r\<lparr>rm_active := rm_active r - 1, rm_all := sem_release (rm_all r)\<rparr>"

definition release_heavy :: "resources \<Rightarrow> resources" where
  "release_heavy r = r\<lparr>rm_active_heavy := rm_active_heavy r - 1, rm_heavy := sem_release (rm_heavy r)\<rparr>"

datatype move = Enter nat | Resume nat | Leave nat | Cancel nat

text \<open>
  One request runs to its next await. \<open>Leave\<close> is the end of the body, by return, exception or
  cancellation; \<open>Cancel\<close> a cancellation while it waits.
\<close>

definition has_slot :: "nat \<Rightarrow> semaphore \<Rightarrow> bool" where
  "has_slot i s \<longleftrightarrow> (i, True) \<in> set (sm_waiters s)"

fun admission_step :: "(nat \<Rightarrow> bool) \<Rightarrow> move \<Rightarrow> admission \<Rightarrow> admission option" where
  "admission_step heavy (Enter i) s =
     (if i < length (ad_phase s) \<and> ad_phase s ! i = Fresh then
        let r = (ad_res s)\<lparr>rm_queued := rm_queued (ad_res s) + 1\<rparr>
        in case sem_acquire i (rm_all r) of
             (True, a) \<Rightarrow> Some (after_all (heavy i) i (r\<lparr>rm_all := a\<rparr>) s)
           | (False, a) \<Rightarrow> Some (set_phase i AtAll (r\<lparr>rm_all := a\<rparr>) s)
      else None)"
| "admission_step heavy (Resume i) s =
     (let r = ad_res s in
      if i < length (ad_phase s) \<and> ad_phase s ! i = AtAll \<and> has_slot i (rm_all r)
      then Some (after_all (heavy i) i (r\<lparr>rm_all := sem_resume i (rm_all r)\<rparr>) s)
      else if i < length (ad_phase s) \<and> ad_phase s ! i = AtHeavy \<and> has_slot i (rm_heavy r)
      then Some (go_inside True i (r\<lparr>rm_heavy := sem_resume i (rm_heavy r)\<rparr>) s)
      else None)"
| "admission_step heavy (Leave i) s =
     (if i < length (ad_phase s) \<and> ad_phase s ! i = Inside
      then Some (set_phase i Gone
             (release_all (if heavy i then release_heavy (ad_res s) else ad_res s)) s)
      else None)"
| "admission_step heavy (Cancel i) s =
     (let r = (ad_res s)\<lparr>rm_queued := rm_queued (ad_res s) - 1\<rparr> in
      if i < length (ad_phase s) \<and> ad_phase s ! i = AtAll
      then Some (set_phase i Gone (r\<lparr>rm_all := sem_cancel i (rm_all r)\<rparr>) s)
      else if i < length (ad_phase s) \<and> ad_phase s ! i = AtHeavy
      then Some (set_phase i Gone (release_all (r\<lparr>rm_heavy := sem_cancel i (rm_heavy r)\<rparr>)) s)
      else None)"

definition needs_heavy :: "string list \<Rightarrow> nat \<Rightarrow> bool" where
  "needs_heavy models i \<longleftrightarrow> cap_heavy (capabilities_for (models ! i))"

text \<open>The states that the requests for \<open>models\<close> can reach in any order.\<close>

definition admission_start :: "settings \<Rightarrow> nat \<Rightarrow> admission" where
  "admission_start s n = \<lparr>ad_res = new_resources s, ad_phase = replicate n Fresh\<rparr>"

inductive admitted :: "settings \<Rightarrow> string list \<Rightarrow> admission \<Rightarrow> bool" for s models where
  admitted_start: "admitted s models (admission_start s (length models))"
| admitted_step: "admitted s models a \<Longrightarrow> admission_step (needs_heavy models) m a = Some b \<Longrightarrow> admitted s models b"

section \<open>Semaphores keep their slots\<close>

text \<open>
  A semaphore of \<open>n\<close> slots with \<open>k\<close> of them in use: free slots, slots handed to waiters that have
  not run yet, and slots in use add up; and while a slot is free and somebody waits, a waiter that
  was handed a slot is about to run and will wake the others.
\<close>

definition handed :: "(nat \<times> bool) list \<Rightarrow> nat" where
  "handed ws = length (filter snd ws)"

definition sem_ok :: "nat \<Rightarrow> nat \<Rightarrow> nat set \<Rightarrow> semaphore \<Rightarrow> bool" where
  "sem_ok n k waiting s \<longleftrightarrow>
     sm_value s + handed (sm_waiters s) + k = n \<and> fst ` set (sm_waiters s) = waiting \<and>
     distinct (map fst (sm_waiters s)) \<and> (0 < sm_value s \<longrightarrow> sm_waiters s = [] \<or> 0 < handed (sm_waiters s))"

lemma handed_simps [simp]:
  "handed [] = 0" "handed ((i, b) # ws) = (if b then Suc (handed ws) else handed ws)"
  "handed (ws @ ws') = handed ws + handed ws'"
  by (simp_all add: handed_def)

lemma handed_all: "list_all snd ws \<Longrightarrow> handed ws = length ws"
  by (induction ws) auto

lemma grant_first_None: "grant_first ws = None \<longleftrightarrow> list_all snd ws"
  by (induction ws rule: grant_first.induct) auto

lemma grant_first_Some:
  "grant_first ws = Some ws' \<Longrightarrow> handed ws' = Suc (handed ws) \<and> map fst ws' = map fst ws"
  by (induction ws arbitrary: ws' rule: grant_first.induct) auto

lemma grant_first_members:
  "grant_first ws = Some ws' \<Longrightarrow> fst ` set ws' = fst ` set ws \<and> distinct (map fst ws') = distinct (map fst ws)"
  by (metis grant_first_Some list.set_map)

lemma wake_all_ok:
  "distinct (map fst ws) \<Longrightarrow> sem_ok (v + handed ws + k) k (fst ` set ws) (wake_all v ws)"
proof (induction v ws rule: wake_all.induct)
  case (2 v ws)
  show ?case
  proof (cases "grant_first ws")
    case None
    then have "list_all snd ws" by (simp add: grant_first_None)
    then show ?thesis using 2(2) None by (simp add: sem_ok_def handed_all)
  next
    case (Some ws')
    then show ?thesis
      using 2 grant_first_Some [OF Some] grant_first_members [OF Some] by simp
  qed
qed (simp add: sem_ok_def)

lemma handed_remove:
  "distinct (map fst ws) \<Longrightarrow>
     handed (filter (\<lambda>w. fst w \<noteq> i) ws) + (if (i, True) \<in> set ws then 1 else 0) = handed ws"
  by (induction ws) (auto simp: image_iff split: if_splits; force)+

lemma distinct_remove: "distinct (map fst ws) \<Longrightarrow> distinct (map fst (filter P ws))"
  by (simp add: distinct_map_filter)

lemma remove_members: "fst ` set (filter (\<lambda>w. fst w \<noteq> i) ws) = fst ` set ws - {i}"
  by auto

lemma sem_acquire_ok:
  assumes "sem_ok n k waiting s" and "i \<notin> waiting"
  shows "case sem_acquire i s of (True, s') \<Rightarrow> sem_ok n (Suc k) waiting s'
     | (False, s') \<Rightarrow> sem_ok n k (insert i waiting) s'"
  using assms by (auto simp: sem_acquire_def sem_ok_def)

lemma sem_release_ok:
  assumes "sem_ok n (Suc k) waiting s"
  shows "sem_ok n k waiting (sem_release s)"
proof (cases "grant_first (sm_waiters s)")
  case None
  then have "list_all snd (sm_waiters s)" by (simp add: grant_first_None)
  then show ?thesis using assms None by (simp add: sem_release_def sem_ok_def handed_all)
next
  case (Some ws)
  then show ?thesis using assms grant_first_Some [OF Some] grant_first_members [OF Some] Some
    by (simp add: sem_release_def sem_ok_def)
qed

lemma sem_resume_ok:
  assumes "sem_ok n k waiting s" and "has_slot i s"
  shows "sem_ok n (Suc k) (waiting - {i}) (sem_resume i s)"
proof -
  let ?ws = "filter (\<lambda>w. fst w \<noteq> i) (sm_waiters s)"
  have "distinct (map fst ?ws)" using assms(1) by (intro distinct_remove) (simp add: sem_ok_def)
  from wake_all_ok [OF this, of "sm_value s" "Suc k"] show ?thesis
    using assms handed_remove [of "sm_waiters s" i] remove_members [of i "sm_waiters s"]
    by (simp add: sem_resume_def sem_ok_def has_slot_def)
qed

lemma sem_cancel_ok:
  assumes "sem_ok n k waiting s"
  shows "sem_ok n k (waiting - {i}) (sem_cancel i s)"
proof -
  let ?ws = "filter (\<lambda>w. fst w \<noteq> i) (sm_waiters s)"
  let ?v = "sm_value s + (if (i, True) \<in> set (sm_waiters s) then 1 else 0)"
  have d: "distinct (map fst (sm_waiters s))" using assms by (simp add: sem_ok_def)
  then have "distinct (map fst ?ws)" by (rule distinct_remove)
  from wake_all_ok [OF this, of ?v k]
  have "sem_ok (?v + handed ?ws + k) k (fst ` set ?ws) (sem_cancel i s)" by (simp add: sem_cancel_def)
  moreover have "?v + handed ?ws + k = n"
    using assms handed_remove [OF d, of i] by (simp add: sem_ok_def)
  moreover have "fst ` set ?ws = waiting - {i}"
    using assms remove_members [of i "sm_waiters s"] by (simp add: sem_ok_def)
  ultimately show ?thesis by simp
qed

section \<open>The invariant\<close>

text \<open>How many requests are in a phase that \<open>Q\<close> accepts.\<close>

definition tally :: "(nat \<Rightarrow> phase \<Rightarrow> bool) \<Rightarrow> phase list \<Rightarrow> nat" where
  "tally Q ps = length (filter (\<lambda>i. Q i (ps ! i)) [0..<length ps])"

lemma tally_update:
  assumes "i < length ps"
  shows "tally Q (ps[i := p]) + (if Q i (ps ! i) then 1 else 0) = tally Q ps + (if Q i p then 1 else 0)"
proof -
  let ?rest = "\<lambda>ps :: phase list. length (filter (\<lambda>j. Q j (ps ! j)) [0..<i]) + length (filter (\<lambda>j. Q j (ps ! j)) [Suc i..<length ps])"
  have split: "tally Q qs = ?rest qs + (if Q i (qs ! i) then 1 else 0)" if "i < length qs" for qs
  proof -
    have "[0..<length qs] = [0..<i] @ i # [Suc i..<length qs]"
      using that by (metis less_imp_le_nat upt_conv_Cons upt_add_eq_append le_add_diff_inverse zero_le)
    then show ?thesis by (simp add: tally_def)
  qed
  have "filter (\<lambda>j. Q j (ps[i := p] ! j)) [0..<i] = filter (\<lambda>j. Q j (ps ! j)) [0..<i]"
    "filter (\<lambda>j. Q j (ps[i := p] ! j)) [Suc i..<length ps] = filter (\<lambda>j. Q j (ps ! j)) [Suc i..<length ps]"
    by (auto intro!: filter_cong)
  then have "?rest (ps[i := p]) = ?rest ps" by simp
  with split [of "ps[i := p]"] split [of ps] assms show ?thesis by simp
qed

lemma tally_member: "i < length ps \<Longrightarrow> Q i (ps ! i) \<Longrightarrow> 0 < tally Q ps"
  by (auto simp: tally_def filter_empty_conv)

lemma tally_exists: "0 < tally Q ps \<Longrightarrow> \<exists>i < length ps. Q i (ps ! i)"
  by (auto simp: tally_def filter_empty_conv)

lemma tally_set:
  "i < length ps \<Longrightarrow>
     tally Q (ps[i := p]) = tally Q ps + (if Q i p then 1 else 0) - (if Q i (ps ! i) then 1 else 0)"
  using tally_update [of i ps Q p] by auto

text \<open>Requests that hold a slot, a heavy slot, that wait, and that are in the body.\<close>

definition holding :: "phase list \<Rightarrow> nat" where
  "holding = tally (\<lambda>i p. p = AtHeavy \<or> p = Inside)"

definition heavy_inside :: "(nat \<Rightarrow> bool) \<Rightarrow> phase list \<Rightarrow> nat" where
  "heavy_inside heavy = tally (\<lambda>i p. p = Inside \<and> heavy i)"

definition waiting :: "phase list \<Rightarrow> nat" where
  "waiting = tally (\<lambda>i p. p = AtAll \<or> p = AtHeavy)"

definition inside :: "phase list \<Rightarrow> nat" where
  "inside = tally (\<lambda>i p. p = Inside)"

definition in_phase :: "phase \<Rightarrow> phase list \<Rightarrow> nat set" where
  "in_phase p ps = {i. i < length ps \<and> ps ! i = p}"

definition heavy_wait_ok :: "(nat \<Rightarrow> bool) \<Rightarrow> phase list \<Rightarrow> bool" where
  "heavy_wait_ok heavy ps \<longleftrightarrow> (\<forall>i \<in> in_phase AtHeavy ps. heavy i)"

definition admission_ok :: "settings \<Rightarrow> (nat \<Rightarrow> bool) \<Rightarrow> admission \<Rightarrow> bool" where
  "admission_ok st heavy s \<longleftrightarrow>
     (let r = ad_res s; ps = ad_phase s in
      sem_ok (at_least_one (ollama_max_concurrency st)) (holding ps) (in_phase AtAll ps) (rm_all r) \<and>
      sem_ok (at_least_one (ollama_heavy_max_concurrency st)) (heavy_inside heavy ps) (in_phase AtHeavy ps) (rm_heavy r) \<and>
      heavy_wait_ok heavy ps \<and> rm_queued r = waiting ps \<and> rm_active_heavy r = heavy_inside heavy ps \<and>
      rm_active r \<le> inside ps)"

lemmas count_defs = holding_def heavy_inside_def waiting_def inside_def

lemma count_positive:
  assumes "i < length ps"
  shows "ps ! i = Inside \<Longrightarrow> 0 < inside ps \<and> 0 < holding ps \<and> (heavy i \<longrightarrow> 0 < heavy_inside heavy ps)"
    and "ps ! i = AtHeavy \<Longrightarrow> 0 < holding ps \<and> 0 < waiting ps"
    and "ps ! i = AtAll \<Longrightarrow> 0 < waiting ps"
  using assms by (auto simp: count_defs intro!: tally_member [of i])

lemma in_phase_update:
  "i < length ps \<Longrightarrow> in_phase q (ps[i := p]) = (if q = p then insert i (in_phase q ps) else in_phase q ps - {i})"
  by (auto simp: in_phase_def nth_list_update)

lemma in_phase_other: "i < length ps \<Longrightarrow> ps ! i \<noteq> q \<Longrightarrow> in_phase q ps - {i} = in_phase q ps"
  by (auto simp: in_phase_def)

lemma start_ok: "admission_ok st heavy (admission_start st n)"
  by (auto simp: admission_ok_def admission_start_def new_resources_def new_semaphore_def sem_ok_def
      count_defs tally_def in_phase_def heavy_wait_ok_def filter_empty_conv)

text \<open>A request that holds a slot of the first semaphore and is still counted as queued.\<close>

definition between_ok :: "settings \<Rightarrow> (nat \<Rightarrow> bool) \<Rightarrow> nat \<Rightarrow> resources \<Rightarrow> phase list \<Rightarrow> bool" where
  "between_ok st heavy i r ps \<longleftrightarrow>
     i < length ps \<and> ps ! i \<in> {Fresh, AtAll} \<and>
     sem_ok (at_least_one (ollama_max_concurrency st)) (Suc (holding ps)) (in_phase AtAll ps - {i}) (rm_all r) \<and>
     sem_ok (at_least_one (ollama_heavy_max_concurrency st)) (heavy_inside heavy ps) (in_phase AtHeavy ps) (rm_heavy r) \<and>
     heavy_wait_ok heavy ps \<and> rm_queued r = waiting ps + (if ps ! i = Fresh then 1 else 0) \<and>
     rm_active_heavy r = heavy_inside heavy ps \<and> rm_active r \<le> inside ps"

lemma go_inside_ok:
  assumes "i < length (ad_phase s)" and "ad_phase s ! i \<in> {Fresh, AtAll, AtHeavy}"
    and "sem_ok (at_least_one (ollama_max_concurrency st)) (holding ((ad_phase s)[i := Inside])) (in_phase AtAll (ad_phase s) - {i}) (rm_all r)"
    and "sem_ok (at_least_one (ollama_heavy_max_concurrency st)) (heavy_inside heavy ((ad_phase s)[i := Inside])) (in_phase AtHeavy (ad_phase s) - {i}) (rm_heavy r)"
    and "heavy_wait_ok heavy (ad_phase s)" and "rm_queued r = Suc (waiting ((ad_phase s)[i := Inside]))"
    and "rm_active_heavy r = heavy_inside heavy (ad_phase s)" and "rm_active r \<le> inside (ad_phase s)"
  shows "admission_ok st heavy (go_inside (heavy i) i r s)"
  using assms
  by (auto simp: admission_ok_def go_inside_def set_phase_def in_phase_update heavy_wait_ok_def Let_def
      heavy_inside_def inside_def tally_set)

lemma after_all_ok:
  assumes "between_ok st heavy i r (ad_phase s)"
  shows "admission_ok st heavy (after_all (heavy i) i r s)"
proof -
  let ?ps = "ad_phase s"
  have i: "i < length ?ps" "?ps ! i \<in> {Fresh, AtAll}" using assms by (auto simp: between_ok_def)
  then have no: "i \<notin> in_phase AtHeavy ?ps" "in_phase AtHeavy ?ps - {i} = in_phase AtHeavy ?ps" by (auto simp: in_phase_def)
  have pos: "?ps ! i = AtAll \<Longrightarrow> 0 < waiting ?ps" using count_positive(3) [OF i(1)] .
  have counts: "holding (?ps[i := Inside]) = Suc (holding ?ps)" "holding (?ps[i := AtHeavy]) = Suc (holding ?ps)"
    "heavy_inside heavy (?ps[i := Inside]) = heavy_inside heavy ?ps + (if heavy i then 1 else 0)"
    "heavy_inside heavy (?ps[i := AtHeavy]) = heavy_inside heavy ?ps"
    "inside (?ps[i := AtHeavy]) = inside ?ps"
    "rm_queued r = Suc (waiting (?ps[i := Inside]))" "rm_queued r = waiting (?ps[i := AtHeavy])"
    using i assms pos by (auto simp: between_ok_def count_defs tally_set)
  show ?thesis
  proof (cases "heavy i")
    case False
    then have "after_all (heavy i) i r s = go_inside (heavy i) i r s" by (simp add: after_all_def)
    then show ?thesis using go_inside_ok [of i s st r heavy] i assms counts no False by (auto simp: between_ok_def)
  next
    case True
    obtain ok h where acq: "sem_acquire i (rm_heavy r) = (ok, h)" by fastforce
    from sem_acquire_ok [OF _ no(1), of "at_least_one (ollama_heavy_max_concurrency st)" "heavy_inside heavy ?ps" "rm_heavy r"]
    have h: "if ok then sem_ok (at_least_one (ollama_heavy_max_concurrency st)) (Suc (heavy_inside heavy ?ps)) (in_phase AtHeavy ?ps) h
       else sem_ok (at_least_one (ollama_heavy_max_concurrency st)) (heavy_inside heavy ?ps) (insert i (in_phase AtHeavy ?ps)) h"
      using assms acq by (simp add: between_ok_def split: if_splits bool.splits)
    show ?thesis
    proof (cases ok)
      case True
      then have "after_all (heavy i) i r s = go_inside (heavy i) i (r\<lparr>rm_heavy := h\<rparr>) s"
        using \<open>heavy i\<close> acq by (simp add: after_all_def)
      then show ?thesis using go_inside_ok [of i s st "r\<lparr>rm_heavy := h\<rparr>" heavy] i assms counts no h True \<open>heavy i\<close>
        by (auto simp: between_ok_def)
    next
      case False
      then have "after_all (heavy i) i r s = set_phase i AtHeavy (r\<lparr>rm_heavy := h\<rparr>) s"
        using \<open>heavy i\<close> acq by (simp add: after_all_def)
      then show ?thesis using i assms counts h False \<open>heavy i\<close>
        by (auto simp: between_ok_def admission_ok_def set_phase_def in_phase_update heavy_wait_ok_def Let_def)
    qed
  qed
qed

lemma enter_ok:
  assumes "admission_ok st heavy s" and "admission_step heavy (Enter i) s = Some s'"
  shows "admission_ok st heavy s'"
proof -
  let ?ps = "ad_phase s" and ?r = "(ad_res s)\<lparr>rm_queued := rm_queued (ad_res s) + 1\<rparr>"
  have i: "i < length ?ps" "?ps ! i = Fresh" using assms(2) by (auto split: if_splits)
  then have no: "i \<notin> in_phase AtAll ?ps" "in_phase AtAll ?ps - {i} = in_phase AtAll ?ps" "in_phase AtHeavy ?ps - {i} = in_phase AtHeavy ?ps"
    by (auto simp: in_phase_def)
  obtain ok a where acq: "sem_acquire i (rm_all (ad_res s)) = (ok, a)" by fastforce
  have a: "if ok then sem_ok (at_least_one (ollama_max_concurrency st)) (Suc (holding ?ps)) (in_phase AtAll ?ps) a
     else sem_ok (at_least_one (ollama_max_concurrency st)) (holding ?ps) (insert i (in_phase AtAll ?ps)) a"
    using sem_acquire_ok [OF _ no(1), of "at_least_one (ollama_max_concurrency st)" "holding ?ps" "rm_all (ad_res s)"]
      assms(1) acq by (simp add: admission_ok_def Let_def split: if_splits bool.splits)
  show ?thesis
  proof (cases ok)
    case True
    then have s': "s' = after_all (heavy i) i (?r\<lparr>rm_all := a\<rparr>) s" using assms(2) i acq by (simp add: Let_def)
    show ?thesis unfolding s'
      by (rule after_all_ok) (use i no a True assms(1) in \<open>auto simp: between_ok_def admission_ok_def Let_def\<close>)
  next
    case False
    then have s': "s' = set_phase i AtAll (?r\<lparr>rm_all := a\<rparr>) s" using assms(2) i acq by (simp add: Let_def)
    have "holding (?ps[i := AtAll]) = holding ?ps" "heavy_inside heavy (?ps[i := AtAll]) = heavy_inside heavy ?ps"
      "waiting (?ps[i := AtAll]) = Suc (waiting ?ps)" "inside (?ps[i := AtAll]) = inside ?ps"
      using i by (simp_all add: count_defs tally_set)
    then show ?thesis using i no a False assms(1)
      by (auto simp: s' admission_ok_def set_phase_def in_phase_update heavy_wait_ok_def Let_def)
  qed
qed

lemma resume_ok:
  assumes "admission_ok st heavy s" and "admission_step heavy (Resume i) s = Some s'"
  shows "admission_ok st heavy s'"
proof -
  let ?ps = "ad_phase s" and ?r = "ad_res s"
  from assms(2) consider (all) "i < length ?ps" "?ps ! i = AtAll" "has_slot i (rm_all ?r)"
      "s' = after_all (heavy i) i (?r\<lparr>rm_all := sem_resume i (rm_all ?r)\<rparr>) s"
    | (heavy) "i < length ?ps" "?ps ! i = AtHeavy" "has_slot i (rm_heavy ?r)"
      "s' = go_inside True i (?r\<lparr>rm_heavy := sem_resume i (rm_heavy ?r)\<rparr>) s"
    by (auto simp: Let_def split: if_splits)
  then show ?thesis
  proof cases
    case all
    show ?thesis unfolding all(4)
      by (rule after_all_ok)
        (use all assms(1) sem_resume_ok [OF _ all(3)] in \<open>auto simp: between_ok_def admission_ok_def Let_def\<close>)
  next
    case heavy
    then have h: "heavy i" using assms(1) by (auto simp: admission_ok_def heavy_wait_ok_def in_phase_def Let_def)
    have "holding (?ps[i := Inside]) = holding ?ps" "heavy_inside heavy (?ps[i := Inside]) = Suc (heavy_inside heavy ?ps)"
      "waiting ?ps = Suc (waiting (?ps[i := Inside]))"
      using heavy h count_positive(2) [OF heavy(1,2)] by (simp_all add: count_defs tally_set)
    moreover have "in_phase AtAll ?ps - {i} = in_phase AtAll ?ps" using heavy by (auto simp: in_phase_def)
    ultimately have "admission_ok st heavy (go_inside (heavy i) i (?r\<lparr>rm_heavy := sem_resume i (rm_heavy ?r)\<rparr>) s)"
      by (intro go_inside_ok)
        (use heavy assms(1) sem_resume_ok [OF _ heavy(3)] in \<open>auto simp: admission_ok_def Let_def\<close>)
    then show ?thesis using heavy(4) h by simp
  qed
qed

lemma leave_ok:
  assumes "admission_ok st heavy s" and "admission_step heavy (Leave i) s = Some s'"
  shows "admission_ok st heavy s'"
proof -
  let ?ps = "ad_phase s" and ?r = "ad_res s"
  have i: "i < length ?ps" "?ps ! i = Inside"
    and s': "s' = set_phase i Gone (release_all (if heavy i then release_heavy ?r else ?r)) s"
    using assms(2) by (auto split: if_splits)
  note pos = count_positive(1) [OF i, of heavy]
  have counts: "holding ?ps = Suc (holding (?ps[i := Gone]))" "inside ?ps = Suc (inside (?ps[i := Gone]))"
    "heavy_inside heavy ?ps = heavy_inside heavy (?ps[i := Gone]) + (if heavy i then 1 else 0)"
    "waiting (?ps[i := Gone]) = waiting ?ps"
    using i pos by (auto simp: count_defs tally_set)
  have no: "in_phase AtAll (?ps[i := Gone]) = in_phase AtAll ?ps" "in_phase AtHeavy (?ps[i := Gone]) = in_phase AtHeavy ?ps"
    using i by (auto simp: in_phase_def nth_list_update)
  have heavy: "heavy_inside heavy ?ps = Suc (heavy_inside heavy (?ps[i := Gone]))" if "heavy i"
    using counts(3) that by simp
  show ?thesis
    using assms(1) counts no heavy
    by (auto simp: s' admission_ok_def set_phase_def release_all_def release_heavy_def heavy_wait_ok_def Let_def
        intro!: sem_release_ok)
qed

lemma cancel_ok:
  assumes "admission_ok st heavy s" and "admission_step heavy (Cancel i) s = Some s'"
  shows "admission_ok st heavy s'"
proof -
  let ?ps = "ad_phase s" and ?r = "(ad_res s)\<lparr>rm_queued := rm_queued (ad_res s) - 1\<rparr>"
  from assms(2) consider (all) "i < length ?ps" "?ps ! i = AtAll"
      "s' = set_phase i Gone (?r\<lparr>rm_all := sem_cancel i (rm_all ?r)\<rparr>) s"
    | (heavy) "i < length ?ps" "?ps ! i = AtHeavy"
      "s' = set_phase i Gone (release_all (?r\<lparr>rm_heavy := sem_cancel i (rm_heavy ?r)\<rparr>)) s"
    by (auto simp: Let_def split: if_splits)
  then show ?thesis
  proof cases
    case all
    have "holding (?ps[i := Gone]) = holding ?ps" "heavy_inside heavy (?ps[i := Gone]) = heavy_inside heavy ?ps"
      "waiting (?ps[i := Gone]) = waiting ?ps - 1" "inside (?ps[i := Gone]) = inside ?ps"
      using all by (simp_all add: count_defs tally_set)
    moreover have "in_phase AtAll (?ps[i := Gone]) = in_phase AtAll ?ps - {i}" "in_phase AtHeavy (?ps[i := Gone]) = in_phase AtHeavy ?ps"
      using all by (auto simp: in_phase_def nth_list_update)
    ultimately show ?thesis using assms(1)
      by (auto simp: all admission_ok_def set_phase_def heavy_wait_ok_def Let_def intro!: sem_cancel_ok)
  next
    case heavy
    note pos = count_positive(2) [OF heavy(1,2)]
    have "holding ?ps = Suc (holding (?ps[i := Gone]))" "heavy_inside heavy (?ps[i := Gone]) = heavy_inside heavy ?ps"
      "waiting (?ps[i := Gone]) = waiting ?ps - 1" "inside (?ps[i := Gone]) = inside ?ps"
      using heavy pos by (simp_all add: count_defs tally_set)
    moreover have "in_phase AtAll (?ps[i := Gone]) = in_phase AtAll ?ps" "in_phase AtHeavy (?ps[i := Gone]) = in_phase AtHeavy ?ps - {i}"
      using heavy by (auto simp: in_phase_def nth_list_update)
    ultimately show ?thesis using assms(1)
      by (auto simp: heavy admission_ok_def set_phase_def release_all_def heavy_wait_ok_def Let_def
          intro!: sem_cancel_ok sem_release_ok)
  qed
qed

lemma step_ok: "admission_ok st heavy s \<Longrightarrow> admission_step heavy m s = Some s' \<Longrightarrow> admission_ok st heavy s'"
  by (cases m) (blast intro: enter_ok resume_ok leave_ok cancel_ok)+

lemma admitted_ok: "admitted st models s \<Longrightarrow> admission_ok st (needs_heavy models) s"
  by (induction rule: admitted.induct) (auto intro: start_ok step_ok)

section \<open>No deadlock\<close>

text \<open>How many moves a request still has, when it is not cancelled.\<close>

fun moves_left :: "phase \<Rightarrow> nat" where
  "moves_left Fresh = 4" | "moves_left AtAll = 3" | "moves_left AtHeavy = 2" | "moves_left Inside = 1" | "moves_left Gone = 0"

definition total_left :: "phase list \<Rightarrow> nat" where
  "total_left ps = sum_list (map moves_left ps)"

lemma total_left_update:
  "i < length ps \<Longrightarrow> moves_left p < moves_left (ps ! i) \<Longrightarrow> total_left (ps[i := p]) < total_left ps"
  using elem_le_sum_list [of i "map moves_left ps"]
  by (simp add: total_left_def map_update sum_list_update)

lemma phase_after_all: "\<exists>p. ad_phase (after_all heavy i r s) = (ad_phase s)[i := p] \<and> p \<in> {AtHeavy, Inside}"
  by (auto simp: after_all_def go_inside_def set_phase_def split: prod.split bool.split)

lemma step_drops:
  assumes "admission_step heavy m s = Some s'"
  shows "total_left (ad_phase s') < total_left (ad_phase s) \<and> length (ad_phase s') = length (ad_phase s)"
proof -
  have drop: "total_left (ad_phase (after_all h i r s)) < total_left (ad_phase s) \<and>
      length (ad_phase (after_all h i r s)) = length (ad_phase s)"
    if "i < length (ad_phase s)" "ad_phase s ! i \<in> {Fresh, AtAll}" for h i r
  proof -
    obtain p where "ad_phase (after_all h i r s) = (ad_phase s)[i := p]" "p \<in> {AtHeavy, Inside}"
      using phase_after_all by blast
    with that show ?thesis by (auto intro!: total_left_update)
  qed
  show ?thesis
  proof (cases m)
    case (Enter i)
    then show ?thesis using assms drop
      by (auto simp: Let_def set_phase_def intro!: total_left_update split: if_splits prod.splits bool.splits)
  next
    case (Resume i)
    then show ?thesis using assms drop
      by (auto simp: Let_def set_phase_def go_inside_def intro!: total_left_update split: if_splits)
  next
    case (Leave i)
    then show ?thesis using assms by (auto simp: set_phase_def intro!: total_left_update split: if_splits)
  next
    case (Cancel i)
    then show ?thesis using assms by (auto simp: Let_def set_phase_def intro!: total_left_update split: if_splits)
  qed
qed

lemma waiter_or_free:
  assumes "sem_ok n k W s" and "k < n" and "W \<noteq> {}"
  shows "\<exists>i \<in> W. has_slot i s"
proof -
  have sum: "sm_value s + handed (sm_waiters s) + k = n" and W: "fst ` set (sm_waiters s) = W"
    and free: "0 < sm_value s \<Longrightarrow> sm_waiters s = [] \<or> 0 < handed (sm_waiters s)"
    using assms(1) by (simp_all add: sem_ok_def)
  have "0 < handed (sm_waiters s)"
  proof (cases "sm_value s = 0")
    case True
    then show ?thesis using sum assms(2) by simp
  next
    case False
    then show ?thesis using free W assms(3) by fastforce
  qed
  then obtain w where w: "w \<in> set (sm_waiters s)" "snd w" by (auto simp: handed_def filter_empty_conv)
  from w(2) have "w = (fst w, True)" by (simp add: prod_eq_iff)
  with w(1) have "has_slot (fst w) s" unfolding has_slot_def by metis
  moreover have "fst w \<in> W" using w W by blast
  ultimately show ?thesis by blast
qed

lemma never_stuck:
  assumes "admission_ok st heavy s" and "\<exists>i < length (ad_phase s). ad_phase s ! i \<noteq> Gone"
  shows "\<exists>m s'. admission_step heavy m s = Some s' \<and> (\<forall>i. m \<noteq> Cancel i)"
proof -
  let ?ps = "ad_phase s" and ?r = "ad_res s"
  have N: "0 < at_least_one (ollama_max_concurrency st)" "0 < at_least_one (ollama_heavy_max_concurrency st)"
    by (simp_all add: at_least_one_def)
  obtain i where i: "i < length ?ps" "?ps ! i \<noteq> Gone" using assms(2) by blast
  consider (fresh) "\<exists>j < length ?ps. ?ps ! j = Fresh" | (body) "\<exists>j < length ?ps. ?ps ! j = Inside"
    | (heavy) "inside ?ps = 0" "in_phase AtHeavy ?ps \<noteq> {}"
    | (all) "inside ?ps = 0" "in_phase AtHeavy ?ps = {}" "in_phase AtAll ?ps \<noteq> {}"
    using i tally_exists [of "\<lambda>i p. p = Inside" ?ps] by (cases "?ps ! i") (auto simp: in_phase_def inside_def)
  then show ?thesis
  proof cases
    case fresh
    then obtain j where "j < length ?ps" "?ps ! j = Fresh" by blast
    then have "\<exists>s'. admission_step heavy (Enter j) s = Some s'" by (auto simp: Let_def split: prod.split bool.split)
    then show ?thesis by blast
  next
    case body
    then obtain j where "j < length ?ps" "?ps ! j = Inside" by blast
    then have "\<exists>s'. admission_step heavy (Leave j) s = Some s'" by simp
    then show ?thesis by blast
  next
    case heavy
    have "heavy_inside heavy ?ps = 0"
      using heavy(1) tally_exists [of "\<lambda>i p. p = Inside \<and> heavy i" ?ps] tally_member [of _ ?ps "\<lambda>i p. p = Inside"]
      by (force simp: count_defs)
    then obtain j where "j \<in> in_phase AtHeavy ?ps" "has_slot j (rm_heavy ?r)"
      using waiter_or_free [of _ "heavy_inside heavy ?ps" "in_phase AtHeavy ?ps" "rm_heavy ?r"] assms(1) heavy(2) N
      by (auto simp: admission_ok_def Let_def)
    then have "\<exists>s'. admission_step heavy (Resume j) s = Some s'" by (auto simp: in_phase_def Let_def)
    then show ?thesis by blast
  next
    case all
    have "holding ?ps = 0"
      using all(1,2) tally_exists [of "\<lambda>i p. p = AtHeavy \<or> p = Inside" ?ps] tally_member [of _ ?ps "\<lambda>i p. p = Inside"]
      by (force simp: count_defs in_phase_def)
    then obtain j where "j \<in> in_phase AtAll ?ps" "has_slot j (rm_all ?r)"
      using waiter_or_free [of _ "holding ?ps" "in_phase AtAll ?ps" "rm_all ?r"] assms(1) all(3) N
      by (auto simp: admission_ok_def Let_def)
    then have "\<exists>s'. admission_step heavy (Resume j) s = Some s'" by (auto simp: in_phase_def Let_def)
    then show ?thesis by blast
  qed
qed

section \<open>Properties\<close>

fun admission_run :: "(nat \<Rightarrow> bool) \<Rightarrow> move list \<Rightarrow> admission \<Rightarrow> admission option" where
  "admission_run heavy [] s = Some s"
| "admission_run heavy (m # ms) s = Option.bind (admission_step heavy m s) (admission_run heavy ms)"

fun cancels :: "move \<Rightarrow> bool" where
  "cancels (Cancel _) = True"
| "cancels _ = False"

lemma run_reaches:
  "admitted st models s \<Longrightarrow> admission_run (needs_heavy models) ms s = Some s' \<Longrightarrow> admitted st models s'"
  by (induction ms arbitrary: s) (auto simp: bind_eq_Some_conv intro: admitted_step)

lemma run_drops:
  "admission_run heavy ms s = Some s' \<Longrightarrow>
     length ms + total_left (ad_phase s') \<le> total_left (ad_phase s) \<and> length (ad_phase s') = length (ad_phase s)"
  by (induction ms arbitrary: s) (fastforce simp: bind_eq_Some_conv dest: step_drops)+

lemma tally_mono:
  assumes "\<And>i p. P i p \<Longrightarrow> Q i p"
  shows "tally P ps \<le> tally Q ps"
proof -
  have "length (filter (\<lambda>i. P i (ps ! i)) is) \<le> length (filter (\<lambda>i. Q i (ps ! i)) is)" for "is"
    using assms by (induction "is") auto
  then show ?thesis by (simp add: tally_def)
qed

definition sample_models :: "string list" where
  "sample_models = [''llama3:70b'', ''qwen2:72b'', ''llama3:8b'']"

text \<open>
  C11: the model server is never asked by more requests at once than configured, and by no more
  large-model requests than configured, whatever the order in which requests arrive, are resumed,
  finish and are cancelled; the counters of queued and of heavy requests are exact, and the
  counter of active requests never exceeds the truth.
\<close>

theorem model_server_never_overloaded:
  assumes "admitted st models s"
  shows "inside (ad_phase s) \<le> at_least_one (ollama_max_concurrency st) \<and>
    heavy_inside (needs_heavy models) (ad_phase s) \<le> at_least_one (ollama_heavy_max_concurrency st) \<and>
    rm_queued (ad_res s) = waiting (ad_phase s) \<and>
    rm_active_heavy (ad_res s) = heavy_inside (needs_heavy models) (ad_phase s) \<and>
    rm_active (ad_res s) \<le> inside (ad_phase s)"
proof -
  have "inside (ad_phase s) \<le> holding (ad_phase s)"
    unfolding inside_def holding_def by (rule tally_mono) simp
  then show ?thesis using admitted_ok [OF assms] by (auto simp: admission_ok_def sem_ok_def Let_def)
qed

theorem model_server_never_overloaded_witness:
  "\<exists>s. admitted default_settings sample_models s \<and> ad_phase s = [Inside, Gone, AtAll] \<and>
     inside (ad_phase s) \<le> at_least_one (ollama_max_concurrency default_settings) \<and>
     rm_active (ad_res s) < inside (ad_phase s)"
proof -
  let ?ms = "[Enter 0, Enter 1, Enter 2, Cancel 1]"
  have "(case admission_run (needs_heavy sample_models) ?ms (admission_start default_settings (length sample_models)) of
      None \<Rightarrow> False | Some s \<Rightarrow> ad_phase s = [Inside, Gone, AtAll] \<and> rm_active (ad_res s) = 0)"
    by code_simp
  then obtain s where s: "admission_run (needs_heavy sample_models) ?ms (admission_start default_settings (length sample_models)) = Some s"
    "ad_phase s = [Inside, Gone, AtAll]" "rm_active (ad_res s) = 0" by (auto split: option.splits)
  have "admitted default_settings sample_models s" using run_reaches [OF admitted_start s(1)] .
  then show ?thesis using model_server_never_overloaded [of default_settings sample_models s] s(2,3)
    by (intro exI [of _ s]) (simp add: inside_def tally_def)
qed

text \<open>
  C22: admission never deadlocks. Whatever happened before, some request that is not yet through can
  move on by itself, nobody has to be cancelled for it; and as every request makes at most four
  moves, every schedule that keeps moving serves all of them.
\<close>

theorem admission_never_deadlocks:
  assumes "admission_run (needs_heavy models) ms (admission_start st (length models)) = Some s"
  shows "length ms + total_left (ad_phase s) \<le> 4 * length models \<and>
    (set (ad_phase s) \<subseteq> {Gone} \<or> (\<exists>m s'. admission_step (needs_heavy models) m s = Some s' \<and> \<not> cancels m))"
proof -
  have "total_left (ad_phase (admission_start st (length models))) = 4 * length models"
    by (simp add: admission_start_def total_left_def sum_list_replicate)
  moreover have "admission_ok st (needs_heavy models) s"
    using admitted_ok run_reaches admitted_start assms by blast
  moreover have "(\<exists>i < length (ad_phase s). ad_phase s ! i \<noteq> Gone) \<or> set (ad_phase s) \<subseteq> {Gone}"
    by (auto simp: in_set_conv_nth)
  moreover have "\<not> cancels m" if "\<forall>i. m \<noteq> Cancel i" for m using that by (cases m) auto
  ultimately show ?thesis using run_drops [OF assms] never_stuck [of st "needs_heavy models" s] by metis
qed

theorem admission_never_deadlocks_witness:
  "\<exists>s. admission_run (needs_heavy sample_models) [Enter 0, Enter 1, Enter 2]
       (admission_start default_settings (length sample_models)) = Some s \<and> ad_phase s = [Inside, AtHeavy, AtAll] \<and>
     (\<exists>m s'. admission_step (needs_heavy sample_models) m s = Some s' \<and> \<not> cancels m)"
proof -
  let ?ms = "[Enter 0, Enter 1, Enter 2]"
  have "(case admission_run (needs_heavy sample_models) ?ms (admission_start default_settings (length sample_models)) of
      None \<Rightarrow> False | Some s \<Rightarrow> ad_phase s = [Inside, AtHeavy, AtAll])"
    by code_simp
  then obtain s where s: "admission_run (needs_heavy sample_models) ?ms (admission_start default_settings (length sample_models)) = Some s"
    "ad_phase s = [Inside, AtHeavy, AtAll]" by (auto split: option.splits)
  have "\<not> set (ad_phase s) \<subseteq> {Gone}" unfolding s(2) by simp
  with conjunct2 [OF admission_never_deadlocks [OF s(1)]]
  have "\<exists>m s'. admission_step (needs_heavy sample_models) m s = Some s' \<and> \<not> cancels m" by blast
  with s show ?thesis by blast
qed

end
