(* ===== verification/Bytes.thy ===== *)
theory Bytes
  imports JsonText "HOL-Library.Word"
begin

text \<open>
  The parts of Python's standard library that request identity rests on, over bytes: UTF-8 for
  the characters of the model, the URL-safe base64 of \<open>binascii\<close> with its lenient decoder,
  SHA-256 and HMAC as \<open>hashlib\<close> and \<open>hmac\<close> compute them, and \<open>uuid.UUID\<close> on text.
\<close>

unbundle bit_operations_syntax

type_synonym bytes = "8 word list"

section \<open>UTF-8\<close>

definition utf8_char :: "char \<Rightarrow> bytes" where
  "utf8_char c = (let n = (of_char c :: nat) in
     if n < 128 then [word_of_nat n]
     else [word_of_nat (192 + n div 64), word_of_nat (128 + n mod 64)])"

definition utf8_encode :: "string \<Rightarrow> bytes" where
  "utf8_encode s = concat (map utf8_char s)"

text \<open>A sequence for a code point beyond 255 is outside the model and reads as \<open>None\<close>.\<close>

fun utf8_decode :: "bytes \<Rightarrow> string option" where
  "utf8_decode [] = Some []"
| "utf8_decode (b # bs) =
     (if unat b < 128 then map_option (\<lambda>t. char_of (unat b) # t) (utf8_decode bs)
      else case bs of
          [] \<Rightarrow> None
        | d # ds \<Rightarrow>
            if (unat b = 194 \<or> unat b = 195) \<and> 128 \<le> unat d \<and> unat d < 192
            then map_option (\<lambda>t. char_of ((unat b - 192) * 64 + (unat d - 128)) # t) (utf8_decode ds)
            else None)"

lemma unat_byte: "n < 256 \<Longrightarrow> unat (word_of_nat n :: 8 word) = n"
  by (simp add: unsigned_of_nat take_bit_nat_eq_self)

lemma utf8_decode_two:
  assumes "hi = 194 \<or> hi = 195" and "128 \<le> lo" and "lo < 192"
  shows "utf8_decode (word_of_nat hi # word_of_nat lo # bs) =
           map_option (\<lambda>t. char_of ((hi - 192) * 64 + (lo - 128)) # t) (utf8_decode bs)"
proof -
  have "unat (word_of_nat hi :: 8 word) = hi" "unat (word_of_nat lo :: 8 word) = lo"
    using assms by (auto intro!: unat_byte)
  with assms show ?thesis by (subst utf8_decode.simps) auto
qed

lemma utf8_decode_char: "utf8_decode (utf8_char c @ bs) = map_option (\<lambda>t. c # t) (utf8_decode bs)"
proof -
  let ?n = "of_char c :: nat"
  have n: "?n < 256" by simp
  show ?thesis
  proof (cases "?n < 128")
    case True
    then show ?thesis by (simp add: utf8_char_def unat_byte)
  next
    case False
    have "2 \<le> ?n div 64" using False div_le_mono [of 128 ?n 64] by simp
    moreover have "?n div 64 < 4" using n by (intro less_mult_imp_div_less) simp
    ultimately have d: "?n div 64 = 2 \<or> ?n div 64 = 3" by linarith
    let ?hi = "192 + ?n div 64" and ?lo = "128 + ?n mod 64"
    have "?hi = 194 \<or> ?hi = 195" "128 \<le> ?lo" "?lo < 192" using d by auto
    note two = utf8_decode_two [OF this, of bs]
    have "char_of ((?hi - 192) * 64 + (?lo - 128)) = c" by simp
    moreover have "utf8_char c = [word_of_nat ?hi, word_of_nat ?lo]"
      using False by (simp only: utf8_char_def Let_def if_False)
    ultimately show ?thesis using two by (simp only: append_Cons append_Nil)
  qed
qed

lemma utf8_roundtrip [simp]: "utf8_decode (utf8_encode s) = Some s"
  by (induction s) (simp_all add: utf8_encode_def utf8_decode_char)

lemma utf8_encode_inj: "utf8_encode s = utf8_encode t \<Longrightarrow> s = t"
  by (metis option.inject utf8_roundtrip)

definition is_ascii :: "string \<Rightarrow> bool" where
  "is_ascii s = list_all (\<lambda>c. of_char c < (128 :: nat)) s"

definition ascii_encode :: "string \<Rightarrow> bytes" where
  "ascii_encode s = map (\<lambda>c. word_of_nat (of_char c)) s"

section \<open>Base64\<close>

definition b64_digit :: "nat \<Rightarrow> char" where
  "b64_digit n =
     (if n < 26 then char_of (65 + n) else if n < 52 then char_of (71 + n)
      else if n < 62 then char_of (n - 4) else if n = 62 then CHR ''-'' else CHR ''_'')"

text \<open>\<open>urlsafe_b64decode\<close> first translates \<open>-\<close> and \<open>_\<close>, so \<open>+\<close> and \<open>/\<close> are digits too.\<close>

definition b64_value :: "char \<Rightarrow> nat option" where
  "b64_value c = (let n = of_char c in
     if 65 \<le> n \<and> n \<le> 90 then Some (n - 65)
     else if 97 \<le> n \<and> n \<le> 122 then Some (n - 71)
     else if 48 \<le> n \<and> n \<le> 57 then Some (n + 4)
     else if n = 45 \<or> n = 43 then Some 62
     else if n = 95 \<or> n = 47 then Some 63 else None)"

fun urlsafe_b64encode :: "bytes \<Rightarrow> string" where
  "urlsafe_b64encode [] = []"
| "urlsafe_b64encode [a] =
     [b64_digit (unat a div 4), b64_digit (unat a mod 4 * 16), CHR ''='', CHR ''='']"
| "urlsafe_b64encode [a, b] =
     [b64_digit (unat a div 4), b64_digit (unat a mod 4 * 16 + unat b div 16),
      b64_digit (unat b mod 16 * 4), CHR ''='']"
| "urlsafe_b64encode (a # b # c # bs) =
     b64_digit (unat a div 4) # b64_digit (unat a mod 4 * 16 + unat b div 16)
     # b64_digit (unat b mod 16 * 4 + unat c div 64) # b64_digit (unat c mod 64)
     # urlsafe_b64encode bs"

definition cons_byte :: "nat \<Rightarrow> bytes option \<Rightarrow> bytes option" where
  "cons_byte n r = map_option (\<lambda>bs. word_of_nat n # bs) r"

text \<open>
  \<open>binascii.a2b_base64\<close> without strict mode: position within the quadruple, padding seen and bits
  left over. Characters outside the alphabet are skipped, and a complete padding ends the text.
\<close>

fun a2b_base64 :: "nat \<Rightarrow> nat \<Rightarrow> nat \<Rightarrow> string \<Rightarrow> bytes option" where
  "a2b_base64 q pads left [] = (if q = 0 then Some [] else None)"
| "a2b_base64 q pads left (c # cs) =
     (if c = CHR ''='' then
        if 2 \<le> q \<and> 4 \<le> q + (pads + 1) then Some []
        else a2b_base64 q (if 2 \<le> q then pads + 1 else pads) left cs
      else case b64_value c of
          None \<Rightarrow> a2b_base64 q pads left cs
        | Some v \<Rightarrow>
            if q = 0 then a2b_base64 1 0 v cs
            else if q = 1 then cons_byte (left * 4 + v div 16) (a2b_base64 2 0 (v mod 16) cs)
            else if q = 2 then cons_byte (left * 16 + v div 4) (a2b_base64 3 0 (v mod 4) cs)
            else cons_byte (left * 64 + v) (a2b_base64 0 0 0 cs))"

definition rstrip_char :: "char \<Rightarrow> string \<Rightarrow> string" where
  "rstrip_char c s = rstrip_where (\<lambda>d. d = c) s"

definition b64encode :: "bytes \<Rightarrow> string" where
  "b64encode bs = rstrip_char (CHR ''='') (urlsafe_b64encode bs)"

text \<open>\<open>(value + padding).encode("ascii")\<close> raises for a character beyond ASCII.\<close>

definition b64decode :: "string \<Rightarrow> bytes option" where
  "b64decode s =
     (if is_ascii s then a2b_base64 0 0 0 (s @ replicate ((4 - length s mod 4) mod 4) (CHR ''=''))
      else None)"

lemma b64_value_digit [simp]: "n < 64 \<Longrightarrow> b64_value (b64_digit n) = Some n"
  by (auto simp: b64_value_def b64_digit_def Let_def)

lemma b64_digit_not_pad [simp]: "n < 64 \<Longrightarrow> b64_digit n \<noteq> CHR ''=''"
  using b64_value_digit [of n] by (auto simp: b64_value_def)

lemma b64_digit_ascii: "of_char (b64_digit n) < (128 :: nat)"
  by (auto simp: b64_digit_def)

lemma b64_digit_no_dot: "b64_digit n \<noteq> CHR ''.''"
proof
  assume eq: "b64_digit n = CHR ''.''"
  show False
  proof (cases "n < 64")
    case True
    then show ?thesis using b64_value_digit [of n] eq by (simp add: b64_value_def)
  next
    case False
    then show ?thesis using eq by (simp add: b64_digit_def)
  qed
qed

lemma cons_byte_unat [simp]: "cons_byte (unat b) (Some bs) = Some (b # bs)"
  by (simp add: cons_byte_def)

lemma byte_lt [simp]: "unat (b :: 8 word) < 256"
  using unsigned_less [of b, where 'a = nat] by simp

text \<open>Two bit fields side by side.\<close>

lemma pack_fields:
  fixes x y m k :: nat
  assumes "y < m"
  shows "(x * m + y) div m = x" "(x * m + y) mod m = y" "x < k \<Longrightarrow> x * m + y < k * m"
proof -
  show "(x * m + y) div m = x" "(x * m + y) mod m = y" using assms by simp_all
  assume "x < k"
  then have "(x + 1) * m \<le> k * m" by (intro mult_le_mono1) simp
  with assms show "x * m + y < k * m" by simp
qed

lemma div_byte [simp]:
  fixes a :: nat
  shows "a < 256 \<Longrightarrow> a div 4 < 64" "a < 256 \<Longrightarrow> a div 16 < 16" "a < 256 \<Longrightarrow> a div 64 < 4" "a mod 64 < 64"
  by (simp_all add: less_mult_imp_div_less)

lemma sextets [simp]:
  fixes a b :: nat
  assumes "b < 256"
  shows "a mod 4 * 16 + b div 16 < 64" "a mod 16 * 4 + b div 64 < 64"
    "(a mod 4 * 16 + b div 16) div 16 = a mod 4" "(a mod 4 * 16 + b div 16) mod 16 = b div 16"
    "(a mod 16 * 4 + b div 64) div 4 = a mod 16" "(a mod 16 * 4 + b div 64) mod 4 = b div 64"
  using assms pack_fields [of "b div 16" 16 "a mod 4"] pack_fields [of "b div 64" 4 "a mod 16"]
    pack_fields(3) [of "b div 16" 16 "a mod 4" 4] pack_fields(3) [of "b div 64" 4 "a mod 16" 16]
  by simp_all

lemma last_sextets [simp]:
  fixes a :: nat
  shows "a mod 4 * 16 < 64" "a mod 16 * 4 < 64"
    "a mod 4 * 16 div 16 = a mod 4" "a mod 16 * 4 div 4 = a mod 16"
  using sextets [of 0 a] by simp_all

lemma join_bits [simp]:
  fixes a :: nat
  shows "a div 4 * 4 + a mod 4 = a" "a div 16 * 16 + a mod 16 = a" "a div 64 * 64 + a mod 64 = a"
  by simp_all


lemma a2b_digit_0 [simp]: "n < 64 \<Longrightarrow> a2b_base64 0 p l (b64_digit n # cs) = a2b_base64 1 0 n cs"
  by simp

lemma a2b_digit_1 [simp]:
  "n < 64 \<Longrightarrow> a2b_base64 (Suc 0) p l (b64_digit n # cs) =
     cons_byte (l * 4 + n div 16) (a2b_base64 2 0 (n mod 16) cs)"
  by simp

lemma a2b_digit_2 [simp]:
  "n < 64 \<Longrightarrow> a2b_base64 2 p l (b64_digit n # cs) =
     cons_byte (l * 16 + n div 4) (a2b_base64 3 0 (n mod 4) cs)"
  by simp

lemma a2b_digit_3 [simp]:
  "n < 64 \<Longrightarrow> a2b_base64 3 p l (b64_digit n # cs) = cons_byte (l * 64 + n) (a2b_base64 0 0 0 cs)"
  by simp

lemmas a2b_digits = a2b_digit_0 a2b_digit_1 a2b_digit_2 a2b_digit_3

lemma a2b_urlsafe: "a2b_base64 0 p l (urlsafe_b64encode bs) = Some bs"
proof (induction bs arbitrary: p l rule: urlsafe_b64encode.induct)
  case (4 a b c bs)
  then show ?case by (simp del: a2b_base64.simps add: a2b_digits)
qed (simp_all add: cons_byte_def)

text \<open>What \<open>rstrip("=")\<close> takes off is put back before decoding.\<close>

lemma b64_shape:
  "\<exists>ds. urlsafe_b64encode bs = ds @ replicate ((4 - length ds mod 4) mod 4) (CHR ''='') \<and>
     list_all (\<lambda>c. c \<noteq> CHR ''='' \<and> c \<noteq> CHR ''.'' \<and> of_char c < (128 :: nat)) ds"
proof (induction bs rule: urlsafe_b64encode.induct)
  case 1
  show ?case by (intro exI [of _ "[]"]) simp
next
  case (2 a)
  show ?case
    by (intro exI [of _ "[b64_digit (unat a div 4), b64_digit (unat a mod 4 * 16)]"])
      (simp add: b64_digit_ascii b64_digit_no_dot numeral_2_eq_2)
next
  case (3 a b)
  show ?case
    by (intro exI [of _ "[b64_digit (unat a div 4), b64_digit (unat a mod 4 * 16 + unat b div 16),
        b64_digit (unat b mod 16 * 4)]"])
      (simp add: b64_digit_ascii b64_digit_no_dot)
next
  case (4 a b c bs)
  then obtain ds where ds:
    "urlsafe_b64encode bs = ds @ replicate ((4 - length ds mod 4) mod 4) (CHR ''='')"
    "list_all (\<lambda>c. c \<noteq> CHR ''='' \<and> c \<noteq> CHR ''.'' \<and> of_char c < (128 :: nat)) ds" by blast
  let ?ds = "b64_digit (unat a div 4) # b64_digit (unat a mod 4 * 16 + unat b div 16)
      # b64_digit (unat b mod 16 * 4 + unat c div 64) # b64_digit (unat c mod 64) # ds"
  have "length ?ds mod 4 = length ds mod 4" by simp
  with ds show ?case
    by (intro exI [of _ ?ds]) (simp add: b64_digit_ascii b64_digit_no_dot del: length_Cons)
qed

lemma rstrip_pads: "CHR ''='' \<notin> set ds \<Longrightarrow> rstrip_char (CHR ''='') (ds @ replicate n (CHR ''='')) = ds"
proof -
  assume no: "CHR ''='' \<notin> set ds"
  have "dropWhile (\<lambda>d. d = CHR ''='') (replicate n (CHR ''='') @ rev ds) =
      dropWhile (\<lambda>d. d = CHR ''='') (rev ds)" by (induction n) simp_all
  also have "\<dots> = rev ds" using no by (cases ds rule: rev_cases) auto
  finally show ?thesis by (simp add: rstrip_char_def rstrip_where_def)
qed

lemma b64_roundtrip [simp]: "b64decode (b64encode bs) = Some bs"
proof -
  obtain ds where ds: "urlsafe_b64encode bs = ds @ replicate ((4 - length ds mod 4) mod 4) (CHR ''='')"
    "list_all (\<lambda>c. c \<noteq> CHR ''='' \<and> c \<noteq> CHR ''.'' \<and> of_char c < (128 :: nat)) ds"
    using b64_shape by blast
  then have "b64encode bs = ds" by (auto simp: b64encode_def list_all_iff intro!: rstrip_pads)
  moreover have "is_ascii ds" using ds(2) by (auto simp: is_ascii_def list_all_iff)
  ultimately show ?thesis using ds(1) a2b_urlsafe [of 0 0 bs] by (simp add: b64decode_def)
qed

lemma b64encode_chars: "is_ascii (b64encode bs) \<and> CHR ''.'' \<notin> set (b64encode bs)"
proof -
  obtain ds where ds: "urlsafe_b64encode bs = ds @ replicate ((4 - length ds mod 4) mod 4) (CHR ''='')"
    "list_all (\<lambda>c. c \<noteq> CHR ''='' \<and> c \<noteq> CHR ''.'' \<and> of_char c < (128 :: nat)) ds"
    using b64_shape by blast
  then have "b64encode bs = ds" by (auto simp: b64encode_def list_all_iff intro!: rstrip_pads)
  with ds(2) show ?thesis by (auto simp: is_ascii_def list_all_iff)
qed

section \<open>SHA-256 and HMAC\<close>

text \<open>The round constants and the start value of the standard, in decimal.\<close>

definition sha_constants :: "32 word list" where
  "sha_constants =
     [1116352408, 1899447441, 3049323471, 3921009573, 961987163, 1508970993, 2453635748, 2870763221,
      3624381080, 310598401, 607225278, 1426881987, 1925078388, 2162078206, 2614888103, 3248222580,
      3835390401, 4022224774, 264347078, 604807628, 770255983, 1249150122, 1555081692, 1996064986,
      2554220882, 2821834349, 2952996808, 3210313671, 3336571891, 3584528711, 113926993, 338241895,
      666307205, 773529912, 1294757372, 1396182291, 1695183700, 1986661051, 2177026350, 2456956037,
      2730485921, 2820302411, 3259730800, 3345764771, 3516065817, 3600352804, 4094571909, 275423344,
      430227734, 506948616, 659060556, 883997877, 958139571, 1322822218, 1537002063, 1747873779,
      1955562222, 2024104815, 2227730452, 2361852424, 2428436474, 2756734187, 3204031479, 3329325298]"

definition sha_start :: "32 word list" where
  "sha_start = [1779033703, 3144134277, 1013904242, 2773480762, 1359893119, 2600822924, 528734635, 1541459225]"

definition big_endian :: "nat \<Rightarrow> nat \<Rightarrow> bytes" where
  "big_endian k n = map (\<lambda>i. word_of_nat (n div 256 ^ i mod 256)) (rev [0..<k])"

definition sha_pad :: "bytes \<Rightarrow> bytes" where
  "sha_pad m = (let l = length m in
     m @ [0x80] @ replicate ((119 - l mod 64) mod 64) 0 @ big_endian 8 (8 * l))"

fun to_words :: "bytes \<Rightarrow> 32 word list" where
  "to_words (a # b # c # d # bs) =
     word_of_nat (((unat a * 256 + unat b) * 256 + unat c) * 256 + unat d) # to_words bs"
| "to_words _ = []"

text \<open>The message schedule, newest word first.\<close>

definition sha_next :: "32 word list \<Rightarrow> 32 word" where
  "sha_next w = (let x = w ! 14; y = w ! 1 in
     w ! 15 + (word_rotr 7 x XOR word_rotr 18 x XOR drop_bit 3 x) + w ! 6 +
     (word_rotr 17 y XOR word_rotr 19 y XOR drop_bit 10 y))"

definition sha_schedule :: "32 word list \<Rightarrow> 32 word list" where
  "sha_schedule block = rev (((\<lambda>w. sha_next w # w) ^^ 48) (rev block))"

fun sha_round :: "32 word list \<Rightarrow> 32 word \<times> 32 word \<Rightarrow> 32 word list" where
  "sha_round [a, b, c, d, e, f, g, h] (k, w) =
     (let t1 = h + (word_rotr 6 e XOR word_rotr 11 e XOR word_rotr 25 e) +
               ((e AND f) XOR (NOT e AND g)) + k + w;
          t2 = (word_rotr 2 a XOR word_rotr 13 a XOR word_rotr 22 a) +
               ((a AND b) XOR (a AND c) XOR (b AND c))
      in [t1 + t2, a, b, c, d + t1, e, f, g])"
| "sha_round st _ = st"

definition sha_block :: "32 word list \<Rightarrow> 32 word list \<Rightarrow> 32 word list" where
  "sha_block st block =
     map2 (+) st (foldl sha_round st (zip sha_constants (sha_schedule block)))"

fun chunks_of_16 :: "nat \<Rightarrow> 32 word list \<Rightarrow> 32 word list list" where
  "chunks_of_16 0 ws = []"
| "chunks_of_16 (Suc n) ws = take 16 ws # chunks_of_16 n (drop 16 ws)"

definition sha256 :: "bytes \<Rightarrow> bytes" where
  "sha256 m = (let ws = to_words (sha_pad m) in
     concat (map (\<lambda>w. big_endian 4 (unat w)) (foldl sha_block sha_start (chunks_of_16 (length ws div 16) ws))))"

definition hexdigest :: "bytes \<Rightarrow> string" where
  "hexdigest bs = concat (map (\<lambda>b. [hex_digit (unat b div 16), hex_digit (unat b mod 16)]) bs)"

definition hmac_key :: "bytes \<Rightarrow> bytes" where
  "hmac_key k = (let k' = (if 64 < length k then sha256 k else k) in k' @ replicate (64 - length k') 0)"

definition hmac_sha256 :: "bytes \<Rightarrow> bytes \<Rightarrow> bytes" where
  "hmac_sha256 key m =
     (let k = hmac_key key
      in sha256 (map (\<lambda>b. b XOR 0x5c) k @ sha256 (map (\<lambda>b. b XOR 0x36) k @ m)))"

lemma sha_round_length: "length st = 8 \<Longrightarrow> length (sha_round st kw) = 8"
  by (cases "(st, kw)" rule: sha_round.cases) (simp_all add: Let_def)

lemma sha_block_length: "length st = 8 \<Longrightarrow> length (sha_block st block) = 8"
proof -
  assume "length st = 8"
  then have "length (foldl sha_round st kws) = 8" for kws
    by (induction kws arbitrary: st) (simp_all add: sha_round_length)
  with \<open>length st = 8\<close> show ?thesis by (simp add: sha_block_def)
qed

lemma sha256_length [simp]: "length (sha256 m) = 32"
proof -
  have "length (foldl sha_block st blocks) = 8" if "length st = 8" for st blocks
    using that by (induction blocks arbitrary: st) (simp_all add: sha_block_length)
  moreover have "length sha_start = 8" by (simp add: sha_start_def)
  ultimately have "length (foldl sha_block sha_start blocks) = 8" for blocks by blast
  then show ?thesis by (simp add: sha256_def Let_def length_concat big_endian_def o_def sum_list_triv)
qed

lemma hexdigest_length [simp]: "length (hexdigest bs) = 2 * length bs"
  by (induction bs) (simp_all add: hexdigest_def)

section \<open>UUIDs as text\<close>

text \<open>\<open>s.replace(needle, "")\<close>.\<close>

fun remove_from :: "nat \<Rightarrow> string \<Rightarrow> string \<Rightarrow> string" where
  "remove_from k n [] = []"
| "remove_from (Suc k) n (c # cs) = remove_from k n cs"
| "remove_from 0 n (c # cs) =
     (if starts_with n (c # cs) then remove_from (length n - 1) n cs else c # remove_from 0 n cs)"

text \<open>\<open>int(s, 16)\<close>: single underscores between digits, an optional sign and prefix.\<close>

fun hex_run :: "nat \<Rightarrow> bool \<Rightarrow> string \<Rightarrow> nat option" where
  "hex_run v digit [] = (if digit then Some v else None)"
| "hex_run v digit (c # cs) =
     (if c = CHR ''_'' then if digit then hex_run v False cs else None
      else case hex_value c of None \<Rightarrow> None | Some d \<Rightarrow> hex_run (v * 16 + d) True cs)"

definition hex_int :: "string \<Rightarrow> nat option" where
  "hex_int s =
     (let t = strip s; u = (if starts_with ''+'' t then tl t else t)
      in if starts_with ''0x'' u \<or> starts_with ''0X'' u
         then let r = drop 2 u in hex_run 0 False (if starts_with ''_'' r then tl r else r)
         else hex_run 0 False u)"

definition uuid_hex :: "string \<Rightarrow> string" where
  "uuid_hex s = filter (\<lambda>c. c \<noteq> CHR ''-'')
     (strip_where (\<lambda>c. c = CHR ''{'' \<or> c = CHR ''}'') (remove_from 0 ''uuid:'' (remove_from 0 ''urn:'' s)))"

definition uuid_int :: "string \<Rightarrow> nat option" where
  "uuid_int s = (if length (uuid_hex s) = 32 then hex_int (uuid_hex s) else None)"

fun hex_text :: "nat \<Rightarrow> nat \<Rightarrow> string" where
  "hex_text 0 n = []"
| "hex_text (Suc k) n = hex_text k (n div 16) @ [hex_digit (n mod 16)]"

text \<open>\<open>str(UUID(s))\<close>.\<close>

definition uuid_text :: "nat \<Rightarrow> string" where
  "uuid_text n = (let h = hex_text 32 n in
     take 8 h @ ''-'' @ take 4 (drop 8 h) @ ''-'' @ take 4 (drop 12 h) @ ''-'' @ take 4 (drop 16 h)
     @ ''-'' @ drop 20 h)"

definition canonical_uuid :: "string \<Rightarrow> string option" where
  "canonical_uuid s = map_option uuid_text (uuid_int s)"

lemma hex_value_bound: "hex_value c = Some d \<Longrightarrow> d < 16"
  by (auto simp: hex_value_def Let_def split: if_splits)

lemma hex_run_bound: "hex_run v b s = Some n \<Longrightarrow> n < (v + 1) * 16 ^ length s"
proof (induction v b s rule: hex_run.induct)
  case (2 v b c cs)
  show ?case
  proof (cases "c = CHR ''_''")
    case True
    with 2 have "n < (v + 1) * 16 ^ length cs" by (auto split: if_splits)
    also have "\<dots> \<le> (v + 1) * 16 ^ length (c # cs)" by simp
    finally show ?thesis .
  next
    case False
    with 2(3) obtain d where d: "hex_value c = Some d" "hex_run (v * 16 + d) True cs = Some n"
      by (auto split: option.splits)
    from 2(2) [OF False d] have "n < (v * 16 + d + 1) * 16 ^ length cs" .
    also have "\<dots> \<le> (v + 1) * 16 * 16 ^ length cs"
      using hex_value_bound [OF d(1)] by (intro mult_le_mono1) simp
    finally show ?thesis by (simp only: length_Cons power_Suc mult.assoc)
  qed
qed (auto split: if_splits)

lemma strip_where_length: "length (strip_where p s) \<le> length s"
  using length_dropWhile_le [of p s] length_dropWhile_le [of p "rev (dropWhile p s)"]
  by (simp add: strip_where_def)

lemma hex_int_bound: "hex_int s = Some n \<Longrightarrow> n < 16 ^ length s"
proof -
  assume "hex_int s = Some n"
  then obtain u where u: "hex_run 0 False u = Some n" "length u \<le> length (strip s)"
    by (auto simp: hex_int_def Let_def split: if_splits)
  have "n < 16 ^ length u" using hex_run_bound [OF u(1)] by simp
  also have "(16 :: nat) ^ length u \<le> 16 ^ length s"
    using u(2) strip_where_length [of is_space s] by (intro power_increasing) (auto simp: strip_def)
  finally show ?thesis .
qed

lemma hex_text_length [simp]: "length (hex_text k n) = k"
  by (induction k arbitrary: n) simp_all

definition hex_char :: "char \<Rightarrow> bool" where
  "hex_char c \<longleftrightarrow> hex_value c \<noteq> None"

lemma hex_text_chars: "c \<in> set (hex_text k n) \<Longrightarrow> hex_char c"
  by (induction k arbitrary: n) (auto simp: hex_char_def)

lemma hex_run_text:
  "hex_run v b (hex_text (Suc k) n @ rest) = hex_run (v * 16 ^ Suc k + n mod 16 ^ Suc k) True rest"
proof (induction k arbitrary: n rest)
  case 0
  have "hex_digit (n mod 16) \<noteq> CHR ''_''" using hex_value_digit [of "n mod 16"] by (auto simp: hex_value_def)
  then show ?case by simp
next
  case (Suc k)
  have u: "hex_digit (n mod 16) \<noteq> CHR ''_''" using hex_value_digit [of "n mod 16"] by (auto simp: hex_value_def)
  have "n mod 16 ^ Suc (Suc k) = n div 16 mod 16 ^ Suc k * 16 + n mod 16"
    by (metis mod_mult2_eq mult.commute power_Suc add.commute)
  with Suc [of "n div 16" "hex_digit (n mod 16) # rest"] u show ?case
    by (simp add: algebra_simps)
qed

lemma remove_from_absent: "c \<notin> set s \<Longrightarrow> remove_from 0 (c # n) s = s"
  by (induction s) (auto simp: starts_with_def)

lemma strip_where_none: "(\<And>c. c \<in> set s \<Longrightarrow> \<not> p c) \<Longrightarrow> strip_where p s = s"
proof -
  assume no: "\<And>c. c \<in> set s \<Longrightarrow> \<not> p c"
  then have "dropWhile p s = s" "dropWhile p (rev s) = rev s"
    by (auto simp: dropWhile_eq_self_iff hd_rev)
  then show ?thesis by (simp add: strip_where_def)
qed

lemma starts_with_subset: "starts_with p s \<Longrightarrow> set p \<subseteq> set s"
  unfolding starts_with_def by (metis set_take_subset)

lemma hex_char_not:
  "hex_char c \<Longrightarrow> c \<noteq> CHR ''u'' \<and> c \<noteq> CHR ''-'' \<and> c \<noteq> CHR ''{'' \<and> c \<noteq> CHR ''}'' \<and> c \<noteq> CHR ''x'' \<and>
     c \<noteq> CHR ''X'' \<and> c \<noteq> CHR ''+'' \<and> \<not> is_space c"
  by (auto simp: hex_char_def hex_value_def is_space_def Let_def split: if_splits)

lemma uuid_text_chars: "c \<in> set (uuid_text n) \<Longrightarrow> hex_char c \<or> c = CHR ''-''"
  by (auto simp: uuid_text_def Let_def dest!: in_set_takeD in_set_dropD hex_text_chars)

lemma uuid_text_length [simp]: "length (uuid_text n) = 36"
  by (simp add: uuid_text_def Let_def)

lemma uuid_hex_text: "uuid_hex (uuid_text n) = hex_text 32 n"
proof -
  let ?h = "hex_text 32 n"
  have "CHR ''u'' \<notin> set (uuid_text n)" "\<And>c. c \<in> set (uuid_text n) \<Longrightarrow> \<not> (c = CHR ''{'' \<or> c = CHR ''}'')"
    using uuid_text_chars hex_char_not by fastforce+
  then have "uuid_hex (uuid_text n) = filter (\<lambda>c. c \<noteq> CHR ''-'') (uuid_text n)"
    by (simp add: uuid_hex_def remove_from_absent strip_where_none)
  also have "\<dots> = take 8 ?h @ take 4 (drop 8 ?h) @ take 4 (drop 12 ?h) @ take 4 (drop 16 ?h) @ drop 20 ?h"
  proof -
    have "filter (\<lambda>c. c \<noteq> CHR ''-'') s = s" if "set s \<subseteq> set ?h" for s
      using that hex_text_chars hex_char_not by (fastforce simp: filter_id_conv)
    moreover have "set (take a (drop b ?h)) \<subseteq> set ?h" "set (take a ?h) \<subseteq> set ?h" "set (drop b ?h) \<subseteq> set ?h" for a b
      by (auto dest!: in_set_takeD in_set_dropD)
    ultimately show ?thesis by (simp add: uuid_text_def Let_def)
  qed
  also have "\<dots> = ?h"
  proof -
    have join: "take k (drop b ?h) @ drop (k + b) ?h = drop b ?h" for k b
      by (metis append_take_drop_id drop_drop)
    show ?thesis using join [of 4 16] join [of 4 12] join [of 4 8] append_take_drop_id [of 8 ?h] by simp
  qed
  finally show ?thesis .
qed

lemma hex_int_text: "n < 16 ^ 32 \<Longrightarrow> hex_int (hex_text 32 n) = Some n"
proof -
  assume n: "n < 16 ^ 32"
  let ?h = "hex_text 32 n"
  have "strip ?h = ?h"
    unfolding strip_def by (intro strip_where_none) (use hex_text_chars hex_char_not in blast)
  moreover have "CHR ''+'' \<notin> set ?h" "CHR ''x'' \<notin> set ?h" "CHR ''X'' \<notin> set ?h"
    using hex_text_chars hex_char_not by blast+
  then have "\<not> starts_with ''+'' ?h" "\<not> starts_with ''0x'' ?h" "\<not> starts_with ''0X'' ?h"
    by (auto dest: starts_with_subset)
  moreover have "hex_run 0 False ?h = Some n"
    using hex_run_text [of 0 False 31 n "[]"] n by simp
  ultimately show ?thesis by (simp add: hex_int_def)
qed

lemma canonical_uuid_stable:
  assumes "canonical_uuid s = Some u"
  shows "length u = 36" and "canonical_uuid u = Some u"
proof -
  from assms obtain n where n: "hex_int (uuid_hex s) = Some n" "length (uuid_hex s) = 32" "u = uuid_text n"
    by (auto simp: canonical_uuid_def uuid_int_def split: if_splits)
  with hex_int_bound [OF n(1)] show "length u = 36" "canonical_uuid u = Some u"
    by (simp_all add: canonical_uuid_def uuid_int_def uuid_hex_text hex_int_text)
qed

lemma uuid_text_canonical: "n < 16 ^ 32 \<Longrightarrow> canonical_uuid (uuid_text n) = Some (uuid_text n)"
  by (simp add: canonical_uuid_def uuid_int_def uuid_hex_text hex_int_text)

end
