(* ===== verification/Chat.thy ===== *)
theory Chat
  imports Schemas Bytes
begin

text \<open>
  The public chat contract, \<open>src/app/schemas/chat.py\<close>: what \<open>ChatRequest\<close> and \<open>ChatResponse\<close>
  accept, how they normalise it, and the dump of a response. A rejected value is \<open>None\<close>,
  standing for pydantic's \<open>ValidationError\<close>. The documentation examples the module loads from
  files are not modelled.
\<close>

section \<open>Requests\<close>

record chat_request =
  cq_message :: string
  cq_thread :: "string option"
  cq_conversation :: "string option"
  cq_run :: "string option"
  cq_resume :: bool
  cq_token :: "string option"
  cq_system :: "string option"
  cq_metadata :: jobj

definition normalize_message :: "string \<Rightarrow> string option" where
  "normalize_message s = (if strip s = [] then None else Some (strip s))"

text \<open>\<open>normalize_optional_text\<close> runs before the type is checked.\<close>

fun normalize_optional_text :: "json \<Rightarrow> json" where
  "normalize_optional_text (JStr s) = (if strip s = [] then JNull else JStr (strip s))"
| "normalize_optional_text v = v"

definition optional_text :: "nat option \<Rightarrow> json \<Rightarrow> string option option" where
  "optional_text limit v =
     (case opt_str_field (normalize_optional_text v) of
        None \<Rightarrow> None
      | Some None \<Rightarrow> Some None
      | Some (Some s) \<Rightarrow>
          (case limit of
             Some m \<Rightarrow> if m < length s then None else Some (Some s)
           | None \<Rightarrow> Some (Some s)))"

definition validate_run_id :: "string option \<Rightarrow> string option option" where
  "validate_run_id v = (case v of None \<Rightarrow> Some None | Some s \<Rightarrow> map_option Some (canonical_uuid s))"

text \<open>\<open>validate_identity_contract\<close>; a present text field is never empty.\<close>

definition identity_contract :: "chat_request \<Rightarrow> bool" where
  "identity_contract q \<longleftrightarrow>
     \<not> (cq_thread q \<noteq> None \<and> cq_conversation q \<noteq> None \<and> cq_thread q \<noteq> cq_conversation q) \<and>
     \<not> (cq_resume q \<and> cq_token q = None) \<and> \<not> (cq_token q \<noteq> None \<and> \<not> cq_resume q)"

definition bounded_text :: "nat \<Rightarrow> nat \<Rightarrow> json \<Rightarrow> string option" where
  "bounded_text lo hi v =
     (case str_field v of None \<Rightarrow> None
      | Some s \<Rightarrow> if lo \<le> length s \<and> length s \<le> hi then Some s else None)"

fun object_field :: "json \<Rightarrow> jobj option" where
  "object_field (JObj kvs) = Some kvs"
| "object_field _ = None"

fun validate_chat_request :: "pydantic \<Rightarrow> json \<Rightarrow> chat_request option" where
  "validate_chat_request py (JObj kvs) =
     (case (Option.bind (required_field kvs ''message'' (bounded_text 1 20000)) normalize_message,
            field_or kvs ''thread_id'' None (optional_text (Some 200)),
            field_or kvs ''conversation_id'' None (optional_text (Some 200)),
            Option.bind (field_or kvs ''run_id'' None (optional_text None)) validate_run_id,
            field_or kvs ''resume'' False (lax_bool py)) of
        (Some m, Some t, Some c, Some r, Some res) \<Rightarrow>
          (case (field_or kvs ''resume_token'' None (optional_text (Some 4096)),
                 field_or kvs ''system_prompt'' None (optional_text None),
                 field_or kvs ''metadata'' [] object_field) of
             (Some tok, Some sys, Some meta) \<Rightarrow>
               let q = \<lparr>cq_message = m, cq_thread = t, cq_conversation = c, cq_run = r, cq_resume = res,
                        cq_token = tok, cq_system = sys, cq_metadata = meta\<rparr>
               in if identity_contract q then Some q else None
           | _ \<Rightarrow> None)
      | _ \<Rightarrow> None)"
| "validate_chat_request py _ = None"

text \<open>What a validated request is like.\<close>

definition tidy_text :: "nat \<Rightarrow> string option \<Rightarrow> bool" where
  "tidy_text limit v = (case v of None \<Rightarrow> True
     | Some s \<Rightarrow> s \<noteq> [] \<and> length s \<le> limit \<and> strip s = s)"

definition chat_request_ok :: "chat_request \<Rightarrow> bool" where
  "chat_request_ok q \<longleftrightarrow>
     cq_message q \<noteq> [] \<and> length (cq_message q) \<le> 20000 \<and>
     tidy_text 200 (cq_thread q) \<and> tidy_text 200 (cq_conversation q) \<and>
     (case cq_run q of None \<Rightarrow> True | Some r \<Rightarrow> canonical_uuid r = Some r) \<and>
     (cq_resume q \<longleftrightarrow> cq_token q \<noteq> None) \<and> identity_contract q"

lemma strip_where_idem [simp]: "strip_where p (strip_where p s) = strip_where p s"
proof -
  have tail: "dropWhile p t = t" if "t = [] \<or> \<not> p (hd t)" for t
    using that by (cases t) auto
  let ?d = "dropWhile p s" and ?r = "dropWhile p (rev (dropWhile p s))"
  have r: "?r = [] \<or> \<not> p (hd ?r)" using hd_dropWhile [of p "rev ?d"] by auto
  have "rev ?r = [] \<or> \<not> p (hd (rev ?r))"
  proof (cases "?r = []")
    case False
    have "?d = rev ?r @ rev (takeWhile p (rev ?d))"
      by (metis rev_append rev_rev_ident takeWhile_dropWhile_id)
    then have "hd (rev ?r) = hd ?d" "?d \<noteq> []" using False by (metis hd_append2 rev_is_Nil_conv, metis dropWhile.simps(1) rev.simps(1))
    then show ?thesis using hd_dropWhile [of p s] by auto
  qed simp
  then show ?thesis using tail [of ?r] r tail [of "rev ?r"] by (simp add: strip_where_def)
qed

lemma strip_idem [simp]: "strip (strip s) = strip s"
  by (simp add: strip_def)

lemma optional_text_tidy:
  "optional_text (Some m) v = Some r \<Longrightarrow> tidy_text m r"
  by (cases v) (auto simp: optional_text_def tidy_text_def split: if_splits)

lemma field_or_tidy:
  "field_or kvs k None (optional_text (Some m)) = Some r \<Longrightarrow> tidy_text m r"
  by (auto simp: field_or_def optional_text_tidy tidy_text_def split: option.splits
      dest: optional_text_tidy)

lemma validate_run_id_canonical:
  "validate_run_id v = Some r \<Longrightarrow> (case r of None \<Rightarrow> True | Some u \<Rightarrow> canonical_uuid u = Some u)"
  using canonical_uuid_stable(2)
  by (auto simp: validate_run_id_def split: option.splits)

lemma normalize_message_ok:
  assumes "Option.bind (required_field kvs k (bounded_text 1 n)) normalize_message = Some m"
  shows "m \<noteq> [] \<and> length m \<le> n"
proof -
  from assms obtain s where "length s \<le> n" "normalize_message s = Some m"
    by (auto simp: required_field_def bounded_text_def bind_eq_Some_conv split: option.splits if_splits)
  then show ?thesis using strip_where_length [of is_space s]
    by (auto simp: normalize_message_def strip_def split: if_splits)
qed

lemma validated_request_ok: "validate_chat_request py v = Some q \<Longrightarrow> chat_request_ok q"
proof (induction py v rule: validate_chat_request.induct)
  case (1 py kvs)
  then obtain m t c r res tok sys meta where f:
    "Option.bind (required_field kvs ''message'' (bounded_text 1 20000)) normalize_message = Some m"
    "field_or kvs ''thread_id'' None (optional_text (Some 200)) = Some t"
    "field_or kvs ''conversation_id'' None (optional_text (Some 200)) = Some c"
    "Option.bind (field_or kvs ''run_id'' None (optional_text None)) validate_run_id = Some r"
    "q = \<lparr>cq_message = m, cq_thread = t, cq_conversation = c, cq_run = r, cq_resume = res,
          cq_token = tok, cq_system = sys, cq_metadata = meta\<rparr>" "identity_contract q"
    by (auto simp: Let_def split: option.splits if_splits)
  from f(4) obtain r' where "validate_run_id r' = Some r" by (auto simp: bind_eq_Some_conv)
  from validate_run_id_canonical [OF this] normalize_message_ok [OF f(1)] field_or_tidy [OF f(2)]
    field_or_tidy [OF f(3)] f(5,6)
  show ?case by (auto simp: chat_request_ok_def identity_contract_def)
qed simp_all

section \<open>Responses\<close>

text \<open>After \<open>fill_compatibility_identity\<close> the three identity fields are strings.\<close>

record chat_reply =
  cr_thread :: string
  cr_conversation :: string
  cr_run :: string
  cr_execution :: string
  cr_response :: string
  cr_backend :: string
  cr_model :: "string option"
  cr_metadata :: jobj

definition text_or :: "string option \<Rightarrow> string \<Rightarrow> string" where
  "text_or v d = (case v of None \<Rightarrow> d | Some s \<Rightarrow> if s = [] then d else s)"

definition fill_compatibility_identity ::
  "string \<Rightarrow> string \<Rightarrow> string option \<Rightarrow> string option \<Rightarrow> string option \<Rightarrow> string \<times> string \<times> string" where
  "fill_compatibility_identity uuid t c r x =
     (let conversation = text_or c t; run = text_or r uuid
      in (conversation, run, text_or x (conversation @ '':'' @ run)))"

fun validate_chat_response :: "string \<Rightarrow> json \<Rightarrow> chat_reply option" where
  "validate_chat_response uuid (JObj kvs) =
     (case (required_field kvs ''thread_id'' str_field,
            field_or kvs ''conversation_id'' None opt_str_field,
            field_or kvs ''run_id'' None opt_str_field,
            field_or kvs ''execution_thread_id'' None opt_str_field) of
        (Some t, Some c, Some r, Some x) \<Rightarrow>
          (case (required_field kvs ''response'' str_field, required_field kvs ''backend'' str_field,
                 field_or kvs ''model'' None opt_str_field, field_or kvs ''metadata'' [] object_field) of
             (Some resp, Some b, Some m, Some meta) \<Rightarrow>
               (case fill_compatibility_identity uuid t c r x of (c', r', x') \<Rightarrow>
                  Some \<lparr>cr_thread = t, cr_conversation = c', cr_run = r', cr_execution = x',
                        cr_response = resp, cr_backend = b, cr_model = m, cr_metadata = meta\<rparr>)
           | _ \<Rightarrow> None)
      | _ \<Rightarrow> None)"
| "validate_chat_response uuid _ = None"

text \<open>\<open>ChatResponse.from_result\<close>; \<open>u1\<close> and \<open>u2\<close> are the two \<open>uuid4()\<close>.\<close>

definition response_from_result ::
  "string \<Rightarrow> string \<Rightarrow> string option \<Rightarrow> string option \<Rightarrow> string option \<Rightarrow> string option \<Rightarrow> string \<Rightarrow>
   string \<Rightarrow> string option \<Rightarrow> jobj \<Rightarrow> chat_reply" where
  "response_from_result u1 u2 thread conversation run execution response backend model metadata =
     (let c = text_or conversation (text_or thread u1); r = text_or run u2
      in \<lparr>cr_thread = c, cr_conversation = c, cr_run = r,
          cr_execution = text_or execution (c @ '':'' @ r), cr_response = response,
          cr_backend = backend, cr_model = model, cr_metadata = metadata\<rparr>)"

fun opt_str_json :: "string option \<Rightarrow> json" where
  "opt_str_json None = JNull"
| "opt_str_json (Some s) = JStr s"

text \<open>\<open>response.model_dump(mode="json")\<close>.\<close>

definition dump_response :: "chat_reply \<Rightarrow> jobj" where
  "dump_response r =
     [(''thread_id'', JStr (cr_thread r)), (''conversation_id'', JStr (cr_conversation r)),
      (''run_id'', JStr (cr_run r)), (''execution_thread_id'', JStr (cr_execution r)),
      (''response'', JStr (cr_response r)), (''backend'', JStr (cr_backend r)),
      (''model'', opt_str_json (cr_model r)), (''metadata'', JObj (cr_metadata r))]"

lemma opt_str_field_json [simp]: "opt_str_field (opt_str_json v) = Some v"
  by (cases v) simp_all

text \<open>A stored payload reads back as the response it was dumped from.\<close>

lemma stored_response_reads_back:
  assumes "cr_conversation r \<noteq> []" and "cr_run r \<noteq> []" and "cr_execution r \<noteq> []"
  shows "validate_chat_response uuid (JObj (dump_response r)) = Some r"
  using assms
  by (simp add: dump_response_def required_field_def field_or_def fill_compatibility_identity_def
      text_or_def)

end
