(* ===== verification/Identity.thy ===== *)
theory Identity
  imports Chat Runs Config
begin

text \<open>
  Request identity, \<open>src/app/orchestration/run_identity.py\<close>: the request hash, the signed and
  expiring resume tokens with their key ring, the normalisation of a request to the identity of
  one run (\<open>src/app/schemas/run.py\<close>), the in-process conversation gate and the deprecated
  process-local run registry. Random values and clock readings are arguments; \<open>fl\<close> turns the
  text of a number with a fraction into a float.
\<close>

section \<open>The request hash\<close>

definition reserved_metadata_keys :: "string list" where
  "reserved_metadata_keys =
     [''conversation_id'', ''execution_thread_id'', ''resume'', ''resume_token'', ''run_id'', ''thread_id'']"

text \<open>NFC leaves a string of code points up to 255 as it is.\<close>

definition nfc_text :: "string \<Rightarrow> string" where
  "nfc_text s = s"

lemma map_result_cong [fundef_cong]:
  "xs = ys \<Longrightarrow> (\<And>x. x \<in> set ys \<Longrightarrow> f x = g x) \<Longrightarrow> map_result f xs = map_result g ys"
  by (induction ys arbitrary: xs) simp_all

fun canonical_json_value :: "json \<Rightarrow> json result" where
  "canonical_json_value (JFloat (FNonFinite r)) =
     Inl (ValueError ''request metadata must not contain NaN or infinity'')"
| "canonical_json_value (JStr s) = Inr (JStr (nfc_text s))"
| "canonical_json_value (JObj kvs) =
     bind_result (map_result (\<lambda>kv. bind_result (canonical_json_value (snd kv))
                                     (\<lambda>v. Inr (nfc_text (fst kv), v))) kvs)
       (\<lambda>kvs'. Inr (JObj (foldl (\<lambda>al kv. alist_put (fst kv) (snd kv) al) [] kvs')))"
| "canonical_json_value (JList xs) =
     bind_result (map_result canonical_json_value xs) (\<lambda>xs'. Inr (JList xs'))"
| "canonical_json_value v = Inr v"

definition sanitized_metadata :: "chat_request \<Rightarrow> jobj" where
  "sanitized_metadata q = filter (\<lambda>kv. lower (fst kv) \<notin> set reserved_metadata_keys) (cq_metadata q)"

definition hash_domain :: bytes where
  "hash_domain = utf8_encode ''langchain-langraph-chat-request-v1'' @ [0]"

definition opt_text :: "string option \<Rightarrow> json" where
  "opt_text v = (case v of None \<Rightarrow> JNull | Some s \<Rightarrow> JStr (nfc_text s))"

text \<open>The text that is hashed.\<close>

definition canonical_request :: "int \<Rightarrow> chat_request \<Rightarrow> string result" where
  "canonical_request version q =
     bind_result (canonical_json_value (JObj (sanitized_metadata q)))
       (\<lambda>meta. Inr (json_dumps_canonical (JObj
          [(''version'', JInt version), (''message'', JStr (nfc_text (cq_message q))),
           (''system_prompt'', opt_text (cq_system q)), (''metadata'', meta)])))"

definition request_hash :: "int \<Rightarrow> chat_request \<Rightarrow> string result" where
  "request_hash version q =
     bind_result (canonical_request version q)
       (\<lambda>canonical. Inr (hexdigest (sha256 (hash_domain @ utf8_encode canonical))))"

definition legacy_request_hash :: "chat_request \<Rightarrow> string" where
  "legacy_request_hash q =
     hexdigest (sha256 (utf8_encode (json_dumps_canonical (JObj
       [(''message'', JStr (cq_message q)), (''system_prompt'', opt_str_json (cq_system q)),
        (''metadata'', JObj (sanitized_metadata q))]))))"

lemma request_hash_length: "request_hash version q = Inr h \<Longrightarrow> length h = 64"
  by (auto simp: request_hash_def bind_result_Inr_iff)

section \<open>The service\<close>

record identity_service =
  is_ttl :: int
  is_namespace :: string
  is_schema :: int
  is_hash_version :: int
  is_active :: string
  is_keys :: "(string \<times> bytes) list"
  is_persistent :: bool

definition keyring_entry :: "(string \<times> bytes) list \<Rightarrow> string \<times> json \<Rightarrow> (string \<times> bytes) list" where
  "keyring_entry ring kv =
     (if strip (fst kv) \<noteq> [] \<and> py_str (snd kv) \<noteq> []
      then alist_put (strip (fst kv)) (utf8_encode (py_str (snd kv))) ring else ring)"

definition load_keys ::
  "(string \<Rightarrow> pyfloat) \<Rightarrow> string \<Rightarrow> string \<Rightarrow> settings \<Rightarrow> ((string \<times> bytes) list \<times> bool) result" where
  "load_keys fl random active s =
     (let raw = strip (resume_token_keys_json s) in
      if raw \<noteq> [] then
        (case json_loads fl raw of
           None \<Rightarrow> Inl (ValueError ''RESUME_TOKEN_KEYS_JSON must be valid JSON'')
         | Some parsed \<Rightarrow>
             if \<not> is_jobj parsed \<or> obj_fields parsed = []
             then Inl (ValueError ''RESUME_TOKEN_KEYS_JSON must be a non-empty object'')
             else let ring = foldl keyring_entry [] (obj_fields parsed) in
               if ring = [] then Inl (ValueError ''RESUME_TOKEN_KEYS_JSON contains no usable keys'')
               else Inr (ring, True))
      else
        let configured = strip (resume_token_secret s);
            secret = (if configured \<noteq> [] then configured else strip (api_key s))
        in if secret \<noteq> [] then Inr ([(active, utf8_encode secret)], True)
           else Inr ([(active, utf8_encode random)], False))"

text \<open>\<open>__init__\<close>; \<open>random\<close> is \<open>secrets.token_urlsafe(48)\<close>.\<close>

definition identity_service_init ::
  "(string \<Rightarrow> pyfloat) \<Rightarrow> string \<Rightarrow> settings \<Rightarrow> identity_service result" where
  "identity_service_init fl random s =
     (let active = (let k = strip (resume_token_active_key_id s) in if k = [] then ''primary'' else k) in
      bind_result (load_keys fl random active s) (\<lambda>(ring, persistent).
        if map_of ring active = None
        then Inl (ValueError ''RESUME_TOKEN_ACTIVE_KEY_ID must identify a configured signing key'')
        else Inr \<lparr>is_ttl = resume_token_ttl_seconds s, is_namespace = run_checkpoint_namespace s,
                  is_schema = run_state_schema_version s, is_hash_version = run_request_hash_version s,
                  is_active = active, is_keys = ring, is_persistent = persistent\<rparr>))"

section \<open>Identities\<close>

text \<open>The bounds of the fields of \<open>RunIdentity\<close>.\<close>

definition run_identity_ok :: "run_identity \<Rightarrow> bool" where
  "run_identity_ok i \<longleftrightarrow>
     between 1 200 (int (length (ri_conversation i))) \<and> length (ri_run i) = 36 \<and>
     between 1 237 (int (length (ri_thread i))) \<and> between 1 100 (int (length (ri_namespace i))) \<and>
     1 \<le> ri_schema i \<and> length (ri_hash i) = 64 \<and> between 1 1000 (ri_hash_version i) \<and>
     1 \<le> ri_token_version i \<and>
     (case ri_key_id i of None \<Rightarrow> True | Some k \<Rightarrow> length k \<le> 100)"

definition make_run_identity :: "run_identity \<Rightarrow> run_identity result" where
  "make_run_identity i =
     (if run_identity_ok i then Inr i else Inl (ValidationError ''RunIdentity''))"

definition validate_uuid :: "string \<Rightarrow> string \<Rightarrow> unit result" where
  "validate_uuid v field =
     (if uuid_int v = None then Inl (ResumeTokenInvalidError (field @ '' must be a valid UUID''))
      else Inr ())"

definition thread_id :: "string \<Rightarrow> string \<Rightarrow> string" where
  "thread_id conversation run = conversation @ '':'' @ run"

text \<open>\<open>conversation_id or thread_id or str(uuid4())\<close>.\<close>

definition fresh_identity ::
  "identity_service \<Rightarrow> string \<Rightarrow> string \<Rightarrow> string \<Rightarrow> chat_request \<Rightarrow> run_identity result" where
  "fresh_identity svc u1 u2 h q =
     (let c = text_or (cq_conversation q) (text_or (cq_thread q) u1); r = text_or (cq_run q) u2 in
      bind_result (validate_uuid r ''run_id'') (\<lambda>_. make_run_identity
        \<lparr>ri_conversation = c, ri_run = r, ri_thread = thread_id c r, ri_namespace = is_namespace svc,
         ri_schema = is_schema svc, ri_hash = h, ri_hash_version = is_hash_version svc,
         ri_token_version = 1, ri_key_id = Some (is_active svc), ri_resume_requested = False,
         ri_resumed = False, ri_client_supplied = text_or (cq_run q) [] \<noteq> []\<rparr>))"

section \<open>Resume tokens\<close>

definition token_payload :: "identity_service \<Rightarrow> int \<Rightarrow> run_identity \<Rightarrow> jobj" where
  "token_payload svc now i =
     [(''v'', JInt 2), (''kid'', JStr (is_active svc)), (''conversation_id'', JStr (ri_conversation i)),
      (''run_id'', JStr (ri_run i)), (''execution_thread_id'', JStr (ri_thread i)),
      (''checkpoint_namespace'', JStr (ri_namespace i)), (''state_schema_version'', JInt (ri_schema i)),
      (''request_hash'', JStr (ri_hash i)), (''request_hash_version'', JInt (ri_hash_version i)),
      (''resume_token_version'', JInt (ri_token_version i)), (''iat'', JInt now),
      (''exp'', JInt (now + is_ttl svc))]"

definition signature :: "bytes \<Rightarrow> string \<Rightarrow> bytes" where
  "signature key encoded = hmac_sha256 key (ascii_encode encoded)"

definition issue_resume_token :: "identity_service \<Rightarrow> int \<Rightarrow> run_identity \<Rightarrow> string result" where
  "issue_resume_token svc now i =
     (let encoded = b64encode (utf8_encode (json_dumps_canonical (JObj (token_payload svc now i))))
      in case map_of (is_keys svc) (is_active svc) of
          None \<Rightarrow> Inl (KeyError (is_active svc))
        | Some key \<Rightarrow> Inr (encoded @ ''.'' @ b64encode (signature key encoded)))"

definition malformed :: exn where
  "malformed = ResumeTokenInvalidError ''Malformed resume token''"

definition decode_token ::
  "(string \<Rightarrow> pyfloat) \<Rightarrow> identity_service \<Rightarrow> string \<Rightarrow> (jobj \<times> string) result" where
  "decode_token fl svc token =
     (if CHR ''.'' \<notin> set token then Inl malformed
      else
        let encoded = takeWhile (\<lambda>c. c \<noteq> CHR ''.'') token; sig = drop (length encoded + 1) token in
        case Option.bind (Option.bind (b64decode encoded) utf8_decode) (json_loads fl) of
          None \<Rightarrow> Inl malformed
        | Some payload \<Rightarrow>
            (case b64decode sig of
               None \<Rightarrow> Inl malformed
             | Some supplied \<Rightarrow>
                 if \<not> is_jobj payload
                 then Inl (ResumeTokenInvalidError ''Resume token payload must be an object'')
                 else
                   let kid = strip (str_or_empty (jget (obj_fields payload) ''kid''));
                       candidates = (case map_of (is_keys svc) kid of
                           Some key \<Rightarrow> [(kid, key)] | None \<Rightarrow> is_keys svc)
                   in case find (\<lambda>(k, key). signature key encoded = supplied) candidates of
                       Some (k, key) \<Rightarrow> Inr (obj_fields payload, k)
                     | None \<Rightarrow> Inl (ResumeTokenInvalidError ''Resume token signature is invalid'')))"

text \<open>\<open>str(payload.get(key) or "").strip()\<close> and \<open>int(payload.get(key, 0) or 0)\<close>.\<close>

definition text_claim :: "jobj \<Rightarrow> string \<Rightarrow> string" where
  "text_claim p k = strip (str_or_empty (jget p k))"

definition int_claim :: "jobj \<Rightarrow> string \<Rightarrow> int \<Rightarrow> int result" where
  "int_claim p k d = py_int (or_else (jget p k) (JInt d))"

definition incompatible :: "string \<Rightarrow> exn" where
  "incompatible what = IncompatibleRunStateError (''The resumable run uses an incompatible '' @ what)"

definition check :: "bool \<Rightarrow> exn \<Rightarrow> unit result" where
  "check b e = (if b then Inr () else Inl e)"

text \<open>The checks on the identity a token carries, in the order of the code.\<close>

definition check_claims ::
  "identity_service \<Rightarrow> chat_request \<Rightarrow> string \<Rightarrow> int \<Rightarrow> jobj \<Rightarrow> unit result" where
  "check_claims svc q h version p =
     (let c = text_claim p ''conversation_id''; r = text_claim p ''run_id'';
          x = text_claim p ''execution_thread_id''; ns = text_claim p ''checkpoint_namespace'';
          th = text_claim p ''request_hash'';
          supplied = text_or (cq_conversation q) (text_or (cq_thread q) [])
      in bind_result (check (c \<noteq> [] \<and> r \<noteq> [] \<and> x \<noteq> [] \<and> ns \<noteq> [] \<and> th \<noteq> [])
           (ResumeTokenInvalidError ''Resume token is missing required identity data'')) (\<lambda>_.
         bind_result (validate_uuid r ''run_id'') (\<lambda>_.
         bind_result (check (x = thread_id c r)
           (ResumeTokenInvalidError ''Resume token execution identity is invalid'')) (\<lambda>_.
         bind_result (check (ns = is_namespace svc) (incompatible ''checkpoint namespace'')) (\<lambda>_.
         bind_result (check (th = (if version = 1 then legacy_request_hash q else h))
           (ResumeTokenInvalidError ''The resume token is not valid for this request payload'')) (\<lambda>_.
         bind_result (check (supplied = [] \<or> supplied = c)
           (ResumeTokenInvalidError ''The resume token does not match the supplied conversation ID'')) (\<lambda>_.
         check (text_or (cq_run q) [] = [] \<or> text_or (cq_run q) [] = r)
           (ResumeTokenInvalidError ''The resume token does not match the supplied run ID''))))))))"

definition identity_from_token ::
  "(string \<Rightarrow> pyfloat) \<Rightarrow> identity_service \<Rightarrow> int \<Rightarrow> string \<Rightarrow> chat_request \<Rightarrow> run_identity result" where
  "identity_from_token fl svc now h q =
     bind_result (decode_token fl svc (text_or (cq_token q) [])) (\<lambda>(p, key).
     bind_result (py_int (case map_of p ''v'' of None \<Rightarrow> JInt 0 | Some v \<Rightarrow> v)) (\<lambda>version.
     bind_result (check (version = 1 \<or> version = 2)
       (ResumeTokenInvalidError ''Unsupported resume token version'')) (\<lambda>_.
     bind_result (int_claim p ''exp'' 0) (\<lambda>expires.
     bind_result (check (now < expires) (ResumeTokenExpiredError ''The resume token has expired'')) (\<lambda>_.
     bind_result (int_claim p ''state_schema_version'' 0) (\<lambda>schema.
     bind_result (check (schema = is_schema svc) (incompatible ''state schema version'')) (\<lambda>_.
     bind_result (int_claim p ''request_hash_version'' (is_hash_version svc)) (\<lambda>hash_version.
     bind_result (check (version = 2 \<longrightarrow> hash_version = is_hash_version svc)
       (incompatible ''request hash version'')) (\<lambda>_.
     bind_result (check_claims svc q h version p) (\<lambda>_.
     bind_result (int_claim p ''resume_token_version'' 1) (\<lambda>token_version.
       make_run_identity
         \<lparr>ri_conversation = text_claim p ''conversation_id'', ri_run = text_claim p ''run_id'',
          ri_thread = text_claim p ''execution_thread_id'',
          ri_namespace = text_claim p ''checkpoint_namespace'', ri_schema = schema, ri_hash = h,
          ri_hash_version = is_hash_version svc, ri_token_version = token_version,
          ri_key_id = Some key, ri_resume_requested = True, ri_resumed = True,
          ri_client_supplied = text_or (cq_run q) [] \<noteq> []\<rparr>)))))))))))"

text \<open>\<open>normalize\<close>; \<open>u1\<close> and \<open>u2\<close> are \<open>str(uuid4())\<close>.\<close>

definition normalize_request ::
  "(string \<Rightarrow> pyfloat) \<Rightarrow> identity_service \<Rightarrow> int \<Rightarrow> string \<Rightarrow> string \<Rightarrow> chat_request \<Rightarrow> run_identity result" where
  "normalize_request fl svc now u1 u2 q =
     bind_result (request_hash (is_hash_version svc) q) (\<lambda>h.
       if cq_resume q then identity_from_token fl svc now h q else fresh_identity svc u1 u2 h q)"

section \<open>Fresh identities\<close>

text \<open>Execution threads are as distinct as the runs they belong to.\<close>

lemma thread_id_inj:
  "length r = length r' \<Longrightarrow> thread_id c r = thread_id c' r' \<longleftrightarrow> c = c' \<and> r = r'"
proof
  assume len: "length r = length r'" and eq: "thread_id c r = thread_id c' r'"
  then have "(c @ '':'') @ r = (c' @ '':'') @ r'" by (simp add: thread_id_def)
  with len show "c = c' \<and> r = r'" by (simp add: append_eq_append_conv)
qed simp

lemma strip_self_iff:
  "strip_where p s = s \<longleftrightarrow> s = [] \<or> \<not> p (hd s) \<and> \<not> p (last s)"
proof (cases "s = []")
  case False
  show ?thesis
  proof
    assume eq: "strip_where p s = s"
    have "length s \<le> length (dropWhile p s)"
      using arg_cong [OF eq, of length] length_dropWhile_le [of p "rev (dropWhile p s)"]
      by (simp add: strip_where_def)
    moreover have "length (takeWhile p s) + length (dropWhile p s) = length s"
      by (metis length_append takeWhile_dropWhile_id)
    ultimately have "length (takeWhile p s) = 0" by linarith
    then have "takeWhile p s = []" by (simp only: length_0_conv)
    then have d: "dropWhile p s = s" by (metis append_Nil takeWhile_dropWhile_id)
    with eq have "dropWhile p (rev s) = rev s" by (simp add: strip_where_def rev_swap)
    with d False show "s = [] \<or> \<not> p (hd s) \<and> \<not> p (last s)"
      by (simp add: dropWhile_eq_self_iff hd_rev)
  next
    assume "s = [] \<or> \<not> p (hd s) \<and> \<not> p (last s)"
    with False have "dropWhile p s = s" "dropWhile p (rev s) = rev s"
      by (simp_all add: dropWhile_eq_self_iff hd_rev)
    then show "strip_where p s = s" by (simp add: strip_where_def)
  qed
qed (simp add: strip_where_def)

lemma strip_thread_id:
  "strip c = c \<Longrightarrow> strip r = r \<Longrightarrow> c \<noteq> [] \<Longrightarrow> r \<noteq> [] \<Longrightarrow> strip (thread_id c r) = thread_id c r"
  by (simp add: strip_def strip_self_iff thread_id_def)

lemma strip_uuid_text: "strip (uuid_text n) = uuid_text n"
  unfolding strip_def
proof (rule strip_where_none)
  fix c
  assume "c \<in> set (uuid_text n)"
  from uuid_text_chars [OF this] show "\<not> is_space c"
    using hex_char_not by (auto simp: is_space_def)
qed

lemma canonical_uuid_tidy:
  assumes "canonical_uuid u = Some u"
  shows "strip u = u" "length u = 36" "u \<noteq> []" "uuid_int u \<noteq> None"
proof -
  from assms show "strip u = u" "uuid_int u \<noteq> None"
    using strip_uuid_text by (auto simp: canonical_uuid_def)
  from canonical_uuid_stable(1) [OF assms] show "length u = 36" "u \<noteq> []" by auto
qed

lemma init_service:
  assumes "identity_service_init fl random s = Inr svc" and "valid_settings s"
  shows "is_namespace svc = run_checkpoint_namespace s" "is_ttl svc = resume_token_ttl_seconds s"
    "is_schema svc = run_state_schema_version s" "is_hash_version svc = run_request_hash_version s"
    "map_of (is_keys svc) (is_active svc) \<noteq> None" "strip (is_active svc) = is_active svc"
    "is_active svc \<noteq> []" "length (is_active svc) \<le> 100"
proof -
  let ?k = "strip (resume_token_active_key_id s)"
  from assms(1) show "is_namespace svc = run_checkpoint_namespace s" "is_ttl svc = resume_token_ttl_seconds s"
    "is_schema svc = run_state_schema_version s" "is_hash_version svc = run_request_hash_version s"
    "map_of (is_keys svc) (is_active svc) \<noteq> None"
    by (auto simp: identity_service_init_def bind_result_Inr_iff Let_def split: if_splits prod.splits)
  have active: "is_active svc = (if ?k = [] then ''primary'' else ?k)"
    using assms(1) by (auto simp: identity_service_init_def bind_result_Inr_iff Let_def split: if_splits prod.splits)
  have "strip ''primary'' = ''primary''" by (simp add: strip_def strip_where_def is_space_def)
  with active show "strip (is_active svc) = is_active svc" "is_active svc \<noteq> []" by auto
  have "length (resume_token_active_key_id s) \<le> 100"
    using assms(2) by (simp add: valid_settings_def field_bounds_ok_def between_def)
  then have "length ?k \<le> 100"
    using strip_where_length [of is_space "resume_token_active_key_id s"] by (simp add: strip_def)
  with active show "length (is_active svc) \<le> 100" by auto
qed

lemma fresh_ids:
  assumes "chat_request_ok q" and "canonical_uuid u1 = Some u1" and "canonical_uuid u2 = Some u2"
  defines "c \<equiv> text_or (cq_conversation q) (text_or (cq_thread q) u1)" and "r \<equiv> text_or (cq_run q) u2"
  shows "c \<noteq> []" "length c \<le> 200" "strip c = c" "canonical_uuid r = Some r"
  using assms canonical_uuid_tidy [OF assms(2)]
  by (auto simp: chat_request_ok_def tidy_text_def text_or_def split: option.splits)

lemma fresh_identity_total:
  assumes "valid_settings s" and "identity_service_init fl random s = Inr svc" and "chat_request_ok q"
    and "canonical_uuid u1 = Some u1" and "canonical_uuid u2 = Some u2" and "length h = 64"
  defines "c \<equiv> text_or (cq_conversation q) (text_or (cq_thread q) u1)" and "r \<equiv> text_or (cq_run q) u2"
  shows "\<exists>i. fresh_identity svc u1 u2 h q = Inr i \<and> run_identity_ok i \<and> ri_conversation i = c \<and>
           ri_run i = r \<and> ri_thread i = thread_id c r \<and> ri_hash i = h \<and> \<not> ri_resumed i"
proof -
  note ids = fresh_ids [OF assms(3-5), folded c_def r_def]
  note uuid = canonical_uuid_tidy [OF ids(4)]
  note svc = init_service [OF assms(2,1)]
  have "between 1 100 (int (length (is_namespace svc)))" "1 \<le> is_schema svc" "between 1 1000 (is_hash_version svc)"
    using svc(1-4) assms(1) by (simp_all add: valid_settings_def field_bounds_ok_def between_def)
  moreover have "Suc 0 \<le> length c" using ids(1) by (cases c) simp_all
  ultimately show ?thesis using ids uuid svc(8) assms(6)
    by (auto simp: fresh_identity_def validate_uuid_def make_run_identity_def run_identity_ok_def
        thread_id_def between_def Let_def simp flip: c_def r_def)
qed

section \<open>Tokens read back\<close>

lemma payload_plain: "plain_json (JObj (token_payload svc now i))"
  by (simp add: token_payload_def)

lemma payload_sorted: "sort_keys (JObj (token_payload svc now i)) = JObj (sort_key fst (token_payload svc now i))"
proof -
  have "map (\<lambda>kv. (fst kv, sort_keys (snd kv))) (token_payload svc now i) = token_payload svc now i"
    by (simp add: token_payload_def)
  then show ?thesis by (simp only: sort_keys.simps)
qed

lemma payload_reads_back:
  "json_loads fl (json_dumps_canonical (JObj (token_payload svc now i))) =
     Some (JObj (sort_key fst (token_payload svc now i)))"
proof -
  have "separators '','' '':''" by (simp add: separators_def)
  from loads_dumps_sorted [OF this payload_plain] show ?thesis
    by (simp only: json_dumps_canonical_def payload_sorted)
qed

lemma payload_lookup:
  "map_of (sort_key fst (token_payload svc now i)) = map_of (token_payload svc now i)"
  "jget (sort_key fst (token_payload svc now i)) k = jget (token_payload svc now i) k"
proof -
  have "distinct (map fst (token_payload svc now i))" by (simp add: token_payload_def)
  from map_of_sorted [OF this]
  show "map_of (sort_key fst (token_payload svc now i)) = map_of (token_payload svc now i)"
    "jget (sort_key fst (token_payload svc now i)) k = jget (token_payload svc now i) k"
    by (simp_all add: jget_def)
qed

lemma take_before_dot: "c \<notin> set s \<Longrightarrow> takeWhile (\<lambda>d. d \<noteq> c) (s @ c # t) = s"
  by (induction s) auto

text \<open>What a service issues, it decodes, under the key that signed it.\<close>

lemma decode_issued:
  assumes "issue_resume_token svc now i = Inr token" and "strip (is_active svc) = is_active svc"
  shows "decode_token fl svc token = Inr (sort_key fst (token_payload svc now i), is_active svc)"
proof -
  let ?p = "token_payload svc now i"
  let ?e = "b64encode (utf8_encode (json_dumps_canonical (JObj ?p)))"
  from assms(1) obtain key where key: "map_of (is_keys svc) (is_active svc) = Some key"
    "token = ?e @ CHR ''.'' # b64encode (signature key ?e)"
    by (auto simp: issue_resume_token_def Let_def split: option.splits)
  have "takeWhile (\<lambda>c. c \<noteq> CHR ''.'') token = ?e"
    unfolding key(2) using b64encode_chars by (intro take_before_dot) blast
  moreover have "CHR ''.'' \<in> set token" "drop (length ?e + 1) token = b64encode (signature key ?e)"
    by (simp_all add: key(2))
  moreover have "strip (str_or_empty (jget ?p ''kid'')) = is_active svc"
    by (simp add: token_payload_def jget_def assms(2))
  ultimately show ?thesis
    by (simp add: decode_token_def Let_def payload_reads_back payload_lookup(2) key(1))
qed

text \<open>What an accepted token must have been.\<close>

definition signed_token :: "(string \<Rightarrow> pyfloat) \<Rightarrow> identity_service \<Rightarrow> string \<Rightarrow> jobj \<Rightarrow> string \<Rightarrow> bool" where
  "signed_token fl svc token p k \<longleftrightarrow>
     CHR ''.'' \<in> set token \<and>
     (let encoded = takeWhile (\<lambda>c. c \<noteq> CHR ''.'') token; sig = drop (length encoded + 1) token in
      Option.bind (Option.bind (b64decode encoded) utf8_decode) (json_loads fl) = Some (JObj p) \<and>
      list_ex (\<lambda>(k', key). k' = k \<and> b64decode sig = Some (signature key encoded)) (is_keys svc))"

lemma map_of_list_ex: "map_of al k = Some v \<Longrightarrow> P (k, v) \<Longrightarrow> list_ex P al"
  using map_of_SomeD list_ex_iff by metis

lemma decoded_token_signed:
  assumes "decode_token fl svc token = Inr (p, k)"
  shows "signed_token fl svc token p k"
proof -
  let ?e = "takeWhile (\<lambda>c. c \<noteq> CHR ''.'') token"
  let ?s = "drop (length ?e + 1) token"
  from assms obtain payload supplied where d: "CHR ''.'' \<in> set token"
    "Option.bind (Option.bind (b64decode ?e) utf8_decode) (json_loads fl) = Some payload"
    "b64decode ?s = Some supplied" "is_jobj payload" "p = obj_fields payload"
    and f: "\<exists>key. find (\<lambda>(k, key). signature key ?e = supplied)
       (case map_of (is_keys svc) (strip (str_or_empty (jget (obj_fields payload) ''kid''))) of
          Some key \<Rightarrow> [(strip (str_or_empty (jget (obj_fields payload) ''kid'')), key)]
        | None \<Rightarrow> is_keys svc) = Some (k, key)"
    by (auto simp: decode_token_def Let_def simp del: find.simps split: if_splits option.splits)
  from f obtain key where "(k, key) \<in> set (is_keys svc)" "signature key ?e = supplied"
    by (auto split: option.splits if_splits dest!: find_SomeD map_of_SomeD)
  then have "list_ex (\<lambda>(k', key). k' = k \<and> b64decode ?s = Some (signature key ?e)) (is_keys svc)"
    using d(3) by (auto simp: list_ex_iff)
  moreover have "payload = JObj p" using d(4,5) by (cases payload) simp_all
  ultimately show ?thesis using d(1,2) by (simp add: signed_token_def Let_def)
qed

lemma check_Inr [simp]: "check b e = Inr u \<longleftrightarrow> b"
  by (simp add: check_def)

lemma from_token_accepted:
  assumes "identity_from_token fl svc now h q = Inr i"
  shows "\<exists>p k expires. signed_token fl svc (text_or (cq_token q) []) p k \<and>
           int_claim p ''exp'' 0 = Inr expires \<and> now < expires \<and>
           text_claim p ''conversation_id'' = ri_conversation i \<and> text_claim p ''run_id'' = ri_run i \<and>
           text_claim p ''request_hash'' \<in> {h, legacy_request_hash q} \<and>
           ri_thread i = thread_id (ri_conversation i) (ri_run i) \<and> ri_namespace i = is_namespace svc \<and>
           ri_schema i = is_schema svc \<and> ri_hash i = h \<and> ri_key_id i = Some k \<and> ri_resumed i \<and>
           int_claim p ''resume_token_version'' 1 = Inr (ri_token_version i) \<and> run_identity_ok i"
proof -
  from assms obtain p k version expires schema hash_version token_version where a:
    "decode_token fl svc (text_or (cq_token q) []) = Inr (p, k)"
    "int_claim p ''exp'' 0 = Inr expires" "now < expires" "schema = is_schema svc"
    "check_claims svc q h version p = Inr ()" "int_claim p ''resume_token_version'' 1 = Inr token_version"
    "make_run_identity
       \<lparr>ri_conversation = text_claim p ''conversation_id'', ri_run = text_claim p ''run_id'',
        ri_thread = text_claim p ''execution_thread_id'',
        ri_namespace = text_claim p ''checkpoint_namespace'', ri_schema = schema, ri_hash = h,
        ri_hash_version = is_hash_version svc, ri_token_version = token_version,
        ri_key_id = Some k, ri_resume_requested = True, ri_resumed = True,
        ri_client_supplied = text_or (cq_run q) [] \<noteq> []\<rparr> = Inr i"
    by (auto simp: identity_from_token_def bind_result_Inr_iff)
  note a(1) [THEN decoded_token_signed]
  moreover from a(5) have "text_claim p ''execution_thread_id'' =
      thread_id (text_claim p ''conversation_id'') (text_claim p ''run_id'')"
    "text_claim p ''checkpoint_namespace'' = is_namespace svc"
    "text_claim p ''request_hash'' \<in> {h, legacy_request_hash q}"
    by (auto simp: check_claims_def bind_result_Inr_iff Let_def split: if_splits)
  ultimately show ?thesis using a(2-4,6,7)
    by (intro exI [of _ p] exI [of _ k] exI [of _ expires]) (auto simp: make_run_identity_def split: if_splits)
qed

lemma token_claims:
  assumes "fresh_identity svc u1 u2 h q = Inr i"
  shows "ri_namespace i = is_namespace svc" "ri_schema i = is_schema svc" "ri_hash i = h"
    "ri_hash_version i = is_hash_version svc" "ri_token_version i = 1" "ri_key_id i = Some (is_active svc)"
    "ri_conversation i = text_or (cq_conversation q) (text_or (cq_thread q) u1)"
    "ri_run i = text_or (cq_run q) u2" "ri_thread i = thread_id (ri_conversation i) (ri_run i)"
    "ri_client_supplied i = (text_or (cq_run q) [] \<noteq> [])" "uuid_int (ri_run i) \<noteq> None" "run_identity_ok i"
    "\<not> ri_resumed i" "\<not> ri_resume_requested i"
  using assms
  by (auto simp: fresh_identity_def make_run_identity_def validate_uuid_def bind_result_Inr_iff Let_def
      split: if_splits)

text \<open>The request that resumes a run: the same payload, with the token.\<close>

definition resume_with :: "string \<Rightarrow> chat_request \<Rightarrow> chat_request" where
  "resume_with token q = q\<lparr>cq_resume := True, cq_token := Some token\<rparr>"

lemma resume_with_hash [simp]:
  "request_hash version (resume_with token q) = request_hash version q"
  by (simp add: request_hash_def canonical_request_def sanitized_metadata_def resume_with_def)

lemma payload_claims:
  fixes svc :: identity_service and now :: int
  assumes "run_identity_ok i" and "strip (ri_conversation i) = ri_conversation i"
    and "strip (ri_run i) = ri_run i" and "ri_thread i = thread_id (ri_conversation i) (ri_run i)"
    and "strip (ri_namespace i) = ri_namespace i"
  defines "p \<equiv> sort_key fst (token_payload svc now i)"
  shows "text_claim p ''conversation_id'' = ri_conversation i" "text_claim p ''run_id'' = ri_run i"
    "text_claim p ''execution_thread_id'' = ri_thread i" "text_claim p ''checkpoint_namespace'' = ri_namespace i"
    "text_claim p ''request_hash'' = strip (ri_hash i)" "map_of p ''v'' = Some (JInt 2)"
    "0 < ri_schema i \<Longrightarrow> int_claim p ''state_schema_version'' 0 = Inr (ri_schema i)"
    "0 < ri_hash_version i \<Longrightarrow> int_claim p ''request_hash_version'' d = Inr (ri_hash_version i)"
    "0 < ri_token_version i \<Longrightarrow> int_claim p ''resume_token_version'' 1 = Inr (ri_token_version i)"
    "0 < now + is_ttl svc \<Longrightarrow> int_claim p ''exp'' 0 = Inr (now + is_ttl svc)"
proof -
  have "ri_conversation i \<noteq> []" "ri_run i \<noteq> []"
    using assms(1) by (auto simp: run_identity_ok_def between_def)
  from strip_thread_id [OF assms(2,3) this] assms
  show "text_claim p ''conversation_id'' = ri_conversation i" "text_claim p ''run_id'' = ri_run i"
    "text_claim p ''execution_thread_id'' = ri_thread i" "text_claim p ''checkpoint_namespace'' = ri_namespace i"
    "text_claim p ''request_hash'' = strip (ri_hash i)" "map_of p ''v'' = Some (JInt 2)"
    "0 < ri_schema i \<Longrightarrow> int_claim p ''state_schema_version'' 0 = Inr (ri_schema i)"
    "0 < ri_hash_version i \<Longrightarrow> int_claim p ''request_hash_version'' d = Inr (ri_hash_version i)"
    "0 < ri_token_version i \<Longrightarrow> int_claim p ''resume_token_version'' 1 = Inr (ri_token_version i)"
    "0 < now + is_ttl svc \<Longrightarrow> int_claim p ''exp'' 0 = Inr (now + is_ttl svc)"
    by (simp_all add: p_def payload_lookup text_claim_def int_claim_def token_payload_def jget_def or_else_def)
qed

lemma hexdigest_strip: "strip (hexdigest bs) = hexdigest bs"
  unfolding strip_def
proof (rule strip_where_none)
  fix c
  assume "c \<in> set (hexdigest bs)"
  then obtain n where "c = hex_digit n" "n < 16"
    by (auto simp: hexdigest_def less_mult_imp_div_less)
  then have "hex_char c" by (simp add: hex_char_def)
  then show "\<not> is_space c" using hex_char_not by blast
qed

lemma request_hash_strip: "request_hash version q = Inr h \<Longrightarrow> strip h = h"
  by (auto simp: request_hash_def bind_result_Inr_iff hexdigest_strip)

lemma token_reads_back:
  assumes "valid_settings s" and "identity_service_init fl random s = Inr svc"
    and "strip (run_checkpoint_namespace s) = run_checkpoint_namespace s"
    and "chat_request_ok q" and "\<not> cq_resume q"
    and "canonical_uuid u1 = Some u1" and "canonical_uuid u2 = Some u2"
    and "normalize_request fl svc t u1 u2 q = Inr i" and "issue_resume_token svc now i = Inr token"
    and "0 \<le> now'" and "now' < now + is_ttl svc"
  shows "normalize_request fl svc now' v1 v2 (resume_with token q) =
           Inr (i\<lparr>ri_resume_requested := True, ri_resumed := True\<rparr>)"
proof -
  from assms(5,8) obtain h where h: "request_hash (is_hash_version svc) q = Inr h"
    "fresh_identity svc u1 u2 h q = Inr i"
    by (auto simp: normalize_request_def bind_result_Inr_iff)
  note i = token_claims [OF h(2)]
  note ids = fresh_ids [OF assms(4,6,7)]
  note svc = init_service [OF assms(2,1)]
  have run: "strip (ri_run i) = ri_run i" "ri_run i \<noteq> []" using canonical_uuid_tidy ids(4) i(8) by metis+
  have conv: "strip (ri_conversation i) = ri_conversation i" "ri_conversation i \<noteq> []" using ids i(7) by simp_all
  have ns: "strip (ri_namespace i) = ri_namespace i" "ri_namespace i \<noteq> []"
    using assms(3) svc(1) i(1,12) by (auto simp: run_identity_ok_def between_def)
  have hash: "strip h = h" "h \<noteq> []" using request_hash_strip [OF h(1)] request_hash_length [OF h(1)] by auto
  have pos: "0 < ri_schema i" "0 < ri_hash_version i" "0 < ri_token_version i" "0 < now + is_ttl svc"
    using i(12) assms(10,11) by (auto simp: run_identity_ok_def between_def)
  let ?q = "resume_with token q" and ?p = "sort_key fst (token_payload svc now i)"
  note claims = payload_claims [OF i(12) conv(1) run(1) i(9) ns(1), where svc = svc and now = now]
  have supplied: "text_or (cq_conversation ?q) (text_or (cq_thread ?q) []) \<in> {[], ri_conversation i}"
    "text_or (cq_run ?q) [] \<in> {[], ri_run i}" "(text_or (cq_run ?q) [] \<noteq> []) = ri_client_supplied i"
    using i(7,8,10) by (auto simp: resume_with_def text_or_def split: option.splits)
  have checks: "check_claims svc ?q h 2 ?p = Inr ()"
    using claims(1-5) conv run ns hash supplied i(1,3,9,11)
    by (auto simp: check_claims_def validate_uuid_def thread_id_def check_def Let_def)
  have "token \<noteq> []" using assms(9) by (auto simp: issue_resume_token_def Let_def split: option.splits)
  then have "decode_token fl svc (text_or (cq_token ?q) []) = Inr (?p, is_active svc)"
    using decode_issued [OF assms(9) svc(6)] by (simp add: resume_with_def text_or_def)
  then have "identity_from_token fl svc now' h ?q = Inr (i\<lparr>ri_resume_requested := True, ri_resumed := True\<rparr>)"
    using claims(6) claims(7-10) pos assms(11) checks i(1-6,12) supplied(3) claims(1-4)
    by (simp add: identity_from_token_def check_def make_run_identity_def run_identity_ok_def)
  then show ?thesis using h(1) by (simp add: normalize_request_def resume_with_def request_hash_def
      canonical_request_def sanitized_metadata_def)
qed

section \<open>A run to try them on\<close>

definition any_float :: "string \<Rightarrow> pyfloat" where
  "any_float t = FFinite t 0"

definition sample_service :: identity_service where
  "sample_service =
     \<lparr>is_ttl = 3600, is_namespace = ''execution-state-v1'', is_schema = 1, is_hash_version = 1,
      is_active = ''primary'', is_keys = [(''primary'', utf8_encode ''secret'')], is_persistent = False\<rparr>"

definition sample_request :: chat_request where
  "sample_request =
     \<lparr>cq_message = ''hello'', cq_thread = None, cq_conversation = Some ''c'', cq_run = None,
      cq_resume = False, cq_token = None, cq_system = None, cq_metadata = [(''locale'', JStr ''en'')]\<rparr>"

lemma strip_plain: "list_all (\<lambda>c. \<not> is_space c) s \<Longrightarrow> strip s = s"
  unfolding strip_def by (rule strip_where_none) (auto simp: list_all_iff)

lemma sample_strips:
  "strip [] = []" "strip ''primary'' = ''primary''" "strip ''hello'' = ''hello''" "strip ''c'' = ''c''"
  "strip ''execution-state-v1'' = ''execution-state-v1''"
  by (rule strip_plain, simp add: is_space_def)+

lemma sample_service_init: "identity_service_init any_float ''secret'' default_settings = Inr sample_service"
  by (simp add: identity_service_init_def load_keys_def default_settings_def sample_strips sample_service_def Let_def)

lemma sample_request_valid:
  "validate_chat_request py (JObj [(''message'', JStr ''hello''), (''conversation_id'', JStr ''c''),
     (''metadata'', JObj [(''locale'', JStr ''en'')])]) = Some sample_request"
  by (simp add: required_field_def bounded_text_def normalize_message_def sample_strips field_or_def
      optional_text_def validate_run_id_def identity_contract_def sample_request_def)

lemma sample_metadata: "sanitized_metadata sample_request = [(''locale'', JStr ''en'')]"
  by (simp add: sanitized_metadata_def sample_request_def reserved_metadata_keys_def lower_def lower_char_def)

lemma sample_hash: "\<exists>h. request_hash (is_hash_version sample_service) sample_request = Inr h"
  by (simp add: request_hash_def canonical_request_def sample_metadata)

lemma sample_uuids: "canonical_uuid (uuid_text 1) = Some (uuid_text 1)" "canonical_uuid (uuid_text 2) = Some (uuid_text 2)"
  by (simp_all add: uuid_text_canonical)

lemma sample_normalizes:
  "\<exists>i. normalize_request any_float sample_service now (uuid_text 1) (uuid_text 2) sample_request = Inr i \<and>
       run_identity_ok i \<and> ri_conversation i = ''c''"
proof -
  obtain h where h: "request_hash (is_hash_version sample_service) sample_request = Inr h"
    using sample_hash by blast
  from fresh_identity_total [OF default_settings_valid sample_service_init validated_request_ok
      [OF sample_request_valid] sample_uuids request_hash_length [OF h]] h
  show ?thesis by (auto simp: normalize_request_def sample_request_def text_or_def)
qed

lemma sample_token: "\<exists>token. issue_resume_token sample_service now i = Inr token"
  by (simp add: issue_resume_token_def sample_service_def Let_def)

section \<open>Properties\<close>





text \<open>C10: The token issued for a run, presented with the same payload before it expires, is accepted
  and yields the identity of that run, now resumed; the namespace must be free of surrounding
  white space.\<close>

theorem resume_token_roundtrip:
  assumes "valid_settings s" and "identity_service_init fl random s = Inr svc"
    and "strip (run_checkpoint_namespace s) = run_checkpoint_namespace s"
    and "chat_request_ok q" and "\<not> cq_resume q"
    and "canonical_uuid u1 = Some u1" and "canonical_uuid u2 = Some u2"
    and "normalize_request fl svc t u1 u2 q = Inr i" and "issue_resume_token svc now i = Inr token"
    and "0 \<le> now'" and "now' < now + is_ttl svc"
  shows "normalize_request fl svc now' v1 v2 (resume_with token q) =
           Inr (i\<lparr>ri_resume_requested := True, ri_resumed := True\<rparr>)"
  using assms by (rule token_reads_back)

theorem resume_token_roundtrip_witness:
  "\<exists>i token. issue_resume_token sample_service 0 i = Inr token \<and> ri_conversation i = ''c'' \<and>
     normalize_request any_float sample_service 3599 [] [] (resume_with token sample_request) =
       Inr (i\<lparr>ri_resume_requested := True, ri_resumed := True\<rparr>)"
proof -
  obtain i token where i: "normalize_request any_float sample_service 0 (uuid_text 1) (uuid_text 2) sample_request = Inr i"
    "ri_conversation i = ''c''"
    and t: "issue_resume_token sample_service 0 i = Inr token"
    using sample_normalizes sample_token by blast
  have ok: "strip (run_checkpoint_namespace default_settings) = run_checkpoint_namespace default_settings"
    "\<not> cq_resume sample_request" "(3599 :: int) < 0 + is_ttl sample_service"
    by (simp_all add: default_settings_def sample_strips sample_request_def sample_service_def)
  from resume_token_roundtrip [OF default_settings_valid sample_service_init ok(1)
      validated_request_ok [OF sample_request_valid] ok(2) sample_uuids i(1) t _ ok(3), of "[]" "[]"] i t
  show ?thesis by auto
qed

end
