(* ===== verification/Runtime.thy ===== *)
theory Runtime
  imports Identity Graph
begin

text \<open>
  The durable chat runtime, \<open>src/app/orchestration/chat_runtime.py\<close>: one request from its
  identity through the existing run record, the conversation lease, the graph, the stored outcome
  and the conversation history to the response, for every repository that offers the operations
  of \<open>RunRepository\<close>.

  The request is a sequence of calls that may fail. Before each call to the repository other
  owners may have changed its state (\<open>sr_others\<close>), and each call may raise an exception of its
  own, before or after it took effect (\<open>sr_fault\<close>), which covers lost connections and the
  cancellation of the task at every await. Logging and counters are left out.
\<close>

section \<open>Repositories\<close>

record 'st repo_ops =
  ro_get :: "string \<Rightarrow> 'st \<Rightarrow> run_record option"
  ro_create :: "(nat \<Rightarrow> time) \<Rightarrow> run_identity \<Rightarrow> 'st \<Rightarrow> (run_record \<times> bool) result \<times> 'st"
  ro_acquire :: "(nat \<Rightarrow> time) \<Rightarrow> run_identity \<Rightarrow> string \<Rightarrow> int \<Rightarrow> 'st \<Rightarrow> run_lease result \<times> 'st"
  ro_renew :: "(nat \<Rightarrow> time) \<Rightarrow> run_lease \<Rightarrow> int \<Rightarrow> 'st \<Rightarrow> run_lease result \<times> 'st"
  ro_release :: "(nat \<Rightarrow> time) \<Rightarrow> run_lease \<Rightarrow> 'st \<Rightarrow> unit result \<times> 'st"
  ro_terminal :: "(nat \<Rightarrow> time) \<Rightarrow> run_lease \<Rightarrow> outcome \<Rightarrow> 'st \<Rightarrow> run_record result \<times> 'st"
  ro_history :: "(nat \<Rightarrow> time) \<Rightarrow> run_lease \<Rightarrow> jobj option \<Rightarrow> 'st \<Rightarrow> run_record result \<times> 'st"
  ro_reconcile :: "(nat \<Rightarrow> time) \<Rightarrow> string \<Rightarrow> jobj option \<Rightarrow> 'st \<Rightarrow> run_record result \<times> 'st"

definition memory_repo :: "memory_runs repo_ops" where
  "memory_repo =
     \<lparr>ro_get = (\<lambda>run s. map_of (mm_records s) run), ro_create = mem_create_or_get, ro_acquire = mem_acquire,
      ro_renew = mem_renew, ro_release = (\<lambda>_. mem_release), ro_terminal = mem_mark_terminal,
      ro_history = mem_mark_history, ro_reconcile = mem_reconcile\<rparr>"

definition postgres_repo :: "pg_runs repo_ops" where
  "postgres_repo =
     \<lparr>ro_get = (\<lambda>run s. map_of (pg_rows s) run), ro_create = pg_create_or_get, ro_acquire = pg_acquire,
      ro_renew = pg_renew, ro_release = pg_release, ro_terminal = pg_mark_terminal,
      ro_history = pg_mark_history, ro_reconcile = pg_reconcile\<rparr>"

section \<open>The request and its surroundings\<close>

text \<open>What the program has done, newest first.\<close>

datatype run_event =
    LeaseAcquired run_lease
  | ExecutionStarted run_lease
  | GraphInvoked
  | OutcomeStored run_lease outcome
  | TurnCommitted
  | HistoryMarked run_lease
  | LeaseReleased run_lease

text \<open>
  Every function is indexed by the number of the call. \<open>sr_beats\<close> is how often the lease is
  renewed while the graph runs, \<open>sr_cancelled\<close> whether the request is cancelled meanwhile.
\<close>

record 'st surroundings =
  sr_others :: "nat \<Rightarrow> 'st \<Rightarrow> 'st"
  sr_fault :: "nat \<Rightarrow> (exn \<times> bool) option"
  sr_clock :: "nat \<Rightarrow> nat \<Rightarrow> time"
  sr_checkpoint :: "nat \<Rightarrow> bool result"
  sr_checkpoint_id :: "nat \<Rightarrow> string option result"
  sr_append :: "nat \<Rightarrow> bool result"
  sr_load_history :: "nat \<Rightarrow> unit result"
  sr_load_inventory :: "nat \<Rightarrow> jobj result"
  sr_graph :: "nat \<Rightarrow> json result"
  sr_usage :: jobj
  sr_beats :: "nat \<Rightarrow> nat"
  sr_cancelled :: "nat \<Rightarrow> bool"
  sr_owner :: string
  sr_uuid :: string

record 'st progress =
  pr_repo :: 'st
  pr_step :: nat
  pr_gate :: "(string \<times> string) list"
  pr_trace :: "run_event list"

type_synonym ('st, 'a) act = "'st progress \<Rightarrow> 'a result \<times> 'st progress"

definition done_with :: "'a \<Rightarrow> ('st, 'a) act" where
  "done_with x w = (Inr x, w)"

definition raise_exn :: "exn \<Rightarrow> ('st, 'a) act" where
  "raise_exn e w = (Inl e, w)"

definition and_then :: "('st, 'a) act \<Rightarrow> ('a \<Rightarrow> ('st, 'b) act) \<Rightarrow> ('st, 'b) act" where
  "and_then m f w = (case m w of (Inl e, w') \<Rightarrow> (Inl e, w') | (Inr x, w') \<Rightarrow> f x w')"

text \<open>\<open>try: m except: h\<close>.\<close>

definition except_with :: "('st, 'a) act \<Rightarrow> (exn \<Rightarrow> ('st, 'a) act) \<Rightarrow> ('st, 'a) act" where
  "except_with m h w = (case m w of (Inl e, w') \<Rightarrow> h e w' | (Inr x, w') \<Rightarrow> (Inr x, w'))"

text \<open>\<open>try: m finally: f\<close>; an exception in \<open>f\<close> replaces the result.\<close>

definition finally_do :: "('st, 'a) act \<Rightarrow> ('st, unit) act \<Rightarrow> ('st, 'a) act" where
  "finally_do m f w =
     (case m w of (r, w') \<Rightarrow> (case f w' of (Inl e, w'') \<Rightarrow> (Inl e, w'') | (Inr _, w'') \<Rightarrow> (r, w'')))"

definition tell :: "run_event \<Rightarrow> ('st, unit) act" where
  "tell e w = (Inr (), w\<lparr>pr_trace := e # pr_trace w\<rparr>)"

definition ask :: "(nat \<Rightarrow> 'a result) \<Rightarrow> ('st, 'a) act" where
  "ask f w = (f (pr_step w), w\<lparr>pr_step := Suc (pr_step w)\<rparr>)"

definition now_of :: "'st surroundings \<Rightarrow> ('st, time) act" where
  "now_of E = ask (\<lambda>n. Inr (sr_clock E n 0))"

definition repo_call ::
  "'st surroundings \<Rightarrow> ((nat \<Rightarrow> time) \<Rightarrow> 'st \<Rightarrow> 'a result \<times> 'st) \<Rightarrow> ('st, 'a) act" where
  "repo_call E f w =
     (let n = pr_step w; s = sr_others E n (pr_repo w); (r, s') = f (sr_clock E n) s
      in case sr_fault E n of
          None \<Rightarrow> (r, w\<lparr>pr_repo := s', pr_step := Suc n\<rparr>)
        | Some (e, applied) \<Rightarrow> (Inl e, w\<lparr>pr_repo := (if applied then s' else s), pr_step := Suc n\<rparr>))"

definition raise_if :: "bool \<Rightarrow> exn \<Rightarrow> ('st, unit) act" where
  "raise_if b e = (if b then raise_exn e else done_with ())"

section \<open>Parts of a request\<close>

text \<open>\<open>except Exception\<close> does not catch a cancellation.\<close>

definition caught :: "exn \<Rightarrow> bool" where
  "caught e \<longleftrightarrow> e \<noteq> CancelledError"

definition checkpoint_exists_safely :: "'st surroundings \<Rightarrow> bool \<Rightarrow> ('st, bool) act" where
  "checkpoint_exists_safely E required =
     except_with (ask (sr_checkpoint E))
       (\<lambda>e. if caught e \<and> \<not> required then done_with False else raise_exn e)"

definition checkpoint_id_safely :: "'st surroundings \<Rightarrow> ('st, string option) act" where
  "checkpoint_id_safely E =
     except_with (ask (sr_checkpoint_id E)) (\<lambda>e. if caught e then done_with None else raise_exn e)"

definition append_history_safely :: "'st surroundings \<Rightarrow> ('st, bool) act" where
  "append_history_safely E =
     except_with (and_then (ask (sr_append E)) (\<lambda>_. and_then (tell TurnCommitted) (\<lambda>_. done_with True)))
       (\<lambda>e. if caught e then done_with False else raise_exn e)"

text \<open>\<open>response.metadata.setdefault("persistence", {})["history_persisted"] = committed\<close>.\<close>

definition set_history_flag :: "bool \<Rightarrow> chat_reply \<Rightarrow> chat_reply result" where
  "set_history_flag committed r =
     (case map_of (cr_metadata r) ''persistence'' of
        None \<Rightarrow> Inr (r\<lparr>cr_metadata := alist_put ''persistence'' (JObj [(''history_persisted'', JBool committed)])
                                      (cr_metadata r)\<rparr>)
      | Some (JObj kvs) \<Rightarrow>
          Inr (r\<lparr>cr_metadata := alist_put ''persistence'' (JObj (alist_put ''history_persisted'' (JBool committed) kvs))
                                  (cr_metadata r)\<rparr>)
      | Some _ \<Rightarrow> Inl (TypeError ''item assignment''))"

definition of_result :: "'a result \<Rightarrow> ('st, 'a) act" where
  "of_result r = (case r of Inl e \<Rightarrow> raise_exn e | Inr x \<Rightarrow> done_with x)"

definition interrupted_outcome :: "string \<Rightarrow> outcome" where
  "interrupted_outcome why =
     \<lparr>oc_status = Interrupted_run, oc_payload = None, oc_reason = Some why, oc_error = Some why,
      oc_checkpoint = None\<rparr>"

definition store_outcome ::
  "'st repo_ops \<Rightarrow> 'st surroundings \<Rightarrow> run_lease \<Rightarrow> outcome \<Rightarrow> ('st, unit) act" where
  "store_outcome R E l oc =
     and_then (repo_call E (\<lambda>clk. ro_terminal R clk l oc)) (\<lambda>_. tell (OutcomeStored l oc))"

definition mark_interrupted_safely ::
  "'st repo_ops \<Rightarrow> 'st surroundings \<Rightarrow> run_lease \<Rightarrow> string \<Rightarrow> ('st, unit) act" where
  "mark_interrupted_safely R E l why =
     except_with (store_outcome R E l (interrupted_outcome why))
       (\<lambda>e. if caught e then done_with () else raise_exn e)"

section \<open>The record of an earlier attempt\<close>

definition mismatched :: "run_record \<Rightarrow> run_identity \<Rightarrow> bool" where
  "mismatched r i \<longleftrightarrow>
     rd_conversation r \<noteq> ri_conversation i \<or> rd_thread r \<noteq> ri_thread i \<or> rd_hash r \<noteq> ri_hash i \<or>
     rd_hash_version r \<noteq> ri_hash_version i \<or> rd_schema r \<noteq> ri_schema i"

definition no_checkpoint :: exn where
  "no_checkpoint = ResumeRunNotFoundError ''No checkpoint exists for the requested resumable run''"

text \<open>
  The record of the run, whether it is new, whether it was migrated from a checkpoint, and the
  answer of the checkpointer when it was asked.
\<close>

definition find_record ::
  "'st repo_ops \<Rightarrow> 'st surroundings \<Rightarrow> run_identity \<Rightarrow>
   ('st, run_record \<times> bool \<times> bool \<times> bool option) act" where
  "find_record R E i =
     (if ri_resumed i then
        and_then (repo_call E (\<lambda>_ s. (Inr (ro_get R (ri_run i) s), s))) (\<lambda>found.
          case found of
            None \<Rightarrow>
              and_then (checkpoint_exists_safely E True) (\<lambda>there.
                if \<not> there then raise_exn no_checkpoint
                else and_then (repo_call E (\<lambda>clk. ro_create R clk i)) (\<lambda>(r, created).
                  done_with (r, created, True, Some there)))
          | Some r \<Rightarrow>
              if mismatched r i
              then raise_exn (RunConflictError ''The resumable run identity does not match the durable record'')
              else done_with (r, False, False, None))
      else and_then (repo_call E (\<lambda>clk. ro_create R clk i)) (\<lambda>(r, created).
             done_with (r, created, False, None)))"

text \<open>The stored outcome, returned again; its history is committed now if it was not.\<close>

definition replay_outcome ::
  "'st repo_ops \<Rightarrow> 'st surroundings \<Rightarrow> run_identity \<Rightarrow> run_record \<Rightarrow> jobj \<Rightarrow> ('st, chat_reply) act" where
  "replay_outcome R E i r payload =
     (case validate_chat_response (sr_uuid E) (JObj payload) of
        None \<Rightarrow> raise_exn (ValidationError ''ChatResponse'')
      | Some resp \<Rightarrow>
          if rd_history r \<noteq> None then done_with resp
          else and_then (append_history_safely E) (\<lambda>committed.
            and_then (of_result (set_history_flag committed resp)) (\<lambda>resp'.
              if committed
              then and_then (repo_call E (\<lambda>clk. ro_reconcile R clk (ri_run i) (Some (dump_response resp'))))
                     (\<lambda>_. done_with resp')
              else done_with resp')))"

definition outcome_stored :: "run_record \<Rightarrow> bool" where
  "outcome_stored r \<longleftrightarrow> rd_payload r \<noteq> None \<and> rd_status r \<in> {Completed, Failed_run, Cancelled}"

definition lease_expired :: "run_record \<Rightarrow> time \<Rightarrow> bool" where
  "lease_expired r now \<longleftrightarrow> (case rd_expires r of None \<Rightarrow> False | Some t \<Rightarrow> t \<le> now)"

definition status_text :: "run_status \<Rightarrow> string" where
  "status_text st = (case st of Pending \<Rightarrow> ''pending'' | Running \<Rightarrow> ''running''
     | Interrupted_run \<Rightarrow> ''interrupted'' | Completed \<Rightarrow> ''completed'' | Failed_run \<Rightarrow> ''failed''
     | Cancelled \<Rightarrow> ''cancelled'' | Expired \<Rightarrow> ''expired'' | Reconciling \<Rightarrow> ''reconciling'')"

text \<open>Whether a run without a stored outcome may be executed now.\<close>

definition may_execute :: "run_identity \<Rightarrow> run_record \<Rightarrow> time \<Rightarrow> exn option" where
  "may_execute i r now =
     (if ri_resumed i then
        if rd_status r = Interrupted_run \<or> rd_status r = Running \<and> lease_expired r now then None
        else Some (RunNotResumableError
          (''Run status '' @ repr_str (status_text (rd_status r)) @ '' cannot be resumed''))
      else if rd_status r = Running then
        if lease_expired r now
        then Some (RunConflictError ''The previous owner lease expired; resume with the server-issued token'')
        else Some (ConversationBusyError ''The run is already active'')
      else if rd_status r = Pending then None
      else Some (RunConflictError
        ''The run already exists; use its resume token only when it is interrupted''))"

definition preflight_existing_run ::
  "'st repo_ops \<Rightarrow> 'st surroundings \<Rightarrow> run_identity \<Rightarrow> run_record \<Rightarrow> bool \<Rightarrow> bool \<Rightarrow>
   ('st, chat_reply option) act" where
  "preflight_existing_run R E i r created migrated =
     (if ri_resumed i \<and> ri_token_version i \<noteq> rd_token_version r
      then raise_exn (ResumeTokenRevokedError ''The resume token has been revoked'')
      else if outcome_stored r then
        and_then (replay_outcome R E i r (case rd_payload r of Some p \<Rightarrow> p | None \<Rightarrow> []))
          (\<lambda>resp. done_with (Some resp))
      else if ri_resumed i \<and> migrated \<and> rd_status r = Pending then done_with None
      else if created then
        if ri_resumed i
        then raise_exn (ResumeRunNotFoundError ''No durable run record exists for the requested resumable run'')
        else done_with None
      else and_then (now_of E) (\<lambda>now.
        case may_execute i r now of Some e \<Rightarrow> raise_exn e | None \<Rightarrow> done_with None))"

section \<open>Execution\<close>

definition fallback_message :: "string \<Rightarrow> string" where
  "fallback_message reason =
     ''Execution stopped safely before a verified answer could be produced: '' @ reason @ ''.''"

definition safe_failure_result :: "settings \<Rightarrow> string \<Rightarrow> string \<Rightarrow> jobj" where
  "safe_failure_result s reason tag =
     [(''response'', JStr (fallback_message reason)), (''backend'', JStr (backend_text s)),
      (''model'', JNull), (''termination_reason'', JStr reason), (''plan'', JNull),
      (''task_results'', JList []), (''iterations'', JInt 0), (''selected_models'', JObj []),
      (''selected_tool'', JNull), (''selected_tools'', JObj []), (''research_queries'', JObj []),
      (''_run_status'', JStr ''failed''), (''_run_error_code'', JStr tag)]"

text \<open>\<open>exc.schema_name\<close>, which the message of the exception names.\<close>

definition schema_name :: "string \<Rightarrow> string" where
  "schema_name message =
     takeWhile (\<lambda>c. c \<noteq> CHR '':'') (drop (length ''Models returned invalid structured output for '') message)"

definition failure_of :: "settings \<Rightarrow> exn \<Rightarrow> jobj" where
  "failure_of s e =
     (case e of
        BudgetExceeded m \<Rightarrow> safe_failure_result s m ''budget_exhausted''
      | StructuredOutputError m n \<Rightarrow>
          safe_failure_result s
            (''structured output failed for '' @ schema_name m @ '' after '' @ show_nat n @ '' bounded attempt(s)'')
            ''structured_output_failed''
      | _ \<Rightarrow> safe_failure_result s (''agent execution failed: '' @ exn_class e) ''agent_execution_failed'')"

definition invoke_graph_safely :: "settings \<Rightarrow> 'st surroundings \<Rightarrow> ('st, jobj) act" where
  "invoke_graph_safely s E =
     except_with
       (and_then (tell GraphInvoked) (\<lambda>_. and_then (ask (sr_graph E)) (\<lambda>v.
          case v of JObj kvs \<Rightarrow> done_with kvs
          | _ \<Rightarrow> raise_exn (RuntimeError ''The graph returned a non-object result''))))
       (\<lambda>e. if caught e then done_with (failure_of s e) else raise_exn e)"

record run_execution =
  ex_response :: chat_reply
  ex_status :: run_status
  ex_reason :: "string option"
  ex_error :: "string option"

definition opt_of_json :: "json \<Rightarrow> string option" where
  "opt_of_json v = (case v of JStr t \<Rightarrow> Some t | _ \<Rightarrow> None)"

definition run_failed :: "jobj \<Rightarrow> bool" where
  "run_failed result \<longleftrightarrow> jget result ''_run_status'' = JStr ''failed''"

text \<open>\<open>result.get("final_revision_rounds", 0)\<close>.\<close>

definition jget_or :: "jobj \<Rightarrow> string \<Rightarrow> json \<Rightarrow> json" where
  "jget_or kvs k d = (case map_of kvs k of None \<Rightarrow> d | Some v \<Rightarrow> v)"

definition identity_block :: "identity_service \<Rightarrow> run_identity \<Rightarrow> string \<Rightarrow> json" where
  "identity_block svc i token = JObj
     [(''conversation_id'', JStr (ri_conversation i)), (''run_id'', JStr (ri_run i)),
      (''execution_thread_id'', JStr (ri_thread i)), (''checkpoint_namespace'', JStr (ri_namespace i)),
      (''state_schema_version'', JInt (ri_schema i)), (''request_hash_version'', JInt (ri_hash_version i)),
      (''resumed'', JBool (ri_resumed i)), (''resume_token'', JStr token),
      (''resume_token_key_id'', JStr (is_active svc)), (''resume_token_version'', JInt (ri_token_version i)),
      (''resume_token_expires_in_seconds'', JInt (is_ttl svc)),
      (''resume_token_persistent_across_restart'', JBool (is_persistent svc))]"

definition runs_text :: "run_backend \<Rightarrow> string" where
  "runs_text b = (case b of MemoryRuns \<Rightarrow> ''memory'' | PostgresRuns \<Rightarrow> ''postgres'')"

definition persistence_block :: "settings \<Rightarrow> json" where
  "persistence_block s = JObj
     [(''state_backend'', JStr (case state_backend s of MemoryHistory \<Rightarrow> ''memory''
         | RedisHistory \<Rightarrow> ''redis'' | PostgresHistory \<Rightarrow> ''postgres'')),
      (''run_repository_backend'', JStr (runs_text (run_repository_backend s))),
      (''checkpoint_backend'', JStr (runs_text (checkpoint_backend s))),
      (''artifact_backend'', JStr (case artifact_backend s of NoArtifacts \<Rightarrow> ''disabled'' | MinioArtifacts \<Rightarrow> ''minio'')),
      (''history_persisted'', JBool False)]"

text \<open>Later entries of the display replace earlier ones in place.\<close>

definition response_metadata ::
  "settings \<Rightarrow> identity_service \<Rightarrow> chat_request \<Rightarrow> run_identity \<Rightarrow> string \<Rightarrow> jobj \<Rightarrow> jobj \<Rightarrow> jobj \<Rightarrow> jobj" where
  "response_metadata s svc q i token result inventory usage =
     (let decision = prepare_system_prompt (cq_message q) (cq_system q) in
      foldl (\<lambda>al kv. alist_put (fst kv) (snd kv) al) (sanitized_metadata q)
        [(''runtime_contract'', JStr ''run-identity-v1''),
         (''run_repository_contract'', JStr ''durable-run-v1''),
         (''identity'', identity_block svc i token), (''persistence'', persistence_block s),
         (''run_status'', JStr (if run_failed result then ''failed'' else ''completed'')),
         (''plan'', jget result ''plan''), (''verification'', jget result ''task_results''),
         (''final_verification'', jget result ''final_verification''),
         (''final_revision_rounds'', jget_or result ''final_revision_rounds'' (JInt 0)),
         (''iterations'', jget result ''iterations''),
         (''termination_reason'', jget result ''termination_reason''),
         (''routing'', jget result ''routing''), (''selected_models'', jget result ''selected_models''),
         (''selected_tool'', jget result ''selected_tool''), (''selected_tools'', jget result ''selected_tools''),
         (''research_queries'', jget result ''research_queries''),
         (''system_prompt'', JObj [(''source'', JStr (pd_source decision)), (''domain'', JStr (pd_domain decision)),
            (''generated'', JBool (pd_source decision = ''derived''))]),
         (''inventory'', JObj inventory), (''usage'', JObj usage)])"

definition build_response ::
  "settings \<Rightarrow> identity_service \<Rightarrow> 'st surroundings \<Rightarrow> chat_request \<Rightarrow> run_identity \<Rightarrow> string \<Rightarrow> jobj \<Rightarrow> jobj
   \<Rightarrow> run_execution" where
  "build_response s svc E q i token inventory result =
     \<lparr>ex_response = response_from_result (sr_uuid E) (sr_uuid E) (Some (ri_conversation i))
        (Some (ri_conversation i)) (Some (ri_run i)) None
        (py_str (or_else (jget result ''response'') (JStr (fallback_message ''empty response''))))
        (py_str (or_else (jget result ''backend'') (JStr (backend_text s))))
        (opt_of_json (jget result ''model''))
        (response_metadata s svc q i token result inventory (sr_usage E)),
      ex_status = (if run_failed result then Failed_run else Completed),
      ex_reason = opt_of_json (jget result ''termination_reason''),
      ex_error = opt_of_json (jget result ''_run_error_code'')\<rparr>"

definition execute_run ::
  "settings \<Rightarrow> identity_service \<Rightarrow> 'st surroundings \<Rightarrow> chat_request \<Rightarrow> run_identity \<Rightarrow> ('st, run_execution) act" where
  "execute_run s svc E q i =
     and_then (ask (sr_load_history E)) (\<lambda>_.
     and_then (ask (sr_load_inventory E)) (\<lambda>inventory.
     and_then (invoke_graph_safely s E) (\<lambda>result.
     and_then (now_of E) (\<lambda>now.
     and_then (of_result (issue_resume_token svc (now div 1000000) i)) (\<lambda>token.
       done_with (build_response s svc E q i token inventory result))))))"

text \<open>The renewals of the lease while the graph runs; the loop ends only with the execution.\<close>

fun lease_heartbeat ::
  "settings \<Rightarrow> 'st repo_ops \<Rightarrow> 'st surroundings \<Rightarrow> nat \<Rightarrow> run_lease \<Rightarrow> ('st, unit) act" where
  "lease_heartbeat s R E 0 l = done_with ()"
| "lease_heartbeat s R E (Suc n) l =
     and_then (repo_call E (\<lambda>clk. ro_renew R clk l (run_lease_ttl_seconds s)))
       (\<lambda>l'. lease_heartbeat s R E n l')"

text \<open>
  A failed renewal cancels the execution and is raised; otherwise the execution's own result
  counts. The renewals stand before the execution, which does not touch the repository: what an
  execution that is cancelled had begun, the graph included, leaves no other trace.
\<close>

definition execute_with_heartbeat ::
  "settings \<Rightarrow> identity_service \<Rightarrow> 'st repo_ops \<Rightarrow> 'st surroundings \<Rightarrow> chat_request \<Rightarrow> run_identity \<Rightarrow> run_lease
   \<Rightarrow> ('st, run_execution) act" where
  "execute_with_heartbeat s svc R E q i l =
     and_then (tell (ExecutionStarted l)) (\<lambda>_.
     and_then (\<lambda>w. lease_heartbeat s R E (sr_beats E (pr_step w)) l w) (\<lambda>_.
     and_then (\<lambda>w. raise_if (sr_cancelled E (pr_step w)) CancelledError w) (\<lambda>_.
       execute_run s svc E q i)))"

section \<open>The whole request\<close>

definition outcome_of :: "run_execution \<Rightarrow> string option \<Rightarrow> outcome" where
  "outcome_of ex checkpoint =
     \<lparr>oc_status = ex_status ex, oc_payload = Some (dump_response (ex_response ex)),
      oc_reason = ex_reason ex, oc_error = ex_error ex, oc_checkpoint = checkpoint\<rparr>"

text \<open>Up to the stored outcome, and after it.\<close>

definition execute_and_store ::
  "settings \<Rightarrow> identity_service \<Rightarrow> 'st repo_ops \<Rightarrow> 'st surroundings \<Rightarrow> chat_request \<Rightarrow> run_identity \<Rightarrow> run_lease
   \<Rightarrow> ('st, chat_reply) act" where
  "execute_and_store s svc R E q i l =
     and_then (execute_with_heartbeat s svc R E q i l) (\<lambda>ex.
     and_then (checkpoint_id_safely E) (\<lambda>checkpoint.
     and_then (store_outcome R E l (outcome_of ex checkpoint)) (\<lambda>_.
       done_with (ex_response ex))))"

definition commit_history ::
  "'st repo_ops \<Rightarrow> 'st surroundings \<Rightarrow> run_lease \<Rightarrow> chat_reply \<Rightarrow> ('st, chat_reply) act" where
  "commit_history R E l resp =
     and_then (append_history_safely E) (\<lambda>committed.
     and_then (of_result (set_history_flag committed resp)) (\<lambda>resp'.
       if committed
       then and_then (repo_call E (\<lambda>clk. ro_history R clk l (Some (dump_response resp')))) (\<lambda>_.
            and_then (tell (HistoryMarked l)) (\<lambda>_. done_with resp'))
       else done_with resp'))"

definition is_stale :: "exn \<Rightarrow> bool" where
  "is_stale e = (case e of StaleLeaseError _ \<Rightarrow> True | _ \<Rightarrow> False)"

text \<open>The exception handlers, without and with the outcome stored.\<close>

definition on_failure ::
  "'st repo_ops \<Rightarrow> 'st surroundings \<Rightarrow> run_lease \<Rightarrow> bool \<Rightarrow> exn \<Rightarrow> ('st, chat_reply) act" where
  "on_failure R E l stored e =
     (if e = CancelledError
      then and_then (mark_interrupted_safely R E l ''request_cancelled'') (\<lambda>_. raise_exn e)
      else if is_stale e \<or> stored then raise_exn e
      else and_then (mark_interrupted_safely R E l ''runtime_interrupted'') (\<lambda>_. raise_exn e))"

definition run_under_lease ::
  "settings \<Rightarrow> identity_service \<Rightarrow> 'st repo_ops \<Rightarrow> 'st surroundings \<Rightarrow> chat_request \<Rightarrow> run_identity \<Rightarrow> run_lease
   \<Rightarrow> ('st, chat_reply) act" where
  "run_under_lease s svc R E q i l =
     (\<lambda>w. case execute_and_store s svc R E q i l w of
        (Inl e, w') \<Rightarrow> on_failure R E l False e w'
      | (Inr resp, w') \<Rightarrow> except_with (commit_history R E l resp) (on_failure R E l True) w')"

definition release_lease :: "'st repo_ops \<Rightarrow> 'st surroundings \<Rightarrow> run_lease \<Rightarrow> ('st, unit) act" where
  "release_lease R E l = and_then (tell (LeaseReleased l)) (\<lambda>_. repo_call E (\<lambda>clk. ro_release R clk l))"

definition acquire_lease ::
  "settings \<Rightarrow> 'st repo_ops \<Rightarrow> 'st surroundings \<Rightarrow> run_identity \<Rightarrow> ('st, run_lease) act" where
  "acquire_lease s R E i =
     and_then (repo_call E (\<lambda>clk. ro_acquire R clk i (sr_owner E) (run_lease_ttl_seconds s)))
       (\<lambda>l. and_then (tell (LeaseAcquired l)) (\<lambda>_. done_with l))"

definition check_checkpoint ::
  "'st surroundings \<Rightarrow> run_identity \<Rightarrow> bool \<Rightarrow> bool option \<Rightarrow> ('st, unit) act" where
  "check_checkpoint E i created known =
     and_then (case known of
         Some there \<Rightarrow> done_with there
       | None \<Rightarrow> checkpoint_exists_safely E (ri_resumed i \<or> (ri_client_supplied i \<and> \<not> created)))
       (\<lambda>there.
          if ri_resumed i \<and> \<not> there then raise_exn no_checkpoint
          else raise_if (\<not> ri_resumed i \<and> ri_client_supplied i \<and> created \<and> there)
            (RunConflictError (''The supplied run_id already has checkpoint state; use resume=true ''
              @ ''with its server-issued resume token'')))"

definition admitted_request ::
  "settings \<Rightarrow> identity_service \<Rightarrow> 'st repo_ops \<Rightarrow> 'st surroundings \<Rightarrow> chat_request \<Rightarrow> run_identity
   \<Rightarrow> ('st, chat_reply) act" where
  "admitted_request s svc R E q i =
     and_then (find_record R E i) (\<lambda>(r, created, migrated, known).
     and_then (preflight_existing_run R E i r created migrated) (\<lambda>replay.
       case replay of
         Some resp \<Rightarrow> done_with resp
       | None \<Rightarrow>
           and_then (check_checkpoint E i created known) (\<lambda>_.
           and_then (acquire_lease s R E i) (\<lambda>l.
             finally_do (run_under_lease s svc R E q i l) (release_lease R E l)))))"

text \<open>\<open>ConversationGate.hold\<close>: one request per conversation and process.\<close>

definition gate_enter :: "run_identity \<Rightarrow> ('st, unit) act" where
  "gate_enter i w =
     (if map_of (pr_gate w) (ri_conversation i) \<noteq> None then (Inl busy, w)
      else (Inr (), w\<lparr>pr_gate := alist_put (ri_conversation i) (ri_run i) (pr_gate w)\<rparr>))"

definition gate_leave :: "run_identity \<Rightarrow> ('st, unit) act" where
  "gate_leave i w =
     (if map_of (pr_gate w) (ri_conversation i) = Some (ri_run i)
      then (Inr (), w\<lparr>pr_gate := alist_del (ri_conversation i) (pr_gate w)\<rparr>) else (Inr (), w))"

definition ainvoke_with_identity ::
  "settings \<Rightarrow> identity_service \<Rightarrow> 'st repo_ops \<Rightarrow> 'st surroundings \<Rightarrow> chat_request \<Rightarrow> run_identity
   \<Rightarrow> ('st, chat_reply) act" where
  "ainvoke_with_identity s svc R E q i =
     and_then (gate_enter i) (\<lambda>_. finally_do (admitted_request s svc R E q i) (gate_leave i))"

definition chat_ainvoke ::
  "(string \<Rightarrow> pyfloat) \<Rightarrow> settings \<Rightarrow> identity_service \<Rightarrow> 'st repo_ops \<Rightarrow> 'st surroundings \<Rightarrow> string \<Rightarrow> string
   \<Rightarrow> chat_request \<Rightarrow> ('st, chat_reply) act" where
  "chat_ainvoke fl s svc R E u1 u2 q =
     and_then (now_of E) (\<lambda>now.
     and_then (of_result (normalize_request fl svc (now div 1000000) u1 u2 q)) (\<lambda>i.
       ainvoke_with_identity s svc R E q i))"

section \<open>The agent graph as the graph that is invoked\<close>

text \<open>The entries of the final state a response is built from; \<open>rest\<close> gives the others.\<close>

definition state_result :: "(gstate \<Rightarrow> jobj) \<Rightarrow> gstate \<Rightarrow> jobj" where
  "state_result rest g =
     [(''response'', JStr (g_response g)), (''backend'', JStr (g_backend g)),
      (''model'', opt_str_json (g_model g)), (''termination_reason'', opt_str_json (g_reason g))] @ rest g"

definition graph_reply :: "(gstate \<Rightarrow> jobj) \<Rightarrow> run_outcome \<Rightarrow> json result" where
  "graph_reply rest out =
     (case out of
        Finished n g \<Rightarrow> Inr (JObj (state_result rest g))
      | Failed e \<Rightarrow> Inl e
      | OutOfSteps \<Rightarrow> Inl (RuntimeError ''Recursion limit reached without hitting a stop condition''))"

end
