(* ===== verification/RuntimeSafety.thy ===== *)
theory RuntimeSafety
  imports Runtime Leases
begin

text \<open>
  What a request may do, whatever its calls return, whoever else works on the repository and
  wherever it is cancelled: the graph runs at most once and only under a lease, the lease is given
  back on every path, and an answer is handed out only after its outcome was stored.
\<close>

section \<open>What an action adds to the trace\<close>

definition emits :: "('st, 'a) act \<Rightarrow> ('a result \<Rightarrow> run_event list \<Rightarrow> bool) \<Rightarrow> bool" where
  "emits m P \<longleftrightarrow> (\<forall>w. \<exists>new. pr_trace (snd (m w)) = new @ pr_trace w \<and> P (fst (m w)) new)"

text \<open>Actions that leave a part of the progress alone; a quiet one adds nothing to the trace.\<close>

definition preserves :: "('st progress \<Rightarrow> 'b) \<Rightarrow> ('st, 'a) act \<Rightarrow> bool" where
  "preserves f m \<longleftrightarrow> (\<forall>w. f (snd (m w)) = f w)"

abbreviation quiet :: "('st, 'a) act \<Rightarrow> bool" where
  "quiet m \<equiv> preserves pr_trace m"

named_theorems quiet_intros \<open>actions that preserve a part of the progress\<close>

lemma emitsD: "emits m P \<Longrightarrow> m w = (r, w') \<Longrightarrow> \<exists>new. pr_trace w' = new @ pr_trace w \<and> P r new"
  unfolding emits_def by (metis fst_conv snd_conv)

lemma emits_weaken: "emits m P \<Longrightarrow> (\<And>r new. P r new \<Longrightarrow> Q r new) \<Longrightarrow> emits m Q"
  unfolding emits_def by metis

lemma emits_quiet: "quiet m \<Longrightarrow> emits m (\<lambda>r new. new = [])"
  unfolding emits_def preserves_def by simp

lemma emits_tell: "emits (tell e) (\<lambda>r new. r = Inr () \<and> new = [e])"
  by (simp add: emits_def tell_def)

lemma emits_done: "emits (done_with x) (\<lambda>r new. r = Inr x \<and> new = [])"
  by (simp add: emits_def done_with_def)

lemma emits_raise: "emits (raise_exn e) (\<lambda>r new. r = Inl e \<and> new = [])"
  by (simp add: emits_def raise_exn_def)

lemma emits_and_then:
  assumes "emits m P" and "\<And>x. emits (f x) (Q x)"
    and "\<And>e new. P (Inl e) new \<Longrightarrow> R (Inl e) new"
    and "\<And>x r old new. P (Inr x) old \<Longrightarrow> Q x r new \<Longrightarrow> R r (new @ old)"
  shows "emits (and_then m f) R"
  unfolding emits_def
proof
  fix w
  obtain r w' where m: "m w = (r, w')" by (cases "m w")
  from emitsD [OF assms(1) m] obtain old where old: "pr_trace w' = old @ pr_trace w" "P r old" by blast
  show "\<exists>new. pr_trace (snd (and_then m f w)) = new @ pr_trace w \<and> R (fst (and_then m f w)) new"
  proof (cases r)
    case (Inl e)
    then show ?thesis using m old assms(3) by (auto simp: and_then_def)
  next
    case (Inr x)
    obtain r' w'' where f: "f x w' = (r', w'')" by (cases "f x w'")
    from emitsD [OF assms(2) f] obtain new where "pr_trace w'' = new @ pr_trace w'" "Q x r' new" by blast
    then show ?thesis using m f old Inr assms(4) [of x old r' new] by (auto simp: and_then_def)
  qed
qed

lemma emits_except:
  assumes "emits m P" and "\<And>e. emits (h e) (Q e)"
    and "\<And>x new. P (Inr x) new \<Longrightarrow> R (Inr x) new"
    and "\<And>e r old new. P (Inl e) old \<Longrightarrow> Q e r new \<Longrightarrow> R r (new @ old)"
  shows "emits (except_with m h) R"
  unfolding emits_def
proof
  fix w
  obtain r w' where m: "m w = (r, w')" by (cases "m w")
  from emitsD [OF assms(1) m] obtain old where old: "pr_trace w' = old @ pr_trace w" "P r old" by blast
  show "\<exists>new. pr_trace (snd (except_with m h w)) = new @ pr_trace w \<and> R (fst (except_with m h w)) new"
  proof (cases r)
    case (Inl e)
    obtain r' w'' where f: "h e w' = (r', w'')" by (cases "h e w'")
    from emitsD [OF assms(2) f] obtain new where "pr_trace w'' = new @ pr_trace w'" "Q e r' new" by blast
    then show ?thesis using m f old Inl assms(4) [of e old r' new] by (auto simp: except_with_def)
  next
    case (Inr x)
    then show ?thesis using m old assms(3) by (auto simp: except_with_def)
  qed
qed

lemma emits_finally:
  assumes "emits m P" and "emits f Q"
    and "\<And>r old e new. P r old \<Longrightarrow> Q (Inl e) new \<Longrightarrow> R (Inl e) (new @ old)"
    and "\<And>r old u new. P r old \<Longrightarrow> Q (Inr u) new \<Longrightarrow> R r (new @ old)"
  shows "emits (finally_do m f) R"
  unfolding emits_def
proof
  fix w
  obtain r w' where m: "m w = (r, w')" by (cases "m w")
  from emitsD [OF assms(1) m] obtain old where old: "pr_trace w' = old @ pr_trace w" "P r old" by blast
  obtain r' w'' where f: "f w' = (r', w'')" by (cases "f w'")
  from emitsD [OF assms(2) f] obtain new where new: "pr_trace w'' = new @ pr_trace w'" "Q r' new" by blast
  show "\<exists>new. pr_trace (snd (finally_do m f w)) = new @ pr_trace w \<and> R (fst (finally_do m f w)) new"
    using m f old new assms(3,4) [OF old(2)] by (cases r') (auto simp: finally_do_def)
qed

subsection \<open>Actions that preserve something\<close>

lemma preserves_done [quiet_intros]: "preserves f (done_with x)"
  by (simp add: preserves_def done_with_def)

lemma preserves_raise [quiet_intros]: "preserves f (raise_exn e)"
  by (simp add: preserves_def raise_exn_def)

lemma preserved_part: "preserves f m \<Longrightarrow> m w = (r, w') \<Longrightarrow> f w' = f w"
  unfolding preserves_def by (metis snd_conv)

lemma preserves_and_then [quiet_intros]:
  "preserves f m \<Longrightarrow> (\<And>x. preserves f (g x)) \<Longrightarrow> preserves f (and_then m g)"
  by (simp add: preserves_def [of f "and_then m g"] and_then_def split: prod.split sum.split)
    (metis preserved_part preserves_def)

lemma preserves_except [quiet_intros]:
  "preserves f m \<Longrightarrow> (\<And>e. preserves f (h e)) \<Longrightarrow> preserves f (except_with m h)"
  by (simp add: preserves_def [of f "except_with m h"] except_with_def split: prod.split sum.split)
    (metis preserved_part preserves_def)

lemma preserves_finally [quiet_intros]:
  assumes "preserves f m" and "preserves f g"
  shows "preserves f (finally_do m g)"
  unfolding preserves_def
proof
  fix w
  obtain r w1 where m: "m w = (r, w1)" by (cases "m w")
  obtain r' w2 where g: "g w1 = (r', w2)" by (cases "g w1")
  show "f (snd (finally_do m g w)) = f w"
    using m g preserved_part [OF assms(1) m] preserved_part [OF assms(2) g]
    by (simp add: finally_do_def split: sum.split)
qed

lemma preserves_if [quiet_intros]: "preserves f a \<Longrightarrow> preserves f b \<Longrightarrow> preserves f (if c then a else b)"
  by simp

lemma preserves_option [quiet_intros]:
  "preserves f a \<Longrightarrow> (\<And>x. preserves f (b x)) \<Longrightarrow> preserves f (case v of None \<Rightarrow> a | Some x \<Rightarrow> b x)"
  by (cases v) simp_all

lemma preserves_prod [quiet_intros]:
  "(\<And>x y. preserves f (b x y)) \<Longrightarrow> preserves f (case v of (x, y) \<Rightarrow> b x y)"
  by (cases v) simp

lemma preserves_of_result [quiet_intros]: "preserves f (of_result r)"
  by (cases r) (simp_all add: of_result_def quiet_intros)

lemma preserves_raise_if [quiet_intros]: "preserves f (raise_if b e)"
  by (simp add: raise_if_def quiet_intros)

text \<open>Calls touch the repository and the step counter only.\<close>

definition beside_calls :: "('st progress \<Rightarrow> 'b) \<Rightarrow> bool" where
  "beside_calls f \<longleftrightarrow> (\<forall>w s n. f (w\<lparr>pr_repo := s\<rparr>) = f w \<and> f (w\<lparr>pr_step := n\<rparr>) = f w)"

lemma beside_calls_fields [simp]: "beside_calls pr_trace" "beside_calls pr_gate"
  by (simp_all add: beside_calls_def)

lemma preserves_ask [quiet_intros]: "beside_calls f \<Longrightarrow> preserves f (ask g)"
  by (simp add: preserves_def ask_def beside_calls_def)

lemma preserves_now [quiet_intros]: "beside_calls f \<Longrightarrow> preserves f (now_of E)"
  by (simp add: now_of_def preserves_ask)

lemma preserves_call [quiet_intros]:
  fixes f :: "'b progress \<Rightarrow> 'd"
  assumes "beside_calls f"
  shows "preserves f (repo_call E g)"
  unfolding preserves_def
proof
  fix w :: "'b progress"
  obtain r s' where g: "g (sr_clock E (pr_step w)) (sr_others E (pr_step w) (pr_repo w)) = (r, s')" by fastforce
  show "f (snd (repo_call E g w)) = f w"
    using assms g
    by (cases "sr_fault E (pr_step w)") (simp_all add: repo_call_def Let_def beside_calls_def split: prod.split)
qed

lemma preserves_reader: "(\<And>x. preserves f (g x)) \<Longrightarrow> preserves f (\<lambda>w. g (h w) w)"
  by (simp add: preserves_def)

lemma preserves_heartbeat [quiet_intros]: "beside_calls f \<Longrightarrow> preserves f (lease_heartbeat s R E n l)"
  by (induction n arbitrary: l) (simp_all add: quiet_intros)

lemma preserves_checkpoint [quiet_intros]:
  "beside_calls f \<Longrightarrow> preserves f (checkpoint_exists_safely E required)"
  "beside_calls f \<Longrightarrow> preserves f (checkpoint_id_safely E)"
  by (simp_all add: checkpoint_exists_safely_def checkpoint_id_safely_def quiet_intros)

lemma quiet_gate [quiet_intros]: "quiet (gate_enter i)" "quiet (gate_leave i)"
  by (simp_all add: preserves_def gate_enter_def gate_leave_def)

lemma preserves_find_record [quiet_intros]: "beside_calls f \<Longrightarrow> preserves f (find_record R E i)"
  unfolding find_record_def by (intro quiet_intros)

lemma preserves_check_checkpoint [quiet_intros]:
  "beside_calls f \<Longrightarrow> preserves f (check_checkpoint E i created known)"
  unfolding check_checkpoint_def by (intro quiet_intros)

lemmas quiet_ask = preserves_ask [OF beside_calls_fields(1)]
  and quiet_call = preserves_call [OF beside_calls_fields(1)]

section \<open>What each part adds\<close>

lemma emits_append:
  fixes E :: "'st surroundings"
  shows "emits (append_history_safely E) (\<lambda>r new. new = [] \<and> r \<noteq> Inr True \<or> new = [TurnCommitted] \<and> r = Inr True)"
proof -
  have committed: "emits (and_then (ask (sr_append E)) (\<lambda>_. and_then (tell TurnCommitted) (\<lambda>_. done_with True)))
      (\<lambda>r new. (\<exists>e. r = Inl e) \<and> new = [] \<or> r = Inr True \<and> new = [TurnCommitted])"
    by (rule emits_and_then [OF emits_quiet [OF quiet_ask] emits_and_then [OF emits_tell emits_done,
          where R = "\<lambda>r new. r = Inr True \<and> new = [TurnCommitted]"]]) auto
  have handler: "emits (if caught e then done_with False else raise_exn e :: ('st, bool) act)
      (\<lambda>r new. r \<noteq> Inr True \<and> new = [])" for e
    by (auto intro: emits_weaken [OF emits_done] emits_weaken [OF emits_raise])
  show ?thesis unfolding append_history_safely_def by (rule emits_except [OF committed handler]) auto
qed

lemma emits_store:
  "emits (store_outcome R E l oc)
     (\<lambda>r new. r = Inr () \<and> new = [OutcomeStored l oc] \<or> (\<exists>e. r = Inl e) \<and> new = [])"
  unfolding store_outcome_def by (rule emits_and_then [OF emits_quiet [OF quiet_call] emits_tell]) auto

lemma emits_mark_interrupted:
  "emits (mark_interrupted_safely R E l why) (\<lambda>r new. new = [] \<or> new = [OutcomeStored l (interrupted_outcome why)])"
  unfolding mark_interrupted_safely_def
  by (rule emits_except [OF emits_store emits_quiet [OF preserves_if [OF preserves_done preserves_raise]]]) auto

text \<open>Only a cancellation leaves \<open>_invoke_graph_safely\<close>.\<close>

lemma emits_invoke:
  fixes E :: "'st surroundings"
  shows "emits (invoke_graph_safely s E) (\<lambda>r new. new = [GraphInvoked] \<and> (\<forall>e. r = Inl e \<longrightarrow> e = CancelledError))"
proof -
  have "emits ((case v of JObj kvs \<Rightarrow> done_with kvs
      | _ \<Rightarrow> raise_exn (RuntimeError ''The graph returned a non-object result'')) :: ('st, jobj) act)
      (\<lambda>r new. new = [])" for v
    by (cases v) (auto intro: emits_quiet quiet_intros)
  note call = emits_and_then [OF emits_tell emits_and_then [OF emits_quiet [OF quiet_ask] this, where R = "\<lambda>r new. new = []"],
      where R = "\<lambda>r new. new = [GraphInvoked]"]
  have handler: "emits ((if caught e then done_with (failure_of s e) else raise_exn e) :: ('st, jobj) act)
      (\<lambda>r new. new = [] \<and> (\<forall>e. r = Inl e \<longrightarrow> e = CancelledError))" for e
    by (auto simp: caught_def intro: emits_weaken [OF emits_done] emits_weaken [OF emits_raise])
  show ?thesis unfolding invoke_graph_safely_def by (rule emits_except [OF call handler]) auto
qed

lemma emits_execute_run:
  "emits (execute_run s svc E q i) (\<lambda>r new. new = [GraphInvoked] \<or> (\<exists>e. r = Inl e) \<and> new = [])"
  (is "emits _ ?P")
proof -
  have last: "emits (and_then (now_of E) (\<lambda>now. and_then (of_result (issue_resume_token svc (now div 1000000) i))
      (\<lambda>token. done_with (build_response s svc E q i token inventory result)))) (\<lambda>r new. new = [])" for inventory result
    by (intro emits_quiet quiet_intros) simp_all
  have "emits (and_then (invoke_graph_safely s E) (\<lambda>result. and_then (now_of E) (\<lambda>now.
      and_then (of_result (issue_resume_token svc (now div 1000000) i))
        (\<lambda>token. done_with (build_response s svc E q i token inventory result))))) (\<lambda>r new. new = [GraphInvoked])" for inventory
    by (rule emits_and_then [OF emits_invoke last]) auto
  note invoked = emits_and_then [OF emits_quiet [OF quiet_ask] this, where R = ?P]
  show ?thesis unfolding execute_run_def
    by (rule emits_and_then [OF emits_quiet [OF quiet_ask] invoked]) auto
qed

lemma emits_execute:
  "emits (execute_with_heartbeat s svc R E q i l)
     (\<lambda>r new. new = [GraphInvoked, ExecutionStarted l] \<or> (\<exists>e. r = Inl e) \<and> new = [ExecutionStarted l])"
  (is "emits _ ?P")
proof -
  have r1: "quiet (\<lambda>w. lease_heartbeat s R E (sr_beats E (pr_step w)) l w)"
    by (intro preserves_reader [where h = "\<lambda>w. sr_beats E (pr_step w)" and g = "\<lambda>n. lease_heartbeat s R E n l"] quiet_intros) simp
  have r2: "quiet (\<lambda>w. raise_if (sr_cancelled E (pr_step w)) CancelledError w)"
    by (intro preserves_reader [where h = "\<lambda>w. sr_cancelled E (pr_step w)" and g = "\<lambda>b. raise_if b CancelledError"] quiet_intros)
  note inner = emits_and_then [OF emits_quiet [OF r2] emits_execute_run, where
      R = "\<lambda>r new. new = [GraphInvoked] \<or> (\<exists>e. r = Inl e) \<and> new = []"]
  note outer = emits_and_then [OF emits_quiet [OF r1] inner, where
      R = "\<lambda>r new. new = [GraphInvoked] \<or> (\<exists>e. r = Inl e) \<and> new = []"]
  show ?thesis unfolding execute_with_heartbeat_def by (rule emits_and_then [OF emits_tell outer]) auto
qed

text \<open>An answer comes with its stored outcome.\<close>

definition stored_for :: "chat_reply \<Rightarrow> outcome \<Rightarrow> bool" where
  "stored_for resp oc \<longleftrightarrow> oc_payload oc = Some (dump_response resp) \<and> oc_status oc \<in> {Completed, Failed_run}"

definition all_results :: "('st, 'a) act \<Rightarrow> ('a \<Rightarrow> bool) \<Rightarrow> bool" where
  "all_results m P \<longleftrightarrow> (\<forall>w x w'. m w = (Inr x, w') \<longrightarrow> P x)"

lemma all_results_and_then: "(\<And>x. all_results (f x) P) \<Longrightarrow> all_results (and_then m f) P"
  by (auto simp: all_results_def and_then_def split: prod.splits sum.splits)

lemma all_results_done: "P x \<Longrightarrow> all_results (done_with x) P"
  by (simp add: all_results_def done_with_def)

lemma execute_status:
  "all_results (execute_with_heartbeat s svc R E q i l) (\<lambda>ex. ex_status ex \<in> {Completed, Failed_run})"
  unfolding execute_with_heartbeat_def execute_run_def
  by (intro all_results_and_then all_results_done) (simp add: build_response_def)

lemma emits_results: "emits m P \<Longrightarrow> all_results m Q \<Longrightarrow> emits m (\<lambda>r new. P r new \<and> (\<forall>x. r = Inr x \<longrightarrow> Q x))"
  unfolding emits_def all_results_def by (metis fst_conv snd_conv surj_pair)

lemma emits_execute_and_store:
  "emits (execute_and_store s svc R E q i l)
     (\<lambda>r new. (\<exists>e. r = Inl e) \<and> (new = [GraphInvoked, ExecutionStarted l] \<or> new = [ExecutionStarted l]) \<or>
        (\<exists>resp oc. r = Inr resp \<and> stored_for resp oc \<and> new = [OutcomeStored l oc, GraphInvoked, ExecutionStarted l]))"
  (is "emits _ ?P")
proof -
  have finish: "emits (and_then (store_outcome R E l oc) (\<lambda>_. done_with resp))
      (\<lambda>r new. r = Inr resp \<and> new = [OutcomeStored l oc] \<or> (\<exists>e. r = Inl e) \<and> new = [])" for oc resp
    by (rule emits_and_then [OF emits_store emits_done]) auto
  have "emits (and_then (checkpoint_id_safely E) (\<lambda>c. and_then (store_outcome R E l (outcome_of ex c))
      (\<lambda>_. done_with (ex_response ex))))
      (\<lambda>r new. (\<exists>c. r = Inr (ex_response ex) \<and> new = [OutcomeStored l (outcome_of ex c)]) \<or> (\<exists>e. r = Inl e) \<and> new = [])" for ex
    by (rule emits_and_then [OF emits_quiet [OF preserves_checkpoint(2) [OF beside_calls_fields(1)]] finish]) auto
  then show ?thesis unfolding execute_and_store_def
    by (rule emits_and_then [OF emits_results [OF emits_execute execute_status]])
      (auto simp: stored_for_def outcome_of_def)
qed

lemma emits_commit:
  "emits (commit_history R E l resp)
     (\<lambda>r new. new \<in> {[], [TurnCommitted], [HistoryMarked l, TurnCommitted]} \<and>
        (\<forall>resp'. r = Inr resp' \<longrightarrow> (\<exists>b. set_history_flag b resp = Inr resp')))"
proof -
  have mark: "emits (and_then (repo_call E (\<lambda>clk. ro_history R clk l (Some (dump_response resp')))) (\<lambda>_.
      and_then (tell (HistoryMarked l)) (\<lambda>_. done_with resp')))
      (\<lambda>r new. new \<in> {[], [HistoryMarked l]} \<and> (\<forall>x. r = Inr x \<longrightarrow> x = resp'))" for resp'
    by (rule emits_and_then [OF emits_quiet [OF quiet_call] emits_and_then [OF emits_tell emits_done, where
        R = "\<lambda>r new. new = [HistoryMarked l] \<and> (\<forall>x. r = Inr x \<longrightarrow> x = resp')"]]) auto
  have finish: "emits (if committed then and_then (repo_call E (\<lambda>clk. ro_history R clk l (Some (dump_response resp')))) (\<lambda>_.
      and_then (tell (HistoryMarked l)) (\<lambda>_. done_with resp')) else done_with resp')
      (\<lambda>r new. (new = [] \<or> committed \<and> new = [HistoryMarked l]) \<and> (\<forall>x. r = Inr x \<longrightarrow> x = resp'))" for committed resp'
    using mark [of resp'] emits_done [of resp'] by (cases committed) (auto elim: emits_weaken)
  have flag: "emits (of_result (set_history_flag b resp) :: ('a, chat_reply) act)
      (\<lambda>r new. new = [] \<and> set_history_flag b resp = r)" for b
    by (cases "set_history_flag b resp") (simp_all add: of_result_def emits_def raise_exn_def done_with_def)
  have rest: "emits (and_then (of_result (set_history_flag b resp)) (\<lambda>resp'.
      if b then and_then (repo_call E (\<lambda>clk. ro_history R clk l (Some (dump_response resp')))) (\<lambda>_.
        and_then (tell (HistoryMarked l)) (\<lambda>_. done_with resp')) else done_with resp'))
      (\<lambda>r new. (new = [] \<or> b \<and> new = [HistoryMarked l]) \<and> (\<forall>x. r = Inr x \<longrightarrow> set_history_flag b resp = Inr x))" for b
    by (rule emits_and_then [OF flag finish]) auto
  show ?thesis unfolding commit_history_def
    by (rule emits_and_then [OF emits_append rest]) auto
qed

lemma emits_on_failure:
  fixes E :: "'st surroundings"
  shows "emits (on_failure R E l stored e)
     (\<lambda>r new. (\<exists>e'. r = Inl e') \<and> (new = [] \<or> (\<exists>why. new = [OutcomeStored l (interrupted_outcome why)])))"
  (is "emits _ ?P")
proof -
  have raise: "emits (raise_exn e :: ('st, chat_reply) act) ?P" by (rule emits_weaken [OF emits_raise]) auto
  have mark: "emits (and_then (mark_interrupted_safely R E l why) (\<lambda>_. raise_exn e) :: ('st, chat_reply) act) ?P" for why
    by (rule emits_and_then [OF emits_mark_interrupted emits_raise]) auto
  show ?thesis unfolding on_failure_def
    by (cases "e = CancelledError") (use raise mark in simp_all)
qed

text \<open>
  What a request does between taking a lease and giving it back: everything for this lease, the
  graph at most once; with an answer, one outcome, the one that holds the answer.
\<close>

fun belongs :: "run_lease \<Rightarrow> run_event \<Rightarrow> bool" where
  "belongs l (LeaseAcquired _) = False"
| "belongs l (ExecutionStarted l') = (l' = l)"
| "belongs l GraphInvoked = True"
| "belongs l (OutcomeStored l' _) = (l' = l)"
| "belongs l TurnCommitted = True"
| "belongs l (HistoryMarked l') = (l' = l)"
| "belongs l (LeaseReleased _) = False"

fun stored_outcomes :: "run_event list \<Rightarrow> outcome list" where
  "stored_outcomes [] = []"
| "stored_outcomes (OutcomeStored _ oc # es) = oc # stored_outcomes es"
| "stored_outcomes (_ # es) = stored_outcomes es"

definition answered :: "chat_reply result \<Rightarrow> run_event list \<Rightarrow> bool" where
  "answered r mid \<longleftrightarrow> (case r of Inl _ \<Rightarrow> True
     | Inr resp \<Rightarrow> \<exists>resp0 oc b. stored_outcomes mid = [oc] \<and> stored_for resp0 oc \<and>
                     set_history_flag b resp0 = Inr resp \<and> GraphInvoked \<in> set mid)"

definition served :: "run_lease \<Rightarrow> chat_reply result \<Rightarrow> run_event list \<Rightarrow> bool" where
  "served l r mid \<longleftrightarrow> list_all (belongs l) mid \<and> length (filter (\<lambda>e. e = GraphInvoked) mid) \<le> 1 \<and>
     answered r mid"

lemma emits_under_lease: "emits (run_under_lease s svc R E q i l) (served l)"
  unfolding emits_def
proof
  fix w
  obtain r w' where x: "execute_and_store s svc R E q i l w = (r, w')" by (cases "execute_and_store s svc R E q i l w")
  from emitsD [OF emits_execute_and_store x] obtain old where old: "pr_trace w' = old @ pr_trace w"
    and P: "(\<exists>e. r = Inl e) \<and> (old = [GraphInvoked, ExecutionStarted l] \<or> old = [ExecutionStarted l]) \<or>
        (\<exists>resp oc. r = Inr resp \<and> stored_for resp oc \<and> old = [OutcomeStored l oc, GraphInvoked, ExecutionStarted l])"
    by blast
  show "\<exists>new. pr_trace (snd (run_under_lease s svc R E q i l w)) = new @ pr_trace w \<and>
      served l (fst (run_under_lease s svc R E q i l w)) new"
  proof (cases r)
    case (Inl e)
    obtain r' w'' where h: "on_failure R E l False e w' = (r', w'')" by (cases "on_failure R E l False e w'")
    from emitsD [OF emits_on_failure h] obtain new where "pr_trace w'' = new @ pr_trace w'" "\<exists>e'. r' = Inl e'"
      "new = [] \<or> (\<exists>why. new = [OutcomeStored l (interrupted_outcome why)])" by blast
    then show ?thesis using x h old P Inl
      by (intro exI [of _ "new @ old"]) (auto simp: run_under_lease_def served_def answered_def)
  next
    case (Inr resp)
    from P Inr obtain oc where oc: "stored_for resp oc" "old = [OutcomeStored l oc, GraphInvoked, ExecutionStarted l]"
      by auto
    let ?m = "except_with (commit_history R E l resp) (on_failure R E l True)"
    have "emits ?m (\<lambda>r new. (\<exists>e. r = Inl e) \<and> list_all (belongs l) new \<and> GraphInvoked \<notin> set new \<or>
        (\<exists>resp' b. r = Inr resp' \<and> set_history_flag b resp = Inr resp') \<and>
          new \<in> {[], [TurnCommitted], [HistoryMarked l, TurnCommitted]})"
      by (rule emits_except [OF emits_commit emits_on_failure]) auto
    moreover obtain r' w'' where h: "?m w' = (r', w'')" by (cases "?m w'")
    ultimately obtain new where "pr_trace w'' = new @ pr_trace w'"
      and n: "(\<exists>e. r' = Inl e) \<and> list_all (belongs l) new \<and> GraphInvoked \<notin> set new \<or>
        (\<exists>resp' b. r' = Inr resp' \<and> set_history_flag b resp = Inr resp') \<and>
          new \<in> {[], [TurnCommitted], [HistoryMarked l, TurnCommitted]}"
      using emitsD by blast
    moreover have "filter (\<lambda>e. e = GraphInvoked) new = []" "list_all (belongs l) new" "stored_outcomes new = [] \<or> (\<exists>e. r' = Inl e)"
    proof -
      show "filter (\<lambda>e. e = GraphInvoked) new = []" using n by (auto simp: filter_empty_conv)
      show "list_all (belongs l) new" using n by auto
      show "stored_outcomes new = [] \<or> (\<exists>e. r' = Inl e)" using n by auto
    qed
    moreover from this oc have "served l r' (new @ old)"
    proof -
      have "answered r' (new @ old)"
      proof (cases r')
        case (Inr resp')
        with n obtain b where "set_history_flag b resp = Inr resp'" "stored_outcomes (new @ old) = [oc]"
          using oc(2) by auto
        with oc show ?thesis unfolding answered_def Inr by auto
      qed (simp add: answered_def)
      with oc calculation show ?thesis by (simp add: served_def)
    qed
    ultimately show ?thesis using x h old Inr
      by (intro exI [of _ "new @ old"]) (simp add: run_under_lease_def)
  qed
qed

section \<open>Before the lease\<close>

lemma emits_replay:
  "emits (replay_outcome R E i r payload) (\<lambda>r new. new = [] \<or> new = [TurnCommitted])"
proof -
  have finish: "emits (and_then (of_result (set_history_flag committed resp)) (\<lambda>resp'.
      if committed
      then and_then (repo_call E (\<lambda>clk. ro_reconcile R clk run (Some (dump_response resp')))) (\<lambda>_. done_with resp')
      else done_with resp')) (\<lambda>r new. new = [])" for committed resp run
    by (intro emits_quiet quiet_intros) simp
  have commit: "emits (and_then (append_history_safely E) (\<lambda>committed.
      and_then (of_result (set_history_flag committed resp)) (\<lambda>resp'.
      if committed
      then and_then (repo_call E (\<lambda>clk. ro_reconcile R clk (ri_run i) (Some (dump_response resp')))) (\<lambda>_. done_with resp')
      else done_with resp'))) (\<lambda>r new. new = [] \<or> new = [TurnCommitted])" for resp
    by (rule emits_and_then [OF emits_append finish]) auto
  show ?thesis unfolding replay_outcome_def
    by (cases "validate_chat_response (sr_uuid E) (JObj payload)")
      (use commit in \<open>auto intro: emits_weaken [OF emits_raise] emits_weaken [OF emits_done]\<close>)
qed

lemma emits_preflight:
  "emits (preflight_existing_run R E i r created migrated)
     (\<lambda>r new. new = [] \<or> new = [TurnCommitted] \<and> r \<noteq> Inr None)"
proof -
  have replay: "emits (and_then (replay_outcome R E i r payload) (\<lambda>resp. done_with (Some resp)))
      (\<lambda>r new. new = [] \<or> new = [TurnCommitted] \<and> r \<noteq> Inr None)" for payload
    by (rule emits_and_then [OF emits_replay emits_done]) auto
  have judge: "emits (and_then (now_of E) (\<lambda>now. case may_execute i r now of Some e \<Rightarrow> raise_exn e | None \<Rightarrow> done_with None))
      (\<lambda>r new. new = [])"
    by (intro emits_quiet quiet_intros) simp
  show ?thesis unfolding preflight_existing_run_def
    by (simp add: replay emits_weaken [OF judge] emits_weaken [OF emits_raise] emits_weaken [OF emits_done])
qed

lemma emits_acquire:
  "emits (acquire_lease s R E i)
     (\<lambda>r new. (\<exists>l. r = Inr l \<and> new = [LeaseAcquired l]) \<or> (\<exists>e. r = Inl e) \<and> new = [])"
  unfolding acquire_lease_def
  by (rule emits_and_then [OF emits_quiet [OF quiet_call] emits_and_then [OF emits_tell emits_done,
        where R = "\<lambda>r new. \<exists>l. r = Inr l \<and> new = [LeaseAcquired l]"]]) auto

lemma emits_release: "emits (release_lease R E l) (\<lambda>r new. new = [LeaseReleased l])"
  unfolding release_lease_def by (rule emits_and_then [OF emits_tell emits_quiet [OF quiet_call]]) auto

section \<open>The whole request\<close>

text \<open>
  Either the request never takes a lease, and at most commits the turn of an outcome stored
  earlier, or its lease is the first thing it records and giving it back the last.
\<close>

definition request_served :: "chat_reply result \<Rightarrow> run_event list \<Rightarrow> bool" where
  "request_served r new \<longleftrightarrow>
     new = [] \<or> new = [TurnCommitted] \<or>
     (\<exists>l mid. new = LeaseReleased l # mid @ [LeaseAcquired l] \<and> served l r mid)"

lemma served_error: "served l r mid \<Longrightarrow> served l (Inl e) mid"
  by (simp add: served_def answered_def)

lemma emits_held:
  "emits (finally_do (run_under_lease s svc R E q i l) (release_lease R E l))
     (\<lambda>r new. \<exists>mid. new = LeaseReleased l # mid \<and> served l r mid)"
  by (rule emits_finally [OF emits_under_lease emits_release]) (auto dest: served_error)

lemma emits_leased:
  "emits (and_then (acquire_lease s R E i) (\<lambda>l. finally_do (run_under_lease s svc R E q i l) (release_lease R E l)))
     (\<lambda>r new. new = [] \<or> (\<exists>l mid. new = LeaseReleased l # mid @ [LeaseAcquired l] \<and> served l r mid))"
  by (rule emits_and_then [OF emits_acquire emits_held]) auto

lemma emits_admitted: "emits (admitted_request s svc R E q i) request_served"
proof -
  have lease: "emits (and_then (check_checkpoint E i created known) (\<lambda>_. and_then (acquire_lease s R E i) (\<lambda>l.
      finally_do (run_under_lease s svc R E q i l) (release_lease R E l)))) request_served" for created known
    by (rule emits_and_then [OF emits_quiet [OF preserves_check_checkpoint [OF beside_calls_fields(1)]] emits_leased])
      (auto simp: request_served_def)
  have replayed: "emits (case replay of Some resp \<Rightarrow> done_with resp | None \<Rightarrow>
        and_then (check_checkpoint E i created known) (\<lambda>_. and_then (acquire_lease s R E i) (\<lambda>l.
        finally_do (run_under_lease s svc R E q i l) (release_lease R E l))))
      (\<lambda>r new. (replay \<noteq> None \<longrightarrow> new = []) \<and> request_served r new)" for replay created known
    by (cases replay) (auto simp: request_served_def intro: emits_weaken [OF emits_done] emits_weaken [OF lease])
  have "emits (and_then (preflight_existing_run R E i r created migrated) (\<lambda>replay.
       case replay of Some resp \<Rightarrow> done_with resp | None \<Rightarrow>
        and_then (check_checkpoint E i created known) (\<lambda>_. and_then (acquire_lease s R E i) (\<lambda>l.
        finally_do (run_under_lease s svc R E q i l) (release_lease R E l)))))
      request_served" for r created migrated known
    by (rule emits_and_then [OF emits_preflight replayed]) (auto simp: request_served_def)
  then have "emits (case v of (r, created, migrated, known) \<Rightarrow>
      and_then (preflight_existing_run R E i r created migrated) (\<lambda>replay.
       case replay of Some resp \<Rightarrow> done_with resp | None \<Rightarrow>
        and_then (check_checkpoint E i created known) (\<lambda>_. and_then (acquire_lease s R E i) (\<lambda>l.
        finally_do (run_under_lease s svc R E q i l) (release_lease R E l)))))
      request_served" for v
    by (cases v) simp
  then show ?thesis unfolding admitted_request_def
    by (rule emits_and_then [OF emits_quiet [OF preserves_find_record [OF beside_calls_fields(1)]]])
      (auto simp: request_served_def)
qed


end
