(* ===== verification/RuntimeReplies.thy ===== *)
theory RuntimeReplies
  imports RuntimeSafety
begin

text \<open>
  What a request is answered with: a run whose outcome is stored is answered from the record and
  its turn committed once, a graph that fails is answered with a safe message, the conversation
  gate is left as it was found; and what a cancellation after the stored outcome destroys.
\<close>

section \<open>The conversation gate\<close>

lemma gate_tell [quiet_intros]: "preserves pr_gate (tell e)"
  by (simp add: preserves_def tell_def)

lemma gate_parts [quiet_intros]:
  "preserves pr_gate (append_history_safely E)" "preserves pr_gate (store_outcome R E l oc)"
  "preserves pr_gate (release_lease R E l)" "preserves pr_gate (acquire_lease s R E i)"
  by (simp_all add: append_history_safely_def store_outcome_def release_lease_def acquire_lease_def quiet_intros)

lemma gate_mark [quiet_intros]: "preserves pr_gate (mark_interrupted_safely R E l why)"
  by (simp add: mark_interrupted_safely_def quiet_intros)

lemma gate_commit [quiet_intros]: "preserves pr_gate (commit_history R E l resp)"
  unfolding commit_history_def by (intro quiet_intros) simp

lemma gate_on_failure [quiet_intros]: "preserves pr_gate (on_failure R E l stored e)"
  unfolding on_failure_def by (intro quiet_intros)

lemma gate_invoke [quiet_intros]:
  fixes E :: "'st surroundings"
  shows "preserves pr_gate (invoke_graph_safely s E)"
proof -
  have "preserves pr_gate ((case v of JObj kvs \<Rightarrow> done_with kvs
      | _ \<Rightarrow> raise_exn (RuntimeError ''The graph returned a non-object result'')) :: ('st, jobj) act)" for v
    by (cases v) (simp_all add: quiet_intros)
  then show ?thesis unfolding invoke_graph_safely_def by (intro quiet_intros) simp
qed

lemma gate_execute [quiet_intros]: "preserves pr_gate (execute_with_heartbeat s svc R E q i l)"
proof -
  have r1: "preserves pr_gate (\<lambda>w. lease_heartbeat s R E (sr_beats E (pr_step w)) l w)"
    by (intro preserves_reader [where h = "\<lambda>w. sr_beats E (pr_step w)" and g = "\<lambda>n. lease_heartbeat s R E n l"] quiet_intros) simp
  have r2: "preserves pr_gate (\<lambda>w. raise_if (sr_cancelled E (pr_step w)) CancelledError w)"
    by (intro preserves_reader [where h = "\<lambda>w. sr_cancelled E (pr_step w)" and g = "\<lambda>b. raise_if b CancelledError"] quiet_intros)
  show ?thesis unfolding execute_with_heartbeat_def execute_run_def by (intro quiet_intros r1 r2) simp_all
qed

lemma gate_under_lease [quiet_intros]: "preserves pr_gate (run_under_lease s svc R E q i l)"
proof -
  have a: "preserves pr_gate (execute_and_store s svc R E q i l)"
    unfolding execute_and_store_def by (intro quiet_intros) simp
  have b: "preserves pr_gate (except_with (commit_history R E l resp) (on_failure R E l True))" for resp
    by (intro quiet_intros)
  have c: "preserves pr_gate (on_failure R E l False e)" for e by (intro quiet_intros)
  show ?thesis unfolding preserves_def run_under_lease_def
    using preserved_part [OF a] b c by (auto simp: preserves_def split: prod.split sum.split)
qed

lemma gate_admitted: "preserves pr_gate (admitted_request s svc R E q i)"
proof -
  have replay: "preserves pr_gate (replay_outcome R E i r payload)" for r payload
    unfolding replay_outcome_def by (intro quiet_intros) simp
  have "preserves pr_gate (preflight_existing_run R E i r created migrated)" for r created migrated
    unfolding preflight_existing_run_def by (intro quiet_intros replay) simp
  then show ?thesis unfolding admitted_request_def by (intro quiet_intros) simp_all
qed

lemma alist_del_put_new: "map_of al k = None \<Longrightarrow> alist_del k (alist_put k v al) = al"
  by (induction al) (auto simp: alist_del_def split: if_splits)

text \<open>
  C32: one request per conversation and process. While the conversation is held the request is
  refused and changes nothing; otherwise the gate is left as it was found, on every path through
  the request, exceptions and cancellations included.
\<close>

theorem conversation_gate_restored:
  "if map_of (pr_gate w) (ri_conversation i) = None
   then pr_gate (snd (ainvoke_with_identity s svc R E q i w)) = pr_gate w
   else ainvoke_with_identity s svc R E q i w = (Inl busy, w)"
proof (cases "map_of (pr_gate w) (ri_conversation i)")
  case None
  let ?w = "w\<lparr>pr_gate := alist_put (ri_conversation i) (ri_run i) (pr_gate w)\<rparr>"
  obtain r w1 where a: "admitted_request s svc R E q i ?w = (r, w1)" by (cases "admitted_request s svc R E q i ?w")
  have "pr_gate w1 = pr_gate ?w" using preserved_part [OF gate_admitted a] .
  then show ?thesis using None a
    by (simp add: ainvoke_with_identity_def and_then_def gate_enter_def finally_do_def gate_leave_def alist_del_put_new)
qed (simp add: ainvoke_with_identity_def and_then_def gate_enter_def)

section \<open>Answers from the record\<close>

text \<open>
  What a replay relies on: an existing run that matches the identity is found again, and a
  reconciled record holds the new payload and a history mark.
\<close>

locale replay_store =
  fixes R :: "'st repo_ops"
  assumes found_again: "ro_get R (ri_run i) s = Some r \<Longrightarrow> validate_record_identity r i = None \<Longrightarrow>
      ro_create R clk i s = (Inr (r, False), s)"
    and reconciled: "ro_get R run s = Some r \<Longrightarrow> rd_status r \<in> {Completed, Failed_run, Cancelled} \<Longrightarrow>
      \<exists>t t' s'. ro_reconcile R clk run payload s = (Inr (reconciled_record r payload t t'), s') \<and>
        ro_get R run s' = Some (reconciled_record r payload t t')"

text \<open>The record answers the request with \<open>resp\<close>.\<close>

definition answers :: "run_record \<Rightarrow> run_identity \<Rightarrow> chat_reply \<Rightarrow> bool" where
  "answers r i resp \<longleftrightarrow>
     validate_record_identity r i = None \<and> (ri_resumed i \<longrightarrow> ri_token_version i = rd_token_version r) \<and>
     rd_status r \<in> {Completed, Failed_run, Cancelled} \<and> rd_payload r = Some (dump_response resp) \<and>
     cr_conversation resp \<noteq> [] \<and> cr_run resp \<noteq> [] \<and> cr_execution resp \<noteq> []"

lemma mismatched_iff: "mismatched r i \<longleftrightarrow> validate_record_identity r i \<noteq> None"
  by (auto simp: mismatched_def validate_record_identity_def)

lemma answers_replay:
  "answers r i resp \<Longrightarrow> validate_chat_response u (JObj (dump_response resp)) = Some resp"
  unfolding answers_def by (rule stored_response_reads_back) blast+

lemma gate_passes:
  assumes "map_of (pr_gate w) (ri_conversation i) = None"
    and "admitted_request s svc R E q i (w\<lparr>pr_gate := alist_put (ri_conversation i) (ri_run i) (pr_gate w)\<rparr>) = (r, w')"
  shows "ainvoke_with_identity s svc R E q i w = (r, w'\<lparr>pr_gate := pr_gate w\<rparr>)"
  using assms preserved_part [OF gate_admitted assms(2)]
  by (simp add: ainvoke_with_identity_def and_then_def gate_enter_def finally_do_def gate_leave_def alist_del_put_new)

context replay_store
begin

lemma finds:
  assumes "ro_get R (ri_run i) (sr_others E (pr_step w) (pr_repo w)) = Some r"
    and "validate_record_identity r i = None" and "sr_fault E (pr_step w) = None"
  shows "find_record R E i w = (Inr (r, False, False, None),
           w\<lparr>pr_repo := sr_others E (pr_step w) (pr_repo w), pr_step := Suc (pr_step w)\<rparr>)"
  using assms mismatched_iff [of r i] found_again [OF assms(1,2)]
  by (simp add: find_record_def and_then_def repo_call_def Let_def done_with_def)

lemma admitted_replays:
  assumes "ro_get R (ri_run i) (sr_others E (pr_step w) (pr_repo w)) = Some r"
    and "answers r i resp" and "sr_fault E (pr_step w) = None"
    and "replay_outcome R E i r (dump_response resp)
           (w\<lparr>pr_repo := sr_others E (pr_step w) (pr_repo w), pr_step := Suc (pr_step w)\<rparr>) = (Inr resp', w')"
  shows "admitted_request s svc R E q i w = (Inr resp', w')"
  using assms finds [OF assms(1) _ assms(3)]
  by (auto simp: admitted_request_def and_then_def preflight_existing_run_def answers_def
      outcome_stored_def done_with_def)

lemma replays_marked:
  assumes "ro_get R (ri_run i) (sr_others E (pr_step w) (pr_repo w)) = Some r"
    and "answers r i resp" and "sr_fault E (pr_step w) = None" and "rd_history r \<noteq> None"
    and "map_of (pr_gate w) (ri_conversation i) = None"
  shows "ainvoke_with_identity s svc R E q i w =
     (Inr resp, w\<lparr>pr_repo := sr_others E (pr_step w) (pr_repo w), pr_step := Suc (pr_step w)\<rparr>)"
proof -
  let ?w = "w\<lparr>pr_gate := alist_put (ri_conversation i) (ri_run i) (pr_gate w)\<rparr>"
  have "admitted_request s svc R E q i ?w =
     (Inr resp, ?w\<lparr>pr_repo := sr_others E (pr_step w) (pr_repo w), pr_step := Suc (pr_step w)\<rparr>)"
    by (rule admitted_replays [where r = r and resp = resp])
      (use assms answers_replay [OF assms(2)] in \<open>auto simp: replay_outcome_def done_with_def\<close>)
  from gate_passes [OF assms(5) this] show ?thesis by simp
qed

lemma replays_unmarked:
  assumes "ro_get R (ri_run i) (pr_repo w) = Some r" and "answers r i resp" and "rd_history r = None"
    and "map_of (pr_gate w) (ri_conversation i) = None"
    and "sr_others E = (\<lambda>_ s. s)" and "sr_fault E = (\<lambda>_. None)"
    and "sr_append E (Suc (pr_step w)) = Inr b" and "set_history_flag True resp = Inr resp'"
  shows "\<exists>w' r'. ainvoke_with_identity s svc R E q i w = (Inr resp', w') \<and>
     pr_trace w' = TurnCommitted # pr_trace w \<and> pr_gate w' = pr_gate w \<and>
     ro_get R (ri_run i) (pr_repo w') = Some r' \<and> answers r' i resp' \<and> rd_history r' \<noteq> None"
proof -
  let ?w = "w\<lparr>pr_gate := alist_put (ri_conversation i) (ri_run i) (pr_gate w)\<rparr>"
  let ?n = "Suc (Suc (pr_step w))"
  have "rd_status r \<in> {Completed, Failed_run, Cancelled}" using assms(2) by (simp add: answers_def)
  from reconciled [OF assms(1) this, of "sr_clock E ?n" "Some (dump_response resp')"]
  obtain t t' s' where rec: "ro_reconcile R (sr_clock E ?n) (ri_run i) (Some (dump_response resp')) (pr_repo w)
      = (Inr (reconciled_record r (Some (dump_response resp')) t t'), s')"
    and got: "ro_get R (ri_run i) s' = Some (reconciled_record r (Some (dump_response resp')) t t')" by blast
  have same: "cr_conversation resp' = cr_conversation resp" "cr_run resp' = cr_run resp" "cr_execution resp' = cr_execution resp"
    using assms(8) by (auto simp: set_history_flag_def split: option.splits json.splits)
  have "replay_outcome R E i r (dump_response resp) (?w\<lparr>pr_repo := pr_repo w, pr_step := Suc (pr_step w)\<rparr>)
      = (Inr resp', ?w\<lparr>pr_repo := s', pr_step := Suc ?n, pr_trace := TurnCommitted # pr_trace w\<rparr>)"
    using assms answers_replay [OF assms(2)] rec
    by (simp add: replay_outcome_def append_history_safely_def except_with_def and_then_def ask_def tell_def
        done_with_def of_result_def repo_call_def)
  then have "admitted_request s svc R E q i ?w =
      (Inr resp', ?w\<lparr>pr_repo := s', pr_step := Suc ?n, pr_trace := TurnCommitted # pr_trace w\<rparr>)"
    by (intro admitted_replays [where r = r and resp = resp]) (use assms in simp_all)
  from gate_passes [OF assms(4) this] got same assms(2) show ?thesis
    by (auto simp: answers_def reconciled_record_def new_payload_def validate_record_identity_def
        split: option.splits if_splits)
qed

end

interpretation mrp: replay_store memory_repo
  by unfold_locales (auto simp: memory_repo_def mem_create_or_get_def mem_reconcile_def Let_def)

interpretation prp: replay_store postgres_repo
  by unfold_locales (auto simp: postgres_repo_def pg_create_or_get_def pg_reconcile_def Let_def)

section \<open>A run to try them on\<close>

definition calm :: "'st surroundings" where
  "calm =
     \<lparr>sr_others = (\<lambda>_ s. s), sr_fault = (\<lambda>_. None), sr_clock = (\<lambda>_ _. 7), sr_checkpoint = (\<lambda>_. Inr False),
      sr_checkpoint_id = (\<lambda>_. Inr None), sr_append = (\<lambda>_. Inr True), sr_load_history = (\<lambda>_. Inr ()),
      sr_load_inventory = (\<lambda>_. Inr []), sr_graph = (\<lambda>_. Inl (RuntimeError ''x'')), sr_usage = [],
      sr_beats = (\<lambda>_. 0), sr_cancelled = (\<lambda>_. False), sr_owner = ''owner'', sr_uuid = ''u''\<rparr>"

definition replay_identity :: run_identity where
  "replay_identity =
     \<lparr>ri_conversation = ''c'', ri_run = ''r'', ri_thread = ''c:r'', ri_namespace = ''n'', ri_schema = 1,
      ri_hash = ''h'', ri_hash_version = 1, ri_token_version = 1, ri_key_id = None,
      ri_resume_requested = False, ri_resumed = False, ri_client_supplied = True\<rparr>"

definition replay_reply :: "bool \<Rightarrow> chat_reply" where
  "replay_reply committed =
     \<lparr>cr_thread = ''c'', cr_conversation = ''c'', cr_run = ''r'', cr_execution = ''c:r'', cr_response = ''done'',
      cr_backend = ''ollama'', cr_model = None,
      cr_metadata = [(''persistence'', JObj [(''history_persisted'', JBool committed)])]\<rparr>"

definition replay_record :: run_record where
  "replay_record = (fresh_record replay_identity 1)
     \<lparr>rd_status := Completed, rd_payload := Some (dump_response (replay_reply False)), rd_completed := Some 5\<rparr>"

definition replay_lease :: run_lease where
  "replay_lease = \<lparr>ls_conversation = ''c'', ls_run = ''r'', ls_owner = ''owner'', ls_token = 1, ls_expires = 90\<rparr>"

definition at_rest :: "'st \<Rightarrow> 'st progress" where
  "at_rest s = \<lparr>pr_repo = s, pr_step = 0, pr_gate = [], pr_trace = []\<rparr>"

lemma replay_answers: "answers replay_record replay_identity (replay_reply False)"
  by (simp add: answers_def replay_record_def fresh_record_def validate_record_identity_def replay_identity_def replay_reply_def)

section \<open>Properties of the answers\<close>

text \<open>
  C8: a run with a stored outcome is never executed again. The same request, repeated with the
  client's run id or with a valid token, is answered from the record; a turn that was not yet
  committed is committed on that occasion and the record updated, so that the next repetition
  returns the same answer and changes nothing, neither the record nor the history.
\<close>

theorem replay_commits_history_once:
  assumes "map_of (pg_rows (pr_repo w)) (ri_run i) = Some r" and "answers r i resp" and "rd_history r = None"
    and "map_of (pr_gate w) (ri_conversation i) = None"
    and "sr_others E = (\<lambda>_ s. s)" and "sr_fault E = (\<lambda>_. None)"
    and "sr_append E (Suc (pr_step w)) = Inr b" and "set_history_flag True resp = Inr resp'"
  shows "\<exists>w' w''. ainvoke_with_identity s svc postgres_repo E q i w = (Inr resp', w') \<and>
     pr_trace w' = TurnCommitted # pr_trace w \<and>
     ainvoke_with_identity s svc postgres_repo E q i w' = (Inr resp', w'') \<and>
     pr_trace w'' = pr_trace w' \<and> pr_repo w'' = pr_repo w'"
proof -
  have get: "ro_get postgres_repo run st = map_of (pg_rows st) run" for run st by (simp add: postgres_repo_def)
  from prp.replays_unmarked [of i w r resp E b resp' s svc q] assms get
  obtain w' r' where first: "ainvoke_with_identity s svc postgres_repo E q i w = (Inr resp', w')"
    "pr_trace w' = TurnCommitted # pr_trace w" and g: "pr_gate w' = pr_gate w"
    and r': "ro_get postgres_repo (ri_run i) (pr_repo w') = Some r'" "answers r' i resp'" "rd_history r' \<noteq> None"
    by auto
  from prp.replays_marked [of i E w' r' resp' s svc q] r' assms(4-6) g
  have "ainvoke_with_identity s svc postgres_repo E q i w' = (Inr resp', w'\<lparr>pr_step := Suc (pr_step w')\<rparr>)" by simp
  with first show ?thesis by simp
qed

theorem replay_commits_history_once_witness:
  "\<exists>w' w''. ainvoke_with_identity default_settings sample_service postgres_repo calm sample_request replay_identity
       (at_rest \<lparr>pg_rows = [(''r'', replay_record)], pg_leases = []\<rparr>) = (Inr (replay_reply True), w') \<and>
     pr_trace w' = [TurnCommitted] \<and>
     ainvoke_with_identity default_settings sample_service postgres_repo calm sample_request replay_identity w'
       = (Inr (replay_reply True), w'') \<and> pr_trace w'' = pr_trace w'"
proof -
  have h: "ri_run replay_identity = ''r''" "rd_history replay_record = None"
    "set_history_flag True (replay_reply False) = Inr (replay_reply True)"
    by (simp_all add: replay_identity_def replay_record_def fresh_record_def set_history_flag_def replay_reply_def)
  show ?thesis
    using replay_commits_history_once [OF _ replay_answers, where E = calm and b = True and s = default_settings
        and svc = sample_service and q = sample_request and resp' = "replay_reply True"
        and w = "at_rest \<lparr>pg_rows = [(''r'', replay_record)], pg_leases = []\<rparr>"] h
    by (auto simp: at_rest_def calm_def)
qed



text \<open>
  C34: a cancellation while the turn is committed takes a stored outcome back. After the outcome
  was persisted, a request that is cancelled during the append to the history marks its run as
  interrupted: the answer is no longer in the record, and the run may be executed again.
\<close>

theorem cancelled_commit_discards_outcome:
  assumes "map_of (mm_records (pr_repo w)) (ls_run l) = Some r" and "outcome_stored r"
    and "mem_assert_lease (sr_clock E (Suc (pr_step w)) 0) l (pr_repo w)"
    and "sr_append E (pr_step w) = Inl CancelledError"
    and "sr_others E = (\<lambda>_ s. s)" and "sr_fault E = (\<lambda>_. None)" and "ri_resumed i"
  shows "\<exists>w' r'. except_with (commit_history memory_repo E l resp) (on_failure memory_repo E l True) w
       = (Inl CancelledError, w') \<and>
     map_of (mm_records (pr_repo w')) (ls_run l) = Some r' \<and> rd_payload r' = None \<and>
     may_execute i r' now = None"
  using assms
  by (simp add: commit_history_def append_history_safely_def except_with_def and_then_def ask_def caught_def
      raise_exn_def on_failure_def mark_interrupted_safely_def store_outcome_def repo_call_def Let_def tell_def
      memory_repo_def mem_mark_terminal_def interrupted_outcome_def finished_record_def may_execute_def)

theorem cancelled_commit_discards_outcome_witness:
  "\<exists>w' r'. except_with
       (commit_history memory_repo (calm\<lparr>sr_append := \<lambda>_. Inl CancelledError\<rparr>) replay_lease (replay_reply False))
       (on_failure memory_repo (calm\<lparr>sr_append := \<lambda>_. Inl CancelledError\<rparr>) replay_lease True)
       (at_rest \<lparr>mm_records = [(''r'', replay_record)], mm_leases = [(''c'', replay_lease)], mm_fencing = []\<rparr>)
       = (Inl CancelledError, w') \<and>
     map_of (mm_records (pr_repo w')) ''r'' = Some r' \<and> rd_payload r' = None \<and>
     may_execute (replay_identity\<lparr>ri_resumed := True\<rparr>) r' 9 = None"
proof -
  have "outcome_stored replay_record"
    by (simp add: outcome_stored_def replay_record_def)
  then show ?thesis
    using cancelled_commit_discards_outcome [where l = replay_lease and r = replay_record
        and E = "calm\<lparr>sr_append := \<lambda>_. Inl CancelledError\<rparr>" and i = "replay_identity\<lparr>ri_resumed := True\<rparr>"
        and w = "at_rest \<lparr>mm_records = [(''r'', replay_record)], mm_leases = [(''c'', replay_lease)], mm_fencing = []\<rparr>"
        and resp = "replay_reply False" and now = 9]
    by (simp add: at_rest_def calm_def replay_lease_def mem_assert_lease_def same_owner_def)
qed

end
