(* ===== verification/Lifecycle.thy ===== *)
theory Lifecycle
  imports Runtime
begin

text \<open>
  Start-up and shutdown: the state runtime of \<open>src/app/state/runtime.py\<close> with the driver start of
  \<open>redis.py\<close>, \<open>postgres.py\<close>, \<open>run_repository.py\<close>, \<open>neo4j.py\<close> and \<open>minio.py\<close>, the agent's own start
  with its fallback (\<open>ChatAgent\<close> in \<open>src/app/graph.py\<close>), and the application lifespan
  (\<open>src/app/core/lifespan.py\<close>).

  What a driver answers is a function of the number of the call. The connections that exist are
  kept in a list of their own, \<open>sv_open\<close>: opening a pool or a client puts it there, the call of its
  close takes it out, whether that call raises or not.
\<close>

section \<open>State\<close>

datatype handle = PgPool | CheckpointPool | RedisClient | Neo4jDriver | OllamaHttp | McpHttp

instantiation handle :: enum
begin

definition enum_handle :: "handle list" where
  "enum_handle = [PgPool, CheckpointPool, RedisClient, Neo4jDriver, OllamaHttp, McpHttp]"

definition enum_all_handle :: "(handle \<Rightarrow> bool) \<Rightarrow> bool" where
  "enum_all_handle P = list_all P enum_class.enum"

definition enum_ex_handle :: "(handle \<Rightarrow> bool) \<Rightarrow> bool" where
  "enum_ex_handle P = list_ex P enum_class.enum"

instance
proof
  show univ: "(UNIV :: handle set) = set enum_class.enum"
    using handle.exhaust by (auto simp: enum_handle_def)
  show "distinct (enum_class.enum :: handle list)" by (simp add: enum_handle_def)
  show "enum_class.enum_all P = Ball (UNIV :: handle set) P" for P
    unfolding univ by (simp add: enum_all_handle_def list_all_iff)
  show "enum_class.enum_ex P = Bex (UNIV :: handle set) P" for P
    unfolding univ by (simp add: enum_ex_handle_def list_ex_iff)
qed

end

text \<open>A Redis store with or without its client.\<close>

datatype conversation_store = MemoryConversations | PgConversations | RedisConversations bool

record service =
  sv_conversations :: conversation_store
  sv_runs :: run_backend
  sv_checkpointer :: run_backend
  sv_artifacts :: bool
  sv_neo4j :: bool
  sv_driver :: bool
  sv_checkpoint_pool :: bool
  sv_pool :: bool
  sv_started :: bool
  sv_degraded :: "string option"
  sv_neo4j_degraded :: "string option"
  sv_ollama :: bool
  sv_mcp :: bool
  sv_startup :: jobj
  sv_open :: "handle list"

definition new_service :: service where
  "new_service =
     \<lparr>sv_conversations = MemoryConversations, sv_runs = MemoryRuns, sv_checkpointer = MemoryRuns,
      sv_artifacts = False, sv_neo4j = False, sv_driver = False, sv_checkpoint_pool = False,
      sv_pool = False, sv_started = False, sv_degraded = None, sv_neo4j_degraded = None, sv_ollama = False,
      sv_mcp = False, sv_startup = [], sv_open = []\<rparr>"

text \<open>
  What the drivers do at each call; \<open>dr_close\<close> is the exception a close raises, if any, and
  \<open>dr_delete\<close> what the request that ends the tool session raises beside the HTTP errors it absorbs.
\<close>

record drivers =
  dr_call :: "nat \<Rightarrow> unit result"
  dr_close :: "nat \<Rightarrow> exn option"
  dr_delete :: "nat \<Rightarrow> exn option"
  dr_auto_setup :: bool
  dr_mcp_session :: bool

definition modify :: "('st \<Rightarrow> 'st) \<Rightarrow> ('st, unit) act" where
  "modify f w = (Inr (), w\<lparr>pr_repo := f (pr_repo w)\<rparr>)"

definition with_state :: "('st \<Rightarrow> ('st, 'a) act) \<Rightarrow> ('st, 'a) act" where
  "with_state f w = f (pr_repo w) w"

definition only_if :: "bool \<Rightarrow> ('st, unit) act \<Rightarrow> ('st, unit) act" where
  "only_if b m = (if b then m else done_with ())"

definition opened :: "handle \<Rightarrow> (service \<Rightarrow> service) \<Rightarrow> (service, unit) act" where
  "opened h f = modify (\<lambda>s. f (s\<lparr>sv_open := h # sv_open s\<rparr>))"

definition may_raise :: "(nat \<Rightarrow> exn option) \<Rightarrow> ('st, unit) act" where
  "may_raise f = ask (\<lambda>n. case f n of None \<Rightarrow> Inr () | Some e \<Rightarrow> Inl e)"

definition close_handle :: "drivers \<Rightarrow> handle \<Rightarrow> (service, unit) act" where
  "close_handle D h =
     and_then (modify (\<lambda>s. s\<lparr>sv_open := remove1 h (sv_open s)\<rparr>)) (\<lambda>_.
       may_raise (dr_close D))"

text \<open>\<open>try: .. except Exception: log\<close>.\<close>

definition swallow :: "('st, unit) act \<Rightarrow> ('st, unit) act" where
  "swallow m = except_with m (\<lambda>e. if caught e then done_with () else raise_exn e)"

section \<open>The drivers\<close>

text \<open>\<open>RedisConversationStore.start\<close>, \<open>aclose\<close>.\<close>

definition redis_start :: "drivers \<Rightarrow> (service, unit) act" where
  "redis_start D = with_state (\<lambda>s.
     only_if (sv_conversations s = RedisConversations False)
       (and_then (opened RedisClient (\<lambda>s. s\<lparr>sv_conversations := RedisConversations True\<rparr>)) (\<lambda>_.
          except_with (ask (dr_call D)) (\<lambda>e.
            and_then (close_handle D RedisClient) (\<lambda>_.
            and_then (modify (\<lambda>s. s\<lparr>sv_conversations := RedisConversations False\<rparr>)) (\<lambda>_. raise_exn e))))))"

definition redis_aclose :: "drivers \<Rightarrow> (service, unit) act" where
  "redis_aclose D = with_state (\<lambda>s.
     only_if (sv_conversations s = RedisConversations True)
       (and_then (close_handle D RedisClient) (\<lambda>_.
          modify (\<lambda>s. s\<lparr>sv_conversations := RedisConversations False\<rparr>))))"

text \<open>
  The PostgreSQL stores run on the pool of the runtime, which they do not own: their start is the
  set-up of the tables, their close forgets the pool.
\<close>

definition conversations_start :: "drivers \<Rightarrow> (service, unit) act" where
  "conversations_start D = with_state (\<lambda>s.
     case sv_conversations s of
       MemoryConversations \<Rightarrow> done_with ()
     | PgConversations \<Rightarrow> ask (dr_call D)
     | RedisConversations _ \<Rightarrow> redis_start D)"

definition runs_start :: "drivers \<Rightarrow> (service, unit) act" where
  "runs_start D = with_state (\<lambda>s. only_if (sv_runs s = PostgresRuns \<and> dr_auto_setup D) (ask (dr_call D)))"

text \<open>
  \<open>Neo4jConnectionManager\<close>: \<open>sv_driver\<close> is the manager's driver, \<open>sv_neo4j\<close> says that the runtime
  holds the manager. A manager is new when it is started, so it has no driver.
\<close>

definition neo4j_manager_start :: "drivers \<Rightarrow> (service, unit) act" where
  "neo4j_manager_start D =
     and_then (opened Neo4jDriver (\<lambda>s. s\<lparr>sv_driver := True\<rparr>)) (\<lambda>_.
       except_with (ask (dr_call D)) (\<lambda>e.
         and_then (close_handle D Neo4jDriver) (\<lambda>_.
         and_then (modify (\<lambda>s. s\<lparr>sv_driver := False\<rparr>)) (\<lambda>_. raise_exn e))))"

definition neo4j_manager_aclose :: "drivers \<Rightarrow> (service, unit) act" where
  "neo4j_manager_aclose D = with_state (\<lambda>s.
     and_then (modify (\<lambda>s. s\<lparr>sv_driver := False\<rparr>)) (\<lambda>_. only_if (sv_driver s) (close_handle D Neo4jDriver)))"

section \<open>The state runtime\<close>

definition needs_database :: "string \<Rightarrow> exn" where
  "needs_database what = RuntimeError (''DATABASE_URL is required for '' @ what)"

definition start_postgres_pool :: "settings \<Rightarrow> drivers \<Rightarrow> (service, unit) act" where
  "start_postgres_pool st D = with_state (\<lambda>s.
     only_if ((state_backend st = PostgresHistory \<or> run_repository_backend st = PostgresRuns) \<and> \<not> sv_pool s)
       (if database_url st = [] then raise_exn (needs_database ''PostgreSQL conversation or run storage'')
        else and_then (ask (dr_call D)) (\<lambda>_. opened PgPool (\<lambda>s. s\<lparr>sv_pool := True\<rparr>))))"

definition build_conversation_store :: "settings \<Rightarrow> conversation_store result" where
  "build_conversation_store st =
     (case state_backend st of
        PostgresHistory \<Rightarrow>
          if database_url st = [] then Inl (needs_database ''STATE_BACKEND=postgres'') else Inr PgConversations
      | RedisHistory \<Rightarrow>
          if redis_url st = [] then Inl (RuntimeError ''REDIS_URL is required for STATE_BACKEND=redis'')
          else Inr (RedisConversations False)
      | MemoryHistory \<Rightarrow> Inr MemoryConversations)"

definition build_run_repository :: "settings \<Rightarrow> run_backend result" where
  "build_run_repository st =
     (case run_repository_backend st of
        PostgresRuns \<Rightarrow>
          if database_url st = [] then Inl (needs_database ''RUN_REPOSITORY_BACKEND=postgres'') else Inr PostgresRuns
      | MemoryRuns \<Rightarrow> Inr MemoryRuns)"

definition start_checkpointer :: "settings \<Rightarrow> drivers \<Rightarrow> (service, unit) act" where
  "start_checkpointer st D =
     only_if (checkpoint_backend st = PostgresRuns)
       (if database_url st = [] then raise_exn (needs_database ''PostgreSQL checkpoints'')
        else and_then (opened CheckpointPool (\<lambda>s. s\<lparr>sv_checkpoint_pool := True\<rparr>)) (\<lambda>_.
             and_then (ask (dr_call D)) (\<lambda>_.
             and_then (modify (\<lambda>s. s\<lparr>sv_checkpointer := PostgresRuns\<rparr>)) (\<lambda>_.
               only_if (dr_auto_setup D) (ask (dr_call D))))))"

definition start_artifacts :: "settings \<Rightarrow> drivers \<Rightarrow> (service, unit) act" where
  "start_artifacts st D =
     only_if (artifact_backend st = MinioArtifacts)
       (and_then (modify (\<lambda>s. s\<lparr>sv_artifacts := True\<rparr>)) (\<lambda>_. ask (dr_call D)))"

text \<open>\<open>f"{type(exc).__name__}: {str(exc).strip() or 'startup failed'}"\<close>.\<close>

definition start_failure :: "exn \<Rightarrow> string" where
  "start_failure e =
     exn_class e @ '': '' @ (if strip (exn_text e) = [] then ''startup failed'' else strip (exn_text e))"

definition start_neo4j :: "settings \<Rightarrow> drivers \<Rightarrow> (service, unit) act" where
  "start_neo4j st D = with_state (\<lambda>s.
     only_if (neo4j_enabled st \<and> \<not> sv_neo4j s)
       (except_with
          (and_then (neo4j_manager_start D) (\<lambda>_. modify (\<lambda>s. s\<lparr>sv_neo4j := True, sv_neo4j_degraded := None\<rparr>)))
          (\<lambda>e. if \<not> caught e then raise_exn e
               else and_then (neo4j_manager_aclose D) (\<lambda>_.
                 if persistence_required st then raise_exn e
                 else modify (\<lambda>s. s\<lparr>sv_neo4j_degraded := Some (start_failure e)\<rparr>)))))"

definition close_neo4j :: "drivers \<Rightarrow> (service, unit) act" where
  "close_neo4j D = with_state (\<lambda>s. only_if (sv_neo4j s)
     (finally_do (swallow (neo4j_manager_aclose D)) (modify (\<lambda>s. s\<lparr>sv_neo4j := False\<rparr>))))"

definition close_pools :: "drivers \<Rightarrow> (service, unit) act" where
  "close_pools D =
     and_then (with_state (\<lambda>s. only_if (sv_checkpoint_pool s)
       (finally_do (swallow (close_handle D CheckpointPool)) (modify (\<lambda>s. s\<lparr>sv_checkpoint_pool := False\<rparr>))))) (\<lambda>_.
     with_state (\<lambda>s. only_if (sv_pool s)
       (finally_do (swallow (close_handle D PgPool)) (modify (\<lambda>s. s\<lparr>sv_pool := False\<rparr>)))))"

text \<open>\<open>MinioArtifactStore.aclose\<close> and the close of the run repository do nothing outside.\<close>

definition runtime_aclose :: "drivers \<Rightarrow> (service, unit) act" where
  "runtime_aclose D =
     and_then (close_neo4j D) (\<lambda>_.
     and_then (modify (\<lambda>s. s\<lparr>sv_artifacts := False\<rparr>)) (\<lambda>_.
     and_then (swallow (redis_aclose D)) (\<lambda>_.
     and_then (close_pools D) (\<lambda>_.
       modify (\<lambda>s. s\<lparr>sv_started := False\<rparr>)))))"

definition start_backends :: "settings \<Rightarrow> drivers \<Rightarrow> (service, unit) act" where
  "start_backends st D =
     and_then (start_postgres_pool st D) (\<lambda>_.
     and_then (of_result (build_conversation_store st)) (\<lambda>c.
     and_then (modify (\<lambda>s. s\<lparr>sv_conversations := c\<rparr>)) (\<lambda>_.
     and_then (conversations_start D) (\<lambda>_.
     and_then (of_result (build_run_repository st)) (\<lambda>r.
     and_then (modify (\<lambda>s. s\<lparr>sv_runs := r\<rparr>)) (\<lambda>_.
     and_then (runs_start D) (\<lambda>_.
     and_then (start_checkpointer st D) (\<lambda>_.
     and_then (start_artifacts st D) (\<lambda>_.
     and_then (start_neo4j st D) (\<lambda>_.
       modify (\<lambda>s. s\<lparr>sv_started := True, sv_degraded := None\<rparr>)))))))))))"

definition runtime_start :: "settings \<Rightarrow> drivers \<Rightarrow> (service, unit) act" where
  "runtime_start st D = with_state (\<lambda>s.
     only_if (\<not> sv_started s)
       (except_with (start_backends st D)
          (\<lambda>e. if caught e then and_then (runtime_aclose D) (\<lambda>_. raise_exn e) else raise_exn e)))"

definition use_memory_fallback :: "drivers \<Rightarrow> string \<Rightarrow> (service, unit) act" where
  "use_memory_fallback D reason =
     and_then (runtime_aclose D) (\<lambda>_.
       modify (\<lambda>s. s\<lparr>sv_conversations := MemoryConversations, sv_runs := MemoryRuns, sv_checkpointer := MemoryRuns,
         sv_artifacts := False, sv_neo4j := False, sv_checkpoint_pool := False, sv_started := True,
         sv_degraded := Some reason, sv_neo4j_degraded := None\<rparr>))"

section \<open>The agent and the application\<close>

text \<open>\<open>f"{type(exc).__name__}: {str(exc).strip()}"\<close>.\<close>

definition failure_text :: "exn \<Rightarrow> string" where
  "failure_text e = exn_class e @ '': '' @ strip (exn_text e)"

definition note_dependency :: "string \<Rightarrow> jobj \<Rightarrow> (service, unit) act" where
  "note_dependency name status = modify (\<lambda>s. s\<lparr>sv_startup := alist_put name (JObj status) (sv_startup s)\<rparr>)"

definition unavailable :: "bool \<Rightarrow> exn \<Rightarrow> jobj" where
  "unavailable required e =
     [(''status'', JStr ''unavailable''), (''required'', JBool required), (''error'', JStr (failure_text e))]"

definition persistence_is_required :: "settings \<Rightarrow> bool" where
  "persistence_is_required st \<longleftrightarrow>
     persistence_required st \<or> (artifact_backend st = MinioArtifacts \<and> artifact_storage_required st)"

definition start_persistence :: "settings \<Rightarrow> drivers \<Rightarrow> (service, unit) act" where
  "start_persistence st D =
     except_with
       (and_then (runtime_start st D) (\<lambda>_. note_dependency ''persistence'' [(''status'', JStr ''available'')]))
       (\<lambda>e. if \<not> caught e then raise_exn e
            else and_then (note_dependency ''persistence'' (unavailable (persistence_is_required st) e)) (\<lambda>_.
              if persistence_is_required st then raise_exn e
              else and_then (use_memory_fallback D (exn_text e)) (\<lambda>_.
                note_dependency ''persistence''
                  (alist_put ''status'' (JStr ''degraded'') (unavailable False e)))))"

text \<open>\<open>get_client\<close> of the two HTTP clients only creates the client; the session start may fail.\<close>

definition get_ollama_client :: "(service, unit) act" where
  "get_ollama_client = with_state (\<lambda>s. only_if (\<not> sv_ollama s) (opened OllamaHttp (\<lambda>s. s\<lparr>sv_ollama := True\<rparr>)))"

definition get_mcp_client :: "(service, unit) act" where
  "get_mcp_client = with_state (\<lambda>s. only_if (\<not> sv_mcp s) (opened McpHttp (\<lambda>s. s\<lparr>sv_mcp := True\<rparr>)))"

definition start_dependency :: "string \<Rightarrow> bool \<Rightarrow> (service, unit) act \<Rightarrow> (service, unit) act" where
  "start_dependency name required m =
     except_with
       (and_then m (\<lambda>_. note_dependency name [(''status'', JStr ''available'')]))
       (\<lambda>e. if \<not> caught e then raise_exn e
            else and_then (note_dependency name (unavailable required e)) (\<lambda>_.
              if required then raise_exn e else done_with ()))"

definition mcp_start :: "settings \<Rightarrow> drivers \<Rightarrow> (service, unit) act" where
  "mcp_start st D =
     and_then get_mcp_client (\<lambda>_.
       only_if (mcp_session_enabled st \<and> mcp_initialize_on_startup st) (ask (dr_call D)))"

definition agent_start :: "settings \<Rightarrow> drivers \<Rightarrow> (service, unit) act" where
  "agent_start st D =
     and_then (modify (\<lambda>s. s\<lparr>sv_startup := []\<rparr>)) (\<lambda>_.
     and_then (start_persistence st D) (\<lambda>_.
     and_then (only_if (llm_backend st = Ollama) (start_dependency ''ollama'' (ollama_required st) get_ollama_client)) (\<lambda>_.
       only_if (mcp_enabled st) (start_dependency ''mcp'' (mcp_required st) (mcp_start st D)))))"

text \<open>
  The clients forget their connection before they close it. A session the tool server knows is
  ended first, which needs a client.
\<close>

definition ollama_aclose :: "drivers \<Rightarrow> (service, unit) act" where
  "ollama_aclose D = with_state (\<lambda>s.
     and_then (modify (\<lambda>s. s\<lparr>sv_ollama := False\<rparr>)) (\<lambda>_. only_if (sv_ollama s) (close_handle D OllamaHttp)))"

definition mcp_aclose :: "drivers \<Rightarrow> (service, unit) act" where
  "mcp_aclose D =
     and_then (only_if (dr_mcp_session D) (and_then get_mcp_client (\<lambda>_. may_raise (dr_delete D)))) (\<lambda>_. with_state (\<lambda>s.
       and_then (modify (\<lambda>s. s\<lparr>sv_mcp := False\<rparr>)) (\<lambda>_. only_if (sv_mcp s) (close_handle D McpHttp))))"

text \<open>\<open>asyncio.gather(.., return_exceptions=True)\<close>: all three run, what they raise is dropped.\<close>

definition agent_aclose :: "drivers \<Rightarrow> (service, unit) act" where
  "agent_aclose D =
     and_then (except_with (ollama_aclose D) (\<lambda>_. done_with ())) (\<lambda>_.
     and_then (except_with (mcp_aclose D) (\<lambda>_. done_with ())) (\<lambda>_.
       except_with (runtime_aclose D) (\<lambda>_. done_with ())))"

text \<open>While it serves, the application may create the two HTTP clients at any time.\<close>

fun serve :: "bool list \<Rightarrow> (service, unit) act" where
  "serve [] = done_with ()"
| "serve (ollama # calls) = and_then (if ollama then get_ollama_client else get_mcp_client) (\<lambda>_. serve calls)"

definition lifespan :: "settings \<Rightarrow> drivers \<Rightarrow> bool list \<Rightarrow> (service, unit) act" where
  "lifespan st D calls =
     finally_do (and_then (agent_start st D) (\<lambda>_. and_then (serve calls) (\<lambda>_. ask (dr_call D)))) (agent_aclose D)"

end
