(* ===== verification/LifecycleSafety.thy ===== *)
theory LifecycleSafety
  imports Lifecycle
begin

text \<open>
  No connection is lost: at every moment each open connection is held in a field from which the
  shutdown closes it, so the application's lifespan closes whatever its start opened, wherever
  the start failed or was cancelled.
\<close>

section \<open>Weakest preconditions of actions\<close>

definition wp :: "('st, 'a) act \<Rightarrow> ('a \<Rightarrow> 'st \<Rightarrow> bool) \<Rightarrow> (exn \<Rightarrow> 'st \<Rightarrow> bool) \<Rightarrow> 'st progress \<Rightarrow> bool" where
  "wp m Q X w = (case m w of (Inr x, w') \<Rightarrow> Q x (pr_repo w') | (Inl e, w') \<Rightarrow> X e (pr_repo w'))"

text \<open>\<open>m\<close> leads from \<open>P\<close> to \<open>Q\<close>, or raises with \<open>X\<close>.\<close>

definition leads :: "('st \<Rightarrow> bool) \<Rightarrow> ('st, 'a) act \<Rightarrow> ('a \<Rightarrow> 'st \<Rightarrow> bool) \<Rightarrow> (exn \<Rightarrow> 'st \<Rightarrow> bool) \<Rightarrow> bool" where
  "leads P m Q X \<longleftrightarrow> (\<forall>w. P (pr_repo w) \<longrightarrow> wp m Q X w)"

lemma leads_weaken:
  "leads P m Q X \<Longrightarrow> (\<And>s. P' s \<Longrightarrow> P s) \<Longrightarrow> (\<And>x s. Q x s \<Longrightarrow> Q' x s) \<Longrightarrow> (\<And>e s. X e s \<Longrightarrow> X' e s)
     \<Longrightarrow> leads P' m Q' X'"
  unfolding leads_def wp_def by (fastforce split: prod.splits sum.splits)

lemma leads_done: "(\<And>s. P s \<Longrightarrow> Q x s) \<Longrightarrow> leads P (done_with x) Q X"
  by (simp add: leads_def wp_def done_with_def)

lemma leads_raise: "(\<And>s. P s \<Longrightarrow> X e s) \<Longrightarrow> leads P (raise_exn e) Q X"
  by (simp add: leads_def wp_def raise_exn_def)

lemma leads_modify: "(\<And>s. P s \<Longrightarrow> Q () (f s)) \<Longrightarrow> leads P (modify f) Q X"
  by (simp add: leads_def wp_def modify_def)

lemma leads_ask:
  "(\<And>x s. P s \<Longrightarrow> Q x s) \<Longrightarrow> (\<And>e s. P s \<Longrightarrow> X e s) \<Longrightarrow> leads P (ask g) Q X"
  by (auto simp: leads_def wp_def ask_def split: sum.split)

lemma leads_with_state: "(\<And>s. P s \<Longrightarrow> leads (\<lambda>t. t = s) (f s) Q X) \<Longrightarrow> leads P (with_state f) Q X"
  by (simp add: leads_def wp_def with_state_def)

lemma leads_only_if:
  "(b \<Longrightarrow> leads P m Q X) \<Longrightarrow> (\<And>s. \<not> b \<Longrightarrow> P s \<Longrightarrow> Q () s) \<Longrightarrow> leads P (only_if b m) Q X"
  by (simp add: only_if_def leads_done)

lemma leads_of_result:
  "(\<And>x s. r = Inr x \<Longrightarrow> P s \<Longrightarrow> Q x s) \<Longrightarrow> (\<And>e s. r = Inl e \<Longrightarrow> P s \<Longrightarrow> X e s) \<Longrightarrow> leads P (of_result r) Q X"
  by (cases r) (simp_all add: of_result_def leads_done leads_raise)

lemma leads_and_then:
  "leads P m R X \<Longrightarrow> (\<And>x. leads (R x) (f x) Q X) \<Longrightarrow> leads P (and_then m f) Q X"
  unfolding leads_def wp_def and_then_def by (fastforce split: prod.splits sum.splits)

lemma leads_except:
  "leads P m Q R \<Longrightarrow> (\<And>e. leads (R e) (h e) Q X) \<Longrightarrow> leads P (except_with m h) Q X"
  unfolding leads_def wp_def except_with_def by (fastforce split: prod.splits sum.splits)

lemma leadsD:
  "leads P m Q X \<Longrightarrow> P (pr_repo w) \<Longrightarrow> m w = (Inr x, w') \<Longrightarrow> Q x (pr_repo w')"
  "leads P m Q X \<Longrightarrow> P (pr_repo w) \<Longrightarrow> m w = (Inl e, w') \<Longrightarrow> X e (pr_repo w')"
  by (fastforce simp: leads_def wp_def)+

lemma leads_finally:
  assumes "leads P m R S" and "\<And>x. leads (R x) f (\<lambda>_. Q x) X" and "\<And>e. leads (S e) f (\<lambda>_. X e) X"
  shows "leads P (finally_do m f) Q X"
  unfolding leads_def
proof (intro allI impI)
  fix w :: "'a progress"
  assume P: "P (pr_repo w)"
  obtain r w1 where m: "m w = (r, w1)" by fastforce
  obtain r' w2 where f: "f w1 = (r', w2)" by fastforce
  show "wp (finally_do m f) Q X w"
  proof (cases r)
    case (Inl e)
    then show ?thesis using m f leadsD(2) [OF assms(1) P] leadsD [OF assms(3), of e w1]
      by (cases r') (simp_all add: wp_def finally_do_def)
  next
    case (Inr x)
    then show ?thesis using m f leadsD(1) [OF assms(1) P] leadsD [OF assms(2), of x w1]
      by (cases r') (simp_all add: wp_def finally_do_def)
  qed
qed

section \<open>Held connections\<close>

fun held :: "service \<Rightarrow> handle \<Rightarrow> bool" where
  "held s PgPool = sv_pool s"
| "held s CheckpointPool = sv_checkpoint_pool s"
| "held s RedisClient = (sv_conversations s = RedisConversations True)"
| "held s Neo4jDriver = (sv_neo4j s \<and> sv_driver s)"
| "held s OllamaHttp = sv_ollama s"
| "held s McpHttp = sv_mcp s"

definition accounted :: "service \<Rightarrow> bool" where
  "accounted s \<longleftrightarrow> distinct (sv_open s) \<and> list_all (held s) (sv_open s)"

text \<open>None of the handles in \<open>H\<close> is open.\<close>

definition without :: "handle set \<Rightarrow> service \<Rightarrow> bool" where
  "without H s \<longleftrightarrow> accounted s \<and> set (sv_open s) \<inter> H = {}"

lemma without_empty [simp]: "without {} = accounted"
  by (simp add: without_def fun_eq_iff)

lemma without_weaken: "without H s \<Longrightarrow> H' \<subseteq> H \<Longrightarrow> without H' s"
  by (auto simp: without_def)

lemma all_handles:
  "(\<forall>h. P h) \<longleftrightarrow> P PgPool \<and> P CheckpointPool \<and> P RedisClient \<and> P Neo4jDriver \<and> P OllamaHttp \<and> P McpHttp"
proof -
  have "(\<forall>h. P h) \<longleftrightarrow> list_all P enum_class.enum" by (simp add: list_all_iff UNIV_enum [symmetric])
  then show ?thesis by (simp add: enum_handle_def)
qed

lemma accounted_iff:
  "accounted s \<longleftrightarrow> distinct (sv_open s) \<and>
     (PgPool \<in> set (sv_open s) \<longrightarrow> sv_pool s) \<and> (CheckpointPool \<in> set (sv_open s) \<longrightarrow> sv_checkpoint_pool s) \<and>
     (RedisClient \<in> set (sv_open s) \<longrightarrow> sv_conversations s = RedisConversations True) \<and>
     (Neo4jDriver \<in> set (sv_open s) \<longrightarrow> sv_neo4j s \<and> sv_driver s) \<and>
     (OllamaHttp \<in> set (sv_open s) \<longrightarrow> sv_ollama s) \<and> (McpHttp \<in> set (sv_open s) \<longrightarrow> sv_mcp s)"
  by (simp add: accounted_def list_all_iff Ball_def all_handles del: split_paired_All)

lemmas account_defs = without_def accounted_iff

section \<open>Opening\<close>

lemma leads_opened:
  "(\<And>s. P s \<Longrightarrow> Q () (f (s\<lparr>sv_open := h # sv_open s\<rparr>))) \<Longrightarrow> leads P (opened h f) Q X"
  unfolding opened_def by (rule leads_modify)

lemma leads_close_handle:
  assumes "\<And>s. P s \<Longrightarrow> Q () (s\<lparr>sv_open := remove1 h (sv_open s)\<rparr>)"
    and "\<And>n e s. P s \<Longrightarrow> dr_close D n = Some e \<Longrightarrow> X e (s\<lparr>sv_open := remove1 h (sv_open s)\<rparr>)"
  shows "leads P (close_handle D h) Q X"
  using assms
  by (auto simp: leads_def wp_def close_handle_def may_raise_def and_then_def modify_def ask_def split: option.splits)

lemma leads_swallow:
  "leads P m Q R \<Longrightarrow> (\<And>e s. R e s \<Longrightarrow> if caught e then Q () s else X e s) \<Longrightarrow> leads P (swallow m) Q X"
  unfolding swallow_def by (erule leads_except) (auto intro: leads_done leads_raise)

lemma start_pool_leads:
  assumes "PgPool \<notin> H"
  shows "leads (without H) (start_postgres_pool st D) (\<lambda>_. without H) (\<lambda>_. accounted)"
  unfolding start_postgres_pool_def
proof (rule leads_with_state, rule leads_only_if)
  fix s :: service
  assume s: "without H s"
    and need: "(state_backend st = PostgresHistory \<or> run_repository_backend st = PostgresRuns) \<and> \<not> sv_pool s"
  have "accounted s" using s by (simp add: without_def)
  moreover have "without H (s\<lparr>sv_open := PgPool # sv_open s, sv_pool := True\<rparr>)"
    using assms s need by (auto simp: account_defs)
  ultimately have "leads (\<lambda>t. t = s) (and_then (ask (dr_call D)) (\<lambda>_. opened PgPool (\<lambda>s. s\<lparr>sv_pool := True\<rparr>)))
      (\<lambda>_. without H) (\<lambda>_. accounted)"
    by (intro leads_and_then [where R = "\<lambda>_ t. t = s"] leads_ask leads_opened) simp_all
  then show "leads (\<lambda>t. t = s)
      (if database_url st = [] then raise_exn (needs_database ''PostgreSQL conversation or run storage'')
       else and_then (ask (dr_call D)) (\<lambda>_. opened PgPool (\<lambda>s. s\<lparr>sv_pool := True\<rparr>))) (\<lambda>_. without H) (\<lambda>_. accounted)"
    using \<open>accounted s\<close> by (auto intro: leads_raise)
qed auto

lemma without_accounted [intro]: "without H s \<Longrightarrow> accounted s"
  by (simp add: without_def)

lemma remove1_accounted [intro]:
  "accounted s \<Longrightarrow> accounted (s\<lparr>sv_open := remove1 h (sv_open s)\<rparr>)"
  "without H s \<Longrightarrow> without H (s\<lparr>sv_open := remove1 h (sv_open s)\<rparr>)"
  by (auto simp: account_defs)

lemma redis_start_leads:
  assumes "RedisClient \<notin> H"
  shows "leads (without H) (redis_start D) (\<lambda>_. without H) (\<lambda>_. accounted)"
  unfolding redis_start_def
proof (rule leads_with_state, rule leads_only_if)
  fix s
  let ?R = "\<lambda>_ t. without H t"
  assume s: "without H s" and idle: "sv_conversations s = RedisConversations False"
  have open_state: "without H (s\<lparr>sv_open := RedisClient # sv_open s, sv_conversations := RedisConversations True\<rparr>)"
    using assms s idle by (auto simp: account_defs)
  have failed: "leads (without H)
      (and_then (close_handle D RedisClient) (\<lambda>_.
         and_then (modify (\<lambda>s. s\<lparr>sv_conversations := RedisConversations False\<rparr>)) (\<lambda>_. raise_exn e)))
      (\<lambda>_. without H) (\<lambda>_. accounted)" for e
    by (rule leads_and_then [where R = "\<lambda>_ t. without H t \<and> RedisClient \<notin> set (sv_open t)"],
        rule leads_close_handle,
        simp add: account_defs, force, blast,
        rule leads_and_then [where R = "\<lambda>_. without H"],
        auto intro!: leads_modify leads_raise simp: account_defs)
  show "leads (\<lambda>t. t = s)
      (and_then (opened RedisClient (\<lambda>s. s\<lparr>sv_conversations := RedisConversations True\<rparr>)) (\<lambda>_.
         except_with (ask (dr_call D)) (\<lambda>e.
           and_then (close_handle D RedisClient) (\<lambda>_.
           and_then (modify (\<lambda>s. s\<lparr>sv_conversations := RedisConversations False\<rparr>)) (\<lambda>_. raise_exn e)))))
      (\<lambda>_. without H) (\<lambda>_. accounted)"
    by (rule leads_and_then [where R = ?R], rule leads_opened, use open_state in simp,
        rule leads_except [where R = ?R], rule leads_ask, simp_all, rule failed)
qed auto

lemma conversations_start_leads:
  "RedisClient \<notin> H \<Longrightarrow> leads (without H) (conversations_start D) (\<lambda>_. without H) (\<lambda>_. accounted)"
  unfolding conversations_start_def
  by (rule leads_with_state)
    (auto split: conversation_store.split intro!: leads_done leads_ask intro: leads_weaken [OF redis_start_leads])

lemma runs_start_leads: "leads (without H) (runs_start D) (\<lambda>_. without H) (\<lambda>_. accounted)"
  unfolding runs_start_def by (auto intro!: leads_with_state leads_only_if leads_ask)

lemma start_checkpointer_leads:
  "leads (without {CheckpointPool}) (start_checkpointer st D) (\<lambda>_. accounted) (\<lambda>_. accounted)"
proof -
  have "leads (without {CheckpointPool})
      (and_then (opened CheckpointPool (\<lambda>s. s\<lparr>sv_checkpoint_pool := True\<rparr>)) (\<lambda>_.
       and_then (ask (dr_call D)) (\<lambda>_.
       and_then (modify (\<lambda>s. s\<lparr>sv_checkpointer := PostgresRuns\<rparr>)) (\<lambda>_.
         only_if (dr_auto_setup D) (ask (dr_call D)))))) (\<lambda>_. accounted) (\<lambda>_. accounted)"
    by (intro leads_and_then [where R = "\<lambda>_. accounted"] leads_opened leads_ask leads_modify leads_only_if)
      (auto simp: account_defs)
  then show ?thesis
    unfolding start_checkpointer_def by (auto intro!: leads_only_if leads_raise)
qed

lemma start_artifacts_leads: "leads accounted (start_artifacts st D) (\<lambda>_. accounted) (\<lambda>_. accounted)"
  unfolding start_artifacts_def
  by (intro leads_only_if leads_and_then [where R = "\<lambda>_. accounted"] leads_ask leads_modify)
    (auto simp: account_defs)

section \<open>Closing\<close>

definition ordinary_closes :: "drivers \<Rightarrow> bool" where
  "ordinary_closes D \<longleftrightarrow> (\<forall>n e. dr_close D n = Some e \<longrightarrow> caught e) \<and> (\<forall>n. dr_delete D n = None)"

lemma neo4j_manager_start_leads:
  "leads (without {Neo4jDriver}) (neo4j_manager_start D)
     (\<lambda>_ s. accounted (s\<lparr>sv_neo4j := True\<rparr>)) (\<lambda>_. without {Neo4jDriver})"
  unfolding neo4j_manager_start_def
  apply (rule leads_and_then [where R = "\<lambda>_ s. accounted (s\<lparr>sv_neo4j := True\<rparr>)"])
   apply (rule leads_opened, force simp: account_defs)
  apply (rule leads_except [where R = "\<lambda>_ s. accounted (s\<lparr>sv_neo4j := True\<rparr>)"], simp add: leads_ask)
  apply (rule leads_and_then [where R = "\<lambda>_. without {Neo4jDriver}"])
   apply (rule leads_close_handle; force simp: account_defs)
  apply (rule leads_and_then [where R = "\<lambda>_. without {Neo4jDriver}"])
   apply (rule leads_modify, force simp: account_defs)
  apply (simp add: leads_raise)
  done

text \<open>What a close leaves: its connection is gone, whether it raised or not.\<close>

lemma leads_closes:
  assumes "\<And>s. P s \<Longrightarrow> Q (s\<lparr>sv_open := remove1 h (sv_open s)\<rparr>)"
  shows "leads P (close_handle D h) (\<lambda>_. Q) (\<lambda>e s. Q s \<and> (ordinary_closes D \<longrightarrow> caught e))"
  using assms by (intro leads_close_handle) (auto simp: ordinary_closes_def)

text \<open>
  The contract of a close: its connection \<open>h\<close> is gone afterwards, and where closes raise only
  ordinary exceptions also when it raised.
\<close>

locale closer =
  fixes D :: drivers and h :: handle and close :: "(service, unit) act"
  assumes closes: "leads (without H) close (\<lambda>_. without (insert h H))
    (\<lambda>e s. ordinary_closes D \<longrightarrow> without (insert h H) s \<and> caught e)"
begin

lemma swallowed:
  "ordinary_closes D \<Longrightarrow> leads (without H) (swallow close) (\<lambda>_. without (insert h H)) (\<lambda>_ _. False)"
  by (rule leads_swallow [OF closes]) simp

lemma dropped:
  "ordinary_closes D \<Longrightarrow> leads (without H) (except_with close (\<lambda>_. done_with ())) (\<lambda>_. without (insert h H)) X"
  by (rule leads_except [OF closes]) (auto intro!: leads_done)

text \<open>A field that \<open>b\<close> reads and \<open>f\<close> clears holds the connection.\<close>

lemma forgotten:
  assumes ordinary: "ordinary_closes D"
    and clear: "\<And>s. without (insert h H) s \<Longrightarrow> without (insert h H) (f s)"
    and held: "\<And>s. without H s \<Longrightarrow> \<not> b s \<Longrightarrow> without (insert h H) s"
  shows "leads (without H) (with_state (\<lambda>s. only_if (b s) (finally_do (swallow close) (modify f))))
      (\<lambda>_. without (insert h H)) (\<lambda>_ _. False)"
proof (rule leads_with_state, rule leads_only_if)
  fix s
  assume s: "without H s"
  have "leads (\<lambda>t. t = s) (swallow close) (\<lambda>_. without (insert h H)) (\<lambda>_ _. False)"
    by (rule leads_weaken [OF swallowed [OF ordinary, of H]]) (use s in simp_all)
  then show "leads (\<lambda>t. t = s) (finally_do (swallow close) (modify f)) (\<lambda>_. without (insert h H)) (\<lambda>_ _. False)"
    by (rule leads_finally) (auto intro!: leads_modify clear)
qed (auto intro: held)

end

lemma without_removed [intro]:
  "without H s \<Longrightarrow> without (insert h H) (s\<lparr>sv_open := remove1 h (sv_open s)\<rparr>)"
  by (auto simp: account_defs)

lemma neo4j_manager_aclose_leads:
  "leads (without H) (neo4j_manager_aclose D) (\<lambda>_. without (insert Neo4jDriver H))
     (\<lambda>e s. without (insert Neo4jDriver H) s \<and> (ordinary_closes D \<longrightarrow> caught e))"
  unfolding neo4j_manager_aclose_def
proof (rule leads_with_state)
  fix s
  assume s: "without H s"
  let ?Q = "without (insert Neo4jDriver H)"
  let ?R = "\<lambda>t. (sv_driver s \<longrightarrow> without H (t\<lparr>sv_driver := True\<rparr>)) \<and> (\<not> sv_driver s \<longrightarrow> ?Q t)"
  have closed: "?Q (t\<lparr>sv_open := remove1 Neo4jDriver (sv_open t)\<rparr>)" if "without H (t\<lparr>sv_driver := True\<rparr>)" for t
    using that unfolding account_defs by auto
  have "?R (s\<lparr>sv_driver := False\<rparr>)" using s unfolding account_defs by auto
  then show "leads (\<lambda>t. t = s)
      (and_then (modify (\<lambda>s. s\<lparr>sv_driver := False\<rparr>)) (\<lambda>_. only_if (sv_driver s) (close_handle D Neo4jDriver)))
      (\<lambda>_. ?Q) (\<lambda>e s. ?Q s \<and> (ordinary_closes D \<longrightarrow> caught e))"
    by (intro leads_and_then [where R = "\<lambda>_. ?R"] leads_modify leads_only_if leads_closes) (simp_all add: closed)
qed

lemma redis_aclose_leads:
  "leads (without H) (redis_aclose D) (\<lambda>_. without (insert RedisClient H))
     (\<lambda>e s. without (insert RedisClient H) s \<and> (ordinary_closes D \<longrightarrow> caught e))"
  unfolding redis_aclose_def
proof (rule leads_with_state)
  fix s
  let ?R = "without (insert RedisClient H)"
  assume s: "without H s"
  have "leads (\<lambda>t. t = s) (close_handle D RedisClient) (\<lambda>_. ?R) (\<lambda>e s. ?R s \<and> (ordinary_closes D \<longrightarrow> caught e))"
    using s by (intro leads_closes) auto
  moreover have "?R (t\<lparr>sv_conversations := RedisConversations False\<rparr>)" if "?R t" for t
    using that unfolding account_defs by auto
  moreover have "?R s" if "sv_conversations s \<noteq> RedisConversations True"
    using that s unfolding account_defs by auto
  ultimately show "leads (\<lambda>t. t = s)
      (only_if (sv_conversations s = RedisConversations True)
        (and_then (close_handle D RedisClient) (\<lambda>_.
           modify (\<lambda>s. s\<lparr>sv_conversations := RedisConversations False\<rparr>))))
      (\<lambda>_. ?R) (\<lambda>e s. ?R s \<and> (ordinary_closes D \<longrightarrow> caught e))"
    by (auto intro!: leads_only_if leads_modify elim!: leads_and_then)
qed

interpretation raw: closer D h "close_handle D h" for D h
proof unfold_locales
  fix H
  have "leads (without H) (close_handle D h) (\<lambda>_. without (insert h H))
      (\<lambda>e s. without (insert h H) s \<and> (ordinary_closes D \<longrightarrow> caught e))"
    by (rule leads_closes) auto
  then show "leads (without H) (close_handle D h) (\<lambda>_. without (insert h H))
      (\<lambda>e s. ordinary_closes D \<longrightarrow> without (insert h H) s \<and> caught e)"
    by (rule leads_weaken) auto
qed

interpretation neo: closer D Neo4jDriver "neo4j_manager_aclose D" for D
  by unfold_locales (rule leads_weaken, rule neo4j_manager_aclose_leads, auto)

interpretation redis: closer D RedisClient "redis_aclose D" for D
  by unfold_locales (rule leads_weaken, rule redis_aclose_leads, auto)

abbreviation stores :: "handle set" where
  "stores \<equiv> {PgPool, CheckpointPool, RedisClient, Neo4jDriver}"

lemma runtime_aclose_leads:
  assumes "ordinary_closes D"
  shows "leads (without H) (runtime_aclose D) (\<lambda>_. without (stores \<union> H)) (\<lambda>_ _. False)"
proof -
  have neo4j: "leads (without H) (close_neo4j D) (\<lambda>_. without (insert Neo4jDriver H)) (\<lambda>_ _. False)" for H
    unfolding close_neo4j_def by (rule neo.forgotten [OF assms]) (auto simp: account_defs)
  have checkpoint: "leads (without H) (with_state (\<lambda>s. only_if (sv_checkpoint_pool s)
      (finally_do (swallow (close_handle D CheckpointPool)) (modify (\<lambda>s. s\<lparr>sv_checkpoint_pool := False\<rparr>)))))
      (\<lambda>_. without (insert CheckpointPool H)) (\<lambda>_ _. False)" for H
    by (rule raw.forgotten [OF assms]) (auto simp: account_defs)
  have postgres: "leads (without H) (with_state (\<lambda>s. only_if (sv_pool s)
      (finally_do (swallow (close_handle D PgPool)) (modify (\<lambda>s. s\<lparr>sv_pool := False\<rparr>)))))
      (\<lambda>_. without (insert PgPool H)) (\<lambda>_ _. False)" for H
    by (rule raw.forgotten [OF assms]) (auto simp: account_defs)
  show ?thesis
    unfolding runtime_aclose_def close_pools_def
    apply (rule leads_and_then [OF neo4j])
    apply (rule leads_and_then [where R = "\<lambda>_. without (insert Neo4jDriver H)"], rule leads_modify, simp add: account_defs)
    apply (rule leads_and_then [OF redis.swallowed [OF assms]])
    apply (rule leads_and_then, rule leads_and_then [OF checkpoint], rule postgres)
    apply (rule leads_modify, simp add: account_defs)
    done
qed

section \<open>The runtime and the application\<close>

lemma without_neo4j: "accounted s \<Longrightarrow> \<not> sv_neo4j s \<Longrightarrow> without {Neo4jDriver} s"
  by (auto simp: account_defs)

lemma start_neo4j_leads: "leads accounted (start_neo4j st D) (\<lambda>_. accounted) (\<lambda>_. accounted)"
  unfolding start_neo4j_def
proof (rule leads_with_state, rule leads_only_if)
  fix s
  let ?N = "without {Neo4jDriver}"
  assume s: "accounted s" and off: "neo4j_enabled st \<and> \<not> sv_neo4j s"
  have start: "leads (\<lambda>t. t = s)
      (and_then (neo4j_manager_start D) (\<lambda>_. modify (\<lambda>s. s\<lparr>sv_neo4j := True, sv_neo4j_degraded := None\<rparr>)))
      (\<lambda>_. accounted) (\<lambda>_. ?N)"
  proof (rule leads_and_then)
    show "leads (\<lambda>t. t = s) (neo4j_manager_start D) (\<lambda>_ s. accounted (s\<lparr>sv_neo4j := True\<rparr>)) (\<lambda>_. ?N)"
      by (rule leads_weaken [OF neo4j_manager_start_leads]) (use s off without_neo4j in simp_all)
    show "leads (\<lambda>s. accounted (s\<lparr>sv_neo4j := True\<rparr>)) (modify (\<lambda>s. s\<lparr>sv_neo4j := True, sv_neo4j_degraded := None\<rparr>))
        (\<lambda>_. accounted) (\<lambda>_. ?N)" for x :: unit
      by (rule leads_modify) (simp add: accounted_iff)
  qed
  have fallback: "leads ?N
      (and_then (neo4j_manager_aclose D) (\<lambda>_. if persistence_required st then raise_exn e
         else modify (\<lambda>s. s\<lparr>sv_neo4j_degraded := Some (start_failure e)\<rparr>))) (\<lambda>_. accounted) (\<lambda>_. accounted)" for e
  proof (rule leads_and_then)
    show "leads ?N (neo4j_manager_aclose D) (\<lambda>_. ?N) (\<lambda>_. accounted)"
      by (rule leads_weaken [OF neo4j_manager_aclose_leads [of "{Neo4jDriver}"]]) auto
    show "leads ?N (if persistence_required st then raise_exn e
        else modify (\<lambda>s. s\<lparr>sv_neo4j_degraded := Some (start_failure e)\<rparr>)) (\<lambda>_. accounted) (\<lambda>_. accounted)" for x :: unit
      by (auto intro!: leads_modify leads_raise simp: account_defs)
  qed
  show "leads (\<lambda>t. t = s)
      (except_with
        (and_then (neo4j_manager_start D) (\<lambda>_. modify (\<lambda>s. s\<lparr>sv_neo4j := True, sv_neo4j_degraded := None\<rparr>)))
        (\<lambda>e. if \<not> caught e then raise_exn e
             else and_then (neo4j_manager_aclose D) (\<lambda>_. if persistence_required st then raise_exn e
               else modify (\<lambda>s. s\<lparr>sv_neo4j_degraded := Some (start_failure e)\<rparr>))))
      (\<lambda>_. accounted) (\<lambda>_. accounted)"
  proof (rule leads_except [OF start])
    show "leads ?N (if \<not> caught e then raise_exn e
        else and_then (neo4j_manager_aclose D) (\<lambda>_. if persistence_required st then raise_exn e
          else modify (\<lambda>s. s\<lparr>sv_neo4j_degraded := Some (start_failure e)\<rparr>))) (\<lambda>_. accounted) (\<lambda>_. accounted)" for e
      by (cases "caught e") (simp_all add: fallback leads_raise without_accounted)
  qed
qed auto

lemma build_conversation_store_idle: "build_conversation_store st = Inr c \<Longrightarrow> c \<noteq> RedisConversations True"
  by (auto simp: build_conversation_store_def split: history_backend.splits if_splits)

lemma start_backends_leads:
  "leads (without {CheckpointPool, RedisClient}) (start_backends st D) (\<lambda>_. accounted) (\<lambda>_. accounted)"
  unfolding start_backends_def
  apply (rule leads_and_then [OF start_pool_leads], simp)
  apply (rule leads_and_then [where R = "\<lambda>c s. without {CheckpointPool, RedisClient} s \<and> c \<noteq> RedisConversations True"],
      rule leads_of_result, simp add: build_conversation_store_idle, blast)
  apply (rule leads_and_then [where R = "\<lambda>_. without {CheckpointPool}"],
      rule leads_modify, force simp: account_defs)
  apply (rule leads_and_then [OF conversations_start_leads], simp)
  apply (rule leads_and_then [where R = "\<lambda>_. without {CheckpointPool}"], rule leads_of_result, simp, blast)
  apply (rule leads_and_then [where R = "\<lambda>_. without {CheckpointPool}"], rule leads_modify, simp add: account_defs)
  apply (rule leads_and_then [OF runs_start_leads])
  apply (rule leads_and_then [OF start_checkpointer_leads])
  apply (rule leads_and_then [OF start_artifacts_leads])
  apply (rule leads_and_then [OF start_neo4j_leads])
  apply (rule leads_modify, simp add: account_defs)
  done

lemma runtime_start_leads:
  assumes "ordinary_closes D"
  shows "leads (without {CheckpointPool, RedisClient}) (runtime_start st D) (\<lambda>_. accounted)
    (\<lambda>e s. accounted s \<and> (caught e \<longrightarrow> without stores s))"
  unfolding runtime_start_def
proof (rule leads_with_state, rule leads_only_if)
  fix s
  assume s: "without {CheckpointPool, RedisClient} s"
  have start: "leads (\<lambda>t. t = s) (start_backends st D) (\<lambda>_. accounted) (\<lambda>_. accounted)"
    by (rule leads_weaken [OF start_backends_leads]) (use s in simp_all)
  have aclose: "leads accounted (and_then (runtime_aclose D) (\<lambda>_. raise_exn e)) (\<lambda>_. accounted)
      (\<lambda>e s. accounted s \<and> (caught e \<longrightarrow> without stores s))" for e :: exn
    by (rule leads_and_then [where R = "\<lambda>_. without stores"],
        rule leads_weaken [OF runtime_aclose_leads [OF assms, of "{}"]])
      (auto intro!: leads_raise)
  show "leads (\<lambda>t. t = s) (except_with (start_backends st D)
       (\<lambda>e. if caught e then and_then (runtime_aclose D) (\<lambda>_. raise_exn e) else raise_exn e))
      (\<lambda>_. accounted) (\<lambda>e s. accounted s \<and> (caught e \<longrightarrow> without stores s))"
    by (rule leads_except [OF start]) (auto intro!: aclose leads_raise)
qed auto

text \<open>What the fallback of the agent's start leaves.\<close>

definition in_memory :: "string \<Rightarrow> service \<Rightarrow> bool" where
  "in_memory reason s \<longleftrightarrow> without stores s \<and> sv_conversations s = MemoryConversations \<and> sv_runs s = MemoryRuns \<and>
     sv_checkpointer s = MemoryRuns \<and> sv_degraded s = Some reason \<and> sv_neo4j_degraded s = None"

lemma fallback_leads:
  assumes "ordinary_closes D"
  shows "leads accounted (use_memory_fallback D reason) (\<lambda>_. in_memory reason) (\<lambda>_ _. False)"
  unfolding use_memory_fallback_def
  by (rule leads_and_then [where R = "\<lambda>_. without stores"],
      rule leads_weaken [OF runtime_aclose_leads [OF assms, of "{}"]])
    (auto intro!: leads_modify simp: account_defs in_memory_def)

lemma note_dependency_leads: "(\<And>s t. P s \<Longrightarrow> P (s\<lparr>sv_startup := t\<rparr>)) \<Longrightarrow> leads P (note_dependency name status) (\<lambda>_. P) X"
  unfolding note_dependency_def by (rule leads_modify) simp

lemma accounted_startup [simp]: "accounted (s\<lparr>sv_startup := t\<rparr>) = accounted s" "without H (s\<lparr>sv_startup := t\<rparr>) = without H s"
  by (simp_all add: account_defs)

lemma in_memory_startup [simp]: "in_memory reason (s\<lparr>sv_startup := t\<rparr>) = in_memory reason s"
  by (simp add: in_memory_def)

lemma start_persistence_handler_leads:
  assumes "ordinary_closes D" and "caught e"
  shows "leads (\<lambda>s. accounted s \<and> (caught e \<longrightarrow> without stores s))
    (if \<not> caught e then raise_exn e
     else and_then (note_dependency ''persistence'' (unavailable (persistence_is_required st) e)) (\<lambda>_.
       if persistence_is_required st then raise_exn e
       else and_then (use_memory_fallback D (exn_text e)) (\<lambda>_.
         note_dependency ''persistence'' (alist_put ''status'' (JStr ''degraded'') (unavailable False e)))))
    (\<lambda>_ s. \<not> persistence_is_required st \<and> in_memory (exn_text e) s)
    (\<lambda>e' s. persistence_is_required st \<and> e' = e \<and> without stores s)"
proof -
  have fallback: "leads accounted (use_memory_fallback D (exn_text e)) (\<lambda>_. in_memory (exn_text e))
      (\<lambda>_ _. False)"
    by (rule fallback_leads [OF assms(1)])
  have rest: "leads (without stores)
      (if persistence_is_required st then raise_exn e
       else and_then (use_memory_fallback D (exn_text e)) (\<lambda>_.
         note_dependency ''persistence'' (alist_put ''status'' (JStr ''degraded'') (unavailable False e))))
      (\<lambda>_ s. \<not> persistence_is_required st \<and> in_memory (exn_text e) s)
      (\<lambda>e' s. persistence_is_required st \<and> e' = e \<and> without stores s)"
  proof (cases "persistence_is_required st")
    case False
    have "leads (without stores) (use_memory_fallback D (exn_text e)) (\<lambda>_. in_memory (exn_text e)) (\<lambda>_ _. False)"
      by (rule leads_weaken [OF fallback]) auto
    then have "leads (without stores) (and_then (use_memory_fallback D (exn_text e)) (\<lambda>_.
         note_dependency ''persistence'' (alist_put ''status'' (JStr ''degraded'') (unavailable False e))))
         (\<lambda>_. in_memory (exn_text e)) (\<lambda>_ _. False)"
      by (rule leads_and_then) (simp add: note_dependency_leads)
    then show ?thesis using False by (auto elim: leads_weaken)
  qed (auto intro: leads_raise)
  have "leads (without stores) (note_dependency ''persistence'' (unavailable (persistence_is_required st) e))
      (\<lambda>_. without stores) (\<lambda>e' s. persistence_is_required st \<and> e' = e \<and> without stores s)"
    by (simp add: note_dependency_leads)
  from leads_and_then [OF this rest] show ?thesis
    using assms(2) by (auto elim!: leads_weaken)
qed

lemma start_persistence_leads:
  assumes "ordinary_closes D"
  shows "leads (without {CheckpointPool, RedisClient}) (start_persistence st D) (\<lambda>_. accounted) (\<lambda>_. accounted)"
  unfolding start_persistence_def
proof (rule leads_except)
  show "leads (without {CheckpointPool, RedisClient})
      (and_then (runtime_start st D) (\<lambda>_. note_dependency ''persistence'' [(''status'', JStr ''available'')]))
      (\<lambda>_. accounted) (\<lambda>e s. accounted s \<and> (caught e \<longrightarrow> without stores s))"
    by (rule leads_and_then [OF runtime_start_leads [OF assms]]) (simp add: note_dependency_leads)
  show "leads (\<lambda>s. accounted s \<and> (caught e \<longrightarrow> without stores s))
      (if \<not> caught e then raise_exn e
       else and_then (note_dependency ''persistence'' (unavailable (persistence_is_required st) e)) (\<lambda>_.
         if persistence_is_required st then raise_exn e
         else and_then (use_memory_fallback D (exn_text e)) (\<lambda>_.
           note_dependency ''persistence'' (alist_put ''status'' (JStr ''degraded'') (unavailable False e)))))
      (\<lambda>_. accounted) (\<lambda>_. accounted)" for e
  proof (cases "caught e")
    case True
    show ?thesis
      by (rule leads_weaken [OF start_persistence_handler_leads [OF assms True]]) (auto simp: in_memory_def)
  qed (simp add: leads_raise)
qed

text \<open>The clients of the model server and the tool server.\<close>

lemma get_client_leads:
  "leads accounted get_ollama_client (\<lambda>_. accounted) X" "leads accounted get_mcp_client (\<lambda>_. accounted) X"
  unfolding get_ollama_client_def get_mcp_client_def
  by (intro leads_with_state leads_only_if leads_opened; auto simp: accounted_iff)+

lemma start_dependency_leads:
  assumes "leads accounted m (\<lambda>_. accounted) (\<lambda>_. accounted)"
  shows "leads accounted (start_dependency name required m) (\<lambda>_. accounted) (\<lambda>_. accounted)"
  unfolding start_dependency_def
proof (rule leads_except)
  show "leads accounted (and_then m (\<lambda>_. note_dependency name [(''status'', JStr ''available'')]))
      (\<lambda>_. accounted) (\<lambda>_. accounted)"
    by (rule leads_and_then [OF assms]) (simp add: note_dependency_leads)
  have "leads accounted (and_then (note_dependency name (unavailable required e)) (\<lambda>_.
      if required then raise_exn e else done_with ())) (\<lambda>_. accounted) (\<lambda>_. accounted)" for e
    by (rule leads_and_then [OF note_dependency_leads]) (auto intro!: leads_raise leads_done)
  then show "leads accounted (if \<not> caught e then raise_exn e
      else and_then (note_dependency name (unavailable required e)) (\<lambda>_.
        if required then raise_exn e else done_with ())) (\<lambda>_. accounted) (\<lambda>_. accounted)" for e
    by (simp add: leads_raise)
qed

lemma agent_start_leads:
  assumes "ordinary_closes D"
  shows "leads (without {CheckpointPool, RedisClient}) (agent_start st D) (\<lambda>_. accounted) (\<lambda>_. accounted)"
proof -
  have mcp: "leads accounted (mcp_start st D) (\<lambda>_. accounted) (\<lambda>_. accounted)"
    unfolding mcp_start_def
    by (rule leads_and_then [OF get_client_leads(2)]) (auto intro!: leads_only_if leads_ask)
  show ?thesis
    unfolding agent_start_def
    apply (rule leads_and_then [where R = "\<lambda>_. without {CheckpointPool, RedisClient}"], rule leads_modify, simp)
    apply (rule leads_and_then [OF start_persistence_leads [OF assms]])
    apply (rule leads_and_then [where R = "\<lambda>_. accounted"])
     apply (rule leads_only_if, rule start_dependency_leads [OF get_client_leads(1)], assumption)
    apply (rule leads_only_if, rule start_dependency_leads [OF mcp], assumption)
    done
qed

lemma serve_leads: "leads accounted (serve calls) (\<lambda>_. accounted) X"
  by (induction calls) (auto intro!: leads_done leads_and_then [where R = "\<lambda>_. accounted"] get_client_leads)

text \<open>A client: its field is cleared, then it is closed.\<close>

lemma client_aclose_leads:
  assumes clear: "\<And>s. without H s \<Longrightarrow> \<not> b s \<Longrightarrow> without (insert h H) (f s)"
    and closed: "\<And>s. without H s \<Longrightarrow> b s \<Longrightarrow> without (insert h H) (f s\<lparr>sv_open := remove1 h (sv_open (f s))\<rparr>)"
  shows "leads (without H) (with_state (\<lambda>s. and_then (modify f) (\<lambda>_. only_if (b s) (close_handle D h))))
    (\<lambda>_. without (insert h H)) (\<lambda>e s. ordinary_closes D \<longrightarrow> without (insert h H) s \<and> caught e)"
proof (rule leads_with_state)
  fix s
  assume "without H s"
  then show "leads (\<lambda>t. t = s) (and_then (modify f) (\<lambda>_. only_if (b s) (close_handle D h)))
      (\<lambda>_. without (insert h H)) (\<lambda>e s. ordinary_closes D \<longrightarrow> without (insert h H) s \<and> caught e)"
    by (intro leads_and_then [where R = "\<lambda>_ t. t = f s"] leads_modify leads_only_if leads_close_handle)
      (auto simp: clear closed ordinary_closes_def)
qed

interpretation ollama: closer D OllamaHttp "ollama_aclose D" for D
  unfolding ollama_aclose_def
  by unfold_locales (rule client_aclose_leads; auto simp: account_defs)

text \<open>Ending a tool session may create the client first, which is then closed with the others.\<close>

interpretation mcp: closer D McpHttp "mcp_aclose D" for D
proof unfold_locales
  fix H
  let ?H = "H - {McpHttp}" and ?X = "\<lambda>e s. ordinary_closes D \<longrightarrow> without (insert McpHttp H) s \<and> caught e"
  have all: "insert McpHttp ?H = insert McpHttp H" by auto
  have get: "leads (without H) get_mcp_client (\<lambda>_. without ?H) ?X"
    unfolding get_mcp_client_def
    by (intro leads_with_state leads_only_if leads_opened) (auto simp: account_defs)
  have delete: "leads (without ?H) (may_raise (dr_delete D)) (\<lambda>_. without ?H) ?X"
    by (auto simp: may_raise_def ordinary_closes_def leads_def wp_def ask_def split: option.split)
  have session: "leads (without H) (only_if (dr_mcp_session D) (and_then get_mcp_client (\<lambda>_. may_raise (dr_delete D))))
      (\<lambda>_. without ?H) ?X"
    by (rule leads_only_if, rule leads_and_then [OF get delete]) (auto intro: without_weaken)
  show "leads (without H) (mcp_aclose D) (\<lambda>_. without (insert McpHttp H)) ?X"
    unfolding mcp_aclose_def all [symmetric]
    by (rule leads_and_then [OF session [folded all]], rule client_aclose_leads) (auto simp: account_defs)
qed

lemma agent_aclose_leads:
  assumes "ordinary_closes D"
  shows "leads accounted (agent_aclose D) (\<lambda>_ s. sv_open s = []) X"
proof -
  have all_closed: "sv_open s = []" if "without (stores \<union> {McpHttp, OllamaHttp}) s" for s
  proof -
    have "\<forall>h. h \<notin> set (sv_open s)" unfolding all_handles using that by (simp add: without_def)
    then show ?thesis by (cases "sv_open s") auto
  qed
  have runtime: "leads (without {McpHttp, OllamaHttp}) (except_with (runtime_aclose D) (\<lambda>_. done_with ()))
      (\<lambda>_ s. sv_open s = []) X"
    by (rule leads_except [OF leads_weaken [OF runtime_aclose_leads [OF assms]]], assumption, erule all_closed, assumption)
      (simp add: leads_def)
  show ?thesis
    unfolding agent_aclose_def without_empty [symmetric]
    by (rule leads_and_then [OF ollama.dropped [OF assms]], rule leads_and_then [OF mcp.dropped [OF assms]], rule runtime)
qed

lemma lifespan_leads:
  assumes "ordinary_closes D"
  shows "leads (without {CheckpointPool, RedisClient}) (lifespan st D calls)
    (\<lambda>_ s. sv_open s = []) (\<lambda>_ s. sv_open s = [])"
  unfolding lifespan_def
  by (rule leads_finally [OF _ agent_aclose_leads agent_aclose_leads],
      rule leads_and_then [OF agent_start_leads [OF assms]],
      rule leads_and_then [OF serve_leads], rule leads_ask) (use assms in auto)

lemma new_service_without [simp]: "without H new_service"
  by (simp add: account_defs new_service_def)

section \<open>Properties\<close>

text \<open>
  C12: no connection outlives the application: whatever the start opened before it finished,
  failed or was cancelled, and whatever client was created while it served, every connection is
  closed when the lifespan ends, provided that a close raises at most ordinary exceptions and the
  request that ends a tool session at most the HTTP errors it absorbs.
\<close>

lemma lifespan_closes_connections:
  assumes "ordinary_closes D" and "pr_repo w = new_service"
  shows "sv_open (pr_repo (snd (lifespan st D calls w))) = []"
proof -
  have "without {CheckpointPool, RedisClient} (pr_repo w)" using assms(2) by simp
  note leadsD [OF lifespan_leads [OF assms(1)] this]
  then show ?thesis by (cases "lifespan st D calls w"; cases "fst (lifespan st D calls w)") auto
qed

text \<open>Every store outside, the fourth answer of a driver fails, and no close works.\<close>

definition outside_settings :: settings where
  "outside_settings = default_settings\<lparr>state_backend := RedisHistory, run_repository_backend := PostgresRuns,
     checkpoint_backend := PostgresRuns, database_url := ''postgres://db'', redis_url := ''redis://cache'',
     neo4j_enabled := True\<rparr>"

definition failing_drivers :: "nat \<Rightarrow> drivers" where
  "failing_drivers k = \<lparr>dr_call = (\<lambda>n. if n = k then Inl TimeoutError else Inr ()),
     dr_close = (\<lambda>_. Some (RuntimeError ''gone'')), dr_delete = (\<lambda>_. None),
     dr_auto_setup = True, dr_mcp_session = True\<rparr>"

definition idle :: "service progress" where
  "idle = \<lparr>pr_repo = new_service, pr_step = 0, pr_gate = [], pr_trace = []\<rparr>"

lemma failing_drivers_ordinary: "ordinary_closes (failing_drivers k)"
  by (simp add: ordinary_closes_def failing_drivers_def caught_def)

theorem lifespan_closes_connections_witness:
  "sv_open (pr_repo (snd (start_backends outside_settings (failing_drivers 3) idle)))
     = [CheckpointPool, RedisClient, PgPool]
   \<and> sv_open (pr_repo (snd (lifespan outside_settings (failing_drivers 3) [True, False] idle))) = []"
proof (rule conjI)
  show "sv_open (pr_repo (snd (start_backends outside_settings (failing_drivers 3) idle)))
     = [CheckpointPool, RedisClient, PgPool]" by code_simp
  show "sv_open (pr_repo (snd (lifespan outside_settings (failing_drivers 3) [True, False] idle))) = []"
    by (rule lifespan_closes_connections [OF failing_drivers_ordinary]) (simp add: idle_def)
qed

end
