(* ===== verification/Health.thy ===== *)
theory Health
  imports LifecycleSafety
begin

text \<open>
  Health and readiness: \<open>StateRuntime.health\<close> with its parts (\<open>src/app/state/runtime.py\<close>), the
  health of the in-memory and object stores, and the routes of \<open>src/app/api/routes/health.py\<close>.

  A check calls the drivers; what each call returned or raised is in \<open>health_calls\<close>. A check that
  runs into its timeout raises \<open>TimeoutError\<close>.
\<close>

section \<open>The state runtime\<close>

record health_calls =
  hc_conversation :: "jobj result"
  hc_runs :: "jobj result"
  hc_checkpoint :: "unit result"
  hc_artifacts :: "jobj result"
  hc_neo4j :: "jobj result"
  hc_pool :: jobj
  hc_driver :: jobj

definition history_text :: "history_backend \<Rightarrow> string" where
  "history_text b = (case b of MemoryHistory \<Rightarrow> ''memory'' | RedisHistory \<Rightarrow> ''redis'' | PostgresHistory \<Rightarrow> ''postgres'')"

definition artifacts_text :: "artifact_backend \<Rightarrow> string" where
  "artifacts_text b = (case b of NoArtifacts \<Rightarrow> ''disabled'' | MinioArtifacts \<Rightarrow> ''minio'')"

definition dependency_unavailable :: string where
  "dependency_unavailable = ''Dependency unavailable.''"

definition unavailable_entry :: "string \<Rightarrow> string \<Rightarrow> jobj" where
  "unavailable_entry backend message =
     [(''status'', JStr ''unavailable''), (''backend'', JStr backend), (''error'', JStr message)]"

definition shown :: "settings \<Rightarrow> string \<Rightarrow> string" where
  "shown st message = (if expose_internal_health_details st then message else dependency_unavailable)"

text \<open>\<open>try: payload[..] = await .. except Exception: ..\<close>.\<close>

definition health_entry :: "settings \<Rightarrow> string \<Rightarrow> (exn \<Rightarrow> string) \<Rightarrow> jobj result \<Rightarrow> jobj result" where
  "health_entry st backend message r =
     (case r of
        Inr entry \<Rightarrow> Inr entry
      | Inl e \<Rightarrow> if caught e then Inr (unavailable_entry backend (shown st (message e))) else Inl e)"

definition checkpoint_failure :: "exn \<Rightarrow> string" where
  "checkpoint_failure e =
     exn_class e @ '': '' @ (if strip (exn_text e) = [] then ''health check failed'' else strip (exn_text e))"

definition checkpoint_health :: "settings \<Rightarrow> health_calls \<Rightarrow> jobj result" where
  "checkpoint_health st hc =
     health_entry st (runs_text (checkpoint_backend st)) checkpoint_failure
       (bind_result (hc_checkpoint hc) (\<lambda>_.
          Inr [(''status'', JStr ''available''), (''backend'', JStr (runs_text (checkpoint_backend st)))]))"

text \<open>\<open>text or fallback\<close> for an optional text.\<close>

definition reason_or :: "string option \<Rightarrow> string \<Rightarrow> string" where
  "reason_or r d = (case r of None \<Rightarrow> d | Some t \<Rightarrow> if t = [] then d else t)"

definition given :: "string option \<Rightarrow> bool" where
  "given r \<longleftrightarrow> r \<noteq> None \<and> r \<noteq> Some []"

definition artifacts_health :: "settings \<Rightarrow> service \<Rightarrow> health_calls \<Rightarrow> jobj result" where
  "artifacts_health st s hc =
     (if sv_artifacts s then hc_artifacts hc
      else Inr (if artifact_backend st = MinioArtifacts
        then unavailable_entry ''minio'' (shown st (reason_or (sv_degraded s) ''artifact backend not started''))
        else [(''status'', JStr ''disabled''), (''backend'', JStr ''disabled'')]))"

definition neo4j_health :: "settings \<Rightarrow> service \<Rightarrow> health_calls \<Rightarrow> jobj result" where
  "neo4j_health st s hc =
     (if sv_neo4j s then health_entry st ''neo4j'' failure_text (hc_neo4j hc)
      else Inr (if neo4j_enabled st
        then unavailable_entry ''neo4j'' (shown st (reason_or (sv_neo4j_degraded s) ''Neo4j driver not started''))
        else [(''status'', JStr ''disabled''), (''backend'', JStr ''neo4j'')]))"

definition pool_bound :: "bool \<Rightarrow> int \<Rightarrow> json" where
  "pool_bound b n = JInt (if b then n else 0)"

definition connection_management_status :: "settings \<Rightarrow> int \<Rightarrow> service \<Rightarrow> health_calls \<Rightarrow> jobj" where
  "connection_management_status st neo4j_pool s hc =
     [(''postgres'', JObj (if \<not> sv_pool s
         then [(''status'', JStr ''disabled''), (''shared_asyncpg_pool'', JBool False)]
         else [(''status'', JStr ''available''), (''shared_asyncpg_pool'', JBool True)] @ hc_pool hc)),
      (''checkpoint'', JObj
        [(''driver'', JStr ''psycopg''), (''application_scoped'', JBool (sv_checkpoint_pool s)),
         (''pooled'', JBool (sv_checkpoint_pool s)),
         (''min_size'', pool_bound (sv_checkpoint_pool s) (postgres_pool_min_size st)),
         (''max_size'', pool_bound (sv_checkpoint_pool s) (postgres_pool_max_size st))]),
      (''redis'', JObj [(''application_scoped'', JBool (state_backend st = RedisHistory))]),
      (''minio'', JObj [(''application_scoped'', JBool (artifact_backend st = MinioArtifacts))]),
      (''neo4j'', JObj (if sv_neo4j s
         then [(''application_scoped'', JBool (sv_driver s)), (''pooled'', JBool (sv_driver s))] @ hc_driver hc
         else [(''application_scoped'', JBool False), (''pooled'', JBool False),
               (''max_connection_pool_size'', pool_bound (neo4j_enabled st) neo4j_pool)]))]"

definition state_payload ::
  "settings \<Rightarrow> int \<Rightarrow> service \<Rightarrow> health_calls \<Rightarrow> jobj \<Rightarrow> jobj \<Rightarrow> jobj \<Rightarrow> jobj \<Rightarrow> jobj \<Rightarrow> jobj" where
  "state_payload st neo4j_pool s hc conversation runs checkpoint artifacts neo4j =
     [(''status'', JStr (if given (sv_degraded s) \<or> given (sv_neo4j_degraded s) then ''degraded'' else ''available'')),
      (''conversation_backend'', JStr (history_text (state_backend st))),
      (''run_repository_backend'', JStr (runs_text (run_repository_backend st))),
      (''checkpoint_backend'', JStr (runs_text (checkpoint_backend st))),
      (''artifact_backend'', JStr (artifacts_text (artifact_backend st))),
      (''connection_management'', JObj (connection_management_status st neo4j_pool s hc))]
     @ (if given (sv_degraded s)
        then [(''degraded_reason'', JStr (if expose_internal_health_details st then the (sv_degraded s)
                 else ''Optional persistence dependency unavailable; using memory fallback.'')),
              (''effective_conversation_backend'', JStr ''memory''),
              (''effective_run_repository_backend'', JStr ''memory''),
              (''effective_checkpoint_backend'', JStr ''memory'')]
        else [])
     @ [(''conversation'', JObj conversation), (''runs'', JObj runs), (''checkpoint'', JObj checkpoint),
        (''artifacts'', JObj artifacts), (''neo4j'', JObj neo4j)]"

definition state_health :: "settings \<Rightarrow> int \<Rightarrow> service \<Rightarrow> health_calls \<Rightarrow> jobj result" where
  "state_health st neo4j_pool s hc =
     bind_result (hc_conversation hc) (\<lambda>conversation.
     bind_result (health_entry st (runs_text (run_repository_backend st)) failure_text (hc_runs hc)) (\<lambda>runs.
     bind_result (checkpoint_health st hc) (\<lambda>checkpoint.
     bind_result (artifacts_health st s hc) (\<lambda>artifacts.
     bind_result (neo4j_health st s hc) (\<lambda>neo4j.
       Inr (state_payload st neo4j_pool s hc conversation runs checkpoint artifacts neo4j))))))"

section \<open>The routes\<close>

text \<open>\<open>v\<close> is the version of the package.\<close>

definition health_route :: "settings \<Rightarrow> string \<Rightarrow> jobj" where
  "health_route st v = [(''status'', JStr ''ok''), (''service'', JStr (app_name st)), (''version'', JStr v)]"

definition live_health :: "settings \<Rightarrow> string \<Rightarrow> int \<times> jobj" where
  "live_health st v = (200, [(''status'', JStr ''alive''), (''service'', JStr (app_name st)), (''version'', JStr v)])"

definition safe_error :: "exn \<Rightarrow> bool \<Rightarrow> string" where
  "safe_error e expose =
     (if expose then (if strip (exn_text e) = [] then exn_class e else exn_class e @ '': '' @ strip (exn_text e))
      else dependency_unavailable)"

text \<open>The entry of a live source; \<open>error\<close> is \<open>None\<close> for a source without one.\<close>

definition source_error :: "inventory \<Rightarrow> string \<Rightarrow> string option" where
  "source_error li name = (case map_of (inv_errors li) name of Some m \<Rightarrow> if m = [] then None else Some m | None \<Rightarrow> None)"

definition error_json :: "settings \<Rightarrow> inventory \<Rightarrow> string \<Rightarrow> json" where
  "error_json st li name =
     (if expose_internal_health_details st
      then (case map_of (inv_errors li) name of None \<Rightarrow> JNull | Some m \<Rightarrow> JStr m)
      else if source_error li name \<noteq> None then JStr dependency_unavailable else JNull)"

definition models_available :: "inventory \<Rightarrow> bool" where
  "models_available li \<longleftrightarrow> source_error li ''ollama'' = None \<and> model_names li \<noteq> []"

definition tools_available :: "inventory \<Rightarrow> bool" where
  "tools_available li \<longleftrightarrow> source_error li ''mcp'' = None"

definition source_entry :: "settings \<Rightarrow> inventory \<Rightarrow> string \<Rightarrow> string \<Rightarrow> nat \<Rightarrow> bool \<Rightarrow> json" where
  "source_entry st li name counted n available = JObj
     [(''status'', JStr (if available then ''available'' else ''unavailable'')), (counted, JInt (int n)),
      (''cached'', JBool (inv_cached li)), (''error'', error_json st li name)]"

definition live_entries :: "settings \<Rightarrow> inventory \<Rightarrow> jobj" where
  "live_entries st li =
     (if llm_backend st = Ollama
      then [(''ollama'', source_entry st li ''ollama'' ''model_count'' (length (model_names li)) (models_available li))]
      else [])
     @ (if mcp_enabled st
        then [(''mcp'', source_entry st li ''mcp'' ''tool_count'' (length (tool_names li)) (tools_available li))]
        else [])"

definition status_in :: "jobj \<Rightarrow> string \<Rightarrow> string list \<Rightarrow> bool" where
  "status_in p part wanted \<longleftrightarrow> jget (obj_fields (jget p part)) ''status'' \<in> JStr ` set wanted"

text \<open>Whether the persistence part lets the service be ready.\<close>

definition persistence_ready :: "settings \<Rightarrow> jobj result \<Rightarrow> bool" where
  "persistence_ready st persistence \<longleftrightarrow>
     (case persistence of
        Inr p \<Rightarrow>
          (persistence_required st \<longrightarrow>
             status_in p ''conversation'' [''available''] \<and> status_in p ''runs'' [''available''] \<and>
             status_in p ''checkpoint'' [''available'']) \<and>
          (artifact_storage_required st \<longrightarrow> status_in p ''artifacts'' [''available'', ''disabled''])
      | Inl e \<Rightarrow> \<not> (persistence_required st \<or> artifact_storage_required st))"

definition persistence_entry :: "settings \<Rightarrow> jobj result \<Rightarrow> jobj" where
  "persistence_entry st persistence =
     (case persistence of
        Inr p \<Rightarrow> p
      | Inl e \<Rightarrow> [(''status'', JStr ''unavailable''),
                  (''error'', JStr (safe_error e (expose_internal_health_details st)))])"

definition service_ready :: "settings \<Rightarrow> inventory \<Rightarrow> jobj result \<Rightarrow> bool" where
  "service_ready st li persistence \<longleftrightarrow>
     (llm_backend st = Ollama \<longrightarrow> ollama_required st \<longrightarrow> models_available li) \<and>
     (mcp_enabled st \<longrightarrow> mcp_required st \<longrightarrow> tools_available li) \<and> persistence_ready st persistence"

definition ready_answer :: "settings \<Rightarrow> string \<Rightarrow> inventory \<Rightarrow> jobj result \<Rightarrow> jobj \<Rightarrow> int \<times> jobj" where
  "ready_answer st v li persistence startup =
     (let ready = service_ready st li persistence
      in (if ready then 200 else 503,
          [(''status'', JStr (if ready then ''ready'' else ''not_ready'')), (''service'', JStr (app_name st)),
           (''version'', JStr v),
           (''dependencies'', JObj (live_entries st li @
              [(''persistence'', JObj (persistence_entry st persistence))])),
           (''startup'', JObj startup)]))"

definition ready_health ::
  "settings \<Rightarrow> string \<Rightarrow> inventory \<Rightarrow> jobj result \<Rightarrow> jobj \<Rightarrow> (int \<times> jobj) result" where
  "ready_health st v li persistence startup =
     (case persistence of
        Inl e \<Rightarrow> if caught e then Inr (ready_answer st v li persistence startup) else Inl e
      | Inr _ \<Rightarrow> Inr (ready_answer st v li persistence startup))"

text \<open>\<open>current_agent.persistence_health()\<close> and \<open>dependency_startup_status()\<close> are read from the service.\<close>

definition service_ready_health ::
  "settings \<Rightarrow> string \<Rightarrow> int \<Rightarrow> inventory \<Rightarrow> service \<Rightarrow> health_calls \<Rightarrow> (int \<times> jobj) result" where
  "service_ready_health st v neo4j_pool li s hc =
     ready_health st v li (state_health st neo4j_pool s hc) (sv_startup s)"

section \<open>Readiness\<close>

lemma alist_lookup: "jget ((k, v) # kvs) n = (if k = n then v else jget kvs n)"
  by (simp add: jget_def)

lemma health_entry_cases:
  assumes "health_entry st backend message r = Inr entry"
  shows "r = Inr entry \<or> (\<exists>e. r = Inl e \<and> caught e \<and> entry = unavailable_entry backend (shown st (message e)))"
  using assms by (auto simp: health_entry_def split: sum.splits if_splits)

definition says :: "string list \<Rightarrow> jobj result \<Rightarrow> bool" where
  "says wanted r \<longleftrightarrow> (\<exists>entry. r = Inr entry \<and> jget entry ''status'' \<in> JStr ` set wanted)"

lemma status_entry:
  assumes "health_entry st backend message r = Inr entry"
  shows "jget entry ''status'' = JStr ''available'' \<longleftrightarrow> says [''available''] r"
  using health_entry_cases [OF assms] assms
  by (auto simp: says_def unavailable_entry_def alist_lookup)

lemma payload_parts:
  "jget (state_payload st n s hc c r k a g) ''status''
     = JStr (if given (sv_degraded s) \<or> given (sv_neo4j_degraded s) then ''degraded'' else ''available'')"
  "jget (state_payload st n s hc c r k a g) ''conversation'' = JObj c"
  "jget (state_payload st n s hc c r k a g) ''runs'' = JObj r"
  "jget (state_payload st n s hc c r k a g) ''checkpoint'' = JObj k"
  "jget (state_payload st n s hc c r k a g) ''artifacts'' = JObj a"
  by (simp_all add: state_payload_def alist_lookup)

lemma checkpoint_status:
  assumes "checkpoint_health st hc = Inr entry"
  shows "jget entry ''status'' = JStr ''available'' \<longleftrightarrow> is_ok (hc_checkpoint hc)"
  using assms
  by (cases "hc_checkpoint hc")
    (auto simp: checkpoint_health_def health_entry_def unavailable_entry_def alist_lookup split: if_splits)

lemma health_entry_raises: "health_entry st backend message r = Inl e \<Longrightarrow> \<not> caught e"
  by (auto simp: health_entry_def split: sum.splits if_splits)

lemma state_health_raises:
  assumes "state_health st n s hc = Inl e" and "caught e"
  shows "\<not> is_ok (hc_conversation hc) \<or> (sv_artifacts s \<and> \<not> is_ok (hc_artifacts hc))"
  using assms
  by (auto simp: state_health_def bind_result_Inl_iff checkpoint_health_def artifacts_health_def neo4j_health_def
      dest: health_entry_raises split: if_splits)


text \<open>Everything available; then an artifact store that is not required and does not answer.\<close>

definition all_available :: health_calls where
  "all_available = \<lparr>hc_conversation = Inr [(''status'', JStr ''available'')], hc_runs = Inr [(''status'', JStr ''available'')],
     hc_checkpoint = Inr (), hc_artifacts = Inr [(''status'', JStr ''available'')],
     hc_neo4j = Inr [(''status'', JStr ''available'')], hc_pool = [], hc_driver = []\<rparr>"

definition one_model :: inventory where
  "one_model = empty_inventory\<lparr>inv_models := [[(''name'', JStr ''m'')]]\<rparr>"

definition strict_settings :: settings where
  "strict_settings = outside_settings\<lparr>artifact_backend := MinioArtifacts, persistence_required := True\<rparr>"

definition with_artifacts :: service where
  "with_artifacts = new_service\<lparr>sv_artifacts := True\<rparr>"

definition artifacts_down :: health_calls where
  "artifacts_down = all_available\<lparr>hc_artifacts := Inl (RuntimeError ''refused'')\<rparr>"


section \<open>A failed start of the stores\<close>

text \<open>
  C19: when the stores cannot be started, nothing they opened stays open; if they are required
  the start of the agent fails with the same exception, otherwise it goes on in memory. The health
  of the fallback reads degraded exactly when the exception had a text.
\<close>

lemma failed_stores_fall_back:
  assumes "ordinary_closes D" and "pr_repo w = new_service"
    and failed: "runtime_start st D w = (Inl e, w1)" and "caught e"
  shows "case start_persistence st D w of
      (Inl e', w') \<Rightarrow> persistence_is_required st \<and> e' = e \<and> set (sv_open (pr_repo w')) \<inter> stores = {}
    | (Inr _, w') \<Rightarrow> \<not> persistence_is_required st \<and> set (sv_open (pr_repo w')) \<inter> stores = {} \<and>
        sv_conversations (pr_repo w') = MemoryConversations \<and> sv_runs (pr_repo w') = MemoryRuns \<and>
        sv_checkpointer (pr_repo w') = MemoryRuns \<and>
        (\<forall>n hc p. state_health st n (pr_repo w') hc = Inr p \<longrightarrow>
           (jget p ''status'' = JStr ''degraded'') = (exn_text e \<noteq> []))"
proof -
  let ?handler = "if \<not> caught e then raise_exn e
     else and_then (note_dependency ''persistence'' (unavailable (persistence_is_required st) e)) (\<lambda>_.
       if persistence_is_required st then raise_exn e
       else and_then (use_memory_fallback D (exn_text e)) (\<lambda>_.
         note_dependency ''persistence'' (alist_put ''status'' (JStr ''degraded'') (unavailable False e))))"
  have "without {CheckpointPool, RedisClient} (pr_repo w)" using assms(2) by simp
  from leadsD(2) [OF runtime_start_leads [OF assms(1)] this failed] assms(4)
  have pre: "accounted (pr_repo w1) \<and> (caught e \<longrightarrow> without stores (pr_repo w1))" by simp
  have start: "start_persistence st D w = ?handler w1"
    by (simp add: start_persistence_def except_with_def and_then_def failed)
  have health: "(jget p ''status'' = JStr ''degraded'') = (exn_text e \<noteq> [])"
    if "in_memory (exn_text e) s" and "state_health st n s hc = Inr p" for s n hc p
    using that by (auto simp: state_health_def bind_result_Inr_iff payload_parts in_memory_def given_def)
  note handler = leadsD [OF start_persistence_handler_leads [OF assms(1) assms(4), of st] pre]
  obtain r w' where result: "?handler w1 = (r, w')" by fastforce
  show ?thesis
  proof (cases r)
    case (Inl e')
    then show ?thesis using handler(2) result start by (simp add: without_def)
  next
    case (Inr u)
    then have mem: "\<not> persistence_is_required st \<and> in_memory (exn_text e) (pr_repo w')"
      using handler(1) result by simp
    then have "\<forall>n hc p. state_health st n (pr_repo w') hc = Inr p \<longrightarrow>
        (jget p ''status'' = JStr ''degraded'') = (exn_text e \<noteq> [])"
      using health by blast
    then show ?thesis using Inr result start mem by (simp add: in_memory_def without_def)
  qed
qed

theorem failed_stores_fall_back_witness:
  "runtime_start outside_settings (failing_drivers 3) idle \<noteq> (Inr (), idle)
   \<and> (case start_persistence outside_settings (failing_drivers 3) idle of
        (Inl e, w) \<Rightarrow> False
      | (Inr _, w) \<Rightarrow> sv_conversations (pr_repo w) = MemoryConversations \<and>
          (\<forall>n hc p. state_health outside_settings n (pr_repo w) hc = Inr p \<longrightarrow> jget p ''status'' \<noteq> JStr ''degraded''))"
proof -
  let ?st = outside_settings and ?D = "failing_drivers 3"
  have fails: "fst (runtime_start ?st ?D idle) = Inl TimeoutError" by code_simp
  then obtain w1 where failed: "runtime_start ?st ?D idle = (Inl TimeoutError, w1)"
    by (cases "runtime_start ?st ?D idle") auto
  have optional: "\<not> persistence_is_required ?st" by code_simp
  have fresh: "pr_repo idle = new_service" and ordinary: "caught TimeoutError" by (simp_all add: idle_def caught_def)
  from failed_stores_fall_back [OF failing_drivers_ordinary fresh failed ordinary] failed optional
  show ?thesis by (auto split: prod.splits sum.splits)
qed

section \<open>Hidden details\<close>

text \<open>Two results of which either both raise ordinary exceptions or both are the same.\<close>

definition alike :: "'a result \<Rightarrow> 'a result \<Rightarrow> bool" where
  "alike r r' \<longleftrightarrow> r = r' \<or> (\<exists>e e'. r = Inl e \<and> r' = Inl e' \<and> caught e \<and> caught e')"

definition calls_alike :: "health_calls \<Rightarrow> health_calls \<Rightarrow> bool" where
  "calls_alike hc hc' \<longleftrightarrow>
     alike (hc_conversation hc) (hc_conversation hc') \<and> alike (hc_runs hc) (hc_runs hc') \<and>
     alike (hc_checkpoint hc) (hc_checkpoint hc') \<and> alike (hc_artifacts hc) (hc_artifacts hc') \<and>
     alike (hc_neo4j hc) (hc_neo4j hc') \<and> hc_pool hc = hc_pool hc' \<and> hc_driver hc = hc_driver hc'"

definition inventories_alike :: "inventory \<Rightarrow> inventory \<Rightarrow> bool" where
  "inventories_alike li li' \<longleftrightarrow>
     inv_models li = inv_models li' \<and> inv_tools li = inv_tools li' \<and> inv_cached li = inv_cached li' \<and>
     (\<forall>k. (source_error li k = None) = (source_error li' k = None))"

lemma alike_bind: "alike r r' \<Longrightarrow> (\<And>x. alike (f x) (f' x)) \<Longrightarrow> alike (bind_result r f) (bind_result r' f')"
  unfolding alike_def by (elim disjE exE conjE) (cases r'; simp)+

lemma alike_refl: "alike r r"
  by (simp add: alike_def)

lemma alike_entry:
  "\<not> expose_internal_health_details st \<Longrightarrow> alike r r' \<Longrightarrow> health_entry st b m r = health_entry st b m r'"
  by (auto simp: alike_def health_entry_def shown_def)

lemma alike_inventory:
  assumes "inventories_alike li li'"
  shows "model_names li = model_names li'" "tool_names li = tool_names li'"
    "models_available li = models_available li'" "tools_available li = tools_available li'"
    "\<not> expose_internal_health_details st \<Longrightarrow> live_entries st li = live_entries st li'"
proof -
  show names: "model_names li = model_names li'" "tool_names li = tool_names li'"
    using assms by (simp_all add: inventories_alike_def model_names_def tool_names_def)
  show live: "models_available li = models_available li'" "tools_available li = tools_available li'"
    using assms names by (simp_all add: inventories_alike_def models_available_def tools_available_def)
  show "live_entries st li = live_entries st li'" if "\<not> expose_internal_health_details st"
    using that assms names live
    by (simp add: live_entries_def source_entry_def error_json_def inventories_alike_def)
qed


definition runs_down :: "string \<Rightarrow> health_calls" where
  "runs_down m = all_available\<lparr>hc_runs := Inl (RuntimeError m)\<rparr>"

definition fallen_back :: "string \<Rightarrow> service" where
  "fallen_back m = new_service\<lparr>sv_degraded := Some m,
     sv_startup := [(''persistence'', JObj (unavailable False (RuntimeError m)))]\<rparr>"


end
