(* ===== verification/Api.thy ===== *)
theory Api
  imports RuntimeReplies Health "HOL-Library.Sublist"
begin

text \<open>
  The HTTP surface of the chat: the key check (\<open>src/app/api/dependencies.py\<close>), the exception
  handlers (\<open>src/app/api/exception_handlers.py\<close>), the two chat routes
  (\<open>src/app/api/routes/chat.py\<close>) over the event stream of the runtime
  (\<open>ChatRuntimeAgent.astream_events\<close>, \<open>src/app/observability/events.py\<close>) and its encoding as
  server-sent events (\<open>encode_sse\<close> in \<open>src/app/graph.py\<close>), with the decoder a client of that
  format runs.
\<close>

section \<open>Answers\<close>

text \<open>A status code and a JSON body; \<open>None\<close> lets the request pass.\<close>

definition require_api_key :: "settings \<Rightarrow> string option \<Rightarrow> (int \<times> jobj) option" where
  "require_api_key st key =
     (if api_key st \<noteq> [] \<and> key \<noteq> Some (api_key st)
      then Some (401, [(''detail'', JStr ''Invalid or missing API key.'')]) else None)"

text \<open>\<open>status_code\<close> and \<open>error_code\<close> of the subclasses of \<open>RequestIdentityError\<close>.\<close>

fun identity_error :: "exn \<Rightarrow> (int \<times> string) option" where
  "identity_error (ConversationBusyError _) = Some (409, ''conversation_busy'')"
| "identity_error (RunConflictError _) = Some (409, ''run_conflict'')"
| "identity_error (StaleLeaseError _) = Some (409, ''stale_lease'')"
| "identity_error (RunNotResumableError _) = Some (409, ''run_not_resumable'')"
| "identity_error (ResumeTokenInvalidError _) = Some (401, ''invalid_resume_token'')"
| "identity_error (ResumeTokenRevokedError _) = Some (401, ''resume_revoked'')"
| "identity_error (ResumeTokenExpiredError _) = Some (410, ''resume_expired'')"
| "identity_error (ResumeRunNotFoundError _) = Some (404, ''resumable_run_not_found'')"
| "identity_error (IncompatibleRunStateError _) = Some (409, ''incompatible_run_state'')"
| "identity_error _ = None"

definition unhandled_answer :: "int \<times> jobj" where
  "unhandled_answer = (500, [(''detail'', JStr ''Internal server error.'')])"

definition identity_answer :: "int \<times> string \<Rightarrow> exn \<Rightarrow> int \<times> jobj" where
  "identity_answer c e =
     (fst c, [(''detail'', JObj [(''code'', JStr (snd c)), (''message'', JStr (exn_text e))])])"

text \<open>A cancellation ends the connection without an answer.\<close>

definition chat_answer :: "chat_reply result \<Rightarrow> (int \<times> jobj) result" where
  "chat_answer r =
     (case r of
        Inr reply \<Rightarrow> Inr (200, dump_response reply)
      | Inl e \<Rightarrow>
          (case identity_error e of
             Some c \<Rightarrow> Inr (identity_answer c e)
           | None \<Rightarrow> if caught e then Inr unhandled_answer else Inl e))"

definition chat_route ::
  "(string \<Rightarrow> pyfloat) \<Rightarrow> settings \<Rightarrow> identity_service \<Rightarrow> 'st repo_ops \<Rightarrow> 'st surroundings \<Rightarrow> string \<Rightarrow> string
   \<Rightarrow> string option \<Rightarrow> chat_request \<Rightarrow> 'st progress \<Rightarrow> (int \<times> jobj) result \<times> 'st progress" where
  "chat_route fl st svc R E u1 u2 key q w =
     (case require_api_key st key of
        Some refused \<Rightarrow> (Inr refused, w)
      | None \<Rightarrow> (case chat_ainvoke fl st svc R E u1 u2 q w of (r, w') \<Rightarrow> (chat_answer r, w')))"

section \<open>The event stream\<close>

record stream_event =
  ev_name :: string
  ev_data :: jobj
  ev_time :: json

definition encode_sse :: "string \<Rightarrow> jobj \<Rightarrow> string" where
  "encode_sse name body =
     ''event: '' @ name @ [CHR 0x0A] @ ''data: '' @ json_dumps (JObj body) @ [CHR 0x0A, CHR 0x0A]"

definition encode_event :: "stream_event \<Rightarrow> string" where
  "encode_event ev = encode_sse (ev_name ev) (ev_data ev)"

definition run_started :: "identity_service \<Rightarrow> run_identity \<Rightarrow> string \<Rightarrow> jobj" where
  "run_started svc i token =
     [(''thread_id'', JStr (ri_conversation i)), (''conversation_id'', JStr (ri_conversation i)),
      (''run_id'', JStr (ri_run i)), (''execution_thread_id'', JStr (ri_thread i)),
      (''resumed'', JBool (ri_resumed i)), (''resume_token'', JStr token),
      (''resume_token_expires_in_seconds'', JInt (is_ttl svc))]"

definition run_named :: "run_identity \<Rightarrow> jobj" where
  "run_named i = [(''conversation_id'', JStr (ri_conversation i)), (''run_id'', JStr (ri_run i))]"

text \<open>
  The events before the answer: \<open>beats\<close> is how often the loop woke up before the task was done,
  \<open>clock\<close> the time stamps.
\<close>

definition progress_events ::
  "identity_service \<Rightarrow> run_identity \<Rightarrow> string \<Rightarrow> nat \<Rightarrow> (nat \<Rightarrow> json) \<Rightarrow> stream_event list" where
  "progress_events svc i token beats clock =
     [\<lparr>ev_name = ''request_started'', ev_data = run_started svc i token, ev_time = clock 0\<rparr>,
      \<lparr>ev_name = ''planning_started'', ev_data = run_named i, ev_time = clock 1\<rparr>]
     @ map (\<lambda>k. \<lparr>ev_name = ''working'', ev_data = (''stage'', JStr ''agent_graph'') # run_named i,
                  ev_time = clock (k + 2)\<rparr>) [0..<beats]"

definition completed_event :: "chat_reply \<Rightarrow> json \<Rightarrow> stream_event" where
  "completed_event reply t = \<lparr>ev_name = ''completed'', ev_data = [(''response'', JObj (dump_response reply))], ev_time = t\<rparr>"

definition stream_identity ::
  "(string \<Rightarrow> pyfloat) \<Rightarrow> identity_service \<Rightarrow> 'st surroundings \<Rightarrow> string \<Rightarrow> string \<Rightarrow> chat_request
   \<Rightarrow> ('st, run_identity \<times> string) act" where
  "stream_identity fl svc E u1 u2 q =
     and_then (now_of E) (\<lambda>now.
     and_then (of_result (normalize_request fl svc (now div 1000000) u1 u2 q)) (\<lambda>i.
     and_then (now_of E) (\<lambda>later.
     and_then (of_result (issue_resume_token svc (later div 1000000) i)) (\<lambda>token.
       done_with (i, token)))))"

text \<open>The events a request yields and the exception that ends them, if any.\<close>

definition astream_events ::
  "(string \<Rightarrow> pyfloat) \<Rightarrow> settings \<Rightarrow> identity_service \<Rightarrow> 'st repo_ops \<Rightarrow> 'st surroundings \<Rightarrow> string \<Rightarrow> string
   \<Rightarrow> chat_request \<Rightarrow> nat \<Rightarrow> (nat \<Rightarrow> json) \<Rightarrow> 'st progress \<Rightarrow> (stream_event list \<times> exn option) \<times> 'st progress" where
  "astream_events fl st svc R E u1 u2 q beats clock w =
     (case stream_identity fl svc E u1 u2 q w of
        (Inl e, w') \<Rightarrow> (([], Some e), w')
      | (Inr (i, token), w') \<Rightarrow>
          (case ainvoke_with_identity st svc R E q i w' of
             (Inl e, w'') \<Rightarrow> ((progress_events svc i token beats clock, Some e), w'')
           | (Inr reply, w'') \<Rightarrow>
               ((progress_events svc i token beats clock @ [completed_event reply (clock (beats + 2))], None), w'')))"

text \<open>The route sends until the client is gone: the frames, and whether it went.\<close>

fun send_events :: "(nat \<Rightarrow> bool) \<Rightarrow> nat \<Rightarrow> stream_event list \<Rightarrow> string list \<times> bool" where
  "send_events gone n [] = ([], False)"
| "send_events gone n (ev # evs) =
     (if gone n then ([], True)
      else case send_events gone (Suc n) evs of (frames, left) \<Rightarrow> (encode_event ev # frames, left))"

definition error_event :: "exn \<Rightarrow> jobj" where
  "error_event e =
     (case identity_error e of
        Some (status, tag) \<Rightarrow>
          [(''code'', JStr tag), (''status_code'', JInt status), (''message'', JStr (exn_text e))]
      | None \<Rightarrow> [(''message'', JStr (safe_error e False))])"

definition stream_frames :: "(nat \<Rightarrow> bool) \<Rightarrow> stream_event list \<times> exn option \<Rightarrow> string list \<times> exn option" where
  "stream_frames gone out =
     (case send_events gone 0 (fst out) of
        (frames, True) \<Rightarrow> (frames, None)
      | (frames, False) \<Rightarrow>
          (case snd out of
             None \<Rightarrow> (frames, None)
           | Some e \<Rightarrow> if caught e then (frames @ [encode_sse ''error'' (error_event e)], None) else (frames, Some e)))"

datatype stream_answer = Refused "int \<times> jobj" | Streamed "string list" "exn option"

definition chat_stream_route ::
  "(string \<Rightarrow> pyfloat) \<Rightarrow> settings \<Rightarrow> identity_service \<Rightarrow> 'st repo_ops \<Rightarrow> 'st surroundings \<Rightarrow> string \<Rightarrow> string
   \<Rightarrow> string option \<Rightarrow> chat_request \<Rightarrow> (nat \<Rightarrow> bool) \<Rightarrow> nat \<Rightarrow> (nat \<Rightarrow> json) \<Rightarrow> 'st progress
   \<Rightarrow> stream_answer \<times> 'st progress" where
  "chat_stream_route fl st svc R E u1 u2 key q gone beats clock w =
     (case require_api_key st key of
        Some refused \<Rightarrow> (Refused refused, w)
      | None \<Rightarrow>
          (case astream_events fl st svc R E u1 u2 q beats clock w of
             (out, w') \<Rightarrow> (case stream_frames gone out of (frames, raised) \<Rightarrow> (Streamed frames raised, w'))))"

section \<open>The client's decoder\<close>

text \<open>
  The line rules of the event stream format: lines end with LF, CR or both; an empty line ends an
  event; what follows the last empty line is discarded.
\<close>

fun plain_newlines :: "string \<Rightarrow> string" where
  "plain_newlines [] = []"
| "plain_newlines [c] = (if c = CHR 0x0D then [CHR 0x0A] else [c])"
| "plain_newlines (c # d # cs) =
     (if c = CHR 0x0D then (if d = CHR 0x0A then CHR 0x0A # plain_newlines cs else CHR 0x0A # plain_newlines (d # cs))
      else c # plain_newlines (d # cs))"

definition sse_field :: "string \<Rightarrow> string \<times> string" where
  "sse_field line =
     (let name = takeWhile (\<lambda>c. c \<noteq> CHR '':'') line; rest = drop (Suc (length name)) line
      in (name, if starts_with '' '' rest then tl rest else rest))"

fun sse_read :: "string \<Rightarrow> string list \<Rightarrow> string list \<Rightarrow> (string \<times> string) list" where
  "sse_read name body [] = []"
| "sse_read name body (l # ls) =
     (if l = [] then
        (if body = [] then sse_read [] [] ls
         else ((if name = [] then ''message'' else name), join [CHR 0x0A] body) # sse_read [] [] ls)
      else case sse_field l of (f, v) \<Rightarrow>
        if f = ''event'' then sse_read v body ls
        else if f = ''data'' then sse_read name (body @ [v]) ls
        else sse_read name body ls)"

definition decode_sse :: "string \<Rightarrow> (string \<times> string) list" where
  "decode_sse s = sse_read [] [] (butlast (split_where (\<lambda>c. c = CHR 0x0A) (plain_newlines s)))"

section \<open>Frames are read back\<close>

definition line_char :: "char \<Rightarrow> bool" where
  "line_char c \<longleftrightarrow> c \<noteq> CHR 0x0A \<and> c \<noteq> CHR 0x0D"

definition one_line :: "string \<Rightarrow> bool" where
  "one_line s \<longleftrightarrow> list_all line_char s"

text \<open>No float of the value is written with a line break.\<close>

fun floats_in_line :: "json \<Rightarrow> bool" where
  "floats_in_line (JFloat f) = one_line (json_float f)"
| "floats_in_line (JList xs) = list_all floats_in_line xs"
| "floats_in_line (JObj kvs) = list_all (\<lambda>kv. floats_in_line (snd kv)) kvs"
| "floats_in_line _ = True"

lemma one_line_simps [simp]:
  "one_line []" "one_line (c # s) = (line_char c \<and> one_line s)" "one_line (s @ t) = (one_line s \<and> one_line t)"
  by (simp_all add: one_line_def)

lemma one_line_concat: "one_line (concat ss) = list_all one_line ss"
  by (induction ss) simp_all

lemma line_char_code: "line_char c \<longleftrightarrow> of_char c \<noteq> (10 :: nat) \<and> of_char c \<noteq> (13 :: nat)"
proof -
  have "c = CHR 0x0A \<longleftrightarrow> of_char c = (of_char (CHR 0x0A) :: nat)" "c = CHR 0x0D \<longleftrightarrow> of_char c = (of_char (CHR 0x0D) :: nat)"
    by (simp_all only: of_char_eq_iff)
  then show ?thesis by (simp add: line_char_def)
qed

lemma line_char_of: "n < 256 \<Longrightarrow> line_char (char_of n) \<longleftrightarrow> n \<noteq> 10 \<and> n \<noteq> (13 :: nat)"
  by (simp add: line_char_code)

lemma hex_digit_line: "n < 16 \<Longrightarrow> line_char (hex_digit n)"
  by (simp add: hex_digit_def line_char_of)

lemma json_char_line: "one_line (json_char c)"
proof -
  have "of_char c div 16 < (16 :: nat)"
    by (rule less_mult_imp_div_less) simp
  then have "line_char (hex_digit (of_char c div 16))" "line_char (hex_digit (of_char c mod 16))"
    by (simp_all add: hex_digit_line)
  then show ?thesis
    by (auto simp: json_char_def Let_def line_char_code)
qed

lemma json_string_line: "one_line (json_string s)"
  by (simp add: json_string_def one_line_concat list_all_iff json_char_line line_char_of)

lemma digits_line: "one_line (digits n)"
proof -
  have "line_char c" if "is_decimal c" for c
    using that by (auto simp: is_decimal_def line_char_code)
  then show ?thesis
    using digits_decimal [of n] by (auto simp: one_line_def list_all_iff)
qed

lemma show_int_line: "one_line (show_int i)"
  by (simp add: show_int_def digits_line line_char_code)

lemma join_line: "one_line sep \<Longrightarrow> list_all one_line ss \<Longrightarrow> one_line (join sep ss)"
  by (induction sep ss rule: join.induct) simp_all

lemma dumps_line:
  "one_line isep \<Longrightarrow> one_line ksep \<Longrightarrow> floats_in_line v \<Longrightarrow> one_line (dumps isep ksep False v)"
proof (induction isep ksep "False" v rule: dumps.induct)
  case (6 isep ksep xs)
  then show ?case by (auto intro!: join_line simp: list_all_iff line_char_code)
next
  case (7 isep ksep kvs)
  have "one_line (json_string (fst kv) @ ksep @ dumps isep ksep False (snd kv))" if "kv \<in> set kvs" for kv
    using 7(1) [OF that 7(2,3)] 7(3,4) that by (simp add: list_all_iff json_string_line del: dumps.simps)
  then show ?case
    using 7(2) by (auto intro!: join_line simp: list_all_iff line_char_code comp_def)
qed (simp_all add: line_char_code json_string_line show_int_line)

lemma json_dumps_line: "floats_in_line v \<Longrightarrow> one_line (json_dumps v)"
  unfolding json_dumps_def by (rule dumps_line) (simp_all add: line_char_code)

lemma plain_newlines_id: "CHR 0x0D \<notin> set s \<Longrightarrow> plain_newlines s = s"
  by (induction s rule: plain_newlines.induct) auto

lemma split_line:
  "one_line l \<Longrightarrow> split_where (\<lambda>c. c = CHR 0x0A) (l @ CHR 0x0A # s) = l # split_where (\<lambda>c. c = CHR 0x0A) s"
  by (induction l) (auto simp: line_char_def)

lemma split_last_line: "one_line l \<Longrightarrow> split_where (\<lambda>c. c = CHR 0x0A) l = [l]"
  by (induction l) (auto simp: line_char_def)

lemma split_nonempty [simp]: "split_where p s \<noteq> []"
  by (induction s) (auto split: list.splits)

abbreviation complete_lines :: "string \<Rightarrow> string list" where
  "complete_lines s \<equiv> butlast (split_where (\<lambda>c. c = CHR 0x0A) s)"

lemma complete_line: "one_line l \<Longrightarrow> complete_lines (l @ CHR 0x0A # s) = l # complete_lines s"
  by (simp add: split_line)

lemma no_complete_line: "one_line l \<Longrightarrow> complete_lines l = []"
  by (simp add: split_last_line)

definition frame :: "string \<times> string \<Rightarrow> string" where
  "frame ev = ''event: '' @ fst ev @ [CHR 0x0A] @ ''data: '' @ snd ev @ [CHR 0x0A, CHR 0x0A]"

definition framed :: "string \<times> string \<Rightarrow> bool" where
  "framed ev \<longleftrightarrow> fst ev \<noteq> [] \<and> one_line (fst ev) \<and> one_line (snd ev)"

lemma frame_lines:
  "framed ev \<Longrightarrow> complete_lines (frame ev @ s) = (''event: '' @ fst ev) # (''data: '' @ snd ev) # [] # complete_lines s"
  using complete_line [of "''event: '' @ fst ev" "''data: '' @ snd ev @ CHR 0x0A # CHR 0x0A # s"]
    complete_line [of "''data: '' @ snd ev" "CHR 0x0A # s"] complete_line [of "[]" s]
  by (simp add: frame_def framed_def line_char_code)

lemma read_fields:
  "sse_read name body ((''event: '' @ v) # ls) = sse_read v body ls"
  "sse_read name body ((''data: '' @ v) # ls) = sse_read name (body @ [v]) ls"
  by (simp_all add: sse_field_def Let_def starts_with_def)

lemma read_frame:
  "framed ev \<Longrightarrow> sse_read [] [] (complete_lines (frame ev @ s)) = ev # sse_read [] [] (complete_lines s)"
  by (cases ev) (simp only: frame_lines read_fields append_Nil, simp add: framed_def)

text \<open>A frame that is cut off says nothing.\<close>

lemma read_cut_frame:
  assumes "framed ev" and "k < length (frame ev)"
  shows "sse_read [] [] (complete_lines (take k (frame ev))) = []"
proof -
  define l m where "l = ''event: '' @ fst ev" and "m = ''data: '' @ snd ev"
  have lines: "one_line l" "one_line m" using assms(1) by (simp_all add: framed_def line_char_code l_def m_def)
  have frame: "frame ev = l @ CHR 0x0A # m @ [CHR 0x0A, CHR 0x0A]" by (simp add: frame_def l_def m_def)
  have reads: "sse_read name body (l # ls) = sse_read (fst ev) body ls"
      "sse_read name body (m # ls) = sse_read name (body @ [snd ev]) ls" for name body ls
    by (simp_all only: l_def m_def read_fields)
  have part: "one_line (take j x)" if "one_line x" for j x
    using that by (auto simp: one_line_def list_all_iff dest: in_set_takeD)
  consider "k \<le> length l" | "length l < k" "k \<le> Suc (length l + length m)" | "k = Suc (Suc (length l + length m))"
    using assms(2) by (fastforce simp: frame)
  then show ?thesis
  proof cases
    case 1
    then have "take k (frame ev) = take k l" by (simp add: frame)
    then show ?thesis by (simp add: no_complete_line part lines)
  next
    case 2
    then have "take k (frame ev) = l @ CHR 0x0A # take (k - Suc (length l)) m"
      using Suc_diff_Suc [OF 2(1)] by (simp add: frame flip: Suc_diff_Suc)
    then show ?thesis by (simp add: complete_line no_complete_line part lines reads del: sse_read.simps(2))
  next
    case 3
    then have "take k (frame ev) = l @ CHR 0x0A # m @ CHR 0x0A # []" by (simp add: frame)
    then show ?thesis by (simp add: complete_line no_complete_line lines reads del: sse_read.simps(2))
  qed
qed

lemma read_frames:
  "list_all framed evs \<Longrightarrow> sse_read [] [] (complete_lines (concat (map frame evs))) = evs"
  by (induction evs) (simp_all add: read_frame no_complete_line)

lemma read_cut_frames:
  "list_all framed evs \<Longrightarrow> prefix (sse_read [] [] (complete_lines (take k (concat (map frame evs))))) evs"
proof (induction evs arbitrary: k)
  case (Cons ev evs)
  show ?case
  proof (cases "k < length (frame ev)")
    case True
    then show ?thesis using Cons.prems by (simp add: read_cut_frame)
  next
    case False
    then show ?thesis using Cons by (simp add: read_frame)
  qed
qed (simp add: no_complete_line)

lemma frame_has_no_return: "framed ev \<Longrightarrow> CHR 0x0D \<notin> set (frame ev)"
proof -
  have "CHR 0x0D \<notin> set s" if "one_line s" for s using that by (auto simp: one_line_def line_char_def list_all_iff)
  then show "framed ev \<Longrightarrow> CHR 0x0D \<notin> set (frame ev)" by (simp add: framed_def frame_def)
qed

lemma frames_have_no_return: "list_all framed evs \<Longrightarrow> CHR 0x0D \<notin> set (concat (map frame evs))"
  by (induction evs) (auto simp: frame_has_no_return)

section \<open>What a client reads\<close>

definition event_text :: "stream_event \<Rightarrow> string \<times> string" where
  "event_text ev = (ev_name ev, json_dumps (JObj (ev_data ev)))"

text \<open>How the stream of a finished request ends.\<close>

definition final_text :: "chat_reply result \<Rightarrow> string \<times> string" where
  "final_text r =
     (case r of
        Inr reply \<Rightarrow> (''completed'', json_dumps (JObj [(''response'', JObj (dump_response reply))]))
      | Inl e \<Rightarrow> (''error'', json_dumps (JObj (error_event e))))"

lemma encode_event_frame: "encode_event ev = frame (event_text ev)"
  by (simp add: encode_event_def encode_sse_def frame_def event_text_def)

lemma send_all: "send_events (\<lambda>_. False) n evs = (map encode_event evs, False)"
  by (induction evs arbitrary: n) simp_all

lemma decode_frames:
  assumes "list_all framed evs"
  shows "decode_sse (concat (map frame evs)) = evs"
    and "prefix (decode_sse (take k (concat (map frame evs)))) evs"
proof -
  note plain = frames_have_no_return [OF assms]
  then have "CHR 0x0D \<notin> set (take k (concat (map frame evs)))" by (meson in_set_takeD)
  then show "prefix (decode_sse (take k (concat (map frame evs)))) evs"
    by (simp add: decode_sse_def plain_newlines_id read_cut_frames [OF assms])
  show "decode_sse (concat (map frame evs)) = evs"
    using plain by (simp add: decode_sse_def plain_newlines_id read_frames [OF assms])
qed

lemma progress_framed: "list_all framed (map event_text (progress_events svc i token beats clock))"
  by (auto simp: list_all_iff progress_events_def event_text_def framed_def run_started_def run_named_def line_char_code
      intro!: json_dumps_line)

lemma final_framed:
  "(\<And>reply. r = Inr reply \<Longrightarrow> floats_in_line (JObj (cr_metadata reply))) \<Longrightarrow> framed (final_text r)"
  by (cases r; cases "case r of Inl e \<Rightarrow> identity_error e | Inr _ \<Rightarrow> None";
      cases "case r of Inr reply \<Rightarrow> cr_model reply | Inl _ \<Rightarrow> None")
    (auto simp: final_text_def framed_def line_char_code error_event_def dump_response_def intro!: json_dumps_line)


text \<open>The conversation of the sample request is taken.\<close>

definition taken :: "memory_runs progress" where
  "taken = (at_rest empty_memory_runs)\<lparr>pr_gate := [(''c'', ''x'')]\<rparr>"


end
