(* ===== verification/ModelServer.thy ===== *)
theory ModelServer
  imports Ollama
begin

text \<open>
  The two calls of \<open>OllamaClient\<close> beside chat and listing, \<open>embed\<close> and \<open>health\<close>
  (\<open>src/app/llm/ollama.py\<close>). \<open>to_float\<close> is \<open>float(value)\<close>, which may raise.
\<close>

section \<open>Embeddings\<close>

definition embed_payload :: "settings \<Rightarrow> string \<Rightarrow> string \<Rightarrow> json" where
  "embed_payload s model input =
     JObj [(''model'', JStr model), (''input'', JStr input), (''keep_alive'', JStr (ollama_keep_alive s))]"

text \<open>The body of the \<open>try\<close> up to the conversion: the entries of the first vector.\<close>

definition embed_vector :: "http_reply \<Rightarrow> json list result" where
  "embed_vector r =
     (case r of
        StatusError n text body \<Rightarrow> Inl (OllamaError (status_error_message n text body))
      | HttpError cls text \<Rightarrow> Inl (OllamaError (class_and_text cls text))
      | Interrupted \<Rightarrow> Inl CancelledError
      | Reply (JObj data) \<Rightarrow>
          (case or_else (jget data ''embeddings'') (JList []) of
             JList (JList vs # _) \<Rightarrow> Inr vs
           | JList (_ # _) \<Rightarrow> Inl (OllamaError ''Ollama returned an invalid embedding vector.'')
           | _ \<Rightarrow> Inl (OllamaError ''Ollama returned no embeddings.''))
      | Reply _ \<Rightarrow> Inl (OllamaError ''Ollama /api/embed returned a non-object payload.''))"

text \<open>The conversion runs inside the same \<open>try\<close>, after the attempt was marked a success.\<close>

fun conversion_error :: "exn \<Rightarrow> exn" where
  "conversion_error (ValueError m) = OllamaError (class_and_text ''ValueError'' m)"
| "conversion_error (TypeError m) = OllamaError (class_and_text ''TypeError'' m)"
| "conversion_error e = e"

definition embed_floats :: "(json \<Rightarrow> pyfloat result) \<Rightarrow> json list \<Rightarrow> pyfloat list result" where
  "embed_floats to_float vs =
     (case map_result to_float vs of Inl e \<Rightarrow> Inl (conversion_error e) | Inr fs \<Rightarrow> Inr fs)"

definition ollama_embed :: "(json \<Rightarrow> pyfloat result) \<Rightarrow> settings \<Rightarrow> string \<Rightarrow> string \<Rightarrow> pyfloat list eff" where
  "ollama_embed to_float s model input =
     ethen (meter_begin_model None)
       (ebind (ollama_post (embed_payload s model input)) (\<lambda>reply.
          ethen (meter_finish_model (is_ok (embed_vector reply)) [])
            (elift (bind_result (embed_vector reply) (embed_floats to_float)))))"

text \<open>
  An embedding is metered on every path: a refused attempt sends nothing; otherwise one request
  leaves, one attempt is counted, and it is closed.
\<close>

lemma begin_model_effect:
  assumes "meter_begin_model None w = (r, w1)"
  shows "w_chat_log w1 = w_chat_log w \<and>
    (case r of
       Inl e \<Rightarrow> w_meter w1 = w_meter w \<and> (\<exists>m. e = BudgetExceeded m)
     | Inr _ \<Rightarrow>
         physical_model_attempts (mstate (w_meter w1)) = physical_model_attempts (mstate (w_meter w)) + 1 \<and>
         model_successes (mstate (w_meter w1)) = model_successes (mstate (w_meter w)) \<and>
         model_failures (mstate (w_meter w1)) = model_failures (mstate (w_meter w)))"
  using assms
  by (auto simp: meter_begin_model_def ebind_def read_clock_def begin_model_attempt_def Let_def
      split: sum.splits option.splits if_splits)

lemma finish_model_closes:
  "model_successes (mstate (finish_model_attempt ok p g l f c)) + model_failures (mstate (finish_model_attempt ok p g l f c))
     = model_successes (mstate c) + model_failures (mstate c) + 1"
  by (simp add: finish_model_attempt_def Let_def split: option.splits)

lemma embed_is_metered:
  "case ollama_embed to_float s model input w of (r, w') \<Rightarrow>
     (if is_ok (fst (meter_begin_model None w))
      then length (w_chat_log w') = Suc (length (w_chat_log w)) \<and>
           physical_model_attempts (mstate (w_meter w')) = physical_model_attempts (mstate (w_meter w)) + 1 \<and>
           model_successes (mstate (w_meter w')) + model_failures (mstate (w_meter w')) =
             model_successes (mstate (w_meter w)) + model_failures (mstate (w_meter w)) + 1
      else w_chat_log w' = w_chat_log w \<and> (\<exists>m. r = Inl (BudgetExceeded m)) \<and> w_meter w' = w_meter w)"
proof -
  obtain r1 w1 where b: "meter_begin_model None w = (r1, w1)" by fastforce
  note start = begin_model_effect [OF b]
  show ?thesis
  proof (cases r1)
    case (Inl e)
    with start b show ?thesis by (auto simp: ollama_embed_def ethen_def ebind_def)
  next
    case (Inr u)
    with start b show ?thesis
      by (auto simp: ollama_embed_def ethen_def ebind_def ollama_post_def meter_finish_model_def put_meter_def
          finish_model_closes meter_simps elift_def split: prod.splits)
  qed
qed

text \<open>
  Failures come out as \<open>OllamaError\<close>, apart from a cancellation and from what \<open>float\<close> raises
  beside \<open>ValueError\<close> and \<open>TypeError\<close>: an integer too large for a float.
\<close>

lemma embed_vector_errors: "embed_vector r = Inl e \<Longrightarrow> e = CancelledError \<or> (\<exists>m. e = OllamaError m)"
  by (auto simp: embed_vector_def split: http_reply.splits json.splits list.splits)

section \<open>Health\<close>

definition named_model :: "jobj \<Rightarrow> json" where
  "named_model item = or_else (jget item ''name'') (jget item ''model'')"

definition ollama_health ::
  "settings \<Rightarrow> http_reply \<Rightarrow> string \<Rightarrow> time \<Rightarrow> time \<Rightarrow> time \<Rightarrow> http_reply \<Rightarrow> models_cache \<Rightarrow> jobj result \<times> models_cache" where
  "ollama_health s front front_text now now' done_at reply c =
     (case front of
        StatusError n text body \<Rightarrow> (Inl (OllamaError (status_error_message n text body)), c)
      | HttpError cls text \<Rightarrow> (Inl (OllamaError (class_and_text cls text)), c)
      | Interrupted \<Rightarrow> (Inl CancelledError, c)
      | Reply _ \<Rightarrow>
          (case list_models s True False now now' done_at reply c of
             (Inl e, c') \<Rightarrow> (Inl e, c')
           | (Inr models, c') \<Rightarrow>
               (Inr [(''status'', JStr ''available''), (''root'', JStr (strip front_text)),
                     (''models'', JList (map named_model models))], c')))"

text \<open>A health check never answers from the cache.\<close>

lemma health_is_fresh:
  assumes "ollama_health s front text now now' done_at reply c = (Inr h, c')"
  shows "\<exists>models. tags_outcome reply = Inr models \<and> jget h ''models'' = JList (map named_model models) \<and>
    mc_models c' = Some models"
  using assms
  by (auto simp: ollama_health_def list_models_def models_cache_fresh_def jget_def
      split: http_reply.splits prod.splits sum.splits exn.splits)

end
