(* ===== verification/Registry.thy ===== *)
theory Registry
  imports Identity
begin

text \<open>
  The process-local bookkeeping that the durable stores replaced and that is kept for callers of the
  old interface: \<open>RunRegistry\<close> (\<open>src/app/orchestration/run_identity.py\<close>) and the identity of a run
  without a token (\<open>src/app/orchestration/run_context.py\<close>).
\<close>

section \<open>The registry\<close>

type_synonym run_key = "string \<times> string"

text \<open>\<open>_RunRecord\<close>; the entries of the registry are in the order of their last use.\<close>

record registered =
  rg_hash :: string
  rg_status :: run_status
  rg_response :: "jobj option"

record run_registry =
  rg_ttl :: int
  rg_max :: nat
  rg_records :: "(run_key \<times> time \<times> registered) list"

definition registry_init :: "int \<Rightarrow> int \<Rightarrow> run_registry result" where
  "registry_init ttl max_records =
     (if ttl \<le> 0 then Inl (ValueError ''ttl_seconds must be positive'')
      else if max_records \<le> 0 then Inl (ValueError ''max_records must be positive'')
      else Inr \<lparr>rg_ttl = ttl, rg_max = nat max_records, rg_records = []\<rparr>)"

definition run_key_of :: "run_identity \<Rightarrow> run_key" where
  "run_key_of i = (ri_conversation i, ri_run i)"

definition is_running :: "run_key \<times> time \<times> registered \<Rightarrow> bool" where
  "is_running entry \<longleftrightarrow> rg_status (snd (snd entry)) = Running"

definition registry_purge :: "time \<Rightarrow> run_registry \<Rightarrow> run_registry" where
  "registry_purge now g =
     g\<lparr>rg_records := filter (\<lambda>e. \<not> (fst (snd e) < now - seconds (rg_ttl g) \<and> \<not> is_running e)) (rg_records g)\<rparr>"

text \<open>The oldest entry that is not running, if there is one, goes.\<close>

fun drop_idle :: "(run_key \<times> time \<times> registered) list \<Rightarrow> (run_key \<times> time \<times> registered) list option" where
  "drop_idle [] = None"
| "drop_idle (e # es) = (if is_running e then map_option ((#) e) (drop_idle es) else Some es)"

fun shrink :: "nat \<Rightarrow> (run_key \<times> time \<times> registered) list \<Rightarrow> (run_key \<times> time \<times> registered) list" where
  "shrink 0 es = es"
| "shrink (Suc n) es = (case drop_idle es of None \<Rightarrow> es | Some es' \<Rightarrow> shrink n es')"

definition registry_store :: "time \<Rightarrow> run_key \<Rightarrow> registered \<Rightarrow> run_registry \<Rightarrow> run_registry" where
  "registry_store now key r g =
     (let es = alist_put_last key (now, r) (rg_records g)
      in g\<lparr>rg_records := shrink (length es - rg_max g) es\<rparr>)"

definition assert_same_request :: "registered \<Rightarrow> run_identity \<Rightarrow> unit result" where
  "assert_same_request r i =
     (if rg_hash r \<noteq> ri_hash i
      then Inl (RunConflictError ''The supplied run_id is already bound to a different request payload'')
      else Inr ())"

definition registry_cached ::
  "string \<Rightarrow> time \<Rightarrow> run_identity \<Rightarrow> run_registry \<Rightarrow> chat_reply option result \<times> run_registry" where
  "registry_cached uuid now i g =
     (let g1 = registry_purge now g in
      case map_of (rg_records g1) (run_key_of i) of
        None \<Rightarrow> (Inr None, g1)
      | Some (_, r) \<Rightarrow>
          (case assert_same_request r i of
             Inl e \<Rightarrow> (Inl e, g1)
           | Inr _ \<Rightarrow>
               (let g2 = registry_store now (run_key_of i) r g1 in
                case (rg_status r, rg_response r) of
                  (Completed, Some payload) \<Rightarrow>
                    (case validate_chat_response uuid (JObj payload) of
                       None \<Rightarrow> (Inl (ValidationError ''ChatResponse''), g2)
                     | Some reply \<Rightarrow> (Inr (Some reply), g2))
                | _ \<Rightarrow> (Inr None, g2))))"

definition start_refused :: "registered \<Rightarrow> run_identity \<Rightarrow> exn option" where
  "start_refused r i =
     (case assert_same_request r i of
        Inl e \<Rightarrow> Some e
      | Inr _ \<Rightarrow>
          if rg_status r = Completed then Some (RunConflictError ''The run is already completed'')
          else if rg_status r = Running then Some (ConversationBusyError ''The run is already active'')
          else if \<not> ri_resumed i
            then Some (RunConflictError ''The run already exists; use its resume token to continue it'')
          else None)"

definition registry_start :: "time \<Rightarrow> run_identity \<Rightarrow> run_registry \<Rightarrow> unit result \<times> run_registry" where
  "registry_start now i g =
     (let g1 = registry_purge now g in
      case (case map_of (rg_records g1) (run_key_of i) of None \<Rightarrow> None | Some (_, r) \<Rightarrow> start_refused r i) of
        Some e \<Rightarrow> (Inl e, g1)
      | None \<Rightarrow>
          (Inr (), registry_store now (run_key_of i)
             \<lparr>rg_hash = ri_hash i, rg_status = Running, rg_response = None\<rparr> g1))"

definition registry_complete :: "time \<Rightarrow> run_identity \<Rightarrow> chat_reply \<Rightarrow> run_registry \<Rightarrow> run_registry" where
  "registry_complete now i reply g =
     registry_store now (run_key_of i)
       \<lparr>rg_hash = ri_hash i, rg_status = Completed, rg_response = Some (dump_response reply)\<rparr> g"

definition registry_interrupt :: "time \<Rightarrow> run_identity \<Rightarrow> run_registry \<Rightarrow> run_registry" where
  "registry_interrupt now i g =
     (case map_of (rg_records g) (run_key_of i) of
        None \<Rightarrow> g
      | Some (_, r) \<Rightarrow>
          if rg_status r = Completed then g
          else registry_store now (run_key_of i)
                 \<lparr>rg_hash = ri_hash i, rg_status = Interrupted_run, rg_response = None\<rparr> g)"

text \<open>\<open>RunIdentity.resolve\<close> of \<open>run_context.py\<close>: conversation, run and execution thread.\<close>

definition resolve_run :: "string option \<Rightarrow> string option \<Rightarrow> string option \<Rightarrow> string \<Rightarrow> string \<Rightarrow> string \<times> string \<times> string" where
  "resolve_run conversation run legacy u1 u2 =
     (let c = text_or conversation (text_or legacy u1); r = text_or run u2
      in (c, r, c @ '':'' @ r))"

section \<open>Bounds and exclusion\<close>

text \<open>
  The registry never holds two entries for a run, and it exceeds its bound only by runs that are
  still running.
\<close>

definition registry_ok :: "run_registry \<Rightarrow> bool" where
  "registry_ok g \<longleftrightarrow> distinct (map fst (rg_records g)) \<and>
     (rg_max g < length (rg_records g) \<longrightarrow> list_all is_running (rg_records g))"

lemma drop_idle_Some:
  "drop_idle es = Some es' \<Longrightarrow> length es = Suc (length es') \<and> filter is_running es' = filter is_running es \<and>
     (distinct (map fst es) \<longrightarrow> distinct (map fst es')) \<and> set es' \<subseteq> set es"
proof (induction es arbitrary: es')
  case (Cons e es)
  show ?case
  proof (cases "is_running e")
    case True
    then obtain z where z: "drop_idle es = Some z" "es' = e # z" using Cons.prems by auto
    have "fst ` set z \<subseteq> fst ` set es" using Cons.IH [OF z(1)] by blast
    then show ?thesis using True z(2) Cons.IH [OF z(1)] by auto
  next
    case False
    then show ?thesis using Cons.prems by auto
  qed
qed simp

lemma drop_idle_None: "drop_idle es = None \<longleftrightarrow> list_all is_running es"
  by (induction es) auto

lemma shrink_effect:
  "filter is_running (shrink n es) = filter is_running es \<and> set (shrink n es) \<subseteq> set es \<and>
     (distinct (map fst es) \<longrightarrow> distinct (map fst (shrink n es))) \<and>
     (length (shrink n es) + n = length es \<or> list_all is_running (shrink n es))"
proof (induction n es rule: shrink.induct)
  case (2 n es)
  show ?case
  proof (cases "drop_idle es")
    case None
    then have "list_all is_running es" by (simp only: drop_idle_None)
    then show ?thesis using None by simp
  next
    case (Some es')
    then show ?thesis using 2 drop_idle_Some [OF Some] by auto
  qed
qed simp

lemma registry_store_ok:
  assumes "distinct (map fst (rg_records g))"
  shows "registry_ok (registry_store now key r g)"
proof -
  let ?es = "alist_put_last key (now, r) (rg_records g)"
  show ?thesis
    using shrink_effect [of "length ?es - rg_max g" ?es] distinct_alist_put_last [OF assms]
    by (auto simp: registry_ok_def registry_store_def Let_def)
qed

lemma registry_purge_ok:
  assumes "registry_ok g"
  shows "registry_ok (registry_purge now g)"
proof -
  define kept where "kept = rg_records (registry_purge now g)"
  have "length kept \<le> length (rg_records g)" "set kept \<subseteq> set (rg_records g)"
    by (auto simp: kept_def registry_purge_def)
  moreover have "distinct (map fst kept)"
    using assms by (simp add: kept_def registry_purge_def registry_ok_def distinct_map_filter)
  moreover have "rg_max (registry_purge now g) = rg_max g" by (simp add: registry_purge_def)
  ultimately show ?thesis
    using assms unfolding registry_ok_def kept_def [symmetric] list_all_iff by fastforce
qed

lemma registry_cached_state:
  "snd (registry_cached uuid now i g) = registry_purge now g \<or>
   (\<exists>t r. map_of (rg_records (registry_purge now g)) (run_key_of i) = Some (t, r) \<and>
      snd (registry_cached uuid now i g) = registry_store now (run_key_of i) r (registry_purge now g))"
  by (simp add: registry_cached_def Let_def split: option.split sum.split run_status.split)

lemma registry_start_state:
  "registry_start now i g =
     (case (case map_of (rg_records (registry_purge now g)) (run_key_of i) of
              None \<Rightarrow> None | Some (_, r) \<Rightarrow> start_refused r i) of
        Some e \<Rightarrow> (Inl e, registry_purge now g)
      | None \<Rightarrow> (Inr (), registry_store now (run_key_of i)
                     \<lparr>rg_hash = ri_hash i, rg_status = Running, rg_response = None\<rparr> (registry_purge now g)))"
  by (simp add: registry_start_def Let_def)

lemma registry_started:
  "fst (registry_start now i g) = Inr () \<Longrightarrow>
     snd (registry_start now i g) = registry_store now (run_key_of i)
       \<lparr>rg_hash = ri_hash i, rg_status = Running, rg_response = None\<rparr> (registry_purge now g)"
  unfolding registry_start_state
  by (cases "case map_of (rg_records (registry_purge now g)) (run_key_of i) of None \<Rightarrow> None | Some (_, r) \<Rightarrow> start_refused r i")
    simp_all

lemma registry_steps_ok:
  assumes ok: "registry_ok g"
  shows "registry_ok (snd (registry_cached uuid now i g))" "registry_ok (snd (registry_start now i g))"
    "registry_ok (registry_complete now i reply g)" "registry_ok (registry_interrupt now i g)"
proof -
  have purged: "registry_ok (registry_purge now g)" by (rule registry_purge_ok [OF ok])
  then have stored: "registry_ok (registry_store now key r (registry_purge now g))" for key r
    by (intro registry_store_ok) (simp add: registry_ok_def)
  have direct: "registry_ok (registry_store now key r g)" for key r
    using ok by (intro registry_store_ok) (simp add: registry_ok_def)
  show "registry_ok (snd (registry_cached uuid now i g))"
    using registry_cached_state [of uuid now i g] purged stored by metis
  show "registry_ok (snd (registry_start now i g))"
    using purged stored by (simp add: registry_start_state split: option.split)
  show "registry_ok (registry_complete now i reply g)" "registry_ok (registry_interrupt now i g)"
    using ok direct by (auto simp: registry_complete_def registry_interrupt_def split: option.split)
qed

text \<open>A running entry survives every store of another run and every purge.\<close>

definition runs_now :: "run_key \<Rightarrow> run_registry \<Rightarrow> bool" where
  "runs_now key g \<longleftrightarrow> (\<exists>t r. map_of (rg_records g) key = Some (t, r) \<and> rg_status r = Running)"

lemma runs_now_iff:
  assumes d: "distinct (map fst (rg_records g))"
  shows "runs_now key g \<longleftrightarrow> (\<exists>e \<in> set (filter is_running (rg_records g)). fst e = key)"
proof
  assume "runs_now key g"
  then obtain t r where e: "map_of (rg_records g) key = Some (t, r)" "rg_status r = Running"
    by (auto simp: runs_now_def)
  from map_of_SomeD [OF e(1)] e(2) show "\<exists>e \<in> set (filter is_running (rg_records g)). fst e = key"
    by (intro bexI [of _ "(key, t, r)"]) (simp_all add: is_running_def)
next
  assume "\<exists>e \<in> set (filter is_running (rg_records g)). fst e = key"
  then obtain t r where e: "(key, t, r) \<in> set (rg_records g)" "rg_status r = Running"
    by (auto simp: is_running_def)
  then have "map_of (rg_records g) key = Some (t, r)" using d by (simp add: map_of_is_SomeI)
  then show "runs_now key g" using e(2) by (auto simp: runs_now_def)
qed

lemma runs_now_store:
  assumes "distinct (map fst (rg_records g))" and "runs_now key g" and "key' \<noteq> key"
  shows "runs_now key (registry_store now key' r g)"
proof -
  let ?es = "alist_put_last key' (now, r) (rg_records g)"
  let ?n = "length ?es - rg_max g"
  have d: "distinct (map fst ?es)" "distinct (map fst (shrink ?n ?es))"
    using distinct_alist_put_last [OF assms(1)] shrink_effect [of ?n ?es] by auto
  obtain e where e: "e \<in> set (filter is_running (rg_records g))" "fst e = key"
    using assms(2) runs_now_iff [OF assms(1)] by blast
  then have "e \<in> set (filter is_running (shrink ?n ?es))"
    using assms(3) shrink_effect [of ?n ?es] by (auto simp: alist_put_last_def alist_del_def)
  moreover have "rg_records (registry_store now key' r g) = shrink ?n ?es" by (simp add: registry_store_def Let_def)
  ultimately show ?thesis using e(2) d(2) runs_now_iff [of "registry_store now key' r g" key] by metis
qed

lemma runs_now_stored:
  assumes "distinct (map fst (rg_records g))" and "rg_status r = Running"
  shows "runs_now key (registry_store now key r g)"
proof -
  let ?es = "alist_put_last key (now, r) (rg_records g)"
  let ?n = "length ?es - rg_max g"
  have d: "distinct (map fst (shrink ?n ?es))"
    using distinct_alist_put_last [OF assms(1)] shrink_effect [of ?n ?es] by auto
  have "(key, now, r) \<in> set (filter is_running (shrink ?n ?es))"
    using assms(2) shrink_effect [of ?n ?es] by (auto simp: alist_put_last_def is_running_def)
  moreover have "rg_records (registry_store now key r g) = shrink ?n ?es" by (simp add: registry_store_def Let_def)
  ultimately show ?thesis using d runs_now_iff [of "registry_store now key r g" key] by (metis fst_conv)
qed

lemma runs_now_purge:
  assumes "distinct (map fst (rg_records g))" and "runs_now key g"
  shows "runs_now key (registry_purge now g)"
proof -
  let ?p = "\<lambda>e. \<not> (fst (snd e) < now - seconds (rg_ttl g) \<and> \<not> is_running e)"
  have "distinct (map fst (filter ?p (rg_records g)))" using assms(1) by (simp add: distinct_map_filter)
  then show ?thesis
    using assms runs_now_iff [OF assms(1)] runs_now_iff [of "registry_purge now g" key]
    by (auto simp: registry_purge_def)
qed

datatype registry_op =
    Look string time run_identity
  | Begin time run_identity
  | Complete time run_identity chat_reply
  | Interrupt time run_identity

fun registry_step :: "registry_op \<Rightarrow> run_registry \<Rightarrow> run_registry" where
  "registry_step (Look uuid now i) g = snd (registry_cached uuid now i g)"
| "registry_step (Begin now i) g = snd (registry_start now i g)"
| "registry_step (Complete now i reply) g = registry_complete now i reply g"
| "registry_step (Interrupt now i) g = registry_interrupt now i g"

fun ends_run :: "run_key \<Rightarrow> registry_op \<Rightarrow> bool" where
  "ends_run key (Complete _ i _) = (run_key_of i = key)"
| "ends_run key (Interrupt _ i) = (run_key_of i = key)"
| "ends_run key _ = False"

lemma registry_step_ok: "registry_ok g \<Longrightarrow> registry_ok (registry_step op g)"
  by (cases op) (simp_all add: registry_steps_ok)

lemma registry_step_runs:
  assumes "registry_ok g" and "runs_now key g" and "\<not> ends_run key op"
  shows "runs_now key (registry_step op g)"
proof -
  have d: "distinct (map fst (rg_records g))" using assms(1) by (simp add: registry_ok_def)
  have purged: "distinct (map fst (rg_records (registry_purge now g)))" "runs_now key (registry_purge now g)" for now
    using d runs_now_purge [OF d assms(2)] registry_purge_ok [OF assms(1)] by (auto simp: registry_ok_def)
  note store = runs_now_store [OF purged] runs_now_store [OF d assms(2)]
  have running: "rg_status r = Running" if "map_of (rg_records (registry_purge now g)) key = Some (t, r)" for now t r
    using purged(2) [of now] that by (auto simp: runs_now_def)
  show ?thesis
  proof (cases op)
    case (Look uuid now i)
    then show ?thesis
      using registry_cached_state [of uuid now i g] store(1) purged running runs_now_stored [OF purged(1)]
      by (cases "run_key_of i = key") (simp_all, metis+)
  next
    case (Begin now i)
    then show ?thesis
      using store(1) purged running
      by (cases "run_key_of i = key")
        (auto simp: registry_start_state start_refused_def runs_now_stored split: option.split sum.split)
  next
    case (Complete now i reply)
    then show ?thesis using store(2) assms(3) by (auto simp: registry_complete_def)
  next
    case (Interrupt now i)
    then show ?thesis using store(2) assms(2,3) by (auto simp: registry_interrupt_def split: option.split)
  qed
qed

lemma refuses_running: "rg_status r = Running \<Longrightarrow> \<exists>e. start_refused r j = Some e"
  by (simp add: start_refused_def split: sum.split)

text \<open>
  One execution at a time: after a start, no other start of the same run succeeds before the run is
  completed or interrupted, whatever else the registry is used for.
\<close>

lemma started_run_is_exclusive:
  assumes "registry_ok g" and "fst (registry_start now i g) = Inr ()"
    and "\<not> list_ex (ends_run (run_key_of i)) ops" and "run_key_of j = run_key_of i"
  shows "fst (registry_start later j (fold registry_step ops (snd (registry_start now i g)))) \<noteq> Inr ()"
proof -
  have "registry_ok h \<and> runs_now (run_key_of i) h \<Longrightarrow> \<not> list_ex (ends_run (run_key_of i)) ops \<Longrightarrow>
      registry_ok (fold registry_step ops h) \<and> runs_now (run_key_of i) (fold registry_step ops h)" for h ops
    by (induction ops arbitrary: h) (simp_all add: registry_step_ok registry_step_runs)
  moreover have "runs_now (run_key_of i) (snd (registry_start now i g))"
    using registry_purge_ok [OF assms(1), of now]
    unfolding registry_started [OF assms(2)] by (intro runs_now_stored) (simp_all add: registry_ok_def)
  ultimately have h: "registry_ok (fold registry_step ops (snd (registry_start now i g)))"
      "runs_now (run_key_of i) (fold registry_step ops (snd (registry_start now i g)))"
    using assms(3) registry_steps_ok(2) [OF assms(1)] by blast+
  from h(1) have "distinct (map fst (rg_records (fold registry_step ops (snd (registry_start now i g)))))"
    by (simp add: registry_ok_def)
  from runs_now_purge [OF this h(2), of later] obtain t r where
    r: "map_of (rg_records (registry_purge later (fold registry_step ops (snd (registry_start now i g))))) (run_key_of i)
          = Some (t, r)" "rg_status r = Running"
    by (auto simp: runs_now_def)
  then obtain e where "start_refused r j = Some e" using refuses_running by blast
  then show ?thesis using r(1) assms(4) by (simp add: registry_start_state [where now = later and i = j])
qed

end
