(* ===== verification/Diagnostics.thy ===== *)
theory Diagnostics
  imports Inventory
begin

text \<open>
  What the service says about itself: the metrics registry and its spans
  (\<open>src/app/observability/metrics.py\<close>, \<open>tracing.py\<close>), log lines (\<open>src/app/logging_config.py\<close>),
  redaction (\<open>src/app/observability/redaction.py\<close>), and the inventory payload with the roles of the
  models (\<open>src/app/services/inventory.py\<close>), which \<open>src/app/api/routes/inventory.py\<close> serves.
\<close>

section \<open>Metrics\<close>

text \<open>Counters and samples; a sample is the exact value of the float.\<close>

record metrics =
  mt_limit :: nat
  mt_counters :: "(string \<times> int) list"
  mt_timings :: "(string \<times> rat list) list"

definition metrics_init :: "int \<Rightarrow> metrics result" where
  "metrics_init n =
     (if n < 1 then Inl (ValueError ''max_timing_samples must be at least 1'')
      else Inr \<lparr>mt_limit = nat n, mt_counters = [], mt_timings = []\<rparr>)"

definition no_metric_name :: exn where
  "no_metric_name = ValueError ''metric name must not be empty''"

definition metrics_inc :: "string \<Rightarrow> int \<Rightarrow> metrics \<Rightarrow> unit result \<times> metrics" where
  "metrics_inc name amount m =
     (if name = [] then (Inl no_metric_name, m)
      else (Inr (), m\<lparr>mt_counters :=
              alist_put name ((case map_of (mt_counters m) name of None \<Rightarrow> 0 | Some n \<Rightarrow> n) + amount) (mt_counters m)\<rparr>))"

definition samples :: "string \<Rightarrow> metrics \<Rightarrow> rat list" where
  "samples name m = (case map_of (mt_timings m) name of None \<Rightarrow> [] | Some vs \<Rightarrow> vs)"

definition metrics_observe :: "string \<Rightarrow> rat \<Rightarrow> metrics \<Rightarrow> unit result \<times> metrics" where
  "metrics_observe name v m =
     (if name = [] then (Inl no_metric_name, m)
      else (let vs = samples name m @ [v]
            in (Inr (), m\<lparr>mt_timings := alist_put name (drop (length vs - mt_limit m) vs) (mt_timings m)\<rparr>)))"

record timing =
  tm_count :: nat
  tm_avg :: rat
  tm_min :: rat
  tm_max :: rat

definition timing_of :: "rat list \<Rightarrow> timing" where
  "timing_of vs =
     \<lparr>tm_count = length vs, tm_avg = (if vs = [] then 0 else sum_list vs / of_nat (length vs)),
      tm_min = (if vs = [] then 0 else Min (set vs)), tm_max = (if vs = [] then 0 else Max (set vs))\<rparr>"

definition metrics_snapshot :: "metrics \<Rightarrow> (string \<times> int) list \<times> (string \<times> timing) list" where
  "metrics_snapshot m = (mt_counters m, map (\<lambda>(name, vs). (name, timing_of vs)) (mt_timings m))"

definition metrics_reset :: "metrics \<Rightarrow> metrics" where
  "metrics_reset m = m\<lparr>mt_counters := [], mt_timings := []\<rparr>"

text \<open>
  \<open>span(name)\<close> around a body that ended with \<open>failure\<close> after \<open>elapsed\<close>: a cancellation counts
  neither as an error nor as a success.
\<close>

definition metrics_span :: "string \<Rightarrow> exn option \<Rightarrow> rat \<Rightarrow> metrics \<Rightarrow> metrics" where
  "metrics_span name failure elapsed m =
     (let counted = (case failure of
            None \<Rightarrow> snd (metrics_inc (name @ ''.ok'') 1 m)
          | Some e \<Rightarrow> if e = CancelledError then m else snd (metrics_inc (name @ ''.error'') 1 m))
      in snd (metrics_observe (name @ ''.seconds'') elapsed counted))"

datatype metric_op = Inc string int | Observe string rat | Reset

fun metric_step :: "metric_op \<Rightarrow> metrics \<Rightarrow> metrics" where
  "metric_step (Inc name n) m = snd (metrics_inc name n m)"
| "metric_step (Observe name v) m = snd (metrics_observe name v m)"
| "metric_step Reset m = metrics_reset m"

text \<open>The values observed under a name since the last reset.\<close>

fun observed :: "string \<Rightarrow> metric_op list \<Rightarrow> rat list" where
  "observed name [] = []"
| "observed name (Observe n v # ops) = observed name ops @ (if n = name then [v] else [])"
| "observed name (Reset # ops) = []"
| "observed name (Inc _ _ # ops) = observed name ops"

lemma metric_step_limit [simp]: "mt_limit (metric_step op m) = mt_limit m"
  by (cases op) (simp_all add: metrics_inc_def metrics_observe_def metrics_reset_def Let_def)

lemma fold_limit [simp]: "mt_limit (foldr metric_step ops m) = mt_limit m"
  by (induction ops) simp_all

lemma samples_step:
  assumes "name \<noteq> []"
  shows "samples name (metric_step op m) =
    (case op of
       Observe n v \<Rightarrow> if n = name then last_n (mt_limit m) (samples name m @ [v]) else samples name m
     | Reset \<Rightarrow> [] | Inc _ _ \<Rightarrow> samples name m)"
  using assms
  by (cases op) (auto simp: metrics_inc_def metrics_observe_def metrics_reset_def samples_def last_n_def Let_def)

text \<open>The registry is bounded, and what it keeps of a timing is its newest values.\<close>

lemma metrics_keep_newest:
  assumes "metrics_init n = Inr m" and "name \<noteq> []"
  shows "samples name (foldr metric_step ops m) = last_n (nat n) (observed name ops)"
proof (induction ops)
  case Nil
  then show ?case using assms(1) by (auto simp: metrics_init_def samples_def last_n_def split: if_splits)
next
  case (Cons op ops)
  have "mt_limit m = nat n" using assms(1) by (auto simp: metrics_init_def split: if_splits)
  then show ?case
    using Cons samples_step [OF assms(2), of op "foldr metric_step ops m"]
    by (cases op) (simp_all add: last_n_append_last_n)
qed

section \<open>Log lines\<close>

definition safe_value :: "string \<Rightarrow> string" where
  "safe_value t =
     (let flat = map (\<lambda>c. if c = CHR 0x0A \<or> c = CHR 0x0D then CHR '' '' else c) t
      in if 500 < length flat then take 497 flat @ ''...'' else flat)"

text \<open>\<open>log_kv\<close>: the text of the record; the values are given as \<open>str\<close> shows them.\<close>

definition log_line :: "string \<Rightarrow> (string \<times> string option) list \<Rightarrow> string" where
  "log_line name kvs =
     (let suffix = join '' '' (somes (map (\<lambda>(k, v). map_option (\<lambda>t. k @ ''='' @ safe_value t) v) kvs))
      in name @ (if suffix = [] then [] else '' '' @ suffix))"

definition single_line :: "string \<Rightarrow> bool" where
  "single_line s \<longleftrightarrow> list_all (\<lambda>c. c \<noteq> CHR 0x0A \<and> c \<noteq> CHR 0x0D) s"

lemma single_line_append [simp]: "single_line (s @ t) \<longleftrightarrow> single_line s \<and> single_line t"
  by (simp add: single_line_def)

lemma safe_value_bounded: "length (safe_value t) \<le> 500"
  by (simp add: safe_value_def Let_def)

lemma safe_value_line: "single_line (safe_value t)"
  by (auto simp: safe_value_def single_line_def Let_def list_all_iff dest!: in_set_takeD)

lemma single_line_join: "single_line sep \<Longrightarrow> list_all single_line ss \<Longrightarrow> single_line (join sep ss)"
  by (induction sep ss rule: join.induct) (simp_all add: single_line_def)

text \<open>A value cannot forge a log line: whatever is logged, the record stays on one line.\<close>

lemma log_line_single:
  assumes "single_line name" and "list_all (\<lambda>kv. single_line (fst kv)) kvs"
  shows "single_line (log_line name kvs)"
proof -
  let ?parts = "somes (map (\<lambda>(k, v). map_option (\<lambda>t. k @ ''='' @ safe_value t) v) kvs)"
  have "single_line (k @ ''='' @ safe_value t)" if "(k, v) \<in> set kvs" for k v t
    using that assms(2) safe_value_line [of t] by (auto simp: list_all_iff) (simp add: single_line_def)
  then have "list_all single_line ?parts" by (auto simp: list_all_iff map_option_case split: option.splits)
  then have "single_line (join '' '' ?parts)" by (intro single_line_join) (simp add: single_line_def)
  moreover have "single_line '' ''" "single_line []" by (simp_all add: single_line_def)
  ultimately show ?thesis using assms(1) by (simp add: log_line_def Let_def del: append_Cons)
qed

section \<open>Redaction\<close>

definition sensitive :: "string list" where
  "sensitive = [''authorization'', ''x-api-key'', ''api_key'', ''confirmation_token'', ''password'', ''secret'']"

fun redact :: "json \<Rightarrow> json" where
  "redact (JObj kvs) =
     JObj (map (\<lambda>kv. (fst kv, if lower (fst kv) \<in> set sensitive then JStr ''[REDACTED]'' else redact (snd kv))) kvs)"
| "redact (JList xs) = JList (map redact xs)"
| "redact v = v"

text \<open>Two values that differ only under sensitive keys.\<close>

inductive same_public :: "json \<Rightarrow> json \<Rightarrow> bool" where
  same_value: "same_public v v"
| same_list: "list_all2 same_public xs ys \<Longrightarrow> same_public (JList xs) (JList ys)"
| same_object:
    "list_all2 (\<lambda>kv kv'. fst kv = fst kv' \<and> (lower (fst kv) \<in> set sensitive \<or> same_public (snd kv) (snd kv'))) kvs kvs'
       \<Longrightarrow> same_public (JObj kvs) (JObj kvs')"

text \<open>Redaction hides exactly what it should: nothing of a sensitive value reaches its result.\<close>

lemma redact_hides: "same_public v w \<Longrightarrow> redact v = redact w"
proof (induction rule: same_public.induct)
  case (same_list xs ys)
  then show ?case by (induction rule: list_all2_induct) simp_all
next
  case (same_object kvs kvs')
  then show ?case by (induction rule: list_all2_induct) auto
qed simp

lemma redact_idempotent: "redact (redact v) = redact v"
  by (induction v rule: redact.induct) auto

section \<open>The inventory payload\<close>

definition role_names :: "string list" where
  "role_names = [''planner'', ''simple'', ''general'', ''search'', ''reasoning'', ''fast_reasoning'', ''heavy'',
     ''synthesis'', ''writer'', ''classifier'', ''vision'', ''fallback'']"

definition role_entry :: "settings \<Rightarrow> inventory option \<Rightarrow> string \<Rightarrow> jobj" where
  "role_entry st live role =
     (let r = resolve_model st (Some role) live
      in [(''configured'', JStr (model_for_key st (Some role))),
          (''resolved'', (case r of Inr m \<Rightarrow> JStr m | Inl _ \<Rightarrow> JNull)),
          (''available'', JBool (is_ok r)),
          (''error'', (case r of Inr _ \<Rightarrow> JNull | Inl e \<Rightarrow> JStr (exn_text e)))])"

definition embedding_entry :: "settings \<Rightarrow> inventory option \<Rightarrow> jobj" where
  "embedding_entry st live =
     (let names = (case live of Some i \<Rightarrow> model_names i | None \<Rightarrow> []);
          usable = (names = [] \<or> embedding_model st \<in> set names)
      in [(''configured'', JStr (embedding_model st)),
          (''resolved'', if usable then JStr (embedding_model st) else JNull),
          (''available'', JBool usable), (''chat_model'', JBool False)])"

definition configured_roles :: "settings \<Rightarrow> inventory option \<Rightarrow> jobj" where
  "configured_roles st live =
     map (\<lambda>role. (role, JObj (role_entry st live role))) role_names @ [(''embedding'', JObj (embedding_entry st live))]"

definition llm_text :: "llm_backend \<Rightarrow> string" where
  "llm_text b = (case b of Echo \<Rightarrow> ''echo'' | Ollama \<Rightarrow> ''ollama'')"

text \<open>
  \<open>build_inventory_payload\<close>; \<open>age\<close> is the rounded age as JSON writes it.
\<close>

definition build_inventory_payload :: "settings \<Rightarrow> json \<Rightarrow> inventory \<Rightarrow> jobj" where
  "build_inventory_payload st age i =
     [(''service'', JObj [(''name'', JStr (app_name st)), (''environment'', JStr (environment st)),
                          (''backend'', JStr (llm_text (llm_backend st)))]),
      (''ollama'', JObj
        [(''base_url'', JStr (ollama_base_url st)), (''models'', JList (map JObj (inv_models i))),
         (''model_names'', JList (map JStr (model_names i))),
         (''configured_roles'', JObj (configured_roles st (Some i))),
         (''model_task_catalog'', JObj (map (\<lambda>(role, m). (role, JStr m)) (model_role_catalog st)))]),
      (''mcp'', JObj
        [(''enabled'', JBool (mcp_enabled st)), (''server_url'', JStr (mcp_server_url st)),
         (''tools'', JList (map JObj (inv_tools i))), (''tool_names'', JList (map JStr (tool_names i)))]),
      (''cache'', JObj [(''cached'', JBool (inv_cached i)), (''age_seconds'', age)]),
      (''errors'', JObj (map (\<lambda>(k, m). (k, JStr m)) (inv_errors i)))]"

text \<open>A legacy dictionary as an inventory; what is no object or no dictionary is dropped.\<close>

definition normalize_inventory :: "(json \<Rightarrow> time) \<Rightarrow> jobj \<Rightarrow> inventory" where
  "normalize_inventory age value =
     \<lparr>inv_models = map obj_fields (filter is_jobj (list_items (jget value ''models''))),
      inv_tools = map obj_fields (filter is_jobj (list_items (jget value ''tools''))),
      inv_errors = map (\<lambda>(k, v). (k, py_str v)) (obj_fields (jget value ''errors'')),
      inv_cached = truthy (jget value ''cached''), inv_age = age (jget value ''age_seconds'')\<rparr>"

text \<open>A role the payload calls available names a model that is installed, once any model is.\<close>

lemma available_role_is_installed:
  assumes "role \<in> set role_names" and "model_names i \<noteq> []"
    and "jget (role_entry st (Some i) role) ''available'' = JBool True"
  shows "\<exists>m. jget (role_entry st (Some i) role) ''resolved'' = JStr m \<and> m \<in> set (model_names i) \<and> compatible role m"
proof -
  obtain m where m: "resolve_model st (Some role) (Some i) = Inr m"
    using assms(3) by (cases "resolve_model st (Some role) (Some i)") (auto simp: role_entry_def jget_def)
  have "role \<noteq> []" using assms(1) by (auto simp: role_names_def)
  then have "m \<in> set (model_names i) \<and> compatible role m"
    using m assms(2) by (auto simp: resolve_model_def Let_def find_Some_iff in_set_conv_nth split: option.splits if_splits)
  then show ?thesis using m by (auto simp: role_entry_def jget_def)
qed

end
