(* ===== verification/LegacyAgent.thy ===== *)
theory LegacyAgent
  imports GraphInvariant GraphSafety Turns Api
begin

text \<open>
  \<open>ChatAgent.ainvoke\<close> and \<open>ChatAgent.astream_events\<close> of \<open>src/app/graph.py\<close>: one request without
  run records, from the history of the process-local store over a run of the graph to the stored
  turn and the response. \<open>ChatRuntimeAgent\<close>, the theory Runtime, overrides both. Here the graph, the
  store and the meter are the modelled ones; what the process reads from outside is the world and
  the two listings of the inventory. \<open>secs\<close> and \<open>millis\<close> write a duration as a JSON number of
  seconds, plain and rounded to milliseconds.
\<close>

section \<open>Parts of a request\<close>

record chat_agent =
  ca_world :: world
  ca_memory :: memory_store
  ca_inventory :: inventory_service

text \<open>\<open>ExecutionBudget(...)\<close> from the settings; a float number of seconds as microseconds.\<close>

definition execution_duration :: "settings \<Rightarrow> time" where
  "execution_duration s = round (1000000 * execution_max_duration_seconds s)"

definition request_budget :: "settings \<Rightarrow> budget eff" where
  "request_budget s = ebind read_clock (\<lambda>now. ebind read_mono (\<lambda>mclk.
     eret (new_budget (execution_duration s) (execution_max_model_calls s) (execution_max_tool_calls s)
             (execution_max_verifier_rounds s) None now mclk)))"

text \<open>\<open>snapshot.model_dump(mode="json")\<close>; the fields nothing writes keep their defaults.\<close>

definition meter_state_json :: "(time \<Rightarrow> json) \<Rightarrow> meter_state \<Rightarrow> jobj" where
  "meter_state_json secs m =
     [(''schema_version'', JInt 2), (''logical_model_operations'', JInt (logical_model_operations m)),
      (''physical_model_attempts'', JInt (physical_model_attempts m)),
      (''model_successes'', JInt (model_successes m)), (''model_failures'', JInt (model_failures m)),
      (''fallback_attempts'', JInt (fallback_attempts m)), (''tool_attempts'', JInt (tool_attempts m)),
      (''tool_successes'', JInt (tool_successes m)), (''tool_failures'', JInt (tool_failures m)),
      (''tool_timeouts'', JInt (tool_timeouts m)), (''verifier_rounds'', JInt (verifier_rounds m)),
      (''revision_rounds'', JInt (revision_rounds m)),
      (''final_revision_rounds'', JInt (final_revision_rounds_used m)),
      (''research_rounds'', JInt (research_rounds_used m)), (''replans'', JInt (replans_used m)),
      (''prompt_tokens'', JInt (prompt_tokens m)), (''generated_tokens'', JInt (generated_tokens m)),
      (''context_utilization'', JNull), (''queue_wait_seconds'', secs (queue_wait m)),
      (''model_load_seconds'', secs (model_load m)),
      (''time_to_first_token'', case time_to_first_token m of None \<Rightarrow> JNull | Some t \<Rightarrow> secs t),
      (''checkpoint_reads'', JInt 0), (''checkpoint_writes'', JInt 0), (''checkpoint_bytes'', JInt 0),
      (''artifact_reads'', JInt 0), (''artifact_writes'', JInt 0),
      (''started_at'', JStr (iso_json (started_at m))), (''deadline_at'', JStr (iso_json (deadline_at m))),
      (''elapsed_wall_seconds'', secs (elapsed_wall m)),
      (''active_execution_seconds'', secs (active_execution m)),
      (''cancellation_count'', JInt (cancellation_count m))]"

definition usage_metadata :: "(time \<Rightarrow> json) \<Rightarrow> (time \<Rightarrow> json) \<Rightarrow> meter_state \<Rightarrow> time \<Rightarrow> jobj" where
  "usage_metadata secs millis m elapsed =
     meter_state_json secs m @
     [(''model_calls'', JInt (physical_model_attempts m)), (''tool_calls'', JInt (tool_attempts m)),
      (''elapsed_seconds'', millis elapsed)]"

text \<open>\<open>budget.snapshot()\<close> and the elapsed time of a budget that is not the current meter.\<close>

definition snapshot_of :: "budget \<Rightarrow> meter_state eff" where
  "snapshot_of b = ebind read_clock (\<lambda>now. ebind read_clock (\<lambda>now'. ebind read_mono (\<lambda>mclk.
     eret (snapshot b now now' mclk))))"

definition elapsed_of :: "budget \<Rightarrow> time eff" where
  "elapsed_of b = ebind read_clock (\<lambda>now. ebind read_mono (\<lambda>mclk. eret (elapsed_seconds b now mclk)))"

definition put_all :: "jobj \<Rightarrow> jobj \<Rightarrow> jobj" where
  "put_all base new = foldl (\<lambda>al kv. alist_put (fst kv) (snd kv) al) base new"

definition legacy_state ::
  "settings \<Rightarrow> chat_request \<Rightarrow> string \<Rightarrow> string \<Rightarrow> string \<Rightarrow> jobj list \<Rightarrow> inventory \<Rightarrow> gstate" where
  "legacy_state s q conversation run request_id history iv =
     (let thread = conversation @ '':'' @ run
      in (build_fresh_run_state (cq_message q) (prepare_system_prompt (cq_message q) (cq_system q))
            (put_all (cq_metadata q)
               [(''conversation_id'', JStr conversation), (''run_id'', JStr run),
                (''execution_thread_id'', JStr thread)])
            (map JObj history) request_id iv (backend_text s))
         \<lparr>g_conversation_id := conversation, g_run_id := run, g_thread_id := thread\<rparr>)"

text \<open>The result when a node lets \<open>BudgetExceeded\<close> through.\<close>

definition out_of_budget_state :: "settings \<Rightarrow> string \<Rightarrow> gstate \<Rightarrow> gstate" where
  "out_of_budget_state s m g =
     g\<lparr>g_response := fallback_message m, g_backend := backend_text s, g_model := None,
       g_reason := Some m, g_results := []\<rparr>"

text \<open>The graph under \<open>execution_meter_scope\<close>; the budget comes back with the calls it counted.\<close>

definition graph_in_scope :: "runtime_env \<Rightarrow> settings \<Rightarrow> nat \<Rightarrow> gstate \<Rightarrow> budget \<Rightarrow> (gstate \<times> budget) eff" where
  "graph_in_scope env s fuel g b w =
     (let (out, w1) = run_graph env s fuel NPlan g (w\<lparr>w_meter := b\<rparr>);
          (r, w2) =
            (case out of
               Finished n g' \<Rightarrow> (Inr g', w1)
             | Failed (BudgetExceeded m) \<Rightarrow> state_update (out_of_budget_state s m g) w1
             | Failed e \<Rightarrow> (Inl e, w1)
             | OutOfSteps \<Rightarrow>
                 (Inl (RuntimeError ''Recursion limit reached without hitting a stop condition''), w1))
      in (bind_result r (\<lambda>g'. Inr (g', w_meter w2)), w2\<lparr>w_meter := w_meter w\<rparr>))"

definition legacy_metadata ::
  "runtime_env \<Rightarrow> chat_request \<Rightarrow> prompt_decision \<Rightarrow> inventory \<Rightarrow> gstate \<Rightarrow> jobj \<Rightarrow> jobj" where
  "legacy_metadata env q decision iv g usage =
     put_all (cq_metadata q)
       [(''runtime_contract'', JStr ''agent-graph-v1''), (''plan'', opt_json plan_json (g_plan g)),
        (''verification'', JList (map (task_record_json env) (g_results g))),
        (''final_verification'', opt_json (final_json env) (g_final g)),
        (''final_revision_rounds'', JInt (g_final_rounds g)), (''iterations'', JInt (g_iterations g)),
        (''termination_reason'', opt_str_json (g_reason g)), (''routing'', JObj (g_routing g)),
        (''selected_models'', JObj (map (\<lambda>(n, m). (n, JStr m)) (g_selected_models g))),
        (''selected_tool'', opt_str_json (g_selected_tool g)), (''selected_tools'', JObj (g_selected_tools g)),
        (''research_queries'', JObj (map (\<lambda>(t, qs). (t, strs qs)) (g_queries g))),
        (''system_prompt'', JObj [(''source'', JStr (pd_source decision)), (''domain'', JStr (pd_domain decision)),
           (''generated'', JBool (pd_source decision = ''derived''))]),
        (''inventory'', JObj [(''models'', strs (model_names iv)), (''tools'', strs (tool_names iv)),
           (''errors'', JObj (map (\<lambda>(k, m). (k, JStr m)) (inv_errors iv))), (''cached'', JBool (inv_cached iv))]),
        (''usage'', JObj usage)]"

section \<open>The request\<close>

text \<open>What \<open>uuid4\<close>, the model listing and the tool listing answer during one request.\<close>

record outside =
  os_uuid :: "nat \<Rightarrow> string"
  os_models :: "string + json list"
  os_tools :: "string + json list"

definition conversation_of :: "outside \<Rightarrow> chat_request \<Rightarrow> string" where
  "conversation_of os q = text_or (cq_conversation q) (text_or (cq_thread q) (os_uuid os 0))"

definition run_of :: "outside \<Rightarrow> chat_request \<Rightarrow> string" where
  "run_of os q = text_or (cq_run q) (os_uuid os 1)"

definition turn_message :: "string \<Rightarrow> string \<Rightarrow> string \<Rightarrow> jobj" where
  "turn_message role content run =
     [(''role'', JStr role), (''content'', JStr content), (''run_id'', JStr run)]"

text \<open>Up to the end of the graph: state, budget and inventory, with the store and caches after it.\<close>

definition legacy_execution ::
  "runtime_env \<Rightarrow> settings \<Rightarrow> store_limits \<Rightarrow> nat \<Rightarrow> outside \<Rightarrow> chat_request \<Rightarrow> chat_agent
   \<Rightarrow> (gstate \<times> budget \<times> inventory) result \<times> chat_agent" where
  "legacy_execution env s bd fuel os q A =
     (case ebind (request_budget s) (\<lambda>b. ebind read_mono (\<lambda>t. ebind read_mono (\<lambda>t1. ebind read_mono (\<lambda>t2.
             eret (b, t, t1, t2))))) (ca_world A) of
        (Inl e, w) \<Rightarrow> (Inl e, A\<lparr>ca_world := w\<rparr>)
      | (Inr (b, t, t1, t2), w) \<Rightarrow>
          let (history, mem) = store_get t bd (conversation_of os q) (ca_memory A);
              (iv, caches) = load_inventory s False (os_models os) (os_tools os) t1 t2 (ca_inventory A);
              g = legacy_state s q (conversation_of os q) (run_of os q) (os_uuid os 2) history iv;
              (r, w') = ebind (snapshot_of b) (\<lambda>m. graph_in_scope env s fuel (g\<lparr>g_meter := Some m\<rparr>) b) w
          in (bind_result r (\<lambda>(g', b'). Inr (g', b', iv)),
              \<lparr>ca_world = w', ca_memory = mem, ca_inventory = caches\<rparr>))"

definition legacy_ainvoke ::
  "runtime_env \<Rightarrow> settings \<Rightarrow> store_limits \<Rightarrow> nat \<Rightarrow> (time \<Rightarrow> json) \<Rightarrow> (time \<Rightarrow> json) \<Rightarrow> outside
   \<Rightarrow> chat_request \<Rightarrow> chat_agent \<Rightarrow> chat_reply result \<times> chat_agent" where
  "legacy_ainvoke env s bd fuel secs millis os q A =
     (let conversation = conversation_of os q; run = run_of os q;
          decision = prepare_system_prompt (cq_message q) (cq_system q)
      in case legacy_execution env s bd fuel os q A of
        (Inl e, A1) \<Rightarrow> (Inl e, A1)
      | (Inr (g, b, iv), A1) \<Rightarrow>
          (case read_mono (ca_world A1) of
             (Inl e, w) \<Rightarrow> (Inl e, A1\<lparr>ca_world := w\<rparr>)
           | (Inr t, w) \<Rightarrow>
               (case store_append t bd conversation
                       [turn_message ''user'' (cq_message q) run, turn_message ''assistant'' (g_response g) run]
                       (ca_memory A1) of
                  (Inl e, mem) \<Rightarrow> (Inl e, A1\<lparr>ca_world := w, ca_memory := mem\<rparr>)
                | (Inr _, mem) \<Rightarrow>
                    let (usage, w') = ebind (snapshot_of b) (\<lambda>m. ebind (elapsed_of b) (\<lambda>el.
                          eret (usage_metadata secs millis m el))) w
                    in (bind_result usage (\<lambda>u. Inr (response_from_result [] [] None (Some conversation) (Some run)
                          (Some (conversation @ '':'' @ run)) (g_response g) (g_backend g) (g_model g)
                          (legacy_metadata env q decision iv g u))),
                        A1\<lparr>ca_world := w', ca_memory := mem\<rparr>))))"

section \<open>The event stream\<close>

definition optional_json :: "string option \<Rightarrow> string option \<Rightarrow> json" where
  "optional_json a b = opt_str_json (case a of None \<Rightarrow> b | Some t \<Rightarrow> if t = [] then b else Some t)"

definition legacy_stream_events ::
  "chat_request \<Rightarrow> chat_reply result \<Rightarrow> nat \<Rightarrow> (nat \<Rightarrow> json) \<Rightarrow> stream_event list \<times> exn option" where
  "legacy_stream_events q answer beats clock =
     (let before =
            [\<lparr>ev_name = ''request_started'',
              ev_data = [(''thread_id'', optional_json (cq_conversation q) (cq_thread q)),
                         (''run_id'', opt_str_json (cq_run q))], ev_time = clock 0\<rparr>,
             \<lparr>ev_name = ''planning_started'', ev_data = [], ev_time = clock 1\<rparr>]
            @ map (\<lambda>k. \<lparr>ev_name = ''working'', ev_data = [(''stage'', JStr ''agent_graph'')],
                        ev_time = clock (k + 2)\<rparr>) [0..<beats]
      in case answer of
           Inl e \<Rightarrow> (before, Some e)
         | Inr reply \<Rightarrow> (before @ [completed_event reply (clock (beats + 2))], None))"

section \<open>What a request leaves behind\<close>

lemma map_of_put_all: "map_of (put_all base new) k = (case map_of (rev new) k of None \<Rightarrow> map_of base k | Some v \<Rightarrow> Some v)"
  unfolding put_all_def
  by (induction new arbitrary: base) (auto simp: map_add_def split: option.splits)

lemma appended_messages:
  assumes "store_ok bd st" and "0 < sl_sessions bd" and "0 \<le> sl_ttl bd" and "ms \<noteq> []"
    and "store_append t bd k ms st = (Inr u, st')"
  shows "store_history bd t k st' = last_n (sl_messages bd) (store_history bd t k st @ ms)"
proof -
  let ?p = "store_purge t bd st"
  have k: "k \<noteq> []" and st': "st' = append_locked t bd k ms ?p"
    using assms(4,5) by (auto simp: store_append_def split: if_splits)
  have ok: "store_ok bd ?p" by (rule purge_ok [OF assms(1)])
  then have p: "distinct (map fst (ms_data ?p))" "distinct (map fst (ms_committed ?p))"
    "fst ` set (ms_committed ?p) \<subseteq> insert k (fst ` set (ms_data ?p))"
    "list_all (\<lambda>(_, _, ms). length ms \<le> sl_messages bd) (ms_data ?p)"
    by (auto simp: store_ok_def)
  note effect = append_locked_effect [OF p(1) assms(2) p(3,2,4), of t ms, folded st']
  have "map_of (ms_data ?p) k = live_entry t bd k st"
    using assms(1) by (simp add: purge_data store_ok_def)
  moreover have "live_entry t bd k st' = map_of (ms_data st') k"
    using effect(1) assms(3) by (simp add: live_entry_def expired_at_def seconds_def)
  ultimately show ?thesis
    using effect(1) by (simp add: store_history_entry [OF effect(3) k] store_history_entry [OF assms(1) k])
qed

lemma legacy_fallback_says_stopped: "says_stopped (fallback_message reason)"
  unfolding says_stopped_def
  by (rule exI [of _ "[]"], rule exI [of _ "''a verified answer could be produced: '' @ reason @ ''.''"])
    (simp add: fallback_message_def)

lemma graph_in_scope_result:
  assumes "graph_in_scope env s fuel g b w = (Inr (g', b'), w')" and "within_limits b"
  shows "within_limits b' \<and> same_limits b b' \<and>
    ((\<exists>m. g_response g' = fallback_message m) \<or>
     (\<exists>n w1. run_graph env s fuel NPlan g (w\<lparr>w_meter := b\<rparr>) = (Finished n g', w1)))"
proof -
  obtain out w1 where run: "run_graph env s fuel NPlan g (w\<lparr>w_meter := b\<rparr>) = (out, w1)" by fastforce
  have "safe_world (w\<lparr>w_meter := b\<rparr>) w1"
    using run_graph_safe [of "w\<lparr>w_meter := b\<rparr>" env s fuel NPlan g] run by simp
  then have b1: "within_limits (w_meter w1)" "same_limits b (w_meter w1)"
    using assms(2) by (simp_all add: evolves_def)
  have meter: "w_meter w2 = w_meter w1" if "state_update x w1 = (r, w2)" for x r w2
    using that by (auto simp: state_update_def meter_snapshot_def ebind_def read_clock_def read_mono_def get_meter_def eret_def)
  have answer: "g_response y = g_response x" if "state_update x w1 = (Inr y, w2)" for x y w2
    using that by (auto simp: state_update_def meter_snapshot_def ebind_def read_clock_def read_mono_def get_meter_def eret_def)
  show ?thesis
  proof (cases "\<exists>n h. out = Finished n h")
    case True
    then show ?thesis using assms(1) run b1 by (auto simp: graph_in_scope_def bind_result_Inr_iff)
  next
    case False
    then obtain m r w2 where "out = Failed (BudgetExceeded m)"
      and "state_update (out_of_budget_state s m g) w1 = (r, w2)"
      using assms(1) run by (auto simp: graph_in_scope_def split: run_outcome.splits exn.splits prod.splits)
    then show ?thesis
      using assms(1) run b1 meter answer
      by (fastforce simp: graph_in_scope_def bind_result_Inr_iff out_of_budget_state_def)
  qed
qed

text \<open>The execution of a request: how its graph was started and what it left.\<close>

lemma legacy_execution_result:
  assumes "legacy_execution env s bd fuel os q A = (Inr (g, b, iv), A1)" and "valid_settings s"
  shows "within_limits b \<and> max_model_calls b = execution_max_model_calls s \<and>
    max_tool_calls b = execution_max_tool_calls s \<and>
    (\<exists>t. ca_memory A1 = snd (store_get t bd (conversation_of os q) (ca_memory A))) \<and>
    ((\<exists>m. g_response g = fallback_message m) \<or>
     (\<exists>history iv' m w n w'. run_graph env s fuel NPlan
        ((legacy_state s q (conversation_of os q) (run_of os q) (os_uuid os 2) history iv')\<lparr>g_meter := Some m\<rparr>) w
          = (Finished n g, w')))"
proof -
  have bounds: "0 \<le> execution_max_model_calls s" "0 \<le> execution_max_tool_calls s"
    using valid_settings_bounds [OF assms(2)] by simp_all
  let ?b = "\<lambda>now mclk. new_budget (execution_duration s) (execution_max_model_calls s) (execution_max_tool_calls s)
              (execution_max_verifier_rounds s) None now mclk"
  let ?g = "\<lambda>history iv m. (legacy_state s q (conversation_of os q) (run_of os q) (os_uuid os 2) history iv)\<lparr>g_meter := Some m\<rparr>"
  from assms(1) obtain now mclk t history mem iv' m w w' where
    mem: "store_get t bd (conversation_of os q) (ca_memory A) = (history, mem)" "ca_memory A1 = mem"
    and run: "graph_in_scope env s fuel (?g history iv' m) (?b now mclk) w = (Inr (g, b), w')"
    by (auto simp: legacy_execution_def request_budget_def snapshot_of_def ebind_def read_clock_def read_mono_def
        eret_def Let_def bind_result_Inr_iff split: prod.splits)
  have "within_limits (?b now mclk)" by (rule new_budget_within_limits [OF bounds])
  from graph_in_scope_result [OF run this] mem show ?thesis
    by (auto simp: same_limits_def meter_simps) (metis snd_conv)+
qed

lemma legacy_usage:
  "jget (legacy_metadata env q d iv g u) ''usage'' = JObj u"
  by (simp add: legacy_metadata_def jget_def map_of_put_all)

lemma usage_counts:
  "jget (usage_metadata secs millis m el) ''physical_model_attempts'' = JInt (physical_model_attempts m)"
  "jget (usage_metadata secs millis m el) ''tool_attempts'' = JInt (tool_attempts m)"
  by (simp_all add: usage_metadata_def meter_state_json_def jget_def)

lemma last_n_last_n: "n \<le> m \<Longrightarrow> last_n n (last_n m xs) = last_n n xs"
proof -
  assume "n \<le> m"
  then have "length xs - (length xs - m + n) + (length xs - m) = length xs - n" by arith
  then show ?thesis by (simp add: last_n_def)
qed

text \<open>What a run of the graph from the fresh state of a request ends with.\<close>

lemma legacy_run_verified:
  assumes "run_graph env s fuel NPlan ((legacy_state s q c r u history iv)\<lparr>g_meter := Some m\<rparr>) w = (Finished n g, w')"
  shows "says_stopped (g_response g) \<or> n \<noteq> NTerminate \<and> map tk_task (g_results g) = plan_tasks g \<and>
    list_all (task_passed env (run_text g)) (g_results g) \<and> finished_well n g"
proof (cases "n = NTerminate")
  case True
  then show ?thesis using assms run_graph_stopped by blast
next
  case False
  have "inv_at env NPlan ((legacy_state s q c r u history iv)\<lparr>g_meter := Some m\<rparr>)"
    by (simp add: legacy_state_def build_fresh_run_state_def progress_ok_def plan_tasks_def Let_def)
  from run_graph_finished [OF this assms] False show ?thesis by (auto simp: progress_ok_def all_done_def)
qed

text \<open>What an answered request went through.\<close>

lemma legacy_answered:
  assumes "legacy_ainvoke env s bd fuel secs millis os q A = (Inr reply, A')"
  obtains g b iv A1 t m el
  where "legacy_execution env s bd fuel os q A = (Inr (g, b, iv), A1)"
    and "store_append t bd (conversation_of os q) [turn_message ''user'' (cq_message q) (run_of os q),
           turn_message ''assistant'' (g_response g) (run_of os q)] (ca_memory A1) = (Inr (), ca_memory A')"
    and "cr_response reply = g_response g" and "cr_conversation reply = conversation_of os q"
    and "cr_run reply = run_of os q"
    and "jget (cr_metadata reply) ''usage'' = JObj (usage_metadata secs millis m el)"
    and "physical_model_attempts m = physical_model_attempts (mstate b)"
    and "tool_attempts m = tool_attempts (mstate b)"
proof -
  let ?c = "conversation_of os q" and ?r = "run_of os q"
  from assms obtain g b iv A1 t now now' mclk el where
    exec: "legacy_execution env s bd fuel os q A = (Inr (g, b, iv), A1)"
    and app: "store_append t bd ?c [turn_message ''user'' (cq_message q) ?r,
                turn_message ''assistant'' (g_response g) ?r] (ca_memory A1) = (Inr (), ca_memory A')"
    and reply: "reply = response_from_result [] [] None (Some ?c) (Some ?r) (Some (?c @ '':'' @ ?r))
        (g_response g) (g_backend g) (g_model g)
        (legacy_metadata env q (prepare_system_prompt (cq_message q) (cq_system q)) iv g
           (usage_metadata secs millis (snapshot b now now' mclk) el))"
    by (auto simp: legacy_ainvoke_def snapshot_of_def elapsed_of_def ebind_def read_clock_def read_mono_def
        eret_def Let_def split: prod.splits sum.splits)
  have "?c \<noteq> []" using app by (auto simp: store_append_def)
  then show thesis
    using that [OF exec app] by (auto simp: reply response_from_result_def text_or_def Let_def legacy_usage
        snapshot_def split: option.splits)
qed


definition sample_outside :: outside where
  "sample_outside = \<lparr>os_uuid = (\<lambda>_. ''u''), os_models = Inl ''down'', os_tools = Inl ''down''\<rparr>"

definition sample_limits :: store_limits where
  "sample_limits = \<lparr>sl_ttl = 3600, sl_sessions = 10, sl_messages = 4\<rparr>"

definition sample_agent :: chat_agent where
  "sample_agent = \<lparr>ca_world = sample_world\<lparr>w_clock := \<lambda>n. 1000000000 * int n\<rparr>, ca_memory = empty_store,
     ca_inventory = \<lparr>is_models = empty_cache, is_tools = empty_cache\<rparr>\<rparr>"

definition sample_question :: chat_request where
  "sample_question = \<lparr>cq_message = ''a'', cq_thread = None, cq_conversation = None, cq_run = None,
     cq_resume = False, cq_token = None, cq_system = Some ''p'', cq_metadata = []\<rparr>"

text \<open>A request that no clock leaves time for.\<close>

lemma sample_execution:
  "is_ok (fst (legacy_execution sample_runtime default_settings sample_limits 25 sample_outside sample_question sample_agent))"
  by code_simp


end
