(* ===== verification/SessionMemory.thy ===== *)
theory SessionMemory
  imports Config
begin

text \<open>
  The legacy session memory, \<open>src/app/services/memory.py\<close>: conversations in the order of their
  last use, each with its newest turns and the time of its last use. Every method runs under the
  lock of the store. A clock reading is an argument; of the readings of one call only those that
  stay visible are kept.
\<close>

record conversation_turn =
  ct_role :: string
  ct_content :: string

type_synonym session = "conversation_turn list \<times> time"

record session_store =
  ss_sessions :: "(string \<times> session) list"
  ss_last_cleanup :: time

definition empty_sessions :: session_store where
  "empty_sessions = \<lparr>ss_sessions = [], ss_last_cleanup = 0\<rparr>"

section \<open>Operations\<close>

definition rstrip :: "string \<Rightarrow> string" where
  "rstrip s = rstrip_where is_space s"

text \<open>The ellipsis U+2026 by its Windows-1252 code.\<close>

definition trim_marker :: string where
  "trim_marker = CHR '' '' # char_of (133 :: nat) # ''[trimmed]''"

definition trim_content :: "settings \<Rightarrow> string \<Rightarrow> string" where
  "trim_content s t =
     (let c = compact t; limit = max_history_message_chars s
      in if int (length c) \<le> limit then c
         else rstrip (take (nat (max 0 (limit - 20))) c) @ trim_marker)"

definition cleanup_sessions :: "settings \<Rightarrow> time \<Rightarrow> session_store \<Rightarrow> session_store" where
  "cleanup_sessions s now st =
     (if now - ss_last_cleanup st < seconds (conversation_cleanup_interval_seconds s) then st
      else let cutoff = now - seconds (conversation_session_ttl_seconds s)
        in \<lparr>ss_sessions = filter (\<lambda>kv. \<not> snd (snd kv) < cutoff) (ss_sessions st),
            ss_last_cleanup = now\<rparr>)"

definition session_get ::
  "settings \<Rightarrow> time \<Rightarrow> time \<Rightarrow> string \<Rightarrow> session_store \<Rightarrow> conversation_turn list \<times> session_store" where
  "session_get s now touched k st =
     (let st' = cleanup_sessions s now st in
      case map_of (ss_sessions st') k of
        None \<Rightarrow> ([], st')
      | Some (ms, _) \<Rightarrow> (ms, st'\<lparr>ss_sessions := alist_put_last k (ms, touched) (ss_sessions st')\<rparr>))"

text \<open>\<open>deque(maxlen=n).append\<close>.\<close>

definition push_turn :: "settings \<Rightarrow> conversation_turn \<Rightarrow> conversation_turn list \<Rightarrow> conversation_turn list" where
  "push_turn s m ms = last_n (nat (session_history_messages s)) (ms @ [m])"

definition add_pair ::
  "settings \<Rightarrow> time \<Rightarrow> time \<Rightarrow> string \<Rightarrow> string \<Rightarrow> string \<Rightarrow> session_store \<Rightarrow> session_store" where
  "add_pair s now touched k user assistant st =
     (let st' = cleanup_sessions s now st;
          ms = (case map_of (ss_sessions st') k of None \<Rightarrow> [] | Some (ms, _) \<Rightarrow> ms);
          ms1 = push_turn s \<lparr>ct_role = ''user'', ct_content = trim_content s user\<rparr> ms;
          ms2 = push_turn s \<lparr>ct_role = ''assistant'', ct_content = trim_content s assistant\<rparr> ms1;
          kept = alist_put_last k (ms2, touched) (ss_sessions st')
      in st'\<lparr>ss_sessions := last_n (nat (max_conversation_sessions s)) kept\<rparr>)"

definition session_clear :: "string \<Rightarrow> session_store \<Rightarrow> session_store" where
  "session_clear k st = st\<lparr>ss_sessions := alist_del k (ss_sessions st)\<rparr>"

definition render_history :: "settings \<Rightarrow> conversation_turn list \<Rightarrow> string" where
  "render_history s history =
     (if history = [] then ''No prior messages in this session.''
      else join [CHR 0x0A]
        (map (\<lambda>m. (if ct_role m = ''user'' then ''User'' else ''Assistant'') @ '': ''
                  @ trim_content s (ct_content m))
          (last_n (nat (session_history_messages s)) history)))"

section \<open>Bounds\<close>

lemma length_rstrip_le: "length (rstrip t) \<le> length t"
  unfolding rstrip_def by (rule length_rstrip_where_le)

lemma trim_content_bounded:
  assumes "20 \<le> max_history_message_chars s"
  shows "int (length (trim_content s t)) \<le> max_history_message_chars s"
proof -
  let ?n = "nat (max_history_message_chars s - 20)"
  have "length (rstrip (take ?n (compact t))) \<le> ?n"
    using length_rstrip_le [of "take ?n (compact t)"] by simp
  then have "int (length (rstrip (take ?n (compact t)))) + 20 \<le> max_history_message_chars s"
    using assms by linarith
  then show ?thesis
    using assms by (auto simp: trim_content_def trim_marker_def Let_def)
qed

definition kept_session_ok :: "settings \<Rightarrow> session \<Rightarrow> bool" where
  "kept_session_ok s e \<longleftrightarrow> int (length (fst e)) \<le> session_history_messages s \<and>
     list_all (\<lambda>m. int (length (ct_content m)) \<le> max_history_message_chars s) (fst e)"

definition sessions_ok :: "settings \<Rightarrow> session_store \<Rightarrow> bool" where
  "sessions_ok s st \<longleftrightarrow> distinct (map fst (ss_sessions st)) \<and>
     int (length (ss_sessions st)) \<le> max_conversation_sessions s \<and>
     list_all (\<lambda>kv. kept_session_ok s (snd kv)) (ss_sessions st)"

lemma distinct_map_last_n: "distinct (map f xs) \<Longrightarrow> distinct (map f (last_n n xs))"
  by (simp add: last_n_def drop_map [symmetric])

lemma list_all_last_n: "list_all P xs \<Longrightarrow> list_all P (last_n n xs)"
  using set_last_n_subset [of n xs] by (auto simp: list_all_iff)

lemma list_all_alist_del: "list_all P kvs \<Longrightarrow> list_all P (alist_del k kvs)"
  by (auto simp: alist_del_def list_all_iff)

lemma list_all_alist_put_last: "list_all P kvs \<Longrightarrow> P (k, v) \<Longrightarrow> list_all P (alist_put_last k v kvs)"
  by (simp add: alist_put_last_def list_all_alist_del)

lemma list_all_map_of: "list_all (\<lambda>kv. P (snd kv)) kvs \<Longrightarrow> map_of kvs k = Some v \<Longrightarrow> P v"
  by (auto simp: list_all_iff dest!: map_of_SomeD)

lemma filter_sessions_ok:
  "sessions_ok s st \<Longrightarrow> sessions_ok s (st\<lparr>ss_sessions := filter P (ss_sessions st)\<rparr>)"
  using order_trans [OF of_nat_mono [OF length_filter_le [of P "ss_sessions st"]]]
  by (auto simp: sessions_ok_def list_all_iff distinct_map_filter)

lemma cleanup_sessions_ok: "sessions_ok s st \<Longrightarrow> sessions_ok s (cleanup_sessions s now st)"
  using filter_sessions_ok [of s st] by (simp add: cleanup_sessions_def sessions_ok_def Let_def)

lemma push_turn_ok:
  assumes "kept_session_ok s (ms, t)" and "20 \<le> max_history_message_chars s" and "0 \<le> session_history_messages s"
  shows "kept_session_ok s (push_turn s \<lparr>ct_role = r, ct_content = trim_content s c\<rparr> ms, t')"
  using assms trim_content_bounded [OF assms(2)]
  by (auto simp: kept_session_ok_def push_turn_def intro!: list_all_last_n)

lemma alist_put_last_present:
  assumes "distinct (map fst kvs)" and "map_of kvs k = Some v"
  shows "length (alist_put_last k w kvs) = length kvs"
proof -
  have "filter (\<lambda>kv. fst kv = k) kvs = [(k, v)]"
    using assms by (induction kvs) (auto split: if_splits simp: filter_empty_conv rev_image_eqI)
  then show ?thesis
    using sum_length_filter_compl [of "\<lambda>kv. fst kv = k" kvs] by (simp add: alist_put_last_def alist_del_def)
qed

lemma session_get_ok:
  assumes "sessions_ok s st"
  shows "sessions_ok s (snd (session_get s now t k st))"
proof -
  let ?st = "cleanup_sessions s now st"
  note ok = cleanup_sessions_ok [OF assms, of now]
  show ?thesis
  proof (cases "map_of (ss_sessions ?st) k")
    case None
    then show ?thesis using ok by (simp add: session_get_def Let_def)
  next
    case (Some e)
    then show ?thesis
      using ok list_all_map_of [of "kept_session_ok s" "ss_sessions ?st" k e]
      by (cases e) (auto simp: session_get_def Let_def sessions_ok_def kept_session_ok_def alist_put_last_present
          intro!: distinct_alist_put_last list_all_alist_put_last)
  qed
qed

lemma add_pair_ok:
  assumes "sessions_ok s st" and "20 \<le> max_history_message_chars s" and "0 \<le> session_history_messages s"
    and "0 \<le> max_conversation_sessions s"
  shows "sessions_ok s (add_pair s now t k u a st)"
proof -
  let ?st = "cleanup_sessions s now st"
  let ?ms = "case map_of (ss_sessions ?st) k of None \<Rightarrow> [] | Some (ms, _) \<Rightarrow> ms"
  note ok = cleanup_sessions_ok [OF assms(1), of now]
  have "kept_session_ok s (?ms, t)"
    using ok assms(3) list_all_map_of [of "kept_session_ok s" "ss_sessions ?st" k]
    by (fastforce simp: sessions_ok_def kept_session_ok_def split: option.split)
  note pushed = push_turn_ok [OF push_turn_ok [OF this assms(2,3)] assms(2,3)]
  show ?thesis
    using ok assms(4) pushed
    by (auto simp: add_pair_def Let_def sessions_ok_def
        intro!: distinct_map_last_n distinct_alist_put_last list_all_last_n list_all_alist_put_last)
qed

text \<open>Whatever the calls and the clock, the memory keeps its bounds.\<close>

datatype session_op =
    GetSession time time string
  | AddPair time time string string string
  | ClearSession string

fun session_step :: "settings \<Rightarrow> session_op \<Rightarrow> session_store \<Rightarrow> session_store" where
  "session_step s (GetSession now t k) st = snd (session_get s now t k st)"
| "session_step s (AddPair now t k u a) st = add_pair s now t k u a st"
| "session_step s (ClearSession k) st = session_clear k st"

theorem session_memory_bounded:
  assumes "valid_settings s"
  shows "sessions_ok s (fold (session_step s) ops empty_sessions)"
proof -
  have bounds: "20 \<le> max_history_message_chars s" "0 \<le> session_history_messages s" "0 \<le> max_conversation_sessions s"
    using assms by (simp_all add: valid_settings_def field_bounds_ok_def between_def)
  have step: "sessions_ok s st \<Longrightarrow> sessions_ok s (session_step s op st)" for op st
  proof (cases op)
    case (ClearSession k)
    moreover assume "sessions_ok s st"
    moreover have "length (alist_del k (ss_sessions st)) \<le> length (ss_sessions st)" by (rule length_alist_del_le)
    ultimately show ?thesis
      by (auto simp: session_clear_def sessions_ok_def distinct_alist_del list_all_alist_del)
  qed (simp_all add: session_get_ok add_pair_ok bounds)
  have "sessions_ok s empty_sessions" using bounds by (simp add: sessions_ok_def empty_sessions_def)
  then show ?thesis by (induction ops rule: rev_induct) (simp_all add: step)
qed

text \<open>The pair is what a later read finds, unless the session ran out of time in between.\<close>

lemma map_of_last_n_put_last: "0 < n \<Longrightarrow> map_of (last_n n (alist_put_last k v kvs)) k = Some v"
proof -
  let ?ys = "drop (Suc (length (alist_del k kvs)) - n) (alist_del k kvs)"
  assume "0 < n"
  then have "last_n n (alist_put_last k v kvs) = ?ys @ [(k, v)]" by (simp add: last_n_def alist_put_last_def)
  moreover have "k \<notin> fst ` set ?ys" using alist_del_notin [of k kvs] set_drop_subset by fastforce
  then have "map_of ?ys k = None" by (simp add: map_of_eq_None_iff)
  ultimately show ?thesis by (simp add: map_add_def)
qed

lemma kept_by_cleanup:
  "map_of (ss_sessions st) k = Some (ms, t) \<Longrightarrow> distinct (map fst (ss_sessions st)) \<Longrightarrow>
   now - seconds (conversation_session_ttl_seconds s) \<le> t \<Longrightarrow>
   map_of (ss_sessions (cleanup_sessions s now st)) k = Some (ms, t)"
  by (auto simp: cleanup_sessions_def Let_def map_of_eq_Some_iff distinct_map_filter)

lemma get_after_add_pair:
  assumes "0 < max_conversation_sessions s" and "now - seconds (conversation_session_ttl_seconds s) \<le> t"
    and "sessions_ok s st"
  shows "fst (session_get s now t' k (add_pair s now' t k u a st)) =
    (let st' = cleanup_sessions s now' st;
         ms = (case map_of (ss_sessions st') k of None \<Rightarrow> [] | Some (ms, _) \<Rightarrow> ms)
     in last_n (nat (session_history_messages s))
          (ms @ [\<lparr>ct_role = ''user'', ct_content = trim_content s u\<rparr>,
                 \<lparr>ct_role = ''assistant'', ct_content = trim_content s a\<rparr>]))"
proof -
  let ?st = "cleanup_sessions s now' st" and ?new = "add_pair s now' t k u a st"
  let ?ms = "case map_of (ss_sessions ?st) k of None \<Rightarrow> [] | Some (ms, _) \<Rightarrow> ms"
  let ?n = "nat (session_history_messages s)"
  let ?u = "\<lparr>ct_role = ''user'', ct_content = trim_content s u\<rparr>"
  let ?a = "\<lparr>ct_role = ''assistant'', ct_content = trim_content s a\<rparr>"
  have two: "last_n ?n (last_n ?n (?ms @ [?u]) @ [?a]) = last_n ?n (?ms @ [?u, ?a])"
    by (simp add: last_n_append_last_n)
  have "map_of (ss_sessions ?new) k = Some (last_n ?n (?ms @ [?u, ?a]), t)"
    using assms(1) two by (simp add: add_pair_def Let_def push_turn_def map_of_last_n_put_last)
  moreover have "distinct (map fst (ss_sessions ?new))"
    using cleanup_sessions_ok [OF assms(3), of now']
    by (simp add: add_pair_def Let_def sessions_ok_def distinct_map_last_n distinct_alist_put_last)
  ultimately show ?thesis
    using assms(2) by (simp add: session_get_def kept_by_cleanup Let_def)
qed

end
