(* ===== verification/Formatting.thy ===== *)
theory Formatting
  imports SessionMemory Regex Evidence Routing
begin

text \<open>
  The legacy prompt service, \<open>src/app/services/formatting.py\<close>: tool evidence and references for a
  prompt, the messages of an answer and of a synthesis, the cleaning of a model's text.
  \<open>urllib.parse.urlparse\<close> is the argument \<open>up\<close>, LangChain's chat template the argument \<open>template\<close>;
  it gives the type and the content of every message. The em dash U+2014 is written with its
  Windows-1252 code.
\<close>

section \<open>Tool evidence\<close>

text \<open>\<open>json.dumps(data, ensure_ascii=False, indent=2)\<close>.\<close>

definition new_line :: "nat \<Rightarrow> string" where
  "new_line depth = CHR 0x0A # replicate (2 * depth) CHR '' ''"

fun compact_json_at :: "nat \<Rightarrow> json \<Rightarrow> string" where
  "compact_json_at d (JList xs) =
     (if xs = [] then ''[]''
      else ''['' @ new_line (Suc d) @ join ('','' @ new_line (Suc d)) (map (compact_json_at (Suc d)) xs)
           @ new_line d @ '']'')"
| "compact_json_at d (JObj kvs) =
     (if kvs = [] then ''{}''
      else ''{'' @ new_line (Suc d)
           @ join ('','' @ new_line (Suc d))
               (map (\<lambda>kv. json_string (fst kv) @ '': '' @ compact_json_at (Suc d) (snd kv)) kvs)
           @ new_line d @ ''}'')"
| "compact_json_at d v = json_dumps v"

definition to_compact_json :: "json \<Rightarrow> string" where
  "to_compact_json v = compact_json_at 0 v"

definition evidence_heading :: "tool_result \<Rightarrow> string" where
  "evidence_heading r = ''TOOL '' @ tr_tool r @ (if tr_ok r then '' OK:'' else '' ERROR:'') @ [CHR 0x0A]"

definition evidence_body :: "tool_result \<Rightarrow> string" where
  "evidence_body r =
     (if tr_ok r then to_compact_json (tr_data r)
      else case tr_error r of None \<Rightarrow> ''Unknown tool error''
        | Some e \<Rightarrow> if e = [] then ''Unknown tool error'' else e)"

fun evidence_blocks :: "int \<Rightarrow> int \<Rightarrow> tool_result list \<Rightarrow> string list" where
  "evidence_blocks limit used [] = []"
| "evidence_blocks limit used (r # rs) =
     (let prefix = evidence_heading r; remaining = limit - used - int (length prefix) in
      if remaining \<le> 0 then []
      else let body = take (nat remaining) (evidence_body r)
        in (prefix @ body)
           # evidence_blocks limit (used + int (length prefix) + int (length body)) rs)"

definition render_tool_evidence :: "int \<Rightarrow> tool_result list \<Rightarrow> string" where
  "render_tool_evidence limit results =
     (if results = [] then ''No tool evidence was used.''
      else join [CHR 0x0A, CHR 0x0A] (evidence_blocks limit 0 results))"

section \<open>References\<close>

record reference =
  rf_title :: string
  rf_url :: string
  rf_source :: string

definition parsed_url :: "(string \<Rightarrow> url_parts option) \<Rightarrow> string \<Rightarrow> url_parts result" where
  "parsed_url up url = (case up url of None \<Rightarrow> Inl (ValueError ''Invalid URL'') | Some p \<Rightarrow> Inr p)"

definition normalize_reference_url :: "(string \<Rightarrow> url_parts option) \<Rightarrow> string \<Rightarrow> string result" where
  "normalize_reference_url up url = bind_result (parsed_url up (strip url)) (\<lambda>p.
     Inr (url_scheme p @ ''://'' @ lower (url_netloc p) @ rstrip_where (\<lambda>c. c = CHR ''/'') (url_path p)))"

definition official_hosts :: "string list" where
  "official_hosts = [''docs.'', ''developer.'', ''developers.'', ''github.com'', ''langchain.com'',
     ''modelcontextprotocol.io'', ''ollama.com'', ''aws.amazon.com'', ''docs.aws.amazon.com'',
     ''fastapi.tiangolo.com'', ''python.org'']"

definition low_quality_hosts :: "string list" where
  "low_quality_hosts = [''reddit.com'', ''medium.com'', ''geeksforgeeks.org'', ''udemy.com'', ''quora.com'']"

definition reference_quality :: "(string \<Rightarrow> url_parts option) \<Rightarrow> string \<Rightarrow> string \<Rightarrow> int result" where
  "reference_quality up url title = bind_result (parsed_url up url) (\<lambda>p.
     let netloc = lower (url_netloc p);
         host = (if starts_with ''www.'' netloc then drop 4 netloc else netloc);
         text' = lower (host @ '' '' @ title)
     in Inr (10
       + (if list_ex (\<lambda>m. occurs_in m host) official_hosts
             \<or> list_ex (\<lambda>m. occurs_in m text') [''official'', ''documentation'', ''docs'']
          then 50 else 0)
       + (if ends_with ''.gov'' host \<or> ends_with ''.edu'' host then 25 else 0)
       - (if list_ex (\<lambda>m. occurs_in m host) low_quality_hosts then 35 else 0)
       - (if occurs_in ''blog'' host \<or> occurs_in ''blog'' text' then 10 else 0)))"

text \<open>What has been collected: the references with their quality, and the addresses seen.\<close>

type_synonym collected = "(reference \<times> int) list \<times> string list"

definition is_web_url :: "string \<Rightarrow> bool" where
  "is_web_url url \<longleftrightarrow> starts_with ''http://'' url \<or> starts_with ''https://'' url"

definition add_reference ::
  "(string \<Rightarrow> url_parts option) \<Rightarrow> string option \<Rightarrow> string option \<Rightarrow> string \<Rightarrow> collected \<Rightarrow> collected result" where
  "add_reference up title url source st =
     (case url of
        None \<Rightarrow> Inr st
      | Some u \<Rightarrow>
          if u = [] \<or> \<not> is_web_url u then Inr st
          else bind_result (normalize_reference_url up u) (\<lambda>n.
            if n \<in> set (snd st) then Inr st
            else let t = (case title of None \<Rightarrow> [] | Some t \<Rightarrow> t) in
              bind_result (reference_quality up u t) (\<lambda>q.
                Inr (fst st @ [(\<lparr>rf_title = take 180 (strip (if t = [] then u else t)),
                                 rf_url = strip u, rf_source = source\<rparr>, q)],
                     n # snd st))))"

fun if_text :: "json \<Rightarrow> string option" where
  "if_text (JStr s) = Some s"
| "if_text _ = None"

definition first_of :: "jobj \<Rightarrow> string \<Rightarrow> string \<Rightarrow> string \<Rightarrow> json" where
  "first_of kvs a b c = or_else (or_else (jget kvs a) (jget kvs b)) (jget kvs c)"

definition full_of_references :: "nat \<Rightarrow> collected \<Rightarrow> bool" where
  "full_of_references limit st \<longleftrightarrow> max (limit * 3) limit \<le> length (fst st)"

function (sequential) walk_references ::
    "(string \<Rightarrow> url_parts option) \<Rightarrow> nat \<Rightarrow> string \<Rightarrow> json \<Rightarrow> collected \<Rightarrow> collected result"
  and walk_items ::
    "(string \<Rightarrow> url_parts option) \<Rightarrow> nat \<Rightarrow> string \<Rightarrow> json list \<Rightarrow> collected \<Rightarrow> collected result"
  and walk_members ::
    "(string \<Rightarrow> url_parts option) \<Rightarrow> nat \<Rightarrow> string \<Rightarrow> jobj \<Rightarrow> collected \<Rightarrow> collected result"
where
  "walk_references up limit source (JObj kvs) st =
     (if full_of_references limit st then Inr st
      else bind_result
        (add_reference up (if_text (first_of kvs ''title'' ''name'' ''source''))
           (if_text (first_of kvs ''url'' ''link'' ''href'')) source st)
        (\<lambda>st'. walk_members up limit source kvs st'))"
| "walk_references up limit source (JList xs) st =
     (if full_of_references limit st then Inr st else walk_items up limit source xs st)"
| "walk_references up limit source v st = Inr st"
| "walk_items up limit source [] st = Inr st"
| "walk_items up limit source (x # xs) st =
     bind_result (walk_references up limit source x st) (\<lambda>st'. walk_items up limit source xs st')"
| "walk_members up limit source [] st = Inr st"
| "walk_members up limit source ((k, v) # kvs) st =
     bind_result (walk_references up limit source v st) (\<lambda>st'. walk_members up limit source kvs st')"
  by pat_completeness auto
termination
  by (relation "measure (case_sum (\<lambda>(_, _, _, v, _). size v)
       (case_sum (\<lambda>(_, _, _, vs, _). size_list size vs) (\<lambda>(_, _, _, kvs, _). size_list (size_prod (\<lambda>_. 0) size) kvs)))")
    auto

fun walk_results ::
  "(string \<Rightarrow> url_parts option) \<Rightarrow> nat \<Rightarrow> tool_result list \<Rightarrow> collected \<Rightarrow> collected result" where
  "walk_results up limit [] st = Inr st"
| "walk_results up limit (r # rs) st =
     bind_result (walk_references up limit (tr_tool r) (tr_data r) st) (walk_results up limit rs)"

definition extract_references ::
  "(string \<Rightarrow> url_parts option) \<Rightarrow> nat \<Rightarrow> tool_result list \<Rightarrow> reference list result" where
  "extract_references up limit results =
     bind_result (walk_results up limit results ([], [])) (\<lambda>st.
       Inr (map fst (take limit (sort_key (\<lambda>rq. - snd rq) (fst st)))))"

definition numbered :: "'a list \<Rightarrow> (nat \<times> 'a) list" where
  "numbered xs = zip [1..<Suc (length xs)] xs"

definition render_reference_instruction :: "reference list \<Rightarrow> string" where
  "render_reference_instruction refs =
     (if refs = [] then ''No reference URLs were found in tool output.''
      else join [CHR 0x0A] (''Use these references when relevant:''
        # map (\<lambda>(i, r). ''['' @ show_nat i @ ''] '' @ rf_title r @ '' - '' @ rf_url r @ '' ('' @ rf_source r @ '')'')
            (numbered refs)))"

section \<open>Model output\<close>

definition think_block :: rx where
  "think_block = seqs [caseless ''<think>'', Rep False 0 None (\<lambda>_. True), caseless ''</think>'']"

definition thinking_process :: rx where
  "thinking_process =
     seqs [Start, Rep True 0 None is_space,
       alts [caseless ''thinking process'', caseless ''thought process''],
       Rep True 0 None is_space, Lit '':'', Rep False 0 None (\<lambda>_. True),
       Look (alts [seqs [Lit [CHR 0x0A], Rep True 0 None is_space, Cls (\<lambda>c. \<not> is_space c)], End])]"

definition clean_model_output :: "string \<Rightarrow> string" where
  "clean_model_output t = strip (re_sub thinking_process [] (re_sub think_block [] t))"

definition append_references :: "string \<Rightarrow> reference list \<Rightarrow> nat \<Rightarrow> string" where
  "append_references answer refs limit =
     (let cleaned = clean_model_output answer in
      if refs = [] then cleaned
      else if occurs_in ''references:'' (lower cleaned) \<or> occurs_in ''sources:'' (lower cleaned) then cleaned
      else join [CHR 0x0A] ([rstrip cleaned, [], ''References:'']
        @ map (\<lambda>(i, r). show_nat i @ ''. '' @ rf_title r @ '' '' @ [char_of (151 :: nat)] @ '' '' @ rf_url r)
            (numbered (take limit refs))))"

section \<open>Prompts\<close>

text \<open>
  \<open>plan.reason\<close>: the class \<open>QueryPlan\<close> of \<open>services/routing.py\<close> has no such attribute, so every
  call that formats it raises.
\<close>

definition missing_attribute :: "string \<Rightarrow> string \<Rightarrow> string" where
  "missing_attribute cls name = repr_str cls @ '' object has no attribute '' @ repr_str name"

definition plan_reason :: "query_plan \<Rightarrow> string result" where
  "plan_reason plan = Inl (AttributeError (missing_attribute ''QueryPlan'' ''reason''))"

definition paragraphs :: "string list \<Rightarrow> string" where
  "paragraphs ls = join [CHR 0x0A] ls"

definition answer_rules :: "string list" where
  "answer_rules =
     [''Operational rules:'',
      ''- Answer the user's latest message, using concise session context only when relevant.'',
      ''- If tool evidence is present, base factual/current claims on that evidence.'',
      ''- If evidence is missing or weak, say what is missing; do not invent sources.'',
      ''- Never expose chain-of-thought, hidden reasoning, or fields named thinking.'',
      ''- Prefer a direct answer first, then useful context, tradeoffs, and next steps.'',
      ''- Be broad enough to answer the real need, not only the narrow literal words.'',
      ''- Use very simple language. A young student should understand the main answer.'',
      ''- For current information, mention the freshness/limits of the evidence when useful.'',
      ''- Put references in a separate References section when source URLs/titles are available.'',
      []]"

definition message_role :: "string \<Rightarrow> string" where
  "message_role t = (if t = ''human'' then ''user'' else if t = ''ai'' then ''assistant'' else t)"

definition rendered_messages :: "(string \<times> string) list \<Rightarrow> jobj list" where
  "rendered_messages ms =
     map (\<lambda>(t, c). [(''role'', JStr (message_role t)), (''content'', JStr c)]) ms"

definition build_messages ::
  "(string \<Rightarrow> string \<Rightarrow> (string \<times> string) list) \<Rightarrow> settings \<Rightarrow> string \<Rightarrow> string
   \<Rightarrow> conversation_turn list \<Rightarrow> query_plan \<Rightarrow> string option \<Rightarrow> tool_result list \<Rightarrow> reference list
   \<Rightarrow> jobj list result" where
  "build_messages template s user_message system_prompt history plan rewritten results refs =
     (let evidence = render_tool_evidence (max_tool_chars s) results;
          ref_text = render_reference_instruction refs; history_text = render_history s history;
          system = paragraphs (system_prompt # [] # answer_rules)
      in bind_result (plan_reason plan) (\<lambda>reason.
           Inr (rendered_messages (template system (paragraphs
             [''Current session context:'', history_text, [],
              ''Routing decision: intent='' @ qp_intent plan @ ''; model_key='' @ qp_model_key plan
                @ ''; tools='' @ py_repr (JList (map JStr (qp_tools plan))) @ ''; reason='' @ reason,
              ''Optimized search query: ''
                @ (case rewritten of None \<Rightarrow> ''not needed'' | Some q \<Rightarrow> if q = [] then ''not needed'' else q), [],
              ''Tool evidence:'', evidence, [], ''Reference guidance:'', ref_text, [],
              ''Answer format:'', ''1. Start with the clear answer.'',
              ''2. Add the important details that help the user act correctly.'',
              ''3. Keep the wording clean and easy.'', ''4. Do not include hidden reasoning.'', [],
              ''User message:'', user_message])))))"

definition build_synthesis_messages ::
  "(string \<Rightarrow> string \<Rightarrow> (string \<times> string) list) \<Rightarrow> settings \<Rightarrow> string \<Rightarrow> string
   \<Rightarrow> conversation_turn list \<Rightarrow> jobj list \<Rightarrow> reference list \<Rightarrow> jobj list" where
  "build_synthesis_messages template s original system_prompt history answers refs =
     rendered_messages (template
       (paragraphs [system_prompt, [],
          ''You are combining answers from several smaller questions into one final answer.'',
          ''Use simple words, keep it broad and useful, and avoid repeating the same point.'',
          ''Start with the final answer, then give helpful details or steps.'',
          ''Put references in a separate References section when references are available.'',
          ''Never expose hidden reasoning.'', []])
       (paragraphs [''Current session context:'', render_history s history, [],
          ''Original user message:'', original, [],
          ''Individual answers:'', to_compact_json (JList (map JObj answers)), [],
          ''Reference guidance:'', render_reference_instruction refs, [],
          ''Create one clean final answer that covers all parts.'']))"

text \<open>No prompt of this service is ever built for an answer.\<close>

lemma build_messages_raises:
  "\<exists>m. build_messages template s u p h plan rw results refs = Inl (AttributeError m)"
  by (simp add: build_messages_def plan_reason_def Let_def)

section \<open>What the evidence and the references are\<close>

text \<open>The blocks of the evidence fit into the limit.\<close>

lemma evidence_blocks_fit:
  "used \<le> limit \<Longrightarrow> used + int (length (concat (evidence_blocks limit used rs))) \<le> limit"
proof (induction rs arbitrary: used)
  case (Cons r rs)
  let ?p = "evidence_heading r"
  let ?remaining = "limit - used - int (length ?p)"
  let ?b = "take (nat ?remaining) (evidence_body r)"
  let ?used = "used + int (length ?p) + int (length ?b)"
  show ?case
  proof (cases "?remaining \<le> 0")
    case False
    then have "?used \<le> limit" by auto
    from Cons.IH [OF this] False show ?thesis by (simp add: Let_def)
  qed (use Cons.prems in \<open>simp add: Let_def\<close>)
qed simp

text \<open>Stripping keeps a prefix without white space at its ends.\<close>

lemma starts_with_iff: "starts_with p s \<longleftrightarrow> (\<exists>t. s = p @ t)"
  by (auto simp: starts_with_def) (metis append_take_drop_id)

lemma strip_keeps_prefix:
  assumes "starts_with p s" and "p \<noteq> []" and "\<not> is_space (hd p)" and "\<not> is_space (last p)"
  shows "starts_with p (strip s)"
proof -
  from assms(1) obtain t where s: "s = p @ t" by (auto simp: starts_with_iff)
  from assms(2,3) have "dropWhile is_space s = s" by (cases p) (simp_all add: s)
  moreover from assms(2,4) have "dropWhile is_space (rev p) = rev p"
    by (cases p rule: rev_cases) simp_all
  moreover have "dropWhile is_space (rev t @ rev p) = dropWhile is_space (rev t) @ rev p \<or>
      dropWhile is_space (rev t @ rev p) = dropWhile is_space (rev p)"
    by (metis dropWhile_append1 dropWhile_append2)
  ultimately show ?thesis by (auto simp: strip_def strip_where_def s starts_with_iff)
qed

lemma is_web_url_strip: "is_web_url u \<Longrightarrow> is_web_url (strip u)"
  by (auto simp: is_web_url_def is_space_def Let_def intro!: strip_keeps_prefix)

text \<open>
  What a walk has collected: web addresses of one of the tools, each address once. A walk adds at
  most one reference per dictionary and stops near three times the limit.
\<close>

definition collected_ok :: "string set \<Rightarrow> collected \<Rightarrow> bool" where
  "collected_ok tools st \<longleftrightarrow> distinct (snd st) \<and> length (fst st) = length (snd st) \<and>
     list_all (\<lambda>rq. is_web_url (rf_url (fst rq)) \<and> rf_source (fst rq) \<in> tools \<and> length (rf_title (fst rq)) \<le> 180) (fst st)"

lemma add_reference_ok:
  "add_reference up t u source st = Inr st' \<Longrightarrow> collected_ok tools st \<Longrightarrow> source \<in> tools \<Longrightarrow> collected_ok tools st'"
  by (auto simp: add_reference_def collected_ok_def bind_result_Inr_iff is_web_url_strip Let_def
      split: option.splits if_splits)

lemma walk_references_ok:
  "walk_references up limit source v st = Inr st' \<Longrightarrow> collected_ok tools st \<Longrightarrow> source \<in> tools \<Longrightarrow> collected_ok tools st'"
  "walk_items up limit source vs st = Inr st' \<Longrightarrow> collected_ok tools st \<Longrightarrow> source \<in> tools \<Longrightarrow> collected_ok tools st'"
  "walk_members up limit source kvs st = Inr st' \<Longrightarrow> collected_ok tools st \<Longrightarrow> source \<in> tools \<Longrightarrow> collected_ok tools st'"
  by (induction up limit source v st and up limit source vs st and up limit source kvs st
      arbitrary: st' and st' and st' rule: walk_references_walk_items_walk_members.induct)
    (auto simp: bind_result_Inr_iff add_reference_ok split: if_splits)

lemma walk_results_ok:
  "walk_results up limit rs st = Inr st' \<Longrightarrow> collected_ok tools st \<Longrightarrow> tr_tool ` set rs \<subseteq> tools \<Longrightarrow> collected_ok tools st'"
  by (induction rs arbitrary: st) (auto simp: bind_result_Inr_iff intro: walk_references_ok)

theorem extracted_references_ok:
  assumes "extract_references up limit results = Inr refs"
  shows "length refs \<le> limit \<and>
    (\<forall>r\<in>set refs. is_web_url (rf_url r) \<and> rf_source r \<in> tr_tool ` set results \<and> length (rf_title r) \<le> 180)"
proof -
  from assms obtain st where st: "walk_results up limit results ([], []) = Inr st"
    and refs: "refs = map fst (take limit (sort_key (\<lambda>rq. - snd rq) (fst st)))"
    by (auto simp: extract_references_def bind_result_Inr_iff)
  have "collected_ok (tr_tool ` set results) st"
    by (rule walk_results_ok [OF st]) (simp_all add: collected_ok_def)
  then show ?thesis by (auto simp: refs collected_ok_def list_all_iff dest!: in_set_takeD)
qed

text \<open>The best references are kept: what is left out ranks no higher.\<close>

lemma left_out_ranks_lower:
  assumes "x \<in> set (take n (sort_key (\<lambda>rq. - snd rq) xs))" and "y \<in> set (drop n (sort_key (\<lambda>rq. - snd rq) xs))"
  shows "snd y \<le> (snd x :: int)"
proof -
  let ?ys = "sort_key (\<lambda>rq. - snd rq) xs"
  have "sorted (map (\<lambda>rq. - snd rq) (take n ?ys) @ map (\<lambda>rq. - snd rq) (drop n ?ys))"
    by (simp only: map_append [symmetric] append_take_drop_id sorted_sort_key)
  then show ?thesis using assms unfolding sorted_append by fastforce
qed

section \<open>Cleaning a model's text\<close>

lemma re_sub_no_match: "matches r s 0 = [] \<Longrightarrow> re_sub r new s = s"
  by (simp add: re_sub_def re_split_def)

text \<open>The tags are removed in one pass, so a removal can make a new one.\<close>

lemma nested_tags_survive:
  "clean_model_output ''<thi<think></think>nk>x</think>'' = ''<think>x</think>''"
  by code_simp

end
