(* ===== verification/Decomposition.thy ===== *)
theory Decomposition
  imports Formatting Agents
begin

text \<open>
  The legacy query decomposition, \<open>src/app/services/decomposition.py\<close>: one request becomes a short
  list of cleaned tasks, by the caller's list, by its numbering, by a planning model or by
  heuristics, and omissions for a known kind of request are repaired. The bullet U+2022 is written
  with its Windows-1252 code; \<open>re_parse\<close> stands for \<open>json.loads\<close>.
\<close>

section \<open>Cleaning\<close>

definition spaces :: rx where
  "spaces = Rep True 1 None is_space"

definition edge_char :: "char \<Rightarrow> bool" where
  "edge_char c \<longleftrightarrow> code c \<in> {32, 9, 13, 10, 45, 149}"

definition clean_task :: "string \<Rightarrow> string" where
  "clean_task t = strip (take 600 (strip_where edge_char (re_sub spaces '' '' t)))"

definition clean_all :: "string list \<Rightarrow> string list" where
  "clean_all ts = filter (\<lambda>t. t \<noteq> []) (map clean_task ts)"

text \<open>\<open>if item and item not in output: output.append(item)\<close>.\<close>

definition add_new :: "string \<Rightarrow> string list \<Rightarrow> string list" where
  "add_new item output = (if item \<noteq> [] \<and> item \<notin> set output then output @ [item] else output)"

section \<open>Numbered requests\<close>

definition item_number :: rx where
  "item_number = seqs [Alt Start (Cls is_space), Rep True 1 (Some 2) digit_char,
     Cls (\<lambda>c. c = CHR '')'' \<or> c = CHR ''.''), Rep True 1 None is_space]"

definition preamble_edge :: "char \<Rightarrow> bool" where
  "preamble_edge c \<longleftrightarrow> c \<in> {CHR '' '', CHR '':'', CHR ''-''}"

definition standalone_starts :: "string list" where
  "standalone_starts = [''explain'', ''compare'', ''search'', ''choose'', ''give'', ''based'']"

definition with_preamble :: "string \<Rightarrow> string \<Rightarrow> string" where
  "with_preamble preamble item =
     (if preamble \<noteq> [] \<and> length preamble < 240
         \<and> \<not> list_ex (\<lambda>w. starts_with w (lower item)) standalone_starts
      then preamble @ '': '' @ item else item)"

text \<open>The pieces between the numbers; every number ends one and starts the next.\<close>

definition extract_numbered_items :: "string \<Rightarrow> string list" where
  "extract_numbered_items message =
     (let t = clean_task message; ms = matches item_number t 0 in
      if t = [] \<or> length ms < 2 then []
      else let pieces = cut_at 0 t ms; preamble = strip_where preamble_edge (hd pieces)
        in fold (\<lambda>piece items. let item = clean_task piece in
               if item = [] then items else add_new (with_preamble preamble item) items)
             (tl pieces) [])"

section \<open>Heuristics\<close>

definition hard_separators :: "rx list" where
  "hard_separators =
     [Rep True 1 None (\<lambda>c. code c = 10),
      seqs [Rep True 0 None is_space, Lit '';'', Rep True 0 None is_space],
      seqs [spaces, Boundary, alts [caseless ''also'', caseless ''then''], Boundary, spaces]]"

definition split_by_patterns :: "string \<Rightarrow> rx list \<Rightarrow> string list" where
  "split_by_patterns t patterns =
     fold (\<lambda>p pieces. filter (\<lambda>x. x \<noteq> []) (map strip (concat (map (re_split p) pieces)))) patterns [t]"

definition safe_to_split_on_and :: "string \<Rightarrow> bool" where
  "safe_to_split_on_and t \<longleftrightarrow> occurs_in '' and '' (lower t) \<and>
     \<not> list_ex (\<lambda>b. occurs_in b (lower t))
         [''pros and cons'', ''bread and butter'', ''quality and speed'', ''fast and easy'']"

definition and_question :: rx where
  "and_question = seqs [spaces, caseless ''and'', spaces,
     Look (seqs [alts (map caseless [''what'', ''why'', ''how'', ''when'', ''where'', ''who'', ''can'', ''do'',
        ''does'', ''is'', ''are'', ''should'', ''please'']), Boundary])]"

text \<open>The loop that stops once there are enough tasks; it looks at the bound after each piece.\<close>

fun take_new :: "int \<Rightarrow> string list \<Rightarrow> string list \<Rightarrow> string list" where
  "take_new n output [] = output"
| "take_new n output (p # ps) =
     (let output' = add_new (clean_task p) output
      in if n \<le> int (length output') then output' else take_new n output' ps)"

definition heuristic_decompose :: "string \<Rightarrow> int \<Rightarrow> string list" where
  "heuristic_decompose message max_items =
     (let cleaned = clean_task message in
      if cleaned = [] then []
      else
        let pieces = split_by_patterns cleaned hard_separators;
            questions = (if length pieces = 1 \<and> 2 \<le> count_occurrences ''?'' cleaned
              then map (\<lambda>p. p @ ''?'') (filter (\<lambda>p. strip p \<noteq> []) (split_where (\<lambda>c. c = CHR ''?'') cleaned))
              else pieces);
            parts = (if length questions = 1 \<and> safe_to_split_on_and cleaned
              then re_split and_question cleaned else questions);
            output = take_new max_items [] parts
        in if output = [] then [cleaned] else output)"

section \<open>Repairing omissions\<close>

definition complex_signals :: "string list" where
  "complex_signals = [''compare'', ''aws'', ''home server'', ''home-server'', ''deployment'', ''model list'',
     ''live model'', ''available model'', ''choose which model'', ''recommended architecture'',
     ''final recommended'', ''references'', ''official documentation'', ''latest technical'',
     ''subqueries'', ''stress test'', ''1)'', ''2)'', ''1.'', ''2.'']"

definition is_complex_coverage_case :: "string \<Rightarrow> bool" where
  "is_complex_coverage_case low \<longleftrightarrow> 2 \<le> length (filter (\<lambda>w. occurs_in w low) complex_signals)"

definition any_of :: "string list \<Rightarrow> string \<Rightarrow> bool" where
  "any_of ws t \<longleftrightarrow> list_ex (\<lambda>w. occurs_in w t) ws"

text \<open>A repair: when the request asks for it and no task mentions it, this task is added.\<close>

type_synonym repair = "(string \<Rightarrow> bool) \<times> string list \<times> string"

definition repairs :: "repair list" where
  "repairs =
     [(any_of [''mcp''], [''mcp''], ''Explain what MCP servers do in this app in simple words.''),
      (any_of [''langgraph'', ''orchestration''], [''langgraph'', ''orchestration''],
       ''Explain how LangGraph-style orchestration works in this app in simple words.''),
      (any_of [''ollama''], [''ollama''], ''Explain what Ollama models do in this app in simple words.''),
      (any_of [''external search'', ''search tools'', ''internet'', ''latest'', ''unknown''],
       [''search tool'', ''external search'', ''latest'', ''unknown''],
       ''Explain why external search tools are needed for latest or unknown facts.''),
      (\<lambda>low. (occurs_in ''home'' low \<and> occurs_in ''aws'' low) \<or> occurs_in ''deployment'' low,
       [''aws'', ''home-server'', ''home server'', ''deployment''],
       ''Compare a small home-server Docker deployment with an AWS-native serverless/container ''
       @ ''deployment, including pros, cons, cost, load, and when each makes sense.''),
      (any_of [''model list'', ''live model'', ''available model'', ''choose which model'',
               ''based on the live model''],
       [''model'', ''role''],
       ''Choose the best live model role for simple, general, search-heavy, reasoning, synthesis, ''
       @ ''vision, embedding, and fallback tasks, using only the available inventory.''),
      (any_of [''recommended architecture'', ''final recommended'', ''recommend architecture'', ''architecture''],
       [''recommended architecture'', ''final architecture''],
       ''Give a final recommended architecture that balances quality, speed, reliability, and cost.''),
      (any_of [''reference'', ''references'', ''cite'', ''official documentation'', ''latest technical''],
       [''reference'', ''official'', ''citation''],
       ''Find or verify the most useful official/high-quality references needed to support the answer.'')]"

definition add_if_needed :: "int \<Rightarrow> string \<Rightarrow> string \<Rightarrow> repair \<Rightarrow> string list \<Rightarrow> string list" where
  "add_if_needed max_items low joined r output =
     (case r of (condition, must_contain, query) \<Rightarrow>
        if max_items \<le> int (length output) \<or> \<not> condition low then output
        else if any_of must_contain joined then output
        else add_new (clean_task query) output)"

definition first_items :: "int \<Rightarrow> string \<Rightarrow> string list \<Rightarrow> string list" where
  "first_items max_items message output =
     (let kept = take (nat max_items) output in if kept = [] then [clean_task message] else kept)"

definition ensure_request_coverage :: "string \<Rightarrow> string list \<Rightarrow> int \<Rightarrow> string list" where
  "ensure_request_coverage message queries max_items =
     (let output = fold (\<lambda>q. add_new (clean_task q)) queries [];
          low = lower message; joined = lower (join '' '' output)
      in if length output \<le> 1 \<and> \<not> is_complex_coverage_case low
         then first_items max_items message output
         else first_items max_items message (fold (add_if_needed max_items low joined) repairs output))"

section \<open>The planning model\<close>

text \<open>\<open>_extract_json_object\<close>; \<open>None\<close> is its \<open>ValueError\<close>.\<close>

definition fence :: rx where
  "fence = Seq Start (Seq (Lit ''```'') (Alt (caseless ''json'') (Lit [])))"

definition unfenced :: "string \<Rightarrow> string" where
  "unfenced t =
     (let stripped = strip t in
      if starts_with ''```'' stripped
      then strip (re_sub (Seq (Lit ''```'') End) [] (strip (re_sub fence [] stripped)))
      else stripped)"

definition extract_json_object :: "(string \<Rightarrow> json option) \<Rightarrow> string \<Rightarrow> jobj option" where
  "extract_json_object parse t =
     (let from_brace = dropWhile (\<lambda>c. c \<noteq> CHR ''{'') (unfenced t);
          whole = rev (dropWhile (\<lambda>c. c \<noteq> CHR ''}'') (rev from_brace))
      in if whole = [] then None
         else case parse whole of Some (JObj kvs) \<Rightarrow> Some kvs | _ \<Rightarrow> None)"

definition planning_prompt :: "inventory \<Rightarrow> string \<Rightarrow> string" where
  "planning_prompt iv message =
     ''Split the user's request into the smallest useful standalone tasks. ''
     @ ''Preserve every major requirement from the original request. ''
     @ ''Do not drop comparison, latest-fact-checking, model-selection, architecture, reference, or output-format requirements. ''
     @ ''If the request contains numbered items, keep each numbered item as its own task unless it must be split. ''
     @ ''Return only valid JSON.'' @ [CHR 0x0A]
     @ ''JSON schema: {\"queries\": [\"simple standalone task 1\", \"simple standalone task 2\"]}'' @ [CHR 0x0A]
     @ ''Available tools: '' @ py_repr (JList (map JStr (tool_names iv))) @ [CHR 0x0A]
     @ ''User request: '' @ message"

definition planned_queries :: "(string \<Rightarrow> json option) \<Rightarrow> string \<Rightarrow> string list" where
  "planned_queries parse content =
     (case extract_json_object parse content of
        None \<Rightarrow> []
      | Some payload \<Rightarrow>
          (case jget payload ''queries'' of JList items \<Rightarrow> clean_all (map py_str items) | _ \<Rightarrow> []))"

definition llm_decompose :: "runtime_env \<Rightarrow> settings \<Rightarrow> string \<Rightarrow> inventory \<Rightarrow> string list eff" where
  "llm_decompose env s message iv =
     ebind (elift (resolve_model s (Some ''planner'') (Some iv))) (\<lambda>model.
       ecatch
         (ebind (ollama_chat env s model
              [chat_message ''system'' ''You are a query planning service. Return JSON only.'',
               chat_message ''user'' (planning_prompt iv message)]
              (Some 0) (Some (min 512 (ollama_num_predict s))) None None)
            (\<lambda>resp. eret (planned_queries (re_parse env) (lr_content resp))))
         (\<lambda>e. if e = CancelledError then eraise e else eret []))"

definition explicit_queries :: "jobj \<Rightarrow> string list" where
  "explicit_queries metadata =
     (case or_else (jget metadata ''subqueries'') (jget metadata ''queries'') of
        JList items \<Rightarrow> clean_all (map py_str items) | _ \<Rightarrow> [])"

definition decompose :: "runtime_env \<Rightarrow> settings \<Rightarrow> string \<Rightarrow> jobj \<Rightarrow> inventory \<Rightarrow> string list eff" where
  "decompose env s message metadata iv =
     (let n = max_subqueries s; explicit = explicit_queries metadata;
          numbered = extract_numbered_items message;
          heuristic = eret (ensure_request_coverage message (heuristic_decompose message n) n)
      in if explicit \<noteq> [] then eret (take (nat n) explicit)
         else if numbered \<noteq> [] then eret (ensure_request_coverage message numbered n)
         else if llm_backend s = Ollama \<and> enable_llm_query_planning s
         then ebind (llm_decompose env s message iv) (\<lambda>planned.
                if planned = [] then heuristic
                else eret (take (nat n) (ensure_request_coverage message planned n)))
         else heuristic)"

section \<open>Tasks\<close>

record query_task =
  qt_id :: string
  qt_query :: string
  qt_plan :: query_plan
  qt_model :: string
  qt_tools :: "string list"
  qt_rewritten :: "string option"

definition task_metadata :: "query_task \<Rightarrow> jobj result" where
  "task_metadata t = bind_result (plan_reason (qt_plan t)) (\<lambda>reason. Inr
     [(''id'', JStr (qt_id t)), (''query'', JStr (qt_query t)), (''intent'', JStr (qp_intent (qt_plan t))),
      (''model'', JStr (qt_model t)), (''model_key'', JStr (qp_model_key (qt_plan t))),
      (''tools'', JList (map JStr (qt_tools t))),
      (''rewritten_query'', case qt_rewritten t of None \<Rightarrow> JNull | Some q \<Rightarrow> JStr q),
      (''reason'', JStr reason)])"

definition fallback_map :: "(string \<times> string list) list" where
  "fallback_map =
     [(''web_search_and_scrape'', [''web_search_and_scrape'', ''web_search'', ''news_search'']),
      (''news_search'', [''news_search'', ''web_search_and_scrape'', ''web_search'']),
      (''weather_lookup'', [''weather_lookup'', ''web_search_and_scrape'', ''web_search'']),
      (''road_condition_search'', [''road_condition_search'', ''web_search_and_scrape'', ''web_search'']),
      (''stock_quote'', [''stock_quote'', ''explain_stock_move'', ''web_search_and_scrape'', ''web_search'']),
      (''stock_news'', [''stock_news'', ''news_search'', ''web_search_and_scrape'', ''web_search'']),
      (''explain_stock_move'', [''explain_stock_move'', ''stock_news'', ''stock_quote'',
         ''web_search_and_scrape'', ''web_search''])]"

definition append_with_fallbacks :: "string list \<Rightarrow> string \<Rightarrow> string list \<Rightarrow> string list" where
  "append_with_fallbacks available tool selected =
     (let candidates = (case map_of fallback_map tool of None \<Rightarrow> [tool] | Some ts \<Rightarrow> ts) in
      case find (\<lambda>c. c \<in> set available \<and> c \<notin> set selected) candidates of
        None \<Rightarrow> selected | Some c \<Rightarrow> selected @ [c])"

definition looks_fresh_or_discovery_query :: "string \<Rightarrow> bool" where
  "looks_fresh_or_discovery_query t \<longleftrightarrow>
     any_of [''latest'', ''today'', ''current'', ''recent'', ''news'', ''price'', ''schedule'', ''version'',
       ''release'', ''available'', ''online'', ''search'', ''look up'', ''unknown'', ''not sure''] (lower t) \<or>
     list_ex (\<lambda>w. starts_with w (lower t))
       [''what is '', ''who is '', ''where is '', ''when is '', ''how much '', ''which '']"

text \<open>Two settings the code reads are no fields of \<open>Settings\<close>.\<close>

definition search_unknown_or_fresh :: "settings \<Rightarrow> bool result" where
  "search_unknown_or_fresh s = Inl (AttributeError (missing_attribute ''Settings'' ''search_unknown_or_fresh''))"

definition max_tool_calls_setting :: "settings \<Rightarrow> int result" where
  "max_tool_calls_setting s = Inl (AttributeError (missing_attribute ''Settings'' ''max_tool_calls''))"

definition select_available_tools ::
  "query_plan \<Rightarrow> string \<Rightarrow> inventory \<Rightarrow> settings \<Rightarrow> string list result" where
  "select_available_tools plan query iv s =
     (let available = tool_names iv in
      if \<not> mcp_enabled s \<or> available = [] then Inr []
      else
        let selected = fold (append_with_fallbacks available) (qp_tools plan) []
        in bind_result
             (if selected \<noteq> [] then Inr selected
              else bind_result (search_unknown_or_fresh s) (\<lambda>enabled.
                if enabled \<and> looks_fresh_or_discovery_query query
                then Inr (take 1 (filter (\<lambda>c. c \<in> set available)
                       [''web_search_and_scrape'', ''web_search'', ''news_search'']))
                else Inr []))
             (\<lambda>chosen. bind_result (max_tool_calls_setting s) (\<lambda>n.
                Inr (take (nat n) (dedup (filter (\<lambda>t. t \<in> set available) chosen))))))"

text \<open>\<open>ModelRouter.plan\<close> takes the message alone, \<open>QueryPlan\<close> takes no \<open>reason\<close>.\<close>

definition plan_with_metadata :: "string \<Rightarrow> jobj \<Rightarrow> query_plan result" where
  "plan_with_metadata query metadata =
     Inl (TypeError ''ModelRouter.plan() takes 2 positional arguments but 3 were given'')"

definition plan_with_tools :: "query_plan \<Rightarrow> string list \<Rightarrow> query_plan result" where
  "plan_with_tools plan tools = bind_result (plan_reason plan) (\<lambda>reason.
     Inl (TypeError (''QueryPlan.__init__() got an unexpected keyword argument '' @ repr_str ''reason'')))"

fun build_tasks ::
  "settings \<Rightarrow> jobj \<Rightarrow> inventory \<Rightarrow> nat \<Rightarrow> string list \<Rightarrow> query_task list result" where
  "build_tasks s metadata iv index [] = Inr []"
| "build_tasks s metadata iv index (q # qs) =
     bind_result (plan_with_metadata q metadata) (\<lambda>plan.
     bind_result (select_available_tools plan q iv s) (\<lambda>tools.
     bind_result (plan_with_tools plan tools) (\<lambda>plan'.
     bind_result (resolve_model s (Some (qp_model_key plan')) (Some iv)) (\<lambda>model.
     bind_result (build_tasks s metadata iv (Suc index) qs) (\<lambda>tasks.
       Inr (\<lparr>qt_id = CHR ''q'' # show_nat index, qt_query = q, qt_plan = plan', qt_model = model,
              qt_tools = tools, qt_rewritten = None\<rparr> # tasks))))))"

text \<open>No task is ever built, and no tool is ever selected once the server offers some.\<close>

lemma build_tasks_raises: "\<exists>m. build_tasks s metadata iv index (q # qs) = Inl (TypeError m)"
  by (simp add: plan_with_metadata_def)

lemma select_available_tools_raises:
  "mcp_enabled s \<Longrightarrow> tool_names iv \<noteq> [] \<Longrightarrow> \<exists>m. select_available_tools plan q iv s = Inl (AttributeError m)"
  by (simp add: select_available_tools_def search_unknown_or_fresh_def max_tool_calls_setting_def Let_def)

section \<open>White space\<close>

lemma ends_run_iff: "ends (Rep True 1 None p) s i = [] \<longleftrightarrow> \<not> (i < length s \<and> p (s ! i))"
proof (cases "i < length s")
  case True
  then have "drop i s = s ! i # drop (Suc i) s" by (simp add: Cons_nth_drop_Suc)
  then show ?thesis using True by (simp add: run_length_def)
qed (simp add: run_length_def)

lemma ends_run_later: "k \<in> set (ends (Rep True 1 None p) s i) \<Longrightarrow> i < k"
  by (auto simp: Let_def split: if_splits)

lemma find_None_before: "find P xs = None \<Longrightarrow> x \<in> set xs \<Longrightarrow> \<not> P x"
  by (simp add: find_None_iff)

lemma find_first: "find P [a..<b] = Some j \<Longrightarrow> a \<le> i \<Longrightarrow> i < j \<Longrightarrow> \<not> P i"
proof -
  assume "find P [a..<b] = Some j" and i: "a \<le> i" "i < j"
  then obtain n where n: "n < b - a" "P (a + n)" "j = a + n" "\<forall>m<n. \<not> P (a + m)"
    by (fastforce simp: find_Some_iff)
  from n(4) [rule_format, of "i - a"] n(3) i show ?thesis by simp
qed

text \<open>Between the matches of a run of a class there is no character of the class.\<close>

lemma cut_at_runs_clean:
  "r = Rep True 1 None p \<Longrightarrow> c \<in> set (concat (cut_at i s (matches r s i))) \<Longrightarrow> \<not> p c"
proof (induction r s i rule: matches.induct)
  case (1 r s i)
  have outside: "\<not> p (s ! m)" if "ends r s m = []" and "m < length s" for m
    using that ends_run_iff [of p s m] 1(2) by simp
  show ?case
  proof (cases "first_match r s i")
    case None
    then have free: "ends r s m = []" if "i \<le> m" "m < length s" for m
      using that find_None_before [of "\<lambda>j. ends r s j \<noteq> []" "[i..<Suc (length s)]" m]
      by (auto simp: first_match_def simp del: upt_Suc)
    from 1(3) None have "c \<in> set (drop i s)" by (simp add: matches.simps [of r s i])
    then obtain m where "m < length s - i" "c = s ! (i + m)" by (auto simp: in_set_conv_nth)
    with outside [OF free [of "i + m"]] show ?thesis by simp
  next
    case (Some jk)
    obtain j k where jk: "first_match r s i = Some (j, k)" using Some by (cases jk) auto
    then have found: "find (\<lambda>j. ends r s j \<noteq> []) [i..<Suc (length s)] = Some j" "k = hd (ends r s j)"
      by (auto simp: first_match_def simp del: upt_Suc)
    then have "ends r s j \<noteq> []" by (auto dest: find_SomeD)
    then have later: "j < k" using found(2) ends_run_later [of k p s j] 1(2) by (simp add: list.set_sel(1))
    then have cut: "cut_at i s (matches r s i) = take (j - i) (drop i s) # cut_at k s (matches r s k)"
      by (simp add: matches.simps [of r s i] jk max_absorb1)
    consider "c \<in> set (take (j - i) (drop i s))" | "c \<in> set (concat (cut_at k s (matches r s k)))"
      using 1(3) unfolding cut by auto
    then show ?thesis
    proof cases
      case 1
      then obtain m where m: "m < j - i" "i + m < length s" "c = s ! (i + m)"
        by (auto simp: in_set_conv_nth)
      with find_first [OF found(1), of "i + m"] outside [of "i + m"] show ?thesis by auto
    next
      case 2
      moreover have "max k (Suc j) = k" using later by simp
      ultimately show ?thesis using 1(1) [OF jk refl 1(2)] by simp
    qed
  qed
qed

lemma set_join: "set (join sep ps) \<subseteq> set sep \<union> set (concat ps)"
  by (induction sep ps rule: join.induct) auto

lemma set_strip_where: "set (strip_where p t) \<subseteq> set t"
  unfolding strip_where_def by (metis order_trans set_dropWhileD set_rev subsetI)

text \<open>A cleaned task holds blanks only, no other white space, so the split at line ends never splits.\<close>

lemma clean_task_blanks: "c \<in> set (clean_task t) \<Longrightarrow> is_space c \<Longrightarrow> c = CHR '' ''"
proof -
  assume c: "c \<in> set (clean_task t)" and space: "is_space c"
  let ?edges = "strip_where edge_char (re_sub spaces '' '' t)"
  have "c \<in> set (take 600 ?edges)"
    using c unfolding clean_task_def strip_def by (rule subsetD [OF set_strip_where])
  then have "c \<in> set (re_sub spaces '' '' t)" by (rule subsetD [OF set_strip_where, OF in_set_takeD])
  then have "c = CHR '' '' \<or> c \<in> set (concat (cut_at 0 t (matches spaces t 0)))"
    using set_join by (fastforce simp: re_sub_def re_split_def)
  then show ?thesis using space cut_at_runs_clean [OF spaces_def, of c 0 t] by auto
qed

lemma line_split_never_splits:
  "re_split (Rep True 1 None (\<lambda>c. code c = 10)) (clean_task t) = [clean_task t]"
proof -
  let ?s = "clean_task t"
  define r where "r = Rep True 1 None (\<lambda>c. code c = 10)"
  have "ends r ?s i = []" for i
    unfolding r_def ends_run_iff using clean_task_blanks [of "?s ! i" t]
    by (auto simp: code_def is_space_def Let_def)
  then have "first_match r ?s 0 = None" by (simp add: first_match_def find_None_iff del: upt_Suc)
  then have "re_split r ?s = [?s]" by (simp add: re_split_def matches.simps [of r ?s 0])
  then show ?thesis by (simp only: r_def)
qed

section \<open>What a decomposition is\<close>

lemma length_strip_le: "length (strip t) \<le> length t"
  unfolding strip_def strip_where_def using length_dropWhile_le [of is_space]
  by (metis length_rev order_trans)

lemma clean_task_short: "length (clean_task t) \<le> 600"
  using length_strip_le [of "take 600 (strip_where edge_char (re_sub spaces '' '' t))"]
  by (simp add: clean_task_def)

text \<open>Tasks as a decomposition keeps them: not empty, short, each once.\<close>

definition tasks_ok :: "string list \<Rightarrow> bool" where
  "tasks_ok ts \<longleftrightarrow> distinct ts \<and> [] \<notin> set ts \<and> list_all (\<lambda>t. length t \<le> 600) ts"

lemma add_new_ok: "tasks_ok ts \<Longrightarrow> length item \<le> 600 \<Longrightarrow> tasks_ok (add_new item ts)"
  by (auto simp: add_new_def tasks_ok_def)

lemma fold_add_new_ok: "tasks_ok ts \<Longrightarrow> tasks_ok (fold (\<lambda>q. add_new (clean_task q)) qs ts)"
  by (induction qs arbitrary: ts) (auto simp: add_new_ok clean_task_short)

lemma add_if_needed_ok: "tasks_ok ts \<Longrightarrow> tasks_ok (add_if_needed n low joined r ts)"
  by (auto simp: add_if_needed_def add_new_ok clean_task_short split: prod.split)

lemma fold_add_if_needed_ok: "tasks_ok ts \<Longrightarrow> tasks_ok (fold (add_if_needed n low joined) rs ts)"
  by (induction rs arbitrary: ts) (auto simp: add_if_needed_ok)

lemma tasks_ok_take: "tasks_ok ts \<Longrightarrow> tasks_ok (take n ts)"
  by (auto simp: tasks_ok_def list_all_iff dest: in_set_takeD)

text \<open>A short list of such tasks; the cleaned request alone when nothing was found.\<close>

definition short_plan :: "int \<Rightarrow> string \<Rightarrow> string list \<Rightarrow> bool" where
  "short_plan n message ts \<longleftrightarrow> ts \<noteq> [] \<and> int (length ts) \<le> n \<and>
     list_all (\<lambda>t. length t \<le> 600) ts \<and> ([] \<in> set ts \<longrightarrow> ts = [clean_task message])"

lemma first_items_short: "1 \<le> n \<Longrightarrow> tasks_ok ts \<Longrightarrow> short_plan n message (first_items n message ts)"
  using tasks_ok_take [of ts "nat n"]
  by (auto simp: first_items_def short_plan_def tasks_ok_def Let_def clean_task_short)

lemma coverage_short: "1 \<le> n \<Longrightarrow> short_plan n message (ensure_request_coverage message qs n)"
proof -
  assume n: "1 \<le> n"
  have "tasks_ok (fold (\<lambda>q. add_new (clean_task q)) qs [])" by (rule fold_add_new_ok) (simp add: tasks_ok_def)
  then show ?thesis
    by (auto simp: ensure_request_coverage_def Let_def intro!: first_items_short n fold_add_if_needed_ok)
qed

lemma short_plan_take: "short_plan n message ts \<Longrightarrow> take (nat n) ts = ts"
  by (auto simp: short_plan_def)

lemma explicit_short: "explicit_queries m \<noteq> [] \<Longrightarrow> 1 \<le> n \<Longrightarrow> short_plan n message (take (nat n) (explicit_queries m))"
  by (auto simp: explicit_queries_def clean_all_def short_plan_def list_all_iff clean_task_short
      dest!: in_set_takeD split: json.splits)

text \<open>
  Whatever the caller, the planning model and the text are, a decomposition that returns gives
  between one and \<open>max_subqueries\<close> tasks of at most 600 characters.
\<close>

theorem decomposition_is_short:
  assumes "valid_settings s" and "decompose env s message metadata iv w = (Inr ts, w')"
  shows "short_plan (max_subqueries s) message ts"
proof -
  have n: "1 \<le> max_subqueries s"
    using assms(1) by (simp add: valid_settings_def field_bounds_ok_def between_def)
  show ?thesis
    using assms(2) n
    by (auto simp: decompose_def Let_def ebind_Inr_iff explicit_short coverage_short
        short_plan_take [OF coverage_short] split: if_splits)
qed

text \<open>A model that fails or answers no JSON leaves the plan to the heuristics.\<close>

lemma planning_failure_falls_back:
  assumes "llm_decompose env s message iv w = (Inr [], w')" and "explicit_queries metadata = []"
    and "extract_numbered_items message = []"
  shows "\<exists>w''. decompose env s message metadata iv w =
    (Inr (ensure_request_coverage message (heuristic_decompose message (max_subqueries s)) (max_subqueries s)), w'')"
  using assms by (auto simp: decompose_def Let_def ebind_def)

end
