(* ===== verification/Artifacts.thy ===== *)
theory Artifacts
  imports Bytes Json
begin

text \<open>
  The optional object store for artifacts, \<open>src/app/state/minio.py\<close>, over the client of the MinIO
  package: the calls of the client on a server state, each of which may fail. The threads the calls
  run in only delay them.
\<close>

record ('s, 'r) minio_client =
  mc_exists :: "string \<Rightarrow> 's \<Rightarrow> bool result \<times> 's"
  mc_make :: "string \<Rightarrow> 's \<Rightarrow> unit result \<times> 's"
  mc_put :: "string \<Rightarrow> string \<Rightarrow> bytes \<Rightarrow> nat \<Rightarrow> string \<Rightarrow> 's \<Rightarrow> unit result \<times> 's"
  mc_get :: "string \<Rightarrow> string \<Rightarrow> 's \<Rightarrow> 'r result \<times> 's"
  mc_read :: "'r \<Rightarrow> 's \<Rightarrow> bytes result \<times> 's"
  mc_release :: "'r \<Rightarrow> 's \<Rightarrow> 's" \<comment> \<open>\<open>close\<close> and \<open>release_conn\<close>\<close>

definition artifact_start :: "('s, 'r) minio_client \<Rightarrow> string \<Rightarrow> 's \<Rightarrow> unit result \<times> 's" where
  "artifact_start c bucket s =
     (case mc_exists c bucket s of
        (Inl e, s') \<Rightarrow> (Inl e, s')
      | (Inr there, s') \<Rightarrow> if there then (Inr (), s') else mc_make c bucket s')"

definition artifact_close :: "'s \<Rightarrow> unit result \<times> 's" where
  "artifact_close s = (Inr (), s)"

definition artifact_health :: "('s, 'r) minio_client \<Rightarrow> string \<Rightarrow> 's \<Rightarrow> jobj result \<times> 's" where
  "artifact_health c bucket s =
     (case mc_exists c bucket s of
        (Inl e, s') \<Rightarrow> (Inl e, s')
      | (Inr there, s') \<Rightarrow>
          (Inr [(''status'', JStr (if there then ''available'' else ''unavailable'')),
                (''backend'', JStr ''minio''), (''bucket'', JStr bucket)], s'))"

definition put_bytes ::
  "('s, 'r) minio_client \<Rightarrow> string \<Rightarrow> string \<Rightarrow> bytes \<Rightarrow> string \<Rightarrow> 's \<Rightarrow> string result \<times> 's" where
  "put_bytes c bucket name data content_type s =
     (case mc_put c bucket name data (length data) content_type s of
        (Inl e, s') \<Rightarrow> (Inl e, s') | (Inr _, s') \<Rightarrow> (Inr name, s'))"

text \<open>A response that was obtained is released whether reading it succeeds or not.\<close>

definition get_bytes :: "('s, 'r) minio_client \<Rightarrow> string \<Rightarrow> string \<Rightarrow> 's \<Rightarrow> bytes result \<times> 's" where
  "get_bytes c bucket name s =
     (case mc_get c bucket name s of
        (Inl e, s') \<Rightarrow> (Inl e, s')
      | (Inr r, s') \<Rightarrow> (case mc_read c r s' of (data, s'') \<Rightarrow> (data, mc_release c r s'')))"

text \<open>What the documentation of the client says of a stored object.\<close>

definition stores_objects :: "('s, 'r) minio_client \<Rightarrow> bool" where
  "stores_objects c \<longleftrightarrow>
     (\<forall>b n d ct s s'. mc_put c b n d (length d) ct s = (Inr (), s') \<longrightarrow>
        (\<exists>r s1 s2. mc_get c b n s' = (Inr r, s1) \<and> mc_read c r s1 = (Inr d, s2)))"

lemma stored_artifact_reads_back:
  assumes "stores_objects c" and "put_bytes c bucket name data ct s = (Inr n, s')"
  shows "n = name \<and> fst (get_bytes c bucket name s') = Inr data"
  using assms by (fastforce simp: put_bytes_def get_bytes_def stores_objects_def split: prod.splits sum.splits)

text \<open>A server that counts the responses it has handed out and not got back.\<close>

type_synonym memory_bucket = "(string \<times> string \<times> bytes) list \<times> nat"

definition memory_minio :: "(memory_bucket, bytes) minio_client" where
  "memory_minio =
     \<lparr>mc_exists = (\<lambda>b s. (Inr (b \<in> set (map fst (fst s))), s)),
      mc_make = (\<lambda>b s. (Inr (), ((b, [], []) # fst s, snd s))),
      mc_put = (\<lambda>b n d _ _ s. (Inr (), ((b, n, d) # fst s, snd s))),
      mc_get = (\<lambda>b n s. (case find (\<lambda>(b', n', _). b' = b \<and> n' = n) (fst s) of
         None \<Rightarrow> (Inl (ResponseError ''NoSuchKey''), s) | Some (_, _, d) \<Rightarrow> (Inr d, (fst s, Suc (snd s))))),
      mc_read = (\<lambda>d s. (Inr d, s)), mc_release = (\<lambda>_ s. (fst s, snd s - 1))\<rparr>"

lemma memory_minio_stores: "stores_objects memory_minio"
  by (auto simp: stores_objects_def memory_minio_def)

lemma responses_are_released:
  "snd (snd (get_bytes memory_minio b n s)) = snd s"
  by (auto simp: get_bytes_def memory_minio_def split: option.split prod.split)

end
