(* ===== verification/Documentation.thy ===== *)
theory Documentation
  imports Chat JsonText Stores
begin

text \<open>
  The documentation examples of the API: the loaders of \<open>src/app/schemas/chat.py\<close>, which read a
  JSON file and check it as a request, and \<open>src/app/api/openapi.py\<close>, which puts the examples into
  the generated schema. \<open>files\<close> gives the text of a file of the example directory, \<open>None\<close> when it
  cannot be read; log lines are left out.
\<close>

section \<open>Reading an example\<close>

text \<open>\<open>Path(filename).name\<close>: the last component that is not empty or a dot.\<close>

definition path_name :: "string \<Rightarrow> string" where
  "path_name f =
     (case rev (filter (\<lambda>p. p \<noteq> [] \<and> p \<noteq> ''.'') (split_where (\<lambda>c. c = CHR ''/'') f)) of
        [] \<Rightarrow> [] | p # _ \<Rightarrow> p)"

definition validate_request_example :: "pydantic \<Rightarrow> jobj \<Rightarrow> jobj result" where
  "validate_request_example py value =
     (case validate_chat_request py (JObj value) of
        None \<Rightarrow> Inl (ValidationError ''ChatRequest'') | Some _ \<Rightarrow> Inr value)"

definition read_request_example ::
  "pydantic \<Rightarrow> (string \<Rightarrow> pyfloat) \<Rightarrow> (string \<Rightarrow> string option) \<Rightarrow> string \<Rightarrow> jobj option" where
  "read_request_example py fl files filename =
     (if path_name filename \<noteq> filename \<or> \<not> ends_with ''.json'' filename then None
      else case Option.bind (files filename) (json_loads fl) of
        Some (JObj raw) \<Rightarrow>
          (case validate_request_example py raw of Inl _ \<Rightarrow> None | Inr v \<Rightarrow> Some v)
      | _ \<Rightarrow> None)"

text \<open>\<open>lru_cache\<close> without a bound.\<close>

type_synonym example_files = "(string \<times> jobj option) list"

definition load_request_example ::
  "pydantic \<Rightarrow> (string \<Rightarrow> pyfloat) \<Rightarrow> (string \<Rightarrow> string option) \<Rightarrow> string \<Rightarrow> example_files
   \<Rightarrow> jobj option \<times> example_files" where
  "load_request_example py fl files filename cache =
     (case map_of cache filename of
        Some v \<Rightarrow> (v, cache)
      | None \<Rightarrow> let v = read_request_example py fl files filename in (v, (filename, v) # cache))"

section \<open>Building the mapping of examples\<close>

definition build_openapi_examples :: "pydantic \<Rightarrow> string \<Rightarrow> string \<Rightarrow> jobj \<Rightarrow> jobj result" where
  "build_openapi_examples py summary description value =
     bind_result (validate_request_example py value) (\<lambda>v.
       Inr [(''default'', JObj [(''summary'', JStr summary), (''description'', JStr description),
                                (''value'', JObj v)])])"

definition load_chat_openapi_examples ::
  "pydantic \<Rightarrow> (string \<Rightarrow> pyfloat) \<Rightarrow> (string \<Rightarrow> string option) \<Rightarrow> string \<Rightarrow> string \<Rightarrow> string
   \<Rightarrow> example_files \<Rightarrow> jobj option result \<times> example_files" where
  "load_chat_openapi_examples py fl files filename summary description cache =
     (case load_request_example py fl files filename cache of
        (None, cache') \<Rightarrow> (Inr None, cache')
      | (Some v, cache') \<Rightarrow>
          (bind_result (build_openapi_examples py summary description v) (\<lambda>ex. Inr (Some ex)), cache'))"

definition load_chat_request_example ::
  "pydantic \<Rightarrow> (string \<Rightarrow> pyfloat) \<Rightarrow> (string \<Rightarrow> string option) \<Rightarrow> string \<Rightarrow> jobj option" where
  "load_chat_request_example py fl files filename = read_request_example py fl files filename"

definition chat_example_file :: string where
  "chat_example_file = ''chat.json''"

definition stream_example_file :: string where
  "stream_example_file = ''chat-stream.json''"

datatype example_source = NoExample | FileName string | GivenExample jobj

definition build_examples_of ::
  "pydantic \<Rightarrow> (string \<Rightarrow> pyfloat) \<Rightarrow> (string \<Rightarrow> string option) \<Rightarrow> string \<Rightarrow> string \<Rightarrow> string
   \<Rightarrow> example_source \<Rightarrow> example_files \<Rightarrow> jobj option result \<times> example_files" where
  "build_examples_of py fl files usual summary description source cache =
     (case source of
        GivenExample v \<Rightarrow>
          (bind_result (build_openapi_examples py summary description v) (\<lambda>ex. Inr (Some ex)), cache)
      | FileName f \<Rightarrow>
          load_chat_openapi_examples py fl files (if f = [] then usual else f) summary description cache
      | NoExample \<Rightarrow> load_chat_openapi_examples py fl files usual summary description cache)"

definition build_chat_request_openapi_examples ::
  "pydantic \<Rightarrow> (string \<Rightarrow> pyfloat) \<Rightarrow> (string \<Rightarrow> string option) \<Rightarrow> example_source \<Rightarrow> example_files
   \<Rightarrow> jobj option result \<times> example_files" where
  "build_chat_request_openapi_examples py fl files source cache =
     build_examples_of py fl files chat_example_file ''Complete chat request''
       ''Default values for the chat request.'' source cache"

definition build_chat_stream_request_openapi_examples ::
  "pydantic \<Rightarrow> (string \<Rightarrow> pyfloat) \<Rightarrow> (string \<Rightarrow> string option) \<Rightarrow> example_source \<Rightarrow> example_files
   \<Rightarrow> jobj option result \<times> example_files" where
  "build_chat_stream_request_openapi_examples py fl files source cache =
     build_examples_of py fl files stream_example_file ''Complete streaming chat request''
       ''Default values for the streaming chat request.'' source cache"

section \<open>The OpenAPI document\<close>

text \<open>A loader that takes a file name, or one that takes nothing and serves both routes.\<close>

datatype example_loader = ByFile "string \<Rightarrow> jobj option" | Shared "jobj option"

fun load_request_examples :: "example_loader \<Rightarrow> jobj option \<times> jobj option" where
  "load_request_examples (ByFile load) = (load chat_example_file, load stream_example_file)"
| "load_request_examples (Shared v) = (v, v)"

text \<open>\<open>_build_examples\<close>: a given value never reaches the files.\<close>

definition build_examples ::
  "(example_source \<Rightarrow> example_files \<Rightarrow> jobj option result \<times> example_files) \<Rightarrow> jobj option \<Rightarrow> jobj option result" where
  "build_examples builder value =
     (case value of None \<Rightarrow> Inr None | Some v \<Rightarrow> fst (builder (GivenExample v) []))"

text \<open>The cache of one application; an inner \<open>None\<close> is a key that is not set.\<close>

record example_cache =
  ec_chat :: "jobj option option"
  ec_stream :: "jobj option option"

definition no_examples :: example_cache where
  "no_examples = \<lparr>ec_chat = None, ec_stream = None\<rparr>"

text \<open>\<open>value.get(key, default)\<close> on a value that need not be a dictionary.\<close>

fun get_of :: "json \<Rightarrow> string \<Rightarrow> json \<Rightarrow> json result" where
  "get_of (JObj kvs) k d = Inr (case map_of kvs k of None \<Rightarrow> d | Some v \<Rightarrow> v)"
| "get_of _ k d = Inl (AttributeError ''object has no attribute get'')"

definition json_body :: "jobj \<Rightarrow> string \<Rightarrow> json result" where
  "json_body schema path =
     bind_result (get_of (or_else (jget schema ''paths'') (JObj [])) path (JObj [])) (\<lambda>item.
     bind_result (get_of item ''post'' (JObj [])) (\<lambda>operation.
     bind_result (get_of operation ''requestBody'' JNull) (\<lambda>body.
     bind_result (get_of (or_else body (JObj [])) ''content'' (JObj [])) (\<lambda>content.
       get_of content ''application/json'' JNull))))"

text \<open>An assignment into the nested dictionary, which is shared with the schema.\<close>

fun put_at :: "string list \<Rightarrow> json \<Rightarrow> json \<Rightarrow> json" where
  "put_at [] v old = v"
| "put_at (k # ks) v (JObj kvs) =
     JObj (alist_put k (put_at ks v (case map_of kvs k of None \<Rightarrow> JNull | Some c \<Rightarrow> c)) kvs)"
| "put_at (k # ks) v old = old"

definition examples_place :: "string \<Rightarrow> string list" where
  "examples_place path = [''paths'', path, ''post'', ''requestBody'', ''content'', ''application/json'', ''examples'']"

definition inject_examples :: "string \<Rightarrow> jobj option \<Rightarrow> jobj \<Rightarrow> jobj result" where
  "inject_examples path examples schema =
     bind_result (json_body schema path) (\<lambda>body.
       case (body, examples) of
         (JObj _, Some ex) \<Rightarrow> Inr (obj_fields (put_at (examples_place path) (JObj ex) (JObj schema)))
       | _ \<Rightarrow> Inr schema)"

definition fill_cache ::
  "pydantic \<Rightarrow> (string \<Rightarrow> pyfloat) \<Rightarrow> (string \<Rightarrow> string option) \<Rightarrow> example_loader \<Rightarrow> example_cache
   \<Rightarrow> unit result \<times> example_cache" where
  "fill_cache py fl files loader cache =
     (if ec_chat cache \<noteq> None then (Inr (), cache)
      else case load_request_examples loader of (chat, stream) \<Rightarrow>
        (case build_examples (build_chat_request_openapi_examples py fl files) chat of
           Inl e \<Rightarrow> (Inl e, cache)
         | Inr ex \<Rightarrow>
             let cache1 = cache\<lparr>ec_chat := Some ex\<rparr>
             in case build_examples (build_chat_stream_request_openapi_examples py fl files) stream of
                  Inl e \<Rightarrow> (Inl e, cache1)
                | Inr ex' \<Rightarrow> (Inr (), cache1\<lparr>ec_stream := Some ex'\<rparr>)))"

definition openapi_with_examples ::
  "pydantic \<Rightarrow> (string \<Rightarrow> pyfloat) \<Rightarrow> (string \<Rightarrow> string option) \<Rightarrow> example_loader option \<Rightarrow> jobj
   \<Rightarrow> example_cache \<Rightarrow> jobj result \<times> example_cache" where
  "openapi_with_examples py fl files loader schema cache =
     (let used = (case loader of None \<Rightarrow> ByFile (load_chat_request_example py fl files) | Some l \<Rightarrow> l)
      in case fill_cache py fl files used cache of
           (Inl e, cache') \<Rightarrow> (Inl e, cache')
         | (Inr _, cache') \<Rightarrow>
             (case (ec_chat cache', ec_stream cache') of
                (Some chat, Some stream) \<Rightarrow>
                  (bind_result (inject_examples ''/api/chat'' chat schema) (inject_examples ''/api/chat/stream'' stream),
                   cache')
              | _ \<Rightarrow> (Inl (KeyError ''stream_examples''), cache')))"

section \<open>What the examples are\<close>

text \<open>An example that is shown is a request the API accepts.\<close>

definition shows_request :: "pydantic \<Rightarrow> jobj \<Rightarrow> bool" where
  "shows_request py ex \<longleftrightarrow> (\<exists>entry v q. jget ex ''default'' = JObj entry \<and> jget entry ''value'' = JObj v \<and>
     validate_chat_request py (JObj v) = Some q)"

definition cache_ok :: "pydantic \<Rightarrow> example_cache \<Rightarrow> bool" where
  "cache_ok py cache \<longleftrightarrow>
     list_all (\<lambda>e. case e of Some (Some ex) \<Rightarrow> shows_request py ex | _ \<Rightarrow> True) [ec_chat cache, ec_stream cache]"

lemma validate_request_example_iff:
  "validate_request_example py v = Inr v' \<longleftrightarrow> v' = v \<and> (\<exists>q. validate_chat_request py (JObj v) = Some q)"
  by (auto simp: validate_request_example_def split: option.splits)

lemma build_openapi_examples_show:
  "build_openapi_examples py summary description v = Inr ex \<Longrightarrow> shows_request py ex"
  by (auto simp: build_openapi_examples_def bind_result_Inr_iff validate_request_example_iff
      shows_request_def jget_def)

lemma build_examples_show:
  "build_examples (build_chat_request_openapi_examples py fl files) v = Inr (Some ex) \<Longrightarrow> shows_request py ex"
  "build_examples (build_chat_stream_request_openapi_examples py fl files) v = Inr (Some ex) \<Longrightarrow> shows_request py ex"
  by (auto simp: build_examples_def build_chat_request_openapi_examples_def bind_result_Inr_iff
      build_chat_stream_request_openapi_examples_def build_examples_of_def
      intro: build_openapi_examples_show split: option.splits)

lemma fill_cache_ok:
  "fill_cache py fl files loader cache = (r, cache') \<Longrightarrow> cache_ok py cache \<Longrightarrow> cache_ok py cache'"
  by (auto simp: fill_cache_def cache_ok_def Let_def dest: build_examples_show
      split: if_splits prod.splits sum.splits option.splits)

lemma openapi_cache_ok:
  assumes "cache_ok py cache"
  shows "cache_ok py (snd (openapi_with_examples py fl files loader schema cache))"
  using fill_cache_ok assms
  by (fastforce simp: openapi_with_examples_def Let_def split: prod.splits sum.splits option.splits)

text \<open>The usual loader checks what it reads, so building the examples cannot fail.\<close>

lemma read_example_valid:
  "read_request_example py fl files f = Some v \<Longrightarrow> \<exists>q. validate_chat_request py (JObj v) = Some q"
  by (auto simp: read_request_example_def validate_request_example_iff split: if_splits option.splits json.splits sum.splits)

lemma read_example_builds:
  "\<exists>x. build_examples (build_chat_request_openapi_examples py fl files) (read_request_example py fl files f) = Inr x"
  "\<exists>x. build_examples (build_chat_stream_request_openapi_examples py fl files) (read_request_example py fl files f) = Inr x"
proof -
  have ok: "\<exists>ex. build_openapi_examples py t d v = Inr ex" if "read_request_example py fl files f = Some v" for t d v
    using read_example_valid [OF that] by (auto simp: build_openapi_examples_def validate_request_example_def)
  show "\<exists>x. build_examples (build_chat_request_openapi_examples py fl files) (read_request_example py fl files f) = Inr x"
    "\<exists>x. build_examples (build_chat_stream_request_openapi_examples py fl files) (read_request_example py fl files f) = Inr x"
    using ok by (auto simp: build_examples_def build_chat_request_openapi_examples_def bind_result_Inr_iff
        build_chat_stream_request_openapi_examples_def build_examples_of_def split: option.split)
qed

lemma usual_loader_fills_cache:
  assumes "ec_chat cache = None"
  shows "\<exists>cache'. fill_cache py fl files (ByFile (load_chat_request_example py fl files)) cache = (Inr (), cache')
      \<and> ec_chat cache' \<noteq> None \<and> ec_stream cache' \<noteq> None"
proof -
  obtain x y where
    "build_examples (build_chat_request_openapi_examples py fl files) (read_request_example py fl files chat_example_file) = Inr x"
    "build_examples (build_chat_stream_request_openapi_examples py fl files)
       (read_request_example py fl files stream_example_file) = Inr y"
    using read_example_builds by metis
  then show ?thesis using assms by (simp add: fill_cache_def load_chat_request_example_def Let_def)
qed

text \<open>Only the two request bodies change: every other entry of the document stays.\<close>

lemma inject_keeps_other_entries:
  assumes "inject_examples path ex schema = Inr schema'" and "k \<noteq> ''paths''"
  shows "map_of schema' k = map_of schema k"
proof -
  obtain body where "(case (body, ex) of
      (JObj _, Some e) \<Rightarrow> Inr (obj_fields (put_at (examples_place path) (JObj e) (JObj schema)))
    | _ \<Rightarrow> Inr schema) = (Inr schema' :: jobj result)"
    using assms(1) by (auto simp: inject_examples_def bind_result_Inr_iff)
  then show ?thesis
    using assms(2) by (cases body; cases ex) (auto simp: examples_place_def)
qed

text \<open>Once filled, the cache is what every later document shows; no loader runs again.\<close>

lemma filled_cache_stays:
  "ec_chat cache \<noteq> None \<Longrightarrow> snd (openapi_with_examples py fl files loader schema cache) = cache"
  by (auto simp: openapi_with_examples_def fill_cache_def Let_def split: option.split)

text \<open>A second example that is rejected leaves the cache half filled; from then on every document raises.\<close>

lemma half_filled_cache_raises:
  "ec_chat cache \<noteq> None \<Longrightarrow> ec_stream cache = None \<Longrightarrow>
   fst (openapi_with_examples py fl files loader schema cache) = Inl (KeyError ''stream_examples'')"
  by (auto simp: openapi_with_examples_def fill_cache_def Let_def)

end
