(* ===== verification/Routes.thy ===== *)
theory Routes
  imports Health Diagnostics Documentation Api
begin

text \<open>
  What \<open>create_app\<close> of \<open>src/app/factory.py\<close> serves: the routes \<open>root.py\<close>, \<open>inventory.py\<close> and
  \<open>metrics.py\<close> of \<open>src/app/api/routes/\<close>, which only report, and the table of the router with the
  routes the API key protects. The handlers of the other routes are in Health and Api. FastAPI's
  own dispatch and the CORS middleware are the framework's.
\<close>

definition app_version :: string where
  "app_version = ''0.5.0''"

definition root_route :: "settings \<Rightarrow> jobj" where
  "root_route st =
     [(''service'', JStr (app_name st)), (''version'', JStr app_version), (''status'', JStr ''running''),
      (''liveness'', JStr ''/health''), (''readiness'', JStr ''/health/ready''), (''chat'', JStr ''/api/chat''),
      (''stream'', JStr ''/api/chat/stream''), (''inventory'', JStr ''/api/inventory'')]"

text \<open>A route behind \<open>Depends(require_api_key)\<close>.\<close>

definition guarded :: "settings \<Rightarrow> string option \<Rightarrow> (unit \<Rightarrow> int \<times> jobj) \<Rightarrow> int \<times> jobj" where
  "guarded st key body = (case require_api_key st key of Some refused \<Rightarrow> refused | None \<Rightarrow> body ())"

text \<open>\<open>i\<close> is what \<open>service.load()\<close> returned, \<open>age\<close> its rounded age as JSON writes it.\<close>

definition inventory_route :: "settings \<Rightarrow> string option \<Rightarrow> json \<Rightarrow> inventory \<Rightarrow> int \<times> jobj" where
  "inventory_route st key age i = guarded st key (\<lambda>_. (200, build_inventory_payload st age i))"

definition timing_json :: "(rat \<Rightarrow> json) \<Rightarrow> timing \<Rightarrow> json" where
  "timing_json fl t = JObj [(''count'', JInt (int (tm_count t))), (''avg'', fl (tm_avg t)),
     (''min'', fl (tm_min t)), (''max'', fl (tm_max t))]"

definition metrics_route :: "(rat \<Rightarrow> json) \<Rightarrow> settings \<Rightarrow> string option \<Rightarrow> metrics \<Rightarrow> int \<times> jobj" where
  "metrics_route fl st key m = guarded st key (\<lambda>_.
     (200, [(''service'', JStr (app_name st)), (''version'', JStr app_version),
            (''counters'', JObj (map (\<lambda>(n, c). (n, JInt c)) (fst (metrics_snapshot m)))),
            (''timings'', JObj (map (\<lambda>(n, t). (n, timing_json fl t)) (snd (metrics_snapshot m))))]))"

text \<open>Method and path of every route the router includes, and whether it asks for the key.\<close>

definition route_table :: "((string \<times> string) \<times> bool) list" where
  "route_table =
     [((''GET'', ''/''), False), ((''GET'', ''/health''), False), ((''GET'', ''/health/live''), False),
      ((''GET'', ''/health/ready''), False), ((''GET'', ''/api/inventory''), True),
      ((''GET'', ''/api/metrics''), True), ((''POST'', ''/api/chat''), True), ((''POST'', ''/api/chat/stream''), True)]"

text \<open>With a key configured, a protected route says nothing but 401 to a caller without it.\<close>

lemma guarded_without_key:
  "api_key st \<noteq> [] \<Longrightarrow> key \<noteq> Some (api_key st) \<Longrightarrow>
     guarded st key body = (401, [(''detail'', JStr ''Invalid or missing API key.'')])"
  by (simp add: guarded_def require_api_key_def)

lemma every_api_route_is_protected:
  "list_all (\<lambda>((_, path), protected). starts_with ''/api/'' path = protected) route_table"
  by (simp add: route_table_def starts_with_def)

lemma root_route_distinct: "distinct (map fst (root_route st)) \<and> distinct (map fst route_table)"
  by (simp add: root_route_def route_table_def)

end
