(* ===== verification/Factory.thy ===== *)
theory Factory
  imports Routes
begin

text \<open>
  \<open>create_app\<close> of \<open>src/app/factory.py\<close> and \<open>configure_logging\<close> of \<open>src/app/logging_config.py\<close>: what the
  application is put together from. The agent and the inventory service are arguments; FastAPI and
  its middleware only receive the values collected here.
\<close>

section \<open>Logging\<close>

record logging =
  lg_handlers :: nat \<comment> \<open>of the root logger\<close>
  lg_root :: int
  lg_loggers :: "(string \<times> int \<times> bool) list" \<comment> \<open>level and \<open>propagate\<close>\<close>

definition app_loggers :: "string list" where
  "app_loggers =
     [''app'', ''app.factory'', ''app.graph'', ''app.agents.base'', ''app.mcp.client'', ''app.mcp.transport'',
      ''app.mcp.session'', ''app.llm.ollama'', ''app.llm.resource_manager'', ''app.services.inventory'']"

text \<open>
  \<open>getattr(logging, name, logging.INFO)\<close>: the attributes of the module without a small letter, by
  their values: levels, one text and one table.
\<close>

datatype level_value = LevelNumber int | LevelText string | LevelTable

definition logging_attribute :: "string \<Rightarrow> level_value" where
  "logging_attribute name =
     (case map_of
        [(''CRITICAL'', LevelNumber 50), (''FATAL'', LevelNumber 50), (''ERROR'', LevelNumber 40),
         (''WARNING'', LevelNumber 30), (''WARN'', LevelNumber 30), (''INFO'', LevelNumber 20),
         (''DEBUG'', LevelNumber 10), (''NOTSET'', LevelNumber 0),
         (''BASIC_FORMAT'', LevelText ''%(levelname)s:%(name)s:%(message)s''), (''_STYLES'', LevelTable)] name of
        Some v \<Rightarrow> v | None \<Rightarrow> LevelNumber 20)"

text \<open>\<open>setLevel(value)\<close>: a text must be the name of a level.\<close>

fun checked_level :: "level_value \<Rightarrow> int result" where
  "checked_level (LevelNumber n) = Inr n"
| "checked_level (LevelText t) = Inl (ValueError (''Unknown level: '' @ repr_str t))"
| "checked_level LevelTable = Inl (TypeError ''Level not an integer or a valid string'')"

definition configure_logging :: "string \<Rightarrow> logging \<Rightarrow> unit result \<times> logging" where
  "configure_logging level lg =
     (let lg1 = lg\<lparr>lg_handlers := max 1 (lg_handlers lg)\<rparr> in
      case checked_level (logging_attribute (map upper_char (if level = [] then ''INFO'' else level))) of
        Inl e \<Rightarrow> (Inl e, lg1)
      | Inr n \<Rightarrow> (Inr (), lg1\<lparr>lg_root := n,
          lg_loggers := foldl (\<lambda>al name. alist_put name (n, True) al) (lg_loggers lg) app_loggers\<rparr>))"

section \<open>The application\<close>

record cors_options =
  co_origins :: "string list"
  co_credentials :: bool
  co_methods :: "string list"
  co_headers :: "string list"

record ('a, 'i) application =
  ap_settings :: settings
  ap_title :: string
  ap_version :: string
  ap_agent :: 'a
  ap_inventory :: 'i
  ap_cors :: cors_options
  ap_routes :: "((string \<times> string) \<times> bool) list"

text \<open>
  \<open>own\<close> is the agent of the caller; \<open>new_agent\<close> builds a \<open>_MeteredChatRuntimeAgent\<close>, \<open>attribute\<close> is
  \<open>getattr(agent, "inventory_service", None)\<close> and \<open>service\<close> a new service over the clients of the agent.
\<close>

definition create_app ::
  "settings \<Rightarrow> (settings \<Rightarrow> 'a) \<Rightarrow> ('a \<Rightarrow> 'i option) \<Rightarrow> (settings \<Rightarrow> 'a \<Rightarrow> 'i) \<Rightarrow> settings option \<Rightarrow> 'a option
   \<Rightarrow> logging \<Rightarrow> ('a, 'i) application result \<times> logging" where
  "create_app from_environment new_agent attribute service chosen own lg =
     (let s = (case chosen of None \<Rightarrow> from_environment | Some s \<Rightarrow> s) in
      case configure_logging (log_level s) lg of
        (Inl e, lg') \<Rightarrow> (Inl e, lg')
      | (Inr _, lg') \<Rightarrow>
          let agent = (case own of None \<Rightarrow> new_agent s | Some a \<Rightarrow> a)
          in (Inr \<lparr>ap_settings = s, ap_title = app_name s, ap_version = app_version, ap_agent = agent,
                ap_inventory = (case attribute agent of None \<Rightarrow> service s agent | Some i \<Rightarrow> i),
                ap_cors = \<lparr>co_origins = cors_origins s, co_credentials = False,
                  co_methods = [''GET'', ''POST'', ''OPTIONS''], co_headers = [''*'']\<rparr>,
                ap_routes = route_table\<rparr>, lg'))"

section \<open>What the set-up guarantees\<close>

lemma map_of_all_put:
  "map_of (foldl (\<lambda>al name. alist_put name v al) al names) k = (if k \<in> set names then Some v else map_of al k)"
  by (induction names arbitrary: al) auto

text \<open>Every logger of the application and the root get the level; no second handler is added.\<close>

theorem configured_level:
  assumes "configure_logging level lg = (Inr (), lg')" and "name \<in> set app_loggers"
  shows "map_of (lg_loggers lg') name = Some (lg_root lg', True) \<and> 1 \<le> lg_handlers lg' \<and>
    (1 \<le> lg_handlers lg \<longrightarrow> lg_handlers lg' = lg_handlers lg)"
  using assms by (auto simp: configure_logging_def map_of_all_put Let_def split: sum.splits)

text \<open>A level the settings accept, two names apart, always configures; those two stop the start.\<close>

lemma level_accepted:
  "is_ok (fst (configure_logging level lg)) \<longleftrightarrow> map upper_char level \<noteq> ''BASIC_FORMAT'' \<and> map upper_char level \<noteq> ''_STYLES''"
  by (auto simp: configure_logging_def logging_attribute_def upper_char_def Let_def split: sum.splits option.splits
      dest!: map_of_SomeD)

lemma unusable_level_stops_the_start:
  assumes "log_level s = ''basic_format''"
  shows "\<exists>m. fst (create_app e mk attr sv (Some s) own lg) = Inl (ValueError m)"
proof -
  have "map upper_char ''basic_format'' = ''BASIC_FORMAT''" by code_simp
  then show ?thesis using assms
    by (simp add: create_app_def configure_logging_def logging_attribute_def Let_def del: list.map)
qed

text \<open>Whatever the settings say, browsers of other origins never send credentials.\<close>

lemma cors_without_credentials:
  "fst (create_app e mk attr sv st own lg) = Inr ap \<Longrightarrow>
     \<not> co_credentials (ap_cors ap) \<and> co_origins (ap_cors ap) = cors_origins (ap_settings ap)"
  by (auto simp: create_app_def Let_def split: prod.splits sum.splits)

end
