(* ===== verification/SharedClients.thy ===== *)
theory SharedClients
  imports Admission Ollama
begin

text \<open>
  The process-wide runtimes behind the model clients, \<open>_SharedOllamaRuntime\<close> and
  \<open>_get_shared_runtime\<close> of \<open>src/app/llm/ollama.py\<close>: clients of the same configuration share one HTTP
  pool, one admission controller and one model cache, built from the settings of whichever client came
  first. A runtime is its index in the process. \<open>asyncio\<close> and the registry's lock make every operation
  here atomic; the state of the semaphores is the theory Admission's.
\<close>

section \<open>Runtimes\<close>

record runtime_key =
  rk_base_url :: string
  rk_connect_timeout :: rat
  rk_request_timeout :: rat
  rk_pool_timeout :: rat
  rk_max_connections :: int
  rk_max_keepalive :: int
  rk_keepalive_expiry :: rat
  rk_max_concurrency :: int
  rk_heavy_max_concurrency :: int

definition base_url_of :: "settings \<Rightarrow> string" where
  "base_url_of s = rstrip_where (\<lambda>c. c = CHR ''/'') (ollama_base_url s)"

definition runtime_key_of :: "settings \<Rightarrow> runtime_key" where
  "runtime_key_of s =
     \<lparr>rk_base_url = base_url_of s, rk_connect_timeout = ollama_connect_timeout_seconds s,
      rk_request_timeout = ollama_timeout_seconds s, rk_pool_timeout = ollama_pool_timeout_seconds s,
      rk_max_connections = ollama_max_connections s, rk_max_keepalive = ollama_max_keepalive_connections s,
      rk_keepalive_expiry = http_keepalive_expiry_seconds s, rk_max_concurrency = ollama_max_concurrency s,
      rk_heavy_max_concurrency = ollama_heavy_max_concurrency s\<rparr>"

text \<open>What \<open>httpx.AsyncClient\<close> is created with.\<close>

record http_options =
  ho_base_url :: string
  ho_connect :: rat
  ho_read :: rat
  ho_write :: rat
  ho_pool :: rat
  ho_max_connections :: int
  ho_max_keepalive :: int
  ho_keepalive_expiry :: rat

definition http_options_of :: "settings \<Rightarrow> http_options" where
  "http_options_of s =
     \<lparr>ho_base_url = base_url_of s, ho_connect = ollama_connect_timeout_seconds s,
      ho_read = ollama_timeout_seconds s, ho_write = ollama_timeout_seconds s,
      ho_pool = ollama_pool_timeout_seconds s, ho_max_connections = ollama_max_connections s,
      ho_max_keepalive = ollama_max_keepalive_connections s,
      ho_keepalive_expiry = http_keepalive_expiry_seconds s\<rparr>"

record shared_runtime =
  sr_settings :: settings
  sr_resources :: resources
  sr_client :: "http_options option"
  sr_cache :: models_cache

definition new_runtime :: "settings \<Rightarrow> resources option \<Rightarrow> shared_runtime" where
  "new_runtime s manager =
     \<lparr>sr_settings = s, sr_resources = (case manager of None \<Rightarrow> new_resources s | Some m \<Rightarrow> m),
      sr_client = None, sr_cache = \<lparr>mc_models = None, mc_cached_at = 0\<rparr>\<rparr>"

definition runtime_get_client :: "shared_runtime \<Rightarrow> http_options \<times> shared_runtime" where
  "runtime_get_client r =
     (case sr_client r of
        Some c \<Rightarrow> (c, r)
      | None \<Rightarrow> let c = http_options_of (sr_settings r) in (c, r\<lparr>sr_client := Some c\<rparr>))"

definition runtime_close :: "shared_runtime \<Rightarrow> shared_runtime" where
  "runtime_close r = r\<lparr>sr_client := None\<rparr>"

definition invalidate_models :: "shared_runtime \<Rightarrow> shared_runtime" where
  "invalidate_models r = r\<lparr>sr_cache := \<lparr>mc_models = None, mc_cached_at = 0\<rparr>\<rparr>"

section \<open>The process\<close>

record process =
  pr_runtimes :: "shared_runtime list"
  pr_shared :: "(runtime_key \<times> nat) list"

definition empty_process :: process where
  "empty_process = \<lparr>pr_runtimes = [], pr_shared = []\<rparr>"

definition get_shared_runtime :: "settings \<Rightarrow> process \<Rightarrow> nat \<times> process" where
  "get_shared_runtime s P =
     (case map_of (pr_shared P) (runtime_key_of s) of
        Some i \<Rightarrow> (i, P)
      | None \<Rightarrow>
          let i = length (pr_runtimes P)
          in (i, \<lparr>pr_runtimes = pr_runtimes P @ [new_runtime s None],
                  pr_shared = alist_put (runtime_key_of s) i (pr_shared P)\<rparr>))"

text \<open>\<open>OllamaClient(settings, transport=..., resource_manager=...)\<close>: only a plain client shares.\<close>

definition new_client :: "settings \<Rightarrow> bool \<Rightarrow> resources option \<Rightarrow> process \<Rightarrow> nat \<times> process" where
  "new_client s own_transport manager P =
     (if \<not> own_transport \<and> manager = None then get_shared_runtime s P
      else (length (pr_runtimes P), P\<lparr>pr_runtimes := pr_runtimes P @ [new_runtime s manager]\<rparr>))"

definition on_runtime :: "(shared_runtime \<Rightarrow> shared_runtime) \<Rightarrow> nat \<Rightarrow> process \<Rightarrow> process" where
  "on_runtime f i P = P\<lparr>pr_runtimes := (pr_runtimes P)[i := f (pr_runtimes P ! i)]\<rparr>"

text \<open>What the clients of a process do, a client acting on its runtime.\<close>

datatype client_op =
    Construct settings bool "resources option"
  | StartClient nat
  | CloseClient nat
  | DropModels nat

fun client_step :: "client_op \<Rightarrow> process \<Rightarrow> process" where
  "client_step (Construct s t m) P = snd (new_client s t m P)"
| "client_step (StartClient i) P = on_runtime (\<lambda>r. snd (runtime_get_client r)) i P"
| "client_step (CloseClient i) P = on_runtime runtime_close i P"
| "client_step (DropModels i) P = on_runtime invalidate_models i P"

section \<open>Sharing is sound\<close>

text \<open>The configuration of a runtime is a function of its key.\<close>

lemma key_decides:
  "runtime_key_of s = runtime_key_of s' \<Longrightarrow>
     http_options_of s = http_options_of s' \<and> new_resources s = new_resources s'"
  by (simp add: runtime_key_of_def http_options_of_def new_resources_def)

definition client_fits :: "shared_runtime \<Rightarrow> bool" where
  "client_fits r \<longleftrightarrow> (\<forall>c. sr_client r = Some c \<longrightarrow> c = http_options_of (sr_settings r))"

definition shared_entry_ok :: "shared_runtime list \<Rightarrow> runtime_key \<times> nat \<Rightarrow> bool" where
  "shared_entry_ok rs e \<longleftrightarrow> snd e < length rs \<and> runtime_key_of (sr_settings (rs ! snd e)) = fst e \<and>
     sr_resources (rs ! snd e) = new_resources (sr_settings (rs ! snd e))"

definition process_ok :: "process \<Rightarrow> bool" where
  "process_ok P \<longleftrightarrow> list_all client_fits (pr_runtimes P) \<and> list_all (shared_entry_ok (pr_runtimes P)) (pr_shared P)"

lemma shared_entry_grows: "shared_entry_ok rs e \<Longrightarrow> shared_entry_ok (rs @ [r]) e"
  by (auto simp: shared_entry_ok_def nth_append)

lemma new_runtime_fits: "client_fits (new_runtime s m)"
  by (simp add: client_fits_def new_runtime_def)

lemma new_client_ok: "process_ok P \<Longrightarrow> process_ok (snd (new_client s t m P))"
proof -
  assume P: "process_ok P"
  have fresh: "shared_entry_ok (pr_runtimes P @ [new_runtime s None]) (runtime_key_of s, length (pr_runtimes P))"
    by (simp add: shared_entry_ok_def new_runtime_def)
  have "map_of (pr_shared P) k = None \<Longrightarrow> alist_put k i (pr_shared P) = pr_shared P @ [(k, i)]" for k i
    by (simp add: alist_put_fresh map_of_eq_None_iff)
  with P fresh show ?thesis
    by (auto simp: process_ok_def new_client_def get_shared_runtime_def Let_def new_runtime_fits list_all_iff
        shared_entry_grows split: option.split)
qed

lemma on_runtime_ok:
  assumes "process_ok P" and "\<And>r. client_fits r \<Longrightarrow> client_fits (f r)"
    and "\<And>r. sr_settings (f r) = sr_settings r \<and> sr_resources (f r) = sr_resources r"
  shows "process_ok (on_runtime f i P)"
proof (cases "i < length (pr_runtimes P)")
  case True
  then have "list_all client_fits ((pr_runtimes P)[i := f (pr_runtimes P ! i)])"
    using assms(1,2) by (auto simp: process_ok_def list_all_length nth_list_update)
  moreover have "shared_entry_ok rs e \<Longrightarrow> shared_entry_ok (rs[i := f (rs ! i)]) e" for rs e
    using assms(3) by (cases "i = snd e") (auto simp: shared_entry_ok_def)
  ultimately show ?thesis using assms(1) by (auto simp: process_ok_def on_runtime_def list_all_iff)
qed (use assms(1) in \<open>simp add: on_runtime_def process_ok_def list_update_beyond\<close>)

lemma client_step_ok: "process_ok P \<Longrightarrow> process_ok (client_step op P)"
  by (cases op)
    (auto simp: new_client_ok client_fits_def runtime_get_client_def runtime_close_def invalidate_models_def Let_def
      intro!: on_runtime_ok split: option.split)

lemma client_run_ok: "process_ok (fold client_step ops empty_process)"
proof (induction ops rule: rev_induct)
  case Nil
  then show ?case by (simp add: process_ok_def empty_process_def)
qed (simp add: client_step_ok)

lemma shared_client:
  assumes "process_ok P" and "new_client s False None P = (i, P')"
  shows "i < length (pr_runtimes P') \<and> map_of (pr_shared P') (runtime_key_of s) = Some i \<and>
    runtime_key_of (sr_settings (pr_runtimes P' ! i)) = runtime_key_of s \<and>
    sr_resources (pr_runtimes P' ! i) = new_resources s"
proof -
  have "process_ok P'" using new_client_ok [OF assms(1), of s False None] assms(2) by simp
  moreover have found: "map_of (pr_shared P') (runtime_key_of s) = Some i"
    using assms(2) by (auto simp: new_client_def get_shared_runtime_def Let_def split: option.splits)
  ultimately have "shared_entry_ok (pr_runtimes P') (runtime_key_of s, i)"
    by (auto simp: process_ok_def list_all_iff dest: map_of_SomeD)
  then show ?thesis using found by (auto simp: shared_entry_ok_def dest: key_decides)
qed

text \<open>
  Whatever clients a process made, started and closed before: a plain client talks to the server its
  own settings name, with their time limits, pool and admission limits, although the runtime may have
  been built for another client.
\<close>

theorem shared_runtime_serves_settings:
  assumes "new_client s False None (fold client_step ops empty_process) = (i, P')"
  shows "fst (runtime_get_client (pr_runtimes P' ! i)) = http_options_of s \<and>
    sr_resources (pr_runtimes P' ! i) = new_resources s"
proof -
  note i = shared_client [OF client_run_ok assms]
  have "process_ok P'" using new_client_ok [OF client_run_ok, of s False None] assms by (metis snd_conv)
  then have "client_fits (pr_runtimes P' ! i)" using i by (simp add: process_ok_def list_all_length)
  then have "fst (runtime_get_client (pr_runtimes P' ! i)) = http_options_of (sr_settings (pr_runtimes P' ! i))"
    by (auto simp: runtime_get_client_def client_fits_def Let_def split: option.split)
  also have "\<dots> = http_options_of s" using i key_decides by blast
  finally show ?thesis using i by simp
qed

text \<open>An entry of the registry stays for the life of the process.\<close>

lemma entry_stays: "map_of (pr_shared P) k = Some i \<Longrightarrow> map_of (pr_shared (client_step op P)) k = Some i"
  by (cases op) (auto simp: new_client_def get_shared_runtime_def on_runtime_def Let_def split: option.split)

lemma entry_stays_run: "map_of (pr_shared P) k = Some i \<Longrightarrow> map_of (pr_shared (fold client_step ops P)) k = Some i"
  by (induction ops arbitrary: P) (simp_all add: entry_stays)

text \<open>Two plain clients share their runtime exactly when their settings have the same key.\<close>

theorem same_runtime_iff_same_key:
  assumes "new_client s False None (fold client_step ops empty_process) = (i, P)"
    and "new_client s' False None (fold client_step ops' P) = (i', P')"
  shows "i = i' \<longleftrightarrow> runtime_key_of s = runtime_key_of s'"
proof -
  have P: "process_ok P" using new_client_ok [OF client_run_ok, of s False None] assms(1) by (metis snd_conv)
  have "process_ok (fold client_step ops' P)"
    by (rule fold_invariant [where Q = "\<lambda>_. True"]) (simp_all add: P client_step_ok)
  note i' = shared_client [OF this assms(2)]
  have "map_of (pr_shared (fold client_step ops' P)) (runtime_key_of s) = Some i"
    by (rule entry_stays_run) (use shared_client [OF client_run_ok assms(1)] in simp)
  then have kept: "map_of (pr_shared P') (runtime_key_of s) = Some i"
    using entry_stays [of _ _ _ "Construct s' False None"] assms(2) by (metis client_step.simps(1) snd_conv)
  have "process_ok P'"
    using new_client_ok [OF \<open>process_ok (fold client_step ops' P)\<close>, of s' False None] assms(2) by simp
  then have "runtime_key_of (sr_settings (pr_runtimes P' ! i)) = runtime_key_of s"
    using map_of_SomeD [OF kept] by (auto simp: process_ok_def list_all_iff shared_entry_ok_def)
  then show ?thesis using i' kept by auto
qed

text \<open>Closing one client closes the pool of every client that shares its runtime.\<close>

lemma close_is_shared:
  assumes "new_client s False None (fold client_step ops empty_process) = (i, P)"
    and "new_client s' False None P = (i', P')" and "runtime_key_of s = runtime_key_of s'"
  shows "sr_client (pr_runtimes (client_step (CloseClient i') P') ! i) = None"
proof -
  have "i' = i" using same_runtime_iff_same_key [OF assms(1), of s' "[]" i' P'] assms(2,3) by simp
  moreover have "process_ok P" using new_client_ok [OF client_run_ok, of s False None] assms(1) by (metis snd_conv)
  ultimately show ?thesis
    using shared_client [of P s' i' P'] assms(2) by (simp add: on_runtime_def runtime_close_def)
qed

end
