(* ===== verification/Reports.thy ===== *)
theory Reports
  imports Runtime Turns
begin

text \<open>
  What the stores answer to a health check (\<open>src/app/state/in_memory.py\<close>, \<open>redis.py\<close>, \<open>postgres.py\<close>,
  \<open>neo4j.py\<close>, \<open>run_repository.py\<close>), and how a run record is written to a row of \<open>app_runs\<close> and read
  back from it (\<open>_record_from_row\<close>). What a driver returns is an argument.
\<close>

section \<open>Health of the stores\<close>

definition memory_store_health :: "time \<Rightarrow> store_limits \<Rightarrow> memory_store \<Rightarrow> jobj \<times> memory_store" where
  "memory_store_health now bd s =
     (let s' = store_purge now bd s in
      ([(''status'', JStr ''available''), (''backend'', JStr ''memory''),
        (''sessions'', JInt (int (length (ms_data s')))),
        (''max_sessions'', JInt (int (sl_sessions bd))),
        (''max_messages_per_session'', JInt (int (sl_messages bd))),
        (''ttl_seconds'', JInt (sl_ttl bd))], s'))"

text \<open>\<open>_utcnow()\<close> is read once per lease.\<close>

definition active_leases :: "(nat \<Rightarrow> time) \<Rightarrow> memory_runs \<Rightarrow> nat" where
  "active_leases clk s =
     length (filter (\<lambda>(k, l). clk k < ls_expires l) (zip [0..<length (mm_leases s)] (map snd (mm_leases s))))"

definition memory_runs_health :: "(nat \<Rightarrow> time) \<Rightarrow> bool \<Rightarrow> memory_runs \<Rightarrow> jobj" where
  "memory_runs_health clk started s =
     [(''status'', JStr (if started then ''available'' else ''unavailable'')), (''backend'', JStr ''memory''),
      (''runs'', JInt (int (length (mm_records s)))),
      (''active_leases'', JInt (int (active_leases clk s)))]"

text \<open>\<open>client\<close> says whether the store is started and what its \<open>PING\<close> answers.\<close>

definition redis_health :: "int \<Rightarrow> json result option \<Rightarrow> jobj result" where
  "redis_health max_connections client =
     (case client of
        None \<Rightarrow> Inl (RuntimeError ''Redis conversation store is not started'')
      | Some ping \<Rightarrow> bind_result ping (\<lambda>value. Inr
          [(''status'', JStr ''available''), (''backend'', JStr ''redis''), (''value'', JBool (truthy value)),
           (''pool'', JObj [(''application_scoped'', JBool True), (''max_connections'', JInt max_connections)])]))"

record pool_sizes =
  pz_size :: int
  pz_idle :: int
  pz_min :: int
  pz_max :: int

definition pool_snapshot :: "bool \<Rightarrow> pool_sizes \<Rightarrow> jobj" where
  "pool_snapshot shared p =
     [(''shared'', JBool shared), (''size'', JInt (pz_size p)), (''idle'', JInt (pz_idle p)),
      (''min_size'', JInt (pz_min p)), (''max_size'', JInt (pz_max p))]"

text \<open>The pool of a started store, with the answer to \<open>SELECT 1\<close> and its sizes afterwards.\<close>

definition postgres_health :: "string \<Rightarrow> bool \<Rightarrow> (json result \<times> pool_sizes) option \<Rightarrow> jobj result" where
  "postgres_health what owns_pool pool =
     (case pool of
        None \<Rightarrow> Inl (RuntimeError (''PostgreSQL '' @ what @ '' is not started''))
      | Some (answer, sizes) \<Rightarrow> bind_result answer (\<lambda>value. Inr
          [(''status'', JStr ''available''), (''backend'', JStr ''postgres''), (''value'', value),
           (''pool'', JObj (pool_snapshot (\<not> owns_pool) sizes))]))"

definition conversations_health :: "bool \<Rightarrow> (json result \<times> pool_sizes) option \<Rightarrow> jobj result" where
  "conversations_health = postgres_health ''conversation store''"

definition run_repository_health :: "bool \<Rightarrow> (json result \<times> pool_sizes) option \<Rightarrow> jobj result" where
  "run_repository_health = postgres_health ''run repository''"

record neo4j_options =
  no_database :: string
  no_pool_size :: int
  no_acquisition_timeout :: json
  no_connection_timeout :: json
  no_lifetime :: json
  no_keep_alive :: bool

definition connection_status :: "neo4j_options \<Rightarrow> bool \<Rightarrow> jobj" where
  "connection_status cfg started =
     [(''application_scoped'', JBool started), (''pooled'', JBool started),
      (''max_connection_pool_size'', JInt (no_pool_size cfg)),
      (''connection_acquisition_timeout_seconds'', no_acquisition_timeout cfg),
      (''connection_timeout_seconds'', no_connection_timeout cfg),
      (''max_connection_lifetime_seconds'', no_lifetime cfg), (''keep_alive'', JBool (no_keep_alive cfg))]"

text \<open>\<open>driver\<close>: whether it is started, and what \<open>verify_connectivity\<close> did.\<close>

definition neo4j_manager_health :: "neo4j_options \<Rightarrow> unit result option \<Rightarrow> jobj result" where
  "neo4j_manager_health cfg driver =
     (case driver of
        None \<Rightarrow> Inl (RuntimeError ''Neo4j connection manager is not started'')
      | Some verified \<Rightarrow> bind_result verified (\<lambda>_. Inr
          [(''status'', JStr ''available''), (''backend'', JStr ''neo4j''), (''database'', JStr (no_database cfg)),
           (''pool'', JObj (connection_status cfg True))]))"

text \<open>The process-local store reports the sessions that are alive, never more than its bound.\<close>

lemma memory_health_counts:
  assumes "store_ok bd s"
  shows "\<exists>n. jget (fst (memory_store_health now bd s)) ''sessions'' = JInt (int n) \<and> n \<le> sl_sessions bd \<and>
    n = length (filter (\<lambda>kv. \<not> expired_at now bd (snd kv)) (ms_data s))"
proof -
  have d: "distinct (map fst (ms_data s))" and n: "length (ms_data s) \<le> sl_sessions bd"
    using assms by (simp_all add: store_ok_def)
  have same: "x = kv" if "x \<in> set (ms_data s)" "kv \<in> set (ms_data s)" "fst x = fst kv" for x kv
    using that d by (metis eq_key_imp_eq_value prod.collapse)
  have "fst kv \<in> fst ` {x \<in> set (ms_data s). expired_at now bd (snd x)} \<longleftrightarrow> expired_at now bd (snd kv)"
    if kv: "kv \<in> set (ms_data s)" for kv
  proof
    assume "fst kv \<in> fst ` {x \<in> set (ms_data s). expired_at now bd (snd x)}"
    then obtain x where "x \<in> set (ms_data s)" "expired_at now bd (snd x)" "fst x = fst kv" by auto
    then show "expired_at now bd (snd kv)" using same [OF _ kv] by metis
  qed (use kv in blast)
  then have "ms_data (store_purge now bd s) = filter (\<lambda>kv. \<not> expired_at now bd (snd kv)) (ms_data s)"
    by (simp add: store_purge_def Let_def cong: filter_cong)
  then show ?thesis using order_trans [OF length_filter_le n]
    by (auto simp: memory_store_health_def Let_def jget_def)
qed

text \<open>When the clock stands still during the check, the active leases are the unexpired ones.\<close>

lemma active_leases_steady:
  "active_leases (\<lambda>_. now) s = length (filter (\<lambda>kl. now < ls_expires (snd kl)) (mm_leases s))"
proof -
  have "length (filter (\<lambda>(k, l). now < ls_expires l) (zip ks (map snd ls))) =
      length (filter (\<lambda>kl. now < ls_expires (snd kl)) ls)" if "length ks = length ls" for ks :: "nat list" and ls :: "(string \<times> run_lease) list"
    using that by (induction ks ls rule: list_induct2) auto
  then show ?thesis by (simp add: active_leases_def)
qed

section \<open>Rows of the run table\<close>

text \<open>A \<open>JSONB\<close> column as the driver hands it over: null, its text, or a decoded value.\<close>

datatype jsonb_column = NullColumn | TextColumn string | ValueColumn json

record run_row =
  rw_run :: string
  rw_conversation :: string
  rw_thread :: string
  rw_hash :: string
  rw_hash_version :: int
  rw_schema :: int
  rw_status :: string
  rw_fencing :: "int option"
  rw_owner :: "string option"
  rw_expires :: "time option"
  rw_checkpoint :: "string option"
  rw_payload :: jsonb_column
  rw_reason :: "string option"
  rw_error :: "string option"
  rw_created :: "time option"
  rw_updated :: "time option"
  rw_started :: "time option"
  rw_completed :: "time option"
  rw_history :: "time option"
  rw_token_version :: int

definition all_statuses :: "run_status list" where
  "all_statuses = [Pending, Running, Interrupted_run, Completed, Failed_run, Cancelled, Expired, Reconciling]"

text \<open>The \<open>CHECK\<close> of the column lets no other text in.\<close>

definition status_of_text :: "string \<Rightarrow> run_status option" where
  "status_of_text t = find (\<lambda>st. status_text st = t) all_statuses"

text \<open>
  \<open>dict(response) if response is not None else None\<close>, after the decoding of a text. The repository
  writes objects only; \<open>other\<close> is \<open>dict\<close> of any other value.
\<close>

fun payload_of_json :: "(json \<Rightarrow> jobj result) \<Rightarrow> json \<Rightarrow> jobj option result" where
  "payload_of_json other JNull = Inr None"
| "payload_of_json other (JObj kvs) = Inr (Some kvs)"
| "payload_of_json other v = bind_result (other v) (\<lambda>kvs. Inr (Some kvs))"

definition payload_of_text ::
  "(json \<Rightarrow> jobj result) \<Rightarrow> (string \<Rightarrow> pyfloat) \<Rightarrow> string \<Rightarrow> jobj option result" where
  "payload_of_text other fl t =
     (case json_loads fl t of
        None \<Rightarrow> Inl (ValueError ''Expecting value'') | Some v \<Rightarrow> payload_of_json other v)"

fun payload_of_column ::
  "(json \<Rightarrow> jobj result) \<Rightarrow> (string \<Rightarrow> pyfloat) \<Rightarrow> jsonb_column \<Rightarrow> jobj option result" where
  "payload_of_column other fl NullColumn = Inr None"
| "payload_of_column other fl (TextColumn t) = payload_of_text other fl t"
| "payload_of_column other fl (ValueColumn (JStr t)) = payload_of_text other fl t"
| "payload_of_column other fl (ValueColumn v) = payload_of_json other v"

definition record_from_row ::
  "(json \<Rightarrow> jobj result) \<Rightarrow> (string \<Rightarrow> pyfloat) \<Rightarrow> run_row \<Rightarrow> run_record result" where
  "record_from_row other fl w =
     bind_result (payload_of_column other fl (rw_payload w)) (\<lambda>payload.
       case status_of_text (rw_status w) of
         None \<Rightarrow> Inl (ValueError ''status'')
       | Some st \<Rightarrow> Inr
           \<lparr>rd_run = rw_run w, rd_conversation = rw_conversation w, rd_thread = rw_thread w,
            rd_hash = rw_hash w, rd_hash_version = rw_hash_version w, rd_schema = rw_schema w,
            rd_status = st, rd_fencing = rw_fencing w,
            rd_owner = (case rw_owner w of Some [] \<Rightarrow> None | w' \<Rightarrow> w'), rd_expires = rw_expires w,
            rd_checkpoint = rw_checkpoint w, rd_payload = payload, rd_reason = rw_reason w,
            rd_error = rw_error w, rd_created = rw_created w, rd_updated = rw_updated w,
            rd_started = rw_started w, rd_completed = rw_completed w, rd_history = rw_history w,
            rd_token_version = rw_token_version w\<rparr>)"

text \<open>
  What the statements write: the payload as \<open>json.dumps\<close> text, which the column stores as the same
  value, \<open>None\<close> as null.
\<close>

definition payload_column :: "jobj option \<Rightarrow> jsonb_column" where
  "payload_column p = (case p of None \<Rightarrow> NullColumn | Some kvs \<Rightarrow> TextColumn (json_dumps (JObj kvs)))"

definition row_of_record :: "run_record \<Rightarrow> run_row" where
  "row_of_record r =
     \<lparr>rw_run = rd_run r, rw_conversation = rd_conversation r, rw_thread = rd_thread r,
      rw_hash = rd_hash r, rw_hash_version = rd_hash_version r, rw_schema = rd_schema r,
      rw_status = status_text (rd_status r), rw_fencing = rd_fencing r, rw_owner = rd_owner r,
      rw_expires = rd_expires r, rw_checkpoint = rd_checkpoint r, rw_payload = payload_column (rd_payload r),
      rw_reason = rd_reason r, rw_error = rd_error r, rw_created = rd_created r, rw_updated = rd_updated r,
      rw_started = rd_started r, rw_completed = rd_completed r, rw_history = rd_history r,
      rw_token_version = rd_token_version r\<rparr>"

lemma status_round_trip: "status_of_text (status_text st) = Some st"
  by (cases st) (simp_all add: status_of_text_def all_statuses_def status_text_def)

theorem stored_run_reads_back:
  assumes "\<And>kvs. rd_payload r = Some kvs \<Longrightarrow> plain_json (JObj kvs)" and "rd_owner r \<noteq> Some []"
  shows "record_from_row other fl (row_of_record r) = Inr r"
proof -
  have "payload_of_column other fl (payload_column (rd_payload r)) = Inr (rd_payload r)"
    using assms(1) loads_dumps [of "'', ''" "'': ''" "JObj _" fl]
    by (cases "rd_payload r") (auto simp: payload_column_def payload_of_text_def json_dumps_def separators_def)
  then show ?thesis
    using assms(2) by (simp add: record_from_row_def row_of_record_def status_round_trip split: option.split list.split)
qed

end
