(* ===== verification/CoverageGate.thy ===== *)
theory CoverageGate
  imports JsonText
begin

text \<open>
  The release gate \<open>src/scripts/check_coverage_thresholds.py\<close>: a coverage report and a policy decide
  whether a release may go on. What reading and decoding a file gave is an argument, as is the parsed
  policy (the values of TOML that occur in it are those of JSON); \<open>fl\<close> reads the numeral of a float,
  \<open>ft\<close> is \<open>float\<close> of a text and \<open>two\<close> the format \<open>.2f\<close>. Sums of floats are exact here, so the verdict
  of the script may differ for a percentage within one rounding of the threshold.
\<close>

section \<open>Numbers\<close>

datatype number = Finite rat | Above | Below | NotANumber

definition special_number :: "string \<Rightarrow> number" where
  "special_number r = (if r = ''nan'' then NotANumber else if starts_with ''-'' r then Below else Above)"

fun number_of :: "pyfloat \<Rightarrow> number" where
  "number_of (FFinite _ q) = Finite q"
| "number_of (FNonFinite r) = special_number r"

text \<open>\<open>float(value)\<close>.\<close>

fun py_float :: "(string \<Rightarrow> pyfloat option) \<Rightarrow> json \<Rightarrow> number result" where
  "py_float ft (JInt i) = Inr (Finite (of_int i))"
| "py_float ft (JBool b) = Inr (Finite (of_bool b))"
| "py_float ft (JFloat f) = Inr (number_of f)"
| "py_float ft (JStr t) =
     (case ft t of Some f \<Rightarrow> Inr (number_of f)
      | None \<Rightarrow> Inl (ValueError (''could not convert string to float: '' @ repr_str t)))"
| "py_float ft _ = Inl (TypeError ''float() argument must be a string or a real number'')"

definition epsilon :: rat where
  "epsilon = 1 / 1000000000"

text \<open>\<open>percent + _EPSILON < minimum\<close>; a comparison with NaN is false.\<close>

fun falls_short :: "number \<Rightarrow> number \<Rightarrow> bool" where
  "falls_short (Finite p) (Finite m) \<longleftrightarrow> p + epsilon < m"
| "falls_short (Finite _) Above = True"
| "falls_short Below (Finite _) = True"
| "falls_short Below Above = True"
| "falls_short _ _ = False"

section \<open>The two files\<close>

text \<open>A text, an error the script reports itself, or one it does not catch.\<close>

datatype 'a reading = Got 'a | Unreadable string | Escapes exn

fun read_with :: "string \<Rightarrow> 'a reading \<Rightarrow> 'a result" where
  "read_with what (Got x) = Inr x"
| "read_with what (Unreadable m) = Inl (RuntimeError (what @ m))"
| "read_with what (Escapes e) = Inl e"

definition load_json ::
  "(string \<Rightarrow> pyfloat) \<Rightarrow> (string \<Rightarrow> string) \<Rightarrow> string \<Rightarrow> string reading \<Rightarrow> jobj result" where
  "load_json fl syntax_error path file =
     bind_result (read_with (''Unable to read coverage JSON '' @ path @ '': '') file) (\<lambda>t.
       case json_loads fl t of
         None \<Rightarrow> Inl (RuntimeError (''Unable to read coverage JSON '' @ path @ '': '' @ syntax_error t))
       | Some (JObj kvs) \<Rightarrow> Inr kvs
       | Some _ \<Rightarrow> Inl (RuntimeError (''Coverage JSON '' @ path @ '' must contain an object.'')))"

text \<open>\<open>value or {}\<close> followed by \<open>.get\<close>: anything else that is true has no \<open>get\<close>.\<close>

fun class_name :: "json \<Rightarrow> string" where
  "class_name (JBool _) = ''bool''"
| "class_name (JInt _) = ''int''"
| "class_name (JFloat _) = ''float''"
| "class_name (JStr _) = ''str''"
| "class_name (JList _) = ''list''"
| "class_name (JObj _) = ''dict''"
| "class_name JNull = ''NoneType''"

fun as_table :: "json \<Rightarrow> jobj result" where
  "as_table (JObj kvs) = Inr kvs"
| "as_table v =
     (if truthy v then Inl (AttributeError (repr_str (class_name v) @ '' object has no attribute '' @ repr_str ''get''))
      else Inr [])"

definition get_default :: "jobj \<Rightarrow> string \<Rightarrow> json \<Rightarrow> json" where
  "get_default kvs k d = (case map_of kvs k of None \<Rightarrow> d | Some v \<Rightarrow> v)"

text \<open>\<open>text.replace("\\", "/").lstrip("./")\<close>.\<close>

definition normal_path :: "string \<Rightarrow> string" where
  "normal_path t = dropWhile (\<lambda>c. c = CHR ''.'' \<or> c = CHR ''/'')
     (map (\<lambda>c. if c = CHR 0x5C then CHR ''/'' else c) t)"

fun path_text :: "json \<Rightarrow> string option" where
  "path_text (JStr t) = (if strip t = [] then None else Some t)"
| "path_text _ = None"

fun path_texts :: "json \<Rightarrow> string list option" where
  "path_texts (JList vs) =
     (if list_all (\<lambda>v. path_text v \<noteq> None) vs then Some (map (\<lambda>v. the (path_text v)) vs) else None)"
| "path_texts _ = None"

definition load_policy ::
  "(string \<Rightarrow> pyfloat option) \<Rightarrow> string \<Rightarrow> jobj reading \<Rightarrow> (number \<times> string list) result" where
  "load_policy ft path file =
     bind_result (read_with (''Unable to read coverage policy '' @ path @ '': '') file) (\<lambda>payload.
     bind_result (as_table (jget payload ''tool'')) (\<lambda>tool.
     bind_result (as_table (jget tool ''project_coverage'')) (\<lambda>policy.
     bind_result (py_float ft (get_default policy ''minimum'' (JFloat (FFinite ''70.0'' 70)))) (\<lambda>minimum.
       case path_texts (get_default policy ''per_file_waivers'' (JList [])) of
         None \<Rightarrow> Inl (RuntimeError ''tool.project_coverage.per_file_waivers must be a string list.'')
       | Some raw \<Rightarrow>
           let paths = map normal_path raw in
           if distinct paths then Inr (minimum, paths)
           else Inl (RuntimeError ''Duplicate paths exist in the per-file coverage waiver list.'')))))"

section \<open>The verdict\<close>

definition percent_of :: "jobj \<Rightarrow> string \<Rightarrow> number result" where
  "percent_of summary path =
     (case jget summary ''percent_covered'' of
        JInt i \<Rightarrow> Inr (Finite (of_int i))
      | JBool b \<Rightarrow> Inr (Finite (of_bool b))
      | JFloat f \<Rightarrow> Inr (number_of f)
      | _ \<Rightarrow> Inl (RuntimeError (''Coverage summary for '' @ path @ '' has no numeric percent_covered.'')))"

definition opportunities :: "jobj \<Rightarrow> int result" where
  "opportunities summary =
     bind_result (py_int (get_default summary ''num_statements'' (JInt 0))) (\<lambda>n.
     bind_result (py_int (get_default summary ''num_branches'' (JInt 0))) (\<lambda>b. Inr (n + b)))"

record gate_state =
  gs_failures :: "(string \<times> number) list"
  gs_reported :: "string list"
  gs_evaluated :: nat

definition note_percent :: "number \<Rightarrow> string \<Rightarrow> number \<Rightarrow> gate_state \<Rightarrow> gate_state" where
  "note_percent minimum path p g =
     (if falls_short p minimum then g\<lparr>gs_failures := gs_failures g @ [(path, p)]\<rparr> else g)"

definition check_file ::
  "number \<Rightarrow> string list \<Rightarrow> string \<times> json \<Rightarrow> gate_state \<Rightarrow> gate_state result" where
  "check_file minimum waivers entry g =
     (let path = normal_path (fst entry); g1 = g\<lparr>gs_reported := path # gs_reported g\<rparr> in
      if path \<in> set waivers then Inr g1
      else case (case snd entry of JObj data \<Rightarrow> jget data ''summary'' | _ \<Rightarrow> JNull) of
        JObj summary \<Rightarrow>
          bind_result (opportunities summary) (\<lambda>n.
            if n = 0 then Inr g1
            else let g2 = g1\<lparr>gs_evaluated := Suc (gs_evaluated g1)\<rparr> in
              bind_result (percent_of summary path) (\<lambda>p.
                Inr (note_percent minimum path p g2)))
      | _ \<Rightarrow> Inl (RuntimeError (''Coverage entry for '' @ path @ '' is malformed.'')))"

fun check_files ::
  "number \<Rightarrow> string list \<Rightarrow> (string \<times> json) list \<Rightarrow> gate_state \<Rightarrow> gate_state result" where
  "check_files minimum waivers [] g = Inr g"
| "check_files minimum waivers (e # es) g =
     bind_result (check_file minimum waivers e g) (check_files minimum waivers es)"

definition threshold_error :: "(number \<Rightarrow> string) \<Rightarrow> number \<Rightarrow> string \<Rightarrow> number \<Rightarrow> string" where
  "threshold_error two minimum what p =
     what @ two p @ ''% is below the required '' @ two minimum @ ''% threshold.''"

definition report_lines ::
  "(number \<Rightarrow> string) \<Rightarrow> number \<Rightarrow> string list \<Rightarrow> number \<Rightarrow> gate_state \<Rightarrow> string list" where
  "report_lines two minimum waivers total_percent g =
     [''Coverage threshold: '' @ two minimum @ ''%'',
      ''Total measured coverage: '' @ two total_percent @ ''%'',
      ''Files evaluated by the per-file gate: '' @ show_nat (gs_evaluated g),
      ''Temporary per-file waivers: '' @ show_nat (length (filter (\<lambda>p. p \<in> set (gs_reported g)) waivers))]
     @ map (\<lambda>p. ''::warning file='' @ p @ ''::Coverage waiver is not present in the report.'')
         (sort (filter (\<lambda>p. p \<notin> set (gs_reported g)) waivers))
     @ (if falls_short total_percent minimum
        then [threshold_error two minimum ''::error::Total coverage '' total_percent]
        else [])
     @ map (\<lambda>(p, q). threshold_error two minimum (''::error file='' @ p @ ''::Coverage '') q) (gs_failures g)"

text \<open>The body of the \<open>try\<close>: the exit code and what was printed.\<close>

definition gate_run ::
  "(number \<Rightarrow> string) \<Rightarrow> jobj \<Rightarrow> number \<Rightarrow> string list \<Rightarrow> (int \<times> string list) result" where
  "gate_run two coverage minimum waivers =
     bind_result (as_table (jget coverage ''meta'')) (\<lambda>meta.
       if jget meta ''branch_coverage'' \<noteq> JBool True
       then Inl (RuntimeError ''Coverage data must be collected with branch coverage enabled.'')
       else case (jget coverage ''totals'', jget coverage ''files'') of
         (JObj totals, JObj files) \<Rightarrow>
           bind_result (percent_of totals ''TOTAL'') (\<lambda>total_percent.
           bind_result (check_files minimum waivers (sort_key fst files)
               \<lparr>gs_failures = [], gs_reported = [], gs_evaluated = 0\<rparr>) (\<lambda>g.
             let out = report_lines two minimum waivers total_percent g in
             if falls_short total_percent minimum \<or> gs_failures g \<noteq> [] then Inr (1, out)
             else Inr (0, out @ [''Total and per-file coverage thresholds passed.''])))
       | _ \<Rightarrow> Inl (RuntimeError ''Coverage JSON is missing totals or files.''))"

text \<open>How the process ends: an exit code with its output, or an exception that nothing catches.\<close>

datatype gate_end = Exits int "string list" | Uncaught exn

definition gate_main ::
  "(string \<Rightarrow> pyfloat) \<Rightarrow> (string \<Rightarrow> pyfloat option) \<Rightarrow> (string \<Rightarrow> string) \<Rightarrow> (number \<Rightarrow> string)
   \<Rightarrow> string \<Rightarrow> string reading \<Rightarrow> string \<Rightarrow> jobj reading \<Rightarrow> gate_end" where
  "gate_main fl ft syntax_error two json_path json_file policy_path policy_file =
     (case bind_result (load_json fl syntax_error json_path json_file) (\<lambda>coverage.
           bind_result (load_policy ft policy_path policy_file) (\<lambda>(minimum, waivers).
             gate_run two coverage minimum waivers)) of
        Inr (c, out) \<Rightarrow> Exits c out
      | Inl (RuntimeError m) \<Rightarrow> Exits 2 [''::error::'' @ m]
      | Inl e \<Rightarrow> Uncaught e)"

text \<open>The status the shell sees; the interpreter ends with 1 after a traceback.\<close>

fun exit_status :: "gate_end \<Rightarrow> int" where
  "exit_status (Exits c _) = c"
| "exit_status (Uncaught _) = 1"

section \<open>What the gate lets through\<close>

text \<open>An entry of the report as the policy asks for it, without the loop.\<close>

definition entry_passes :: "number \<Rightarrow> string list \<Rightarrow> string \<times> json \<Rightarrow> bool" where
  "entry_passes minimum waivers e \<longleftrightarrow> normal_path (fst e) \<in> set waivers \<or>
     (\<exists>data summary n. snd e = JObj data \<and> jget data ''summary'' = JObj summary \<and> opportunities summary = Inr n \<and>
        (n = 0 \<or> (\<exists>p. percent_of summary (normal_path (fst e)) = Inr p \<and> \<not> falls_short p minimum)))"

lemma noted_failures:
  "gs_failures (note_percent minimum path p g) = gs_failures g @ (if falls_short p minimum then [(path, p)] else [])"
  by (simp add: note_percent_def)

lemma check_file_failures:
  assumes "check_file minimum waivers e g = Inr g'"
  shows "gs_failures g' = gs_failures g \<longleftrightarrow> entry_passes minimum waivers e"
    and "\<exists>fs. gs_failures g' = gs_failures g @ fs"
  using assms
  by (auto simp: check_file_def entry_passes_def noted_failures Let_def bind_result_Inr_iff
      split: if_split_asm json.split_asm)

lemma check_files_failures:
  "check_files minimum waivers es g = Inr g' \<Longrightarrow>
     (\<exists>fs. gs_failures g' = gs_failures g @ fs) \<and>
     (gs_failures g' = gs_failures g \<longleftrightarrow> list_all (entry_passes minimum waivers) es)"
proof (induction es arbitrary: g)
  case (Cons e es)
  then obtain g1 where g1: "check_file minimum waivers e g = Inr g1" "check_files minimum waivers es g1 = Inr g'"
    by (auto simp: bind_result_Inr_iff)
  from check_file_failures [OF g1(1)] Cons.IH [OF g1(2)] show ?case by force
qed simp

text \<open>
  The gate opens exactly when the total and every entry that is neither waived nor empty reach the
  minimum, in whatever order the report lists them; it ends with 0 or 1 whenever it can read both.
\<close>

theorem gate_verdict:
  assumes "gate_run two coverage minimum waivers = Inr (c, out)"
  obtains totals files total_percent
  where "jget coverage ''totals'' = JObj totals" and "jget coverage ''files'' = JObj files"
    and "percent_of totals ''TOTAL'' = Inr total_percent" and "c = 0 \<or> c = 1"
    and "c = 0 \<longleftrightarrow> \<not> falls_short total_percent minimum \<and> (\<forall>e\<in>set files. entry_passes minimum waivers e)"
proof -
  from assms obtain totals files total_percent g where
    found: "jget coverage ''totals'' = JObj totals" "jget coverage ''files'' = JObj files"
      "percent_of totals ''TOTAL'' = Inr total_percent"
    and g: "check_files minimum waivers (sort_key fst files)
        \<lparr>gs_failures = [], gs_reported = [], gs_evaluated = 0\<rparr> = Inr g"
    and c: "c = (if falls_short total_percent minimum \<or> gs_failures g \<noteq> [] then 1 else 0)"
    by (auto simp: gate_run_def bind_result_Inr_iff Let_def split: if_splits json.splits prod.splits)
  from check_files_failures [OF g] have "gs_failures g = [] \<longleftrightarrow> (\<forall>e\<in>set files. entry_passes minimum waivers e)"
    by (simp add: list_all_iff)
  then show thesis by (intro that [OF found]) (auto simp: c)
qed

text \<open>A percentage that is not a number passes every threshold.\<close>

lemma nan_passes: "\<not> falls_short NotANumber minimum"
  by (cases minimum) auto

text \<open>Different files share a normal form, so the waiver of one is a waiver of the other.\<close>

lemma hidden_file_shares_waiver:
  "normal_path ''app/x.py'' = normal_path ''../app/x.py'' \<and> normal_path ''.app/x.py'' = normal_path ''app/x.py''"
  by (simp add: normal_path_def)

text \<open>A broken policy ends like coverage below the threshold, not like an unreadable file.\<close>

lemma broken_policy_looks_like_low_coverage:
  "load_json fl se jp jf = Inr coverage \<Longrightarrow>
     exit_status (gate_main fl ft se two jp jf pp (Got [(''tool'', JStr ''x'')])) = 1"
  by (simp add: gate_main_def load_policy_def jget_def)

end
