(* ===== verification/Spec2Isabelle.thy ===== *)
theory Spec2Isabelle
  imports GraphTermination RunEquiv DurableTurns Admission Api ModelServer Registry Diagnostics
    LegacyAgent Decomposition Artifacts Factory SharedClients Reports CoverageGate
begin

text \<open>
  A verification development of the chat service in \<open>src/app/\<close>: a request is given an identity
  (\<open>orchestration/run_identity.py\<close>), recorded and leased (\<open>state/run_repository.py\<close>), executed by
  a graph of agents (\<open>graph.py\<close>) that plans, researches with tools (\<open>mcp/\<close>, \<open>tools/\<close>), writes and
  verifies answers with model calls (\<open>agents/\<close>, \<open>llm/\<close>) under one budget
  (\<open>orchestration/execution_meter.py\<close>), and its outcome and turn are stored
  (\<open>orchestration/chat_runtime.py\<close>, \<open>state/\<close>).

  How the model corresponds to the code. A class with state is a record, a method a function on
  it; an exception is a value of \<open>exn\<close> and a fallible call returns \<open>exn + 'a\<close>. The graph and its
  services act on the \<open>world\<close> of the theory World (meter, clocks, what was sent, and functions
  for what servers answer, indexed by the number of the call); the request lifecycle acts on the
  \<open>progress\<close> of the theory Runtime, where other owners may change the repository before every
  call and every call may fail before or after it took effect. Servers, drivers, the checkpointer
  and pydantic's leaf coercions are parameters; the standard library is modelled where it is used.

  Theories and sources.
  \<^item> Prelude, Json, JsonText, Bytes, Regex, Calendar: exceptions, Python's strings, JSON values and
    their text, UTF-8, base64, SHA-256, HMAC, UUIDs, \<open>re\<close>, \<open>datetime\<close>.
  \<^item> Meter, World: \<open>orchestration/execution_meter.py\<close>, \<open>services/termination.py\<close>.
  \<^item> Config: \<open>settings.py\<close>. Schemas, Wire, Chat: \<open>schemas/\<close>.
  \<^item> Evidence, Grounding: \<open>services/evidence.py\<close>, \<open>claim_grounding.py\<close>, \<open>context_builder.py\<close>,
    \<open>answer_quality.py\<close>. Routing: \<open>services/routing.py\<close>, \<open>query_rewriter.py\<close>.
  \<^item> Inventory, Ollama: \<open>services/inventory.py\<close>, \<open>llm/\<close>. Mcp, McpClient: \<open>mcp/\<close>. Tools: \<open>tools/\<close>.
    Agents: \<open>agents/\<close>.
  \<^item> GraphState, Graph: \<open>graphs/\<close> and \<open>graph.py\<close>. GraphSafety, GraphInvariant and GraphTermination
    hold what is proved of whole runs: spending and tool calls, the invariant at each node, the
    bound on supersteps.
  \<^item> Runs, Leases, RunEquiv: \<open>state/run_repository.py\<close>, its contract as the locale \<open>lease_store\<close>
    with both repositories as interpretations, and the simulation between them.
  \<^item> Identity: \<open>orchestration/run_identity.py\<close>, \<open>schemas/run.py\<close>. Stores, Turns, DurableTurns:
    \<open>state/in_memory.py\<close>, \<open>postgres.py\<close>, \<open>redis.py\<close>, their contract as the locale \<open>turn_store\<close>
    with the three stores as interpretations.
  \<^item> Runtime, RuntimeSafety, RuntimeReplies: \<open>orchestration/chat_runtime.py\<close>; the lease discipline
    of a request as a property of its trace, and its answers, with the locale \<open>replay_store\<close> over
    both repositories.
  \<^item> Admission: \<open>llm/resource_manager.py\<close>, interleaved requests over two semaphores.
  \<^item> Lifecycle, LifecycleSafety: start, fallback and shutdown (\<open>state/runtime.py\<close>, the starts in
    \<open>graph.py\<close>, \<open>core/lifespan.py\<close>), with Hoare triples for the actions of Runtime and the
    accounting of open connections. Health: \<open>state/runtime.py\<close> and \<open>api/routes/health.py\<close>.
  \<^item> ModelServer: the remaining calls of \<open>llm/ollama.py\<close>. Registry: the process-local registry of
    \<open>orchestration/run_identity.py\<close>. Diagnostics: \<open>observability/\<close>, \<open>logging_config.py\<close> and the
    inventory payload of \<open>services/inventory.py\<close>.
  \<^item> Api: \<open>api/dependencies.py\<close>, \<open>exception_handlers.py\<close>, \<open>routes/chat.py\<close> and the event stream,
    with the decoder of its format.
  \<^item> LegacyAgent: \<open>ChatAgent.ainvoke\<close> and its event stream (\<open>graph.py\<close>), a request without run
    records: history, graph, stored turn and reported usage in one statement. Routes: the remaining
    routes of \<open>api/routes/\<close> and the table of \<open>api/router.py\<close>. Documentation: the request examples of
    \<open>schemas/chat.py\<close> and their cache in \<open>api/openapi.py\<close>. Artifacts: \<open>state/minio.py\<close>.
  \<^item> Decomposition, Formatting, SessionMemory: the services no module imports
    (\<open>services/decomposition.py\<close>, \<open>formatting.py\<close>, \<open>memory.py\<close>), what they keep within bounds and
    which of their operations can only raise.
  \<^item> SharedClients: the process-wide runtimes of \<open>llm/ollama.py\<close> and which clients share one. Reports:
    the health answers of the stores and the decoding of rows of \<open>app_runs\<close>. Factory: \<open>factory.py\<close>
    and the set-up in \<open>logging_config.py\<close>. CoverageGate: \<open>scripts/check_coverage_thresholds.py\<close>, the
    verdict of the release gate on a coverage report.
  Bounds and fuel. \<open>run_graph\<close> takes the number of supersteps as fuel: \<open>GraphTermination\<close> proves
  that \<open>4 r + 2 f + 8\<close> suffice for \<open>r\<close> verifier rounds and \<open>f\<close> final revisions, and without them the
  run reports \<open>OutOfSteps\<close>, as LangGraph's recursion limit does. The JSON scanner takes twice the
  length of its text as fuel; \<open>loads_dumps\<close> shows that every dumped value reads back with it.
  Clocks and times are integers in microseconds.

  Not modelled. Characters beyond code point 255 and non-ASCII letter case; where the code logs
  and counts (the log lines and the metrics registry themselves are); what happens inside a driver,
  a pool or a socket, of which only the outcome of each call occurs, as a parameter; the dispatch of
  HTTP requests, what the CORS middleware does with its options and the OpenAPI document, which FastAPI generates from
  declarations (the examples injected into it are modelled); LangGraph's own checkpointing, of which
  only the answers the runtime asks for occur, as parameters. The renewals of a lease
  are placed before the execution they accompany, which does not touch the repository.
\<close>

section \<open>From the graph to the answer\<close>

lemma fallback_says_stopped [simp]: "says_stopped (fallback_message reason)"
proof -
  have "fallback_message reason = [] @ ''Execution stopped safely before '' @
      (''a verified answer could be produced: '' @ reason @ ''.'')"
    by (simp add: fallback_message_def)
  then show ?thesis unfolding says_stopped_def by blast
qed

lemma fallback_nonempty [simp]: "fallback_message reason \<noteq> []"
  by (simp add: fallback_message_def)

lemma response_text:
  "cr_response (ex_response (build_response s svc E q i token inventory result)) =
     py_str (or_else (jget result ''response'') (JStr (fallback_message ''empty response'')))"
  by (simp add: build_response_def response_from_result_def Let_def)

lemma failure_response:
  "\<exists>reason. cr_response (ex_response (build_response s svc E q i token inventory (failure_of s' e))) = fallback_message reason"
proof -
  obtain reason code where "failure_of s' e = safe_failure_result s' reason code"
    by (cases e) (simp_all add: failure_of_def)
  then show ?thesis
    by (auto simp: response_text safe_failure_result_def jget_def or_else_def)
qed

lemma state_response:
  "cr_response (ex_response (build_response s svc E q i token inventory (state_result rest g))) =
     (if g_response g = [] then fallback_message ''empty response'' else g_response g)"
  by (simp add: response_text state_result_def jget_def or_else_def)

lemma executed_result:
  assumes "execute_run s svc E q i w = (Inr ex, w')" and "sr_graph E = (\<lambda>_. graph_reply rest out)"
  shows "\<exists>token inventory result. ex = build_response s svc E q i token inventory result \<and>
     ((\<exists>n g. out = Finished n g \<and> result = state_result rest g) \<or> (\<exists>e. result = failure_of s e))"
proof -
  have inv: "(\<exists>n g. out = Finished n g \<and> result = state_result rest g) \<or> (\<exists>e. result = failure_of s e)"
    if "invoke_graph_safely s E w1 = (Inr result, w2)" for result w1 w2
    using that assms(2)
    by (cases out) (auto simp: invoke_graph_safely_def except_with_def and_then_def tell_def ask_def done_with_def
        raise_exn_def graph_reply_def split: if_splits)
  show ?thesis
    using assms(1) inv unfolding execute_run_def and_then_def
    by (auto simp: done_with_def split: prod.splits sum.splits) metis
qed



end
